(* ===== verification/Prelude.thy ===== *)
theory Prelude
  imports Main "HOL-Library.Word" "HOL-Library.Char_ord" "HOL-Library.List_Lexorder"
    "HOL-Library.Sublist"
begin

text \<open>
  The vocabulary every component theory shares.  Rust strings are \<open>string\<close>s, read as the
  list of their UTF-8 bytes (a \<open>char\<close> of HOL is an 8-bit value), so that \<open>len()\<close> is
  \<open>length\<close> and \<open>bytes()\<close> is the list itself.  Fallible functions return
  \<open>'e + 'a\<close>, the error on the left.  The theory holds the parts of the Rust standard library
  the program calls on strings and integers (\<open>split\<close>, \<open>split_once\<close>, \<open>lines\<close>,
  \<open>trim\<close>, \<open>parse::<uN>\<close>, \<open>Display\<close> of integers), with the lemmas on them.
\<close>

named_theorems str_simps \<open>evaluation of the string functions\<close>
named_theorems wf_intros \<open>introduction rules of the well-formedness predicates\<close>

section \<open>Results\<close>

abbreviation Err :: "'e \<Rightarrow> 'e + 'a" where "Err \<equiv> Inl"
abbreviation Ok :: "'a \<Rightarrow> 'e + 'a" where "Ok \<equiv> Inr"

definition rbind :: "'e + 'a \<Rightarrow> ('a \<Rightarrow> 'e + 'b) \<Rightarrow> 'e + 'b" where
  "rbind r f = (case r of Inl e \<Rightarrow> Inl e | Inr x \<Rightarrow> f x)"

definition map_err :: "('e \<Rightarrow> 'f) \<Rightarrow> 'e + 'a \<Rightarrow> 'f + 'a" where
  "map_err f r = (case r of Inl e \<Rightarrow> Inl (f e) | Inr x \<Rightarrow> Inr x)"

definition ok_or :: "'e \<Rightarrow> 'a option \<Rightarrow> 'e + 'a" where
  "ok_or e r = (case r of None \<Rightarrow> Inl e | Some x \<Rightarrow> Inr x)"

definition ensure :: "bool \<Rightarrow> 'e \<Rightarrow> 'e + unit" where
  "ensure b e = (if b then Inr () else Inl e)"

definition is_ok :: "'e + 'a \<Rightarrow> bool" where
  "is_ok r = (case r of Inl _ \<Rightarrow> False | Inr _ \<Rightarrow> True)"

lemma rbind_simps [simp]:
  "rbind (Inl e) f = Inl e" "rbind (Inr x) f = f x"
  by (simp_all add: rbind_def)

lemma map_err_simps [simp]:
  "map_err f (Inl e) = Inl (f e)" "map_err f (Inr x) = Inr x"
  by (simp_all add: map_err_def)

lemma ok_or_simps [simp]:
  "ok_or e None = Inl e" "ok_or e (Some x) = Inr x"
  by (simp_all add: ok_or_def)

lemma ensure_simps [simp]:
  "ensure True e = Inr ()" "ensure False e = Inl e"
  by (simp_all add: ensure_def)

lemma is_ok_simps [simp]:
  "\<not> is_ok (Inl e)" "is_ok (Inr x)"
  by (simp_all add: is_ok_def)

lemma rbind_eq_Inr [simp]: "rbind r f = Inr y \<longleftrightarrow> (\<exists>x. r = Inr x \<and> f x = Inr y)"
  by (cases r) auto

lemma ensure_eq_Inr [simp]: "ensure b e = Inr u \<longleftrightarrow> b"
  by (cases b) auto

lemma ok_or_eq_Inr [simp]: "ok_or e r = Inr x \<longleftrightarrow> r = Some x"
  by (cases r) auto

lemma map_err_eq_Inr [simp]: "map_err f r = Inr x \<longleftrightarrow> r = Inr x"
  by (cases r) auto

lemma is_ok_iff: "is_ok r \<longleftrightarrow> (\<exists>x. r = Inr x)"
  by (cases r) auto

section \<open>Characters\<close>

definition is_ascii_digit :: "char \<Rightarrow> bool" where
  "is_ascii_digit c \<longleftrightarrow> CHR ''0'' \<le> c \<and> c \<le> CHR ''9''"

definition is_ascii_lower :: "char \<Rightarrow> bool" where
  "is_ascii_lower c \<longleftrightarrow> CHR ''a'' \<le> c \<and> c \<le> CHR ''z''"

definition is_ascii_upper :: "char \<Rightarrow> bool" where
  "is_ascii_upper c \<longleftrightarrow> CHR ''A'' \<le> c \<and> c \<le> CHR ''Z''"

definition is_ascii_alnum :: "char \<Rightarrow> bool" where
  "is_ascii_alnum c \<longleftrightarrow> is_ascii_digit c \<or> is_ascii_lower c \<or> is_ascii_upper c"

definition to_ascii_lower :: "char \<Rightarrow> char" where
  "to_ascii_lower c = (if is_ascii_upper c then char_of (of_char c + 32 :: nat) else c)"

definition nl :: char where "nl = CHR 0x0A"
definition cr :: char where "cr = CHR 0x0D"

lemmas char_class_defs = is_ascii_digit_def is_ascii_lower_def is_ascii_upper_def
  is_ascii_alnum_def less_eq_char_def

section \<open>Splitting and joining\<close>

fun split_on :: "char \<Rightarrow> string \<Rightarrow> string list" where
  "split_on c [] = [[]]"
| "split_on c (x # xs) =
     (if x = c then [] # split_on c xs
      else (case split_on c xs of [] \<Rightarrow> [[x]] | w # ws \<Rightarrow> (x # w) # ws))"

fun split_once :: "char \<Rightarrow> string \<Rightarrow> (string \<times> string) option" where
  "split_once c [] = None"
| "split_once c (x # xs) =
     (if x = c then Some ([], xs)
      else (case split_once c xs of None \<Rightarrow> None | Some (a, b) \<Rightarrow> Some (x # a, b)))"

fun join_with :: "string \<Rightarrow> string list \<Rightarrow> string" where
  "join_with s [] = []"
| "join_with s [w] = w"
| "join_with s (w # v # ws) = w @ s @ join_with s (v # ws)"

lemma split_on_nonempty [simp]: "split_on c s \<noteq> []"
  by (cases "(c, s)" rule: split_on.cases) (auto split: list.splits)

lemma split_on_no_sep: "c \<notin> set s \<Longrightarrow> split_on c s = [s]"
  by (induction s) auto

lemma split_on_append_sep:
  "c \<notin> set w \<Longrightarrow> split_on c (w @ c # s) = w # split_on c s"
  by (induction w) auto

lemma split_on_join:
  "ws \<noteq> [] \<Longrightarrow> \<forall>w \<in> set ws. c \<notin> set w \<Longrightarrow> split_on c (join_with [c] ws) = ws"
  by (induction "[c]" ws rule: join_with.induct) (auto simp: split_on_no_sep split_on_append_sep)

lemma join_split_on [simp]: "join_with [c] (split_on c s) = s"
proof (induction s)
  case (Cons x s)
  obtain w ws where e: "split_on c s = w # ws"
    using split_on_nonempty by (meson neq_Nil_conv)
  show ?case using Cons e by (cases ws) auto
qed simp

lemma split_on_parts: "w \<in> set (split_on c s) \<Longrightarrow> c \<notin> set w"
proof (induction s arbitrary: w)
  case (Cons x s)
  obtain v vs where e: "split_on c s = v # vs"
    using split_on_nonempty by (meson neq_Nil_conv)
  show ?case using Cons e by (auto split: if_splits)
qed simp

lemma split_once_append:
  "c \<notin> set a \<Longrightarrow> split_once c (a @ c # b) = Some (a, b)"
  by (induction a) auto

lemma split_once_Some:
  "split_once c s = Some (a, b) \<Longrightarrow> s = a @ c # b \<and> c \<notin> set a"
  by (induction s arbitrary: a) (auto split: if_splits option.splits)

lemma split_once_None: "split_once c s = None \<longleftrightarrow> c \<notin> set s"
  by (induction s) (auto split: option.splits)

lemma split_on_append:
  "split_on c (s @ t) = butlast (split_on c s) @ split_on c (last (split_on c s) @ t)"
proof (induction s)
  case (Cons x s)
  obtain w ws where e: "split_on c s = w # ws"
    using split_on_nonempty by (meson neq_Nil_conv)
  obtain v vs where f: "split_on c (s @ t) = v # vs"
    using split_on_nonempty by (meson neq_Nil_conv)
  show ?case using Cons e f by (cases ws) auto
qed simp

lemma split_on_last_no_sep: "c \<notin> set (last (split_on c s))"
  by (rule split_on_parts [OF last_in_set [OF split_on_nonempty]])

text \<open>\<open>str::lines\<close>: split after each newline, without it and without a carriage return
  before it; a final newline opens no further line.\<close>

fun strip_cr :: "string \<Rightarrow> string" where
  "strip_cr s = (if s \<noteq> [] \<and> last s = cr then butlast s else s)"

definition str_lines :: "string \<Rightarrow> string list" where
  "str_lines s =
     (let ws = split_on nl s
      in map strip_cr (butlast ws) @ (if last ws = [] then [] else [last ws]))"

section \<open>Trimming\<close>

text \<open>\<open>str::trim\<close> removes the characters with the Unicode property White_Space, which in
  UTF-8 are one byte (09..0D, 20), two bytes (C2 85, C2 A0) or three (E1 9A 80, E2 80 80..8A,
  E2 80 A8, E2 80 A9, E2 80 AF, E2 81 9F, E3 80 80).\<close>

definition is_ws1 :: "char \<Rightarrow> bool" where
  "is_ws1 c \<longleftrightarrow> (CHR 0x09 \<le> c \<and> c \<le> CHR 0x0D) \<or> c = CHR '' ''"

definition is_ws2 :: "char \<Rightarrow> char \<Rightarrow> bool" where
  "is_ws2 a b \<longleftrightarrow> a = CHR 0xC2 \<and> (b = CHR 0x85 \<or> b = CHR 0xA0)"

definition is_ws3 :: "char \<Rightarrow> char \<Rightarrow> char \<Rightarrow> bool" where
  "is_ws3 a b c \<longleftrightarrow>
     (a = CHR 0xE1 \<and> b = CHR 0x9A \<and> c = CHR 0x80) \<or>
     (a = CHR 0xE2 \<and> b = CHR 0x80 \<and>
        ((CHR 0x80 \<le> c \<and> c \<le> CHR 0x8A) \<or> c = CHR 0xA8 \<or> c = CHR 0xA9 \<or> c = CHR 0xAF)) \<or>
     (a = CHR 0xE2 \<and> b = CHR 0x81 \<and> c = CHR 0x9F) \<or>
     (a = CHR 0xE3 \<and> b = CHR 0x80 \<and> c = CHR 0x80)"

fun trim_start :: "string \<Rightarrow> string" where
  "trim_start (a # b # c # s) =
     (if is_ws1 a then trim_start (b # c # s)
      else if is_ws2 a b then trim_start (c # s)
      else if is_ws3 a b c then trim_start s
      else a # b # c # s)"
| "trim_start [a, b] =
     (if is_ws1 a then trim_start [b] else if is_ws2 a b then [] else [a, b])"
| "trim_start [a] = (if is_ws1 a then [] else [a])"
| "trim_start [] = []"

fun trim_end_rev :: "string \<Rightarrow> string" where
  "trim_end_rev (a # b # c # s) =
     (if is_ws1 a then trim_end_rev (b # c # s)
      else if is_ws2 b a then trim_end_rev (c # s)
      else if is_ws3 c b a then trim_end_rev s
      else a # b # c # s)"
| "trim_end_rev [a, b] =
     (if is_ws1 a then trim_end_rev [b] else if is_ws2 b a then [] else [a, b])"
| "trim_end_rev [a] = (if is_ws1 a then [] else [a])"
| "trim_end_rev [] = []"

definition trim_end :: "string \<Rightarrow> string" where
  "trim_end s = rev (trim_end_rev (rev s))"

definition str_trim :: "string \<Rightarrow> string" where
  "str_trim s = trim_end (trim_start s)"

lemma trim_start_suffix: "suffix (trim_start s) s"
  by (induction s rule: trim_start.induct) (auto intro: suffix_ConsI)

lemma trim_end_prefix: "prefix (trim_end s) s"
proof -
  have "suffix (trim_end_rev r) r" for r
    by (induction r rule: trim_end_rev.induct) (auto intro: suffix_ConsI)
  from this [of "rev s"] show ?thesis
    by (simp add: trim_end_def suffix_to_prefix)
qed

lemma str_trim_set: "set (str_trim s) \<subseteq> set s"
  using trim_start_suffix [of s] trim_end_prefix [of "trim_start s"]
  by (auto simp: str_trim_def dest: set_mono_prefix set_mono_suffix)

lemma str_trim_Nil [simp]: "str_trim [] = []"
  by (simp add: str_trim_def trim_end_def)

section \<open>Substrings\<close>

fun starts_with :: "string \<Rightarrow> string \<Rightarrow> bool" where
  "starts_with [] s = True"
| "starts_with (p # ps) [] = False"
| "starts_with (p # ps) (x # xs) = (p = x \<and> starts_with ps xs)"

definition strip_prefix :: "string \<Rightarrow> string \<Rightarrow> string option" where
  "strip_prefix p s = (if starts_with p s then Some (drop (length p) s) else None)"

definition ends_with :: "string \<Rightarrow> string \<Rightarrow> bool" where
  "ends_with p s = starts_with (rev p) (rev s)"

fun has_sub :: "string \<Rightarrow> string \<Rightarrow> bool" where
  "has_sub p [] = (p = [])"
| "has_sub p (x # xs) = (starts_with p (x # xs) \<or> has_sub p xs)"

lemma starts_with_iff: "starts_with p s \<longleftrightarrow> prefix p s"
  by (induction p s rule: starts_with.induct) auto

lemma starts_with_append [simp]: "starts_with p (p @ s)"
  by (simp add: starts_with_iff)

lemma strip_prefix_Some [simp]: "strip_prefix p s = Some r \<longleftrightarrow> s = p @ r"
  by (auto simp: strip_prefix_def starts_with_iff prefix_def)

lemma ends_with_iff: "ends_with p s \<longleftrightarrow> suffix p s"
  by (simp add: ends_with_def starts_with_iff suffix_to_prefix)

lemma has_sub_iff: "has_sub p s \<longleftrightarrow> sublist p s"
  by (induction s) (auto simp: starts_with_iff sublist_Cons_right)

section \<open>Integers as text\<close>

definition dec_digit :: "nat \<Rightarrow> char" where
  "dec_digit n = char_of (48 + n)"

fun dec :: "nat \<Rightarrow> string" where
  "dec n = (if n < 10 then [dec_digit n] else dec (n div 10) @ [dec_digit (n mod 10)])"

declare dec.simps [simp del]

definition digit_val :: "char \<Rightarrow> nat" where
  "digit_val c = of_char c - 48"

definition dec_val :: "string \<Rightarrow> nat" where
  "dec_val s = foldl (\<lambda>v c. 10 * v + digit_val c) 0 s"

text \<open>\<open>str::parse\<close> of an unsigned type with the given maximum: an optional plus sign, one
  digit or more, \<open>Err\<close> on overflow.\<close>

definition parse_uint :: "nat \<Rightarrow> string \<Rightarrow> nat option" where
  "parse_uint m s =
     (let d = (if s \<noteq> [] \<and> hd s = CHR ''+'' then tl s else s)
      in if d = [] \<or> \<not> list_all is_ascii_digit d then None
         else if dec_val d \<le> m then Some (dec_val d) else None)"

lemma dec_digit_simps:
  assumes "n < 10"
  shows is_ascii_digit_dec_digit: "is_ascii_digit (dec_digit n)"
    and digit_val_dec_digit: "digit_val (dec_digit n) = n"
  using assms
  by (simp_all add: char_class_defs dec_digit_def digit_val_def of_char_of)

lemma dec_digits: "list_all is_ascii_digit (dec n)"
proof (induction n rule: dec.induct)
  case (1 n)
  then show ?case
    by (subst dec.simps) (simp add: is_ascii_digit_dec_digit)
qed

lemma dec_nonempty [simp]: "dec n \<noteq> []"
  by (subst dec.simps) simp

lemma dec_val_snoc: "dec_val (s @ [c]) = 10 * dec_val s + digit_val c"
  by (simp add: dec_val_def)

lemma dec_val_dec [simp]: "dec_val (dec n) = n"
proof (induction n rule: dec.induct)
  case (1 n)
  show ?case
  proof (cases "n < 10")
    case True
    then show ?thesis
      by (subst dec.simps) (simp add: dec_val_def digit_val_dec_digit)
  next
    case False
    then show ?thesis using 1
      by (subst dec.simps) (simp add: dec_val_snoc digit_val_dec_digit)
  qed
qed

lemma is_ascii_digit_not_plus: "is_ascii_digit c \<Longrightarrow> c \<noteq> CHR ''+''"
  by (auto simp: char_class_defs)

lemma parse_uint_dec [simp]: "n \<le> m \<Longrightarrow> parse_uint m (dec n) = Some n"
proof -
  have "hd (dec n) \<noteq> CHR ''+''"
    using dec_digits [of n] is_ascii_digit_not_plus by (cases "dec n") auto
  then show "n \<le> m \<Longrightarrow> parse_uint m (dec n) = Some n"
    by (simp add: parse_uint_def dec_digits Let_def)
qed

lemma parse_uint_le: "parse_uint m s = Some n \<Longrightarrow> n \<le> m"
  by (auto simp: parse_uint_def Let_def split: if_splits)

lemma dec_inject [simp]: "dec m = dec n \<longleftrightarrow> m = n"
  by (metis dec_val_dec)

lemma dec_no_char: "\<not> is_ascii_digit c \<Longrightarrow> c \<notin> set (dec n)"
  using dec_digits [of n] by (auto simp: list_all_iff)

lemma length_dec_le:
  assumes "n < 10 ^ k" "0 < k" shows "length (dec n) \<le> k"
  using assms
proof (induction k arbitrary: n)
  case (Suc k)
  show ?case
  proof (cases "n < 10")
    case True
    then show ?thesis by (subst dec.simps) simp
  next
    case False
    then have k: "0 < k" using Suc.prems by (cases k) auto
    have "n div 10 < 10 ^ k" using Suc.prems by (simp add: less_mult_imp_div_less mult.commute)
    then have "length (dec (n div 10)) \<le> k" using Suc.IH k by blast
    then show ?thesis using False by (subst dec.simps) simp
  qed
qed simp

section \<open>Lists\<close>

text \<open>The last \<open>n\<close> elements: what a buffer bounded at \<open>n\<close> keeps.\<close>

definition take_last :: "nat \<Rightarrow> 'a list \<Rightarrow> 'a list" where
  "take_last n xs = drop (length xs - n) xs"

lemma length_take_last [simp]: "length (take_last n xs) = min n (length xs)"
  by (simp add: take_last_def)

lemma take_last_all [simp]: "length xs \<le> n \<Longrightarrow> take_last n xs = xs"
  by (simp add: take_last_def)

lemma take_last_append_one:
  "take_last n (take_last n xs @ [x]) = take_last n (xs @ [x])"
  by (cases "length xs \<le> n") (auto simp: take_last_def Suc_diff_le)

lemma take_last_suffix: "suffix (take_last n xs) xs"
  by (simp add: take_last_def suffix_drop)

lemma take_last_append: "take_last n (take_last n xs @ ys) = take_last n (xs @ ys)"
  by (cases "length xs \<le> n") (auto simp: take_last_def add.commute)

section \<open>Ordered maps\<close>

text \<open>\<open>BTreeMap::insert\<close> on the list of entries in key order.\<close>

fun btree_insert :: "'k::linorder \<Rightarrow> 'v \<Rightarrow> ('k \<times> 'v) list \<Rightarrow> ('k \<times> 'v) list" where
  "btree_insert k v [] = [(k, v)]"
| "btree_insert k v ((k', v') # m) =
     (if k < k' then (k, v) # (k', v') # m
      else if k = k' then (k, v) # m
      else (k', v') # btree_insert k v m)"

lemma keys_btree_insert: "set (map fst (btree_insert k v m)) = insert k (set (map fst m))"
  by (induction k v m rule: btree_insert.induct) auto

lemma btree_insert_sorted:
  "sorted_wrt (<) (map fst m) \<Longrightarrow> sorted_wrt (<) (map fst (btree_insert k v m))"
proof (induction k v m rule: btree_insert.induct)
  case (2 k v k' v' m)
  then show ?case
    using keys_btree_insert [of k v m] by (auto simp: not_less_iff_gr_or_eq)
qed simp

lemma map_of_btree_insert:
  "sorted_wrt (<) (map fst m) \<Longrightarrow> map_of (btree_insert k v m) = (map_of m)(k \<mapsto> v)"
  by (induction k v m rule: btree_insert.induct) (auto simp: fun_eq_iff map_of_eq_None_iff)

end
