(* ===== verification/StoreLaws.thy ===== *)
theory StoreLaws
  imports Prelude
begin

text \<open>
  The interface of a store of named entries: what the kubeconfig lists (clusters, users, contexts)
  and the directory of cluster records both promise their clients.  \<open>keyed_store\<close> has lookup,
  upsert and removal; \<open>listed_store\<close> adds the listing of the names.  The generic list
  implementation \<open>named_put\<close> is the upsert of \<open>kubeconfig.rs\<close> (\<open>merge\<close>).
\<close>

locale keyed_store =
  fixes get :: "'s \<Rightarrow> string \<Rightarrow> 'v option"
    and put :: "'v \<Rightarrow> 's \<Rightarrow> 's"
    and del :: "string \<Rightarrow> 's \<Rightarrow> 's"
    and key :: "'v \<Rightarrow> string"
    and ok :: "'s \<Rightarrow> bool"
    and fits :: "'v \<Rightarrow> bool"
  assumes ok_put: "ok s \<Longrightarrow> fits v \<Longrightarrow> ok (put v s)"
    and ok_del: "ok s \<Longrightarrow> ok (del k s)"
    and get_put: "ok s \<Longrightarrow> fits v \<Longrightarrow> get (put v s) k = (if k = key v then Some v else get s k)"
    and get_del: "ok s \<Longrightarrow> get (del k s) k' = (if k' = k then None else get s k')"
begin

lemma get_put_same: "ok s \<Longrightarrow> fits v \<Longrightarrow> get (put v s) (key v) = Some v"
  by (simp add: get_put)

lemma put_twice: "ok s \<Longrightarrow> fits v \<Longrightarrow> get (put v (put v s)) k = get (put v s) k"
  by (simp add: get_put ok_put)

lemma put_last_wins:
  "ok s \<Longrightarrow> fits u \<Longrightarrow> fits v \<Longrightarrow> key u = key v \<Longrightarrow> get (put v (put u s)) k = get (put v s) k"
  by (simp add: get_put ok_put)

lemma del_put: "ok s \<Longrightarrow> fits v \<Longrightarrow> get (del (key v) (put v s)) k = get (del (key v) s) k"
  by (simp add: get_put get_del ok_put)

lemma put_fold_ok: "ok s \<Longrightarrow> list_all fits vs \<Longrightarrow> ok (fold put vs s)"
  by (induction vs arbitrary: s) (auto simp: ok_put)

lemma get_fold_other:
  "ok s \<Longrightarrow> list_all fits vs \<Longrightarrow> k \<notin> key ` set vs \<Longrightarrow> get (fold put vs s) k = get s k"
  by (induction vs arbitrary: s) (auto simp: get_put ok_put)

end

locale listed_store = keyed_store +
  fixes names :: "'s \<Rightarrow> string list"
  assumes names_get: "ok s \<Longrightarrow> k \<in> set (names s) \<longleftrightarrow> get s k \<noteq> None"
begin

lemma names_put: "ok s \<Longrightarrow> fits v \<Longrightarrow> set (names (put v s)) = insert (key v) (set (names s))"
  by (auto simp: names_get ok_put get_put split: if_splits)

lemma names_del: "ok s \<Longrightarrow> set (names (del k s)) = set (names s) - {k}"
  by (auto simp: names_get ok_del get_del split: if_splits)

end

section \<open>Lists of named entries\<close>

definition named_get :: "('a \<Rightarrow> string) \<Rightarrow> 'a list \<Rightarrow> string \<Rightarrow> 'a option" where
  "named_get nm l k = find (\<lambda>e. nm e = k) l"

definition named_upsert :: "('a \<Rightarrow> string) \<Rightarrow> 'a list \<Rightarrow> 'a list \<Rightarrow> 'a list" where
  "named_upsert nm l incoming = filter (\<lambda>e. nm e \<notin> set (map nm incoming)) l @ incoming"

definition named_put :: "('a \<Rightarrow> string) \<Rightarrow> 'a \<Rightarrow> 'a list \<Rightarrow> 'a list" where
  "named_put nm e l = named_upsert nm l [e]"

definition named_del :: "('a \<Rightarrow> string) \<Rightarrow> string \<Rightarrow> 'a list \<Rightarrow> 'a list" where
  "named_del nm k l = filter (\<lambda>e. nm e \<noteq> k) l"

definition named_ok :: "('a \<Rightarrow> string) \<Rightarrow> 'a list \<Rightarrow> bool" where
  "named_ok nm l \<longleftrightarrow> distinct (map nm l)"

lemma find_append: "find P (xs @ ys) = (case find P xs of None \<Rightarrow> find P ys | r \<Rightarrow> r)"
  by (induction xs) auto

lemma find_filter_other: "(\<And>x. P x \<Longrightarrow> Q x) \<Longrightarrow> find P (filter Q xs) = find P xs"
  by (induction xs) auto

lemma find_filter_none: "(\<And>x. P x \<Longrightarrow> \<not> Q x) \<Longrightarrow> find P (filter Q xs) = None"
  by (induction xs) auto

lemma named_get_upsert:
  "named_get nm (named_upsert nm l incoming) k =
     (if k \<in> set (map nm incoming) then named_get nm incoming k else named_get nm l k)"
proof (cases "k \<in> set (map nm incoming)")
  case True
  then have "find (\<lambda>e. nm e = k) (filter (\<lambda>e. nm e \<notin> set (map nm incoming)) l) = None"
    by (intro find_filter_none) auto
  then show ?thesis using True by (simp add: named_get_def named_upsert_def find_append)
next
  case False
  then have "find (\<lambda>e. nm e = k) (filter (\<lambda>e. nm e \<notin> set (map nm incoming)) l)
      = find (\<lambda>e. nm e = k) l"
    by (intro find_filter_other) auto
  moreover have "find (\<lambda>e. nm e = k) incoming = None"
    using False by (auto simp: find_None_iff)
  ultimately show ?thesis using False
    by (auto simp: named_get_def named_upsert_def find_append split: option.splits)
qed

lemma named_get_del: "named_get nm (named_del nm k l) k' = (if k' = k then None else named_get nm l k')"
  by (auto simp: named_get_def named_del_def find_filter_other find_filter_none)

lemma named_ok_upsert: "named_ok nm l \<Longrightarrow> named_ok nm incoming \<Longrightarrow> named_ok nm (named_upsert nm l incoming)"
  by (auto simp: named_ok_def named_upsert_def distinct_map_filter)

lemma named_ok_del: "named_ok nm l \<Longrightarrow> named_ok nm (named_del nm k l)"
  by (simp add: named_ok_def named_del_def distinct_map_filter)

lemma named_upsert_twice: "named_upsert nm (named_upsert nm l inc) inc = named_upsert nm l inc"
  by (auto simp: named_upsert_def filter_empty_conv)

lemma named_names: "k \<in> set (map nm l) \<longleftrightarrow> named_get nm l k \<noteq> None"
  by (auto simp: named_get_def find_None_iff)

lemma named_store: "listed_store (named_get nm) (named_put nm) (named_del nm) nm (named_ok nm) (\<lambda>_. True) (map nm)"
proof (unfold_locales, goal_cases)
  case (1 s v)
  have "named_ok nm [v]" by (simp add: named_ok_def)
  with 1 show ?case by (simp add: named_put_def named_ok_upsert)
next
  case (3 s v k)
  show ?case
    unfolding named_put_def named_get_upsert by (simp add: named_get_def)
qed (simp_all add: named_ok_del named_get_del named_names del: set_map)

end
