(* ===== verification/ErrorModel.thy ===== *)
theory ErrorModel
  imports Prelude
begin

text \<open>
  The error taxonomy of \<open>kindboard-core/src/error.rs\<close>: one datatype per subsystem, nested in
  \<open>core_error\<close>, with the \<open>Display\<close> texts.  The text of \<open>InvalidSpec\<close> is kept structured
  (one constructor of \<open>spec_violation\<close> per message of \<open>spec/mod.rs\<close>), so that a theorem can
  say which check failed.  Foreign errors (kube, serde) are carried as their displayed
  text, \<open>io::Error\<close> as its kind and text; how Rust prints a string or a duration with \<open>{:?}\<close> is the parameter
  \<open>fmt_env\<close>.
\<close>

datatype io_kind = NotFound | AlreadyExists | OtherKind

datatype io_error = IoError io_kind string

fun io_kind_of :: "io_error \<Rightarrow> io_kind" where "io_kind_of (IoError k _) = k"

fun io_text :: "io_error \<Rightarrow> string" where "io_text (IoError _ t) = t"

record fmt_env =
  dbg_str :: "string \<Rightarrow> string"
  dbg_dur :: "nat \<Rightarrow> string"

datatype exec_error =
    ExecCommand string "int option" string
  | ExecTimeout string nat
  | ExecCancelled string
  | ExecSpawn string io_error
  | ExecOutput string io_error

datatype kind_error =
    ParseOutput string string
  | UnexpectedOutput string string string

datatype deps_error =
    DepNotFound string
  | UnparseableVersion string string
  | DetectFailed string string
  | NoInstallRecipe string string
  | InstallFailed string string string
  | DepChecksumMismatch string string string

datatype kubeconfig_error =
    KubeErr string
  | YamlErr string
  | KubeIo io_error
  | InvalidServer string string
  | ContextNotFound string

datatype k8s_error =
    K8sKube string
  | K8sClient string
  | K8sContext string string

datatype state_error =
    StateIo io_error
  | StateJson string
  | InvalidRecord string string
  | InvalidName string string

datatype spec_violation =
    BadK8sVersion string
  | CiliumWithoutCni
  | ClusterIdRange nat
  | MeshNeedsName
  | CiliumIngressNeedsCilium
  | TooManyWorkers nat
  | HostPortZero
  | ContainerPortZero
  | DuplicateHostPort nat
  | BadListenAddress string
  | IngressPorts bool bool bool
  | BadPodCidr string
  | BadServiceCidr string
  | CidrOverlap string string
  | NameEmpty
  | NameTooLong string
  | NameBadStart string
  | NameBadChar string
  | NameBadEnd string

datatype core_error =
    Config string
  | Exec exec_error
  | Kind kind_error
  | Deps deps_error
  | Kubeconfig kubeconfig_error
  | Provision provision_error
  | K8s k8s_error
  | State state_error
  | Io string io_error
  | InvalidSpec spec_violation
  | ClusterExists string
  | ClusterNotFound string
  | Drift string string
and provision_error =
    StepFailed string core_error
  | VerifyFailed string string
  | InvalidPlan string
  | ProvChecksumMismatch string string

section \<open>Display\<close>

definition dec_int :: "int \<Rightarrow> string" where
  "dec_int n = (if n < 0 then ''-'' @ dec (nat (- n)) else dec (nat n))"

definition exit_code_text :: "int option \<Rightarrow> string" where
  "exit_code_text code = (case code of Some c \<Rightarrow> ''code '' @ dec_int c | None \<Rightarrow> ''a signal'')"

definition bool_text :: "bool \<Rightarrow> string" where
  "bool_text b = (if b then ''true'' else ''false'')"

fun exec_error_text :: "fmt_env \<Rightarrow> exec_error \<Rightarrow> string" where
  "exec_error_text f (ExecCommand prog code tail) =
     ''subprocess `'' @ prog @ ''` exited with '' @ exit_code_text code @ '': '' @ tail"
| "exec_error_text f (ExecTimeout prog elapsed) =
     ''command timed out after '' @ dbg_dur f elapsed @ '': '' @ prog"
| "exec_error_text f (ExecCancelled prog) = ''command cancelled: '' @ prog"
| "exec_error_text f (ExecSpawn prog src) = ''failed to spawn `'' @ prog @ ''`: '' @ io_text src"
| "exec_error_text f (ExecOutput prog src) = ''failed to read output of `'' @ prog @ ''`: '' @ io_text src"

fun kind_error_text :: "fmt_env \<Rightarrow> kind_error \<Rightarrow> string" where
  "kind_error_text f (ParseOutput c d) = ''failed to parse output of `'' @ c @ ''`: '' @ d"
| "kind_error_text f (UnexpectedOutput c l d) =
     ''unexpected '' @ c @ '' output line '' @ dbg_str f l @ '': '' @ d"

fun deps_error_text :: "deps_error \<Rightarrow> string" where
  "deps_error_text (DepNotFound t) = ''dependency `'' @ t @ ''` not found on PATH''"
| "deps_error_text (UnparseableVersion t out) =
     ''could not parse version of `'' @ t @ ''` from: '' @ out"
| "deps_error_text (DetectFailed t r) = ''detection failed for `'' @ t @ ''`: '' @ r"
| "deps_error_text (NoInstallRecipe t r) =
     ''no install recipe for `'' @ t @ ''` on this platform: '' @ r"
| "deps_error_text (InstallFailed t st r) =
     ''install step `'' @ st @ ''` failed for `'' @ t @ ''`: '' @ r"
| "deps_error_text (DepChecksumMismatch t p sha) =
     ''SHA-256 verification failed for `'' @ t @ ''` download '' @ p @ '': expected '' @ sha"

fun kubeconfig_error_text :: "kubeconfig_error \<Rightarrow> string" where
  "kubeconfig_error_text (KubeErr e) = e"
| "kubeconfig_error_text (YamlErr e) = e"
| "kubeconfig_error_text (KubeIo e) = io_text e"
| "kubeconfig_error_text (InvalidServer u r) = ''invalid server url `'' @ u @ ''`: '' @ r"
| "kubeconfig_error_text (ContextNotFound c) = ''context `'' @ c @ ''` not found in kubeconfig''"

fun k8s_error_text :: "k8s_error \<Rightarrow> string" where
  "k8s_error_text (K8sKube e) = e"
| "k8s_error_text (K8sClient e) = ''k8s client error: '' @ e"
| "k8s_error_text (K8sContext c e) = ''k8s context `'' @ c @ ''` is not usable: '' @ e"

fun state_error_text :: "state_error \<Rightarrow> string" where
  "state_error_text (StateIo e) = io_text e"
| "state_error_text (StateJson e) = e"
| "state_error_text (InvalidRecord n d) = ''stored state for `'' @ n @ ''` is invalid: '' @ d"
| "state_error_text (InvalidName n d) =
     ''cluster name `'' @ n @ ''` is not a valid state key: '' @ d"

fun violation_text :: "fmt_env \<Rightarrow> spec_violation \<Rightarrow> string" where
  "violation_text f (BadK8sVersion v) =
     ''invalid kubernetes version '' @ dbg_str f v @ '': expected X.Y.Z''"
| "violation_text f CiliumWithoutCni = ''cilium options are set but cni is not Cilium''"
| "violation_text f (ClusterIdRange n) =
     ''cilium clustermesh cluster id '' @ dec n @ '' is out of range 1..=255''"
| "violation_text f MeshNeedsName = ''cilium clustermesh requires a cluster name''"
| "violation_text f CiliumIngressNeedsCilium =
     ''cilium ingress controller requires cni == Cilium and cilium.ingress == true''"
| "violation_text f (TooManyWorkers n) = ''worker_count '' @ dec n @ '' exceeds maximum 32''"
| "violation_text f HostPortZero = ''port mapping host_port must not be 0''"
| "violation_text f ContainerPortZero = ''port mapping container_port must not be 0''"
| "violation_text f (DuplicateHostPort n) =
     ''duplicate host_port '' @ dec n @ '' in port mappings''"
| "violation_text f (BadListenAddress a) =
     ''invalid listen_address '' @ dbg_str f a @ '': expected an IPv4 address''"
| "violation_text f (IngressPorts w h s) =
     ''host ports 80/443 must be present iff ingress is Nginx or Traefik (ingress: '' @ bool_text w
     @ '', ports 80/443 mapped: '' @ bool_text h @ ''/'' @ bool_text s @ '')''"
| "violation_text f (BadPodCidr c) = ''invalid pod_cidr '' @ dbg_str f c"
| "violation_text f (BadServiceCidr c) = ''invalid service_cidr '' @ dbg_str f c"
| "violation_text f (CidrOverlap p s) = ''pod_cidr '' @ p @ '' overlaps service_cidr '' @ s"
| "violation_text f NameEmpty = ''cluster name is empty''"
| "violation_text f (NameTooLong n) =
     ''cluster name '' @ dbg_str f n @ '' is longer than 32 characters''"
| "violation_text f (NameBadStart n) =
     ''cluster name '' @ dbg_str f n @ '' must start with a lowercase letter or digit''"
| "violation_text f (NameBadChar n) =
     ''cluster name '' @ dbg_str f n @ '' may only contain [a-z0-9-]''"
| "violation_text f (NameBadEnd n) = ''cluster name '' @ dbg_str f n @ '' may not end with '' @ [CHR 0x27, CHR ''-'', CHR 0x27]"

fun core_error_text :: "fmt_env \<Rightarrow> core_error \<Rightarrow> string"
and provision_error_text :: "fmt_env \<Rightarrow> provision_error \<Rightarrow> string" where
  "core_error_text f (Config c) = ''configuration error: '' @ c"
| "core_error_text f (Exec e) = exec_error_text f e"
| "core_error_text f (Kind e) = kind_error_text f e"
| "core_error_text f (Deps e) = deps_error_text e"
| "core_error_text f (Kubeconfig e) = kubeconfig_error_text e"
| "core_error_text f (Provision e) = provision_error_text f e"
| "core_error_text f (K8s e) = k8s_error_text e"
| "core_error_text f (State e) = state_error_text e"
| "core_error_text f (Io p src) = ''io error at '' @ p @ '': '' @ io_text src"
| "core_error_text f (InvalidSpec v) = ''invalid cluster spec: '' @ violation_text f v"
| "core_error_text f (ClusterExists n) = ''cluster already exists: '' @ n"
| "core_error_text f (ClusterNotFound n) = ''cluster not found: '' @ n"
| "core_error_text f (Drift c d) = ''state drift detected for '' @ c @ '': '' @ d"
| "provision_error_text f (StepFailed i e) =
     ''provisioning step `'' @ i @ ''` failed: '' @ core_error_text f e"
| "provision_error_text f (VerifyFailed i d) =
     ''verification of step `'' @ i @ ''` failed: '' @ d"
| "provision_error_text f (InvalidPlan d) = ''invalid provisioning plan: '' @ d"
| "provision_error_text f (ProvChecksumMismatch p sha) =
     ''SHA-256 verification failed for downloaded manifest '' @ p @ '': expected '' @ sha"

definition provision_of_core :: "core_error \<Rightarrow> provision_error" where
  "provision_of_core e = StepFailed ''<root>'' e"

end
