(* ===== verification/ExecModel.thy ===== *)
theory ExecModel
  imports ErrorModel
begin

text \<open>
  The subprocess runner (\<open>kindboard-core/src/exec.rs\<close>): the command builder, the two output
  pumps as functions of the chunks read, the bounded stderr tail, the scrubbing of kubeconfig
  secrets, and the outcome of \<open>wait\<close>.  What the operating system and the timers do is the script
  of observations \<open>await_outcome\<close> reads; the interleaving of the cancel watcher, the waiting task
  and the child is the step relation \<open>kill_step\<close>.  Durations are milliseconds.
\<close>

section \<open>Commands\<close>

definition DEFAULT_TIMEOUT :: nat where "DEFAULT_TIMEOUT = 60000"
definition KILL_GRACE :: nat where "KILL_GRACE = 5000"
definition STDERR_TAIL_BYTES :: nat where "STDERR_TAIL_BYTES = 2048"
definition POLL_INTERVAL :: nat where "POLL_INTERVAL = 50"

record cmd =
  cmd_program :: string
  cmd_args :: "string list"
  cmd_timeout :: nat
  cmd_env :: "(string \<times> string) list"
  cmd_cancel :: "nat option"

record cmd_output =
  out_exit_code :: "int option"
  out_stdout_lines :: "string list"
  out_stderr_tail :: string

definition out_success :: "cmd_output \<Rightarrow> bool" where
  "out_success o' \<longleftrightarrow> out_exit_code o' = Some 0"

definition out_stdout :: "cmd_output \<Rightarrow> string" where
  "out_stdout o' = join_with [nl] (out_stdout_lines o')"

definition cmd_new :: "string \<Rightarrow> cmd" where
  "cmd_new program =
     \<lparr>cmd_program = program, cmd_args = [], cmd_timeout = DEFAULT_TIMEOUT, cmd_env = [],
      cmd_cancel = None\<rparr>"

definition with_arg :: "string \<Rightarrow> cmd \<Rightarrow> cmd" where
  "with_arg a c = c\<lparr>cmd_args := cmd_args c @ [a]\<rparr>"

definition with_args :: "string list \<Rightarrow> cmd \<Rightarrow> cmd" where
  "with_args as c = c\<lparr>cmd_args := cmd_args c @ as\<rparr>"

definition with_timeout :: "nat \<Rightarrow> cmd \<Rightarrow> cmd" where
  "with_timeout t c = c\<lparr>cmd_timeout := t\<rparr>"

definition with_env :: "string \<Rightarrow> string \<Rightarrow> cmd \<Rightarrow> cmd" where
  "with_env k v c = c\<lparr>cmd_env := btree_insert k v (cmd_env c)\<rparr>"

definition with_envs :: "(string \<times> string) list \<Rightarrow> cmd \<Rightarrow> cmd" where
  "with_envs kvs c = fold (\<lambda>(k, v). with_env k v) kvs c"

definition env_var :: "string \<Rightarrow> cmd \<Rightarrow> string option" where
  "env_var k c = map_of (cmd_env c) k"

definition with_cancel :: "nat \<Rightarrow> cmd \<Rightarrow> cmd" where
  "with_cancel token c = c\<lparr>cmd_cancel := Some token\<rparr>"

definition cmd_argv :: "cmd \<Rightarrow> string list" where
  "cmd_argv c = cmd_program c # cmd_args c"

definition cmd_deadline :: "cmd \<Rightarrow> nat" where
  "cmd_deadline c = cmd_timeout c"

section \<open>Output pumps\<close>

text \<open>\<open>String::from_utf8_lossy\<close>: \<open>utf8_next c s\<close> says whether a well-formed character starts
  with \<open>c\<close>, and how many bytes of \<open>s\<close> belong to it, or to the ill-formed sequence replaced.\<close>

definition is_cont :: "char \<Rightarrow> bool" where
  "is_cont c \<longleftrightarrow> CHR 0x80 \<le> c \<and> c \<le> CHR 0xBF"

definition second_ok :: "char \<Rightarrow> char \<Rightarrow> bool" where
  "second_ok c d \<longleftrightarrow>
     (if c = CHR 0xE0 then CHR 0xA0 \<le> d \<and> d \<le> CHR 0xBF
      else if c = CHR 0xED then CHR 0x80 \<le> d \<and> d \<le> CHR 0x9F
      else if c = CHR 0xF0 then CHR 0x90 \<le> d \<and> d \<le> CHR 0xBF
      else if c = CHR 0xF4 then CHR 0x80 \<le> d \<and> d \<le> CHR 0x8F
      else is_cont d)"

definition utf8_width :: "char \<Rightarrow> nat" where
  "utf8_width c =
     (if c < CHR 0x80 then 1
      else if CHR 0xC2 \<le> c \<and> c \<le> CHR 0xDF then 2
      else if CHR 0xE0 \<le> c \<and> c \<le> CHR 0xEF then 3
      else if CHR 0xF0 \<le> c \<and> c \<le> CHR 0xF4 then 4 else 0)"

fun cont_run :: "nat \<Rightarrow> string \<Rightarrow> nat" where
  "cont_run (Suc n) (c # s) = (if is_cont c then Suc (cont_run n s) else 0)"
| "cont_run _ _ = 0"

definition utf8_next :: "char \<Rightarrow> string \<Rightarrow> bool \<times> nat" where
  "utf8_next c s =
     (let w = utf8_width c in
      if w = 0 then (False, 0)
      else if w = 1 then (True, 0)
      else (case s of
              [] \<Rightarrow> (False, 0)
            | d # t \<Rightarrow> if \<not> second_ok c d then (False, 0)
                      else (let k = Suc (cont_run (w - 2) t) in (k = w - 1, k))))"

function utf8_lossy :: "string \<Rightarrow> string" where
  "utf8_lossy [] = []"
| "utf8_lossy (c # s) =
     (let (ok, k) = utf8_next c s
      in (if ok then c # take k s else [CHR 0xEF, CHR 0xBF, CHR 0xBD]) @ utf8_lossy (drop k s))"
  by pat_completeness auto
termination by (relation "measure length") auto

text \<open>The stdout pump.  A read of no bytes is the end of the stream.\<close>

function drain_lines :: "string \<Rightarrow> string list \<times> string" where
  "drain_lines carry =
     (case split_once nl carry of
        None \<Rightarrow> ([], carry)
      | Some (line, rest) \<Rightarrow>
          let (ls, carry') = drain_lines rest in (utf8_lossy (strip_cr line) # ls, carry'))"
  by pat_completeness auto
termination
  by (relation "measure length") (auto dest: split_once_Some)

declare drain_lines.simps [simp del]

fun forward_loop :: "string list \<Rightarrow> string \<Rightarrow> string list" where
  "forward_loop [] carry = (if carry = [] then [] else [utf8_lossy carry])"
| "forward_loop (buf # reads) carry =
     (if buf = [] then (if carry = [] then [] else [utf8_lossy carry])
      else (let (ls, carry') = drain_lines (carry @ buf) in ls @ forward_loop reads carry'))"

definition forward_lines :: "string list \<Rightarrow> string list" where
  "forward_lines reads = forward_loop reads []"

text \<open>The stderr pump keeps the tail.  \<open>char_boundary_from k s\<close> is the first character boundary
  at or after \<open>k\<close>, or the length.\<close>

definition char_boundary_from :: "nat \<Rightarrow> string \<Rightarrow> nat" where
  "char_boundary_from k s = k + length (takeWhile is_cont (drop k s))"

definition append_tail :: "string \<Rightarrow> string \<Rightarrow> string" where
  "append_tail tail chunk =
     (let guard = tail @ chunk in
      if STDERR_TAIL_BYTES < length guard
      then drop (char_boundary_from (length guard - STDERR_TAIL_BYTES) guard) guard
      else guard)"

fun forward_tail :: "string list \<Rightarrow> string \<Rightarrow> string list \<times> string" where
  "forward_tail [] tail = ([], tail)"
| "forward_tail (buf # reads) tail =
     (if buf = [] then ([], tail)
      else (let chunk = utf8_lossy buf; (cs, t) = forward_tail reads (append_tail tail chunk)
            in (chunk # cs, t)))"

section \<open>Redaction\<close>

definition KUBECONFIG_SECRET_KEYS :: "string list" where
  "KUBECONFIG_SECRET_KEYS =
     [''client-key-data'', ''client-certificate-data'', ''token'', ''password'', ''client-secret'']"

fun redact_keys :: "string list \<Rightarrow> string \<Rightarrow> string" where
  "redact_keys [] line = line"
| "redact_keys (key # keys) line =
     (let trimmed = trim_start line in
      case strip_prefix key trimmed of
        None \<Rightarrow> redact_keys keys line
      | Some rest0 \<Rightarrow>
          let rest = trim_start rest0; pre_colon_ws = length rest0 - length rest in
          if \<not> starts_with '':'' rest then redact_keys keys line
          else (let after_colon = tl rest; value = trim_start after_colon in
                if value = [] then line
                else take (length line - length trimmed) line @ key
                     @ take pre_colon_ws (drop (length key) trimmed) @ '':''
                     @ take (length after_colon - length value) after_colon @ ''<redacted>''))"

definition redact_kubeconfig_secrets :: "string \<Rightarrow> string" where
  "redact_kubeconfig_secrets line = redact_keys KUBECONFIG_SECRET_KEYS line"

definition tail_for_error :: "string \<Rightarrow> string" where
  "tail_for_error tail =
     (let cut = (if length tail \<le> STDERR_TAIL_BYTES then tail
                 else (let i = char_boundary_from (length tail - STDERR_TAIL_BYTES) tail
                       in if i < length tail then drop i tail else tail))
      in join_with [nl] (map redact_kubeconfig_secrets (split_on nl cut)))"

section \<open>Waiting\<close>

text \<open>One turn of the poll loop of \<open>await_outcome\<close>: what \<open>try_wait\<close> returned, whether the token
  had fired when it was read, which arm of the \<open>select\<close> fired, and whether the child exited
  within the grace period when the ladder ran.\<close>

datatype try_wait = Exited "int option" | Running | WaitFailed

datatype wake = DeadlineFired nat | TokenFired | PollElapsed

record observation =
  ob_try_wait :: try_wait
  ob_cancelled :: bool
  ob_wake :: wake
  ob_exits_in_grace :: bool

datatype signal = SigTerm | SigKill

datatype outcome_error = OutTimeout nat | OutCancelled

record process_handle =
  ph_reaped :: bool
  ph_signals :: "signal list"

definition signal_group :: "signal \<Rightarrow> process_handle \<Rightarrow> process_handle" where
  "signal_group sig h = h\<lparr>ph_signals := ph_signals h @ [sig]\<rparr>"

definition grace_then_kill :: "bool \<Rightarrow> process_handle \<Rightarrow> process_handle" where
  "grace_then_kill exits h =
     (if exits then h else signal_group SigKill h)\<lparr>ph_reaped := True\<rparr>"

definition kill_ladder :: "bool \<Rightarrow> process_handle \<Rightarrow> process_handle" where
  "kill_ladder exits h = grace_then_kill exits (signal_group SigTerm h)"

fun await_outcome ::
    "observation list \<Rightarrow> process_handle
       \<Rightarrow> (outcome_error + int option option) option \<times> process_handle" where
  "await_outcome [] h = (None, h)"
| "await_outcome (ob # obs) h =
     (case ob_try_wait ob of
        Exited status \<Rightarrow>
          (Some (if ob_cancelled ob then Err OutCancelled else Ok (Some status)),
           h\<lparr>ph_reaped := True\<rparr>)
      | WaitFailed \<Rightarrow> (Some (Ok None), h\<lparr>ph_reaped := True\<rparr>)
      | Running \<Rightarrow>
          (case ob_wake ob of
             DeadlineFired elapsed \<Rightarrow>
               (Some (Err (OutTimeout elapsed)), kill_ladder (ob_exits_in_grace ob) h)
           | TokenFired \<Rightarrow> (Some (Err OutCancelled), kill_ladder (ob_exits_in_grace ob) h)
           | PollElapsed \<Rightarrow> await_outcome obs h))"

definition drop_handle :: "process_handle \<Rightarrow> process_handle" where
  "drop_handle h = (if ph_reaped h then h else (signal_group SigKill h)\<lparr>ph_reaped := True\<rparr>)"

definition wait_result ::
    "string \<Rightarrow> string list \<Rightarrow> string \<Rightarrow> outcome_error + int option option
       \<Rightarrow> exec_error + cmd_output" where
  "wait_result prog stdout_lines stderr_tail outcome =
     (case outcome of
        Inr (Some exit_code) \<Rightarrow>
          if exit_code = Some 0
          then Ok \<lparr>out_exit_code = exit_code, out_stdout_lines = stdout_lines,
                   out_stderr_tail = stderr_tail\<rparr>
          else Err (ExecCommand prog exit_code (tail_for_error stderr_tail))
      | Inr None \<Rightarrow> Err (ExecCommand prog None (tail_for_error stderr_tail))
      | Inl (OutTimeout elapsed) \<Rightarrow> Err (ExecTimeout prog elapsed)
      | Inl OutCancelled \<Rightarrow> Err (ExecCancelled prog))"

text \<open>\<open>Cmd::run\<close> on what the system does with the command: refuse to spawn it, or give it the
  reads of its two pipes and the observations of the poll loop.\<close>

record process_script =
  ps_stdout_reads :: "string list"
  ps_stderr_reads :: "string list"
  ps_observations :: "observation list"

definition fresh_handle :: process_handle where
  "fresh_handle = \<lparr>ph_reaped = False, ph_signals = []\<rparr>"

definition wait_handle ::
    "string \<Rightarrow> process_script \<Rightarrow> (exec_error + cmd_output) option \<times> process_handle" where
  "wait_handle prog p =
     (let (outcome, h) = await_outcome (ps_observations p) fresh_handle;
          stdout_lines = forward_lines (ps_stdout_reads p);
          stderr_tail = snd (forward_tail (ps_stderr_reads p) [])
      in (map_option (wait_result prog stdout_lines stderr_tail) outcome, drop_handle h))"

definition cmd_run ::
    "(cmd \<Rightarrow> io_error + process_script) \<Rightarrow> cmd \<Rightarrow> (exec_error + cmd_output) option" where
  "cmd_run spawn c =
     (case spawn c of
        Inl e \<Rightarrow> Some (Err (ExecSpawn (cmd_program c) e))
      | Inr p \<Rightarrow> fst (wait_handle (cmd_program c) p))"

section \<open>The pumps deliver the stream\<close>

lemma drain_lines_split:
  "drain_lines s = (map (utf8_lossy \<circ> strip_cr) (butlast (split_on nl s)), last (split_on nl s))"
proof (induction s rule: drain_lines.induct)
  case (1 s)
  show ?case
  proof (cases "split_once nl s")
    case None
    then have "split_on nl s = [s]" by (simp add: split_once_None split_on_no_sep)
    then show ?thesis using None by (subst drain_lines.simps) simp
  next
    case (Some p)
    obtain line rest where p: "p = (line, rest)" by (cases p)
    then have s: "s = line @ nl # rest" and n: "nl \<notin> set line"
      using Some by (auto dest: split_once_Some)
    have "drain_lines rest = (map (utf8_lossy \<circ> strip_cr) (butlast (split_on nl rest)), last (split_on nl rest))"
      using 1 Some p by simp
    then show ?thesis using Some p
      by (subst drain_lines.simps) (simp add: s split_on_append_sep [OF n] del: strip_cr.simps)
  qed
qed

definition deliver :: "string \<Rightarrow> string list" where
  "deliver s =
     map (utf8_lossy \<circ> strip_cr) (butlast (split_on nl s))
     @ (let l = last (split_on nl s) in if l = [] then [] else [utf8_lossy l])"

lemma deliver_str_lines: "deliver s = map utf8_lossy (str_lines s)"
  by (simp add: deliver_def str_lines_def Let_def del: strip_cr.simps)

lemma forward_loop_deliver:
  "nl \<notin> set carry \<Longrightarrow>
   forward_loop reads carry = deliver (carry @ concat (takeWhile (\<lambda>r. r \<noteq> []) reads))"
proof (induction reads carry rule: forward_loop.induct)
  case (1 carry)
  then show ?case by (simp add: deliver_def split_on_no_sep)
next
  case (2 buf reads carry)
  show ?case
  proof (cases "buf = []")
    case True
    then show ?thesis using 2 by (simp add: deliver_def split_on_no_sep)
  next
    case False
    let ?l = "last (split_on nl (carry @ buf))" and ?r = "concat (takeWhile (\<lambda>r. r \<noteq> []) reads)"
    have "forward_loop reads ?l = deliver (?l @ ?r)"
      using 2 False by (auto simp: drain_lines_split split_on_last_no_sep)
    moreover have "deliver ((carry @ buf) @ ?r)
        = map (utf8_lossy \<circ> strip_cr) (butlast (split_on nl (carry @ buf))) @ deliver (?l @ ?r)"
      by (simp add: deliver_def split_on_append [of nl "carry @ buf"] butlast_append
          del: strip_cr.simps append_assoc)
    ultimately show ?thesis using False by (simp add: drain_lines_split)
  qed
qed

lemma append_tail_bound: "length (append_tail t c) \<le> STDERR_TAIL_BYTES"
  by (auto simp: append_tail_def char_boundary_from_def Let_def)

lemma append_tail_suffix: "suffix (append_tail t c) (t @ c)"
  by (simp add: append_tail_def Let_def suffix_drop del: drop_append)

lemma forward_tail_chunks:
  "fst (forward_tail reads t) = map utf8_lossy (takeWhile (\<lambda>r. r \<noteq> []) reads)"
  by (induction reads t rule: forward_tail.induct) (auto simp: Let_def split_def)

lemma forward_tail_bound:
  "length t \<le> STDERR_TAIL_BYTES \<Longrightarrow> length (snd (forward_tail reads t)) \<le> STDERR_TAIL_BYTES"
  by (induction reads t rule: forward_tail.induct)
    (auto simp: append_tail_bound Let_def split_def)

lemma forward_tail_suffix:
  "suffix (snd (forward_tail reads t)) (t @ concat (fst (forward_tail reads t)))"
proof (induction reads t rule: forward_tail.induct)
  case (2 buf reads t)
  show ?case
  proof (cases "buf = []")
    case False
    let ?c = "utf8_lossy buf"
    obtain cs u where f: "forward_tail reads (append_tail t ?c) = (cs, u)" by fastforce
    then have "suffix u (append_tail t ?c @ concat cs)" using 2 False by simp
    moreover have "suffix (append_tail t ?c @ concat cs) ((t @ ?c) @ concat cs)"
      using append_tail_suffix [of t ?c] by (auto simp: suffix_def)
    ultimately show ?thesis using False f
      by (auto dest: suffix_order.trans)
  qed simp
qed simp

section \<open>Redaction hides values\<close>

lemma trim_start_ws1: "is_ws1 a \<Longrightarrow> trim_start (a # s) = trim_start s"
  by (cases s rule: trim_start.cases) auto

lemma trim_start_ascii_ws: "list_all is_ws1 ws \<Longrightarrow> trim_start (ws @ s) = trim_start s"
  by (induction ws) (auto simp: trim_start_ws1)

lemma redact_keys_no_colon: "CHR '':'' \<notin> set line \<Longrightarrow> redact_keys keys line = line"
proof (induction keys)
  case (Cons key keys)
  show ?case
  proof (cases "strip_prefix key (trim_start line)")
    case None
    then show ?thesis using Cons by simp
  next
    case (Some rest)
    then have "trim_start line = key @ rest" by simp
    then have "set rest \<subseteq> set line"
      using set_mono_suffix [OF trim_start_suffix [of line]] by simp
    then have "CHR '':'' \<notin> set (trim_start rest)"
      using Cons.prems set_mono_suffix [OF trim_start_suffix [of rest]] by blast
    then have "\<not> starts_with '':'' (trim_start rest)"
      by (cases "trim_start rest") auto
    then show ?thesis using Cons Some by (simp add: Let_def del: strip_prefix_Some)
  qed
qed simp

lemma trim_start_plain:
  assumes "\<not> is_ws1 a" "\<And>b. \<not> is_ws2 a b" "\<And>b c. \<not> is_ws3 a b c"
  shows "trim_start (a # s) = a # s"
proof (cases s)
  case (Cons b t)
  then show ?thesis using assms by (cases t) simp_all
qed (use assms in simp)

lemma alnum_not_ws:
  assumes "is_ascii_alnum a"
  shows "\<not> is_ws1 a" "\<not> is_ws2 a b" "\<not> is_ws3 a b c"
  using assms by (auto simp: char_class_defs is_ws1_def is_ws2_def is_ws3_def)

lemma trim_start_letter:
  "is_ascii_alnum a \<Longrightarrow> trim_start (a # s) = a # s"
  by (rule trim_start_plain) (simp_all add: alnum_not_ws)

lemma ws1_not_colon: "list_all is_ws1 ws \<Longrightarrow> trim_start (ws @ CHR '':'' # s) = CHR '':'' # s"
  unfolding trim_start_ascii_ws
  by (rule trim_start_plain) (simp_all add: is_ws1_def is_ws2_def is_ws3_def less_eq_char_def)

lemma redact_keys_hit:
  assumes "list_all is_ws1 ind" "list_all is_ws1 ws" "list_all is_ws1 ws2"
    and "trim_start v = v" "v \<noteq> []" and "key \<noteq> []" "is_ascii_alnum (hd key)"
  shows "redact_keys (key # keys) (ind @ key @ ws @ '':'' @ ws2 @ v)
    = ind @ key @ ws @ '':'' @ ws2 @ ''<redacted>''"
proof -
  obtain k ks where key: "key = k # ks" using \<open>key \<noteq> []\<close> by (cases key) auto
  have t: "trim_start (ind @ key @ r) = key @ r" for r
    using assms by (simp add: trim_start_ascii_ws key trim_start_letter)
  have "strip_prefix key (key @ r) = Some r" for r by simp
  moreover have "trim_start (ws @ '':'' @ r) = '':'' @ r" for r
    using ws1_not_colon assms by simp
  moreover have "trim_start (ws2 @ v) = v" using assms by (simp add: trim_start_ascii_ws)
  ultimately show ?thesis using t \<open>v \<noteq> []\<close>
    by (simp add: Let_def del: strip_prefix_Some)
qed

lemma redact_keys_miss:
  assumes "list_all is_ws1 ind" and "key \<noteq> []" "is_ascii_alnum (hd key)"
    and "\<not> starts_with key' (key @ r)"
  shows "redact_keys (key' # keys) (ind @ key @ r) = redact_keys keys (ind @ key @ r)"
proof -
  obtain k ks where key: "key = k # ks" using \<open>key \<noteq> []\<close> by (cases key) auto
  have "trim_start (ind @ key @ r) = key @ r"
    using assms by (simp add: trim_start_ascii_ws key trim_start_letter)
  then show ?thesis using assms by (simp add: Let_def strip_prefix_def del: strip_prefix_Some)
qed

lemma redact_hit:
  assumes "key \<in> set KUBECONFIG_SECRET_KEYS"
    and "list_all is_ws1 ind" "list_all is_ws1 ws" "list_all is_ws1 ws2"
    and "trim_start v = v" "v \<noteq> []"
  shows "redact_kubeconfig_secrets (ind @ key @ ws @ '':'' @ ws2 @ v)
    = ind @ key @ ws @ '':'' @ ws2 @ ''<redacted>''"
proof -
  have "key \<noteq> []" "is_ascii_alnum (hd key)"
    using assms(1) by (auto simp: KUBECONFIG_SECRET_KEYS_def char_class_defs)
  note hit = redact_keys_hit [OF assms(2-6) this] and miss = redact_keys_miss [OF assms(2) this]
  show ?thesis
    using assms(1) hit miss
    by (auto simp: KUBECONFIG_SECRET_KEYS_def redact_kubeconfig_secrets_def
        simp del: redact_keys.simps)
qed

section \<open>Outcomes\<close>

definition still_polling :: "observation \<Rightarrow> bool" where
  "still_polling ob \<longleftrightarrow> ob_try_wait ob = Running \<and> ob_wake ob = PollElapsed"

lemma await_outcome_polling:
  "list_all still_polling pre \<Longrightarrow> await_outcome (pre @ obs) h = await_outcome obs h"
  by (induction pre) (auto simp: still_polling_def)

lemma await_outcome_None: "fst (await_outcome obs h) = None \<longleftrightarrow> list_all still_polling obs"
  by (induction obs h rule: await_outcome.induct)
    (auto simp: still_polling_def split: try_wait.splits wake.splits)

lemma await_outcome_signals:
  "fst (await_outcome obs h) = Some r \<Longrightarrow>
     ph_reaped (snd (await_outcome obs h)) \<and>
     ph_signals (snd (await_outcome obs h))
       \<in> {ph_signals h, ph_signals h @ [SigTerm], ph_signals h @ [SigTerm, SigKill]}"
  by (induction obs h rule: await_outcome.induct)
    (auto simp: kill_ladder_def grace_then_kill_def signal_group_def
      split: try_wait.splits wake.splits if_splits)

lemma await_outcome_exited:
  "fst (await_outcome obs h) = Some (Ok (Some status)) \<Longrightarrow>
     (\<exists>pre ob post. obs = pre @ ob # post \<and> list_all still_polling pre
        \<and> ob_try_wait ob = Exited status \<and> \<not> ob_cancelled ob)
     \<and> ph_signals (snd (await_outcome obs h)) = ph_signals h"
proof (induction obs h rule: await_outcome.induct)
  case (2 ob obs h)
  show ?case
  proof (cases "still_polling ob")
    case True
    then have e: "await_outcome (ob # obs) h = await_outcome obs h"
      by (simp add: still_polling_def)
    have w: "ob_try_wait ob = Running" "ob_wake ob = PollElapsed"
      using True by (simp_all add: still_polling_def)
    have "fst (await_outcome obs h) = Some (Ok (Some status))" using 2(2) e by simp
    note 2(1) [OF w this]
    then obtain pre ob' post where "obs = pre @ ob' # post" "list_all still_polling pre"
      "ob_try_wait ob' = Exited status" "\<not> ob_cancelled ob'"
      "ph_signals (snd (await_outcome obs h)) = ph_signals h" by blast
    then show ?thesis using True e
      by (intro conjI exI [of _ "ob # pre"] exI [of _ ob'] exI [of _ post]) auto
  next
    case False
    then have "ob_try_wait ob = Exited status" "\<not> ob_cancelled ob"
      using 2 by (auto simp: still_polling_def split: try_wait.splits wake.splits if_splits)
    then show ?thesis
      by (intro conjI exI [of _ "[]"] exI [of _ ob] exI [of _ obs]) auto
  qed
qed simp

lemma wait_result_Ok:
  "wait_result prog ls t r = Ok res \<longleftrightarrow>
     r = Ok (Some (Some 0)) \<and>
     res = \<lparr>out_exit_code = Some 0, out_stdout_lines = ls, out_stderr_tail = t\<rparr>"
  by (auto simp: wait_result_def split: sum.splits option.splits outcome_error.splits if_splits)

lemma cmd_run_Ok_success: "cmd_run spawn c = Some (Ok res) \<Longrightarrow> out_success res"
  by (auto simp: cmd_run_def wait_handle_def wait_result_Ok out_success_def
      split: sum.splits prod.splits)

section \<open>Interleavings of the watcher and the waiting task\<close>

text \<open>The child runs, is a zombie, or has been reaped (its process group id may then belong to
  another process).  The watcher task of \<open>spawn\<close> reads the flag \<open>reaped\<close>, sends, sleeps, reads
  and sends again; the task that owns the handle reaps the child and only then sets the flag.  Its future can be
  dropped wherever it awaits, and is dropped when \<open>wait\<close> has returned: either way \<open>Drop\<close> reads the flag.\<close>

datatype child_state = ChildRunning | Zombie | Gone

datatype watcher_pc = WWaiting | WSendTerm | WGrace | WSendKill | WDone

datatype waiter_pc = Polling | ReapedUnflagged | InGrace | InKillWait | Draining | Dropped

datatype sender = ByWatcher | ByHandle

record kill_state =
  ks_token :: bool
  ks_child :: child_state
  ks_reaped :: bool
  ks_watcher :: watcher_pc
  ks_waiter :: waiter_pc
  ks_sent :: "(sender \<times> child_state \<times> signal) list"

definition kill_init :: kill_state where
  "kill_init = \<lparr>ks_token = False, ks_child = ChildRunning, ks_reaped = False,
     ks_watcher = WWaiting, ks_waiter = Polling, ks_sent = []\<rparr>"

definition send :: "sender \<Rightarrow> signal \<Rightarrow> kill_state \<Rightarrow> kill_state" where
  "send who sig s = s\<lparr>ks_sent := ks_sent s @ [(who, ks_child s, sig)]\<rparr>"

text \<open>\<open>Drop\<close>: the only guard is the flag.\<close>

definition drop_guard :: "kill_state \<Rightarrow> kill_state" where
  "drop_guard s =
     (if \<not> ks_reaped s then (send ByHandle SigKill s)\<lparr>ks_reaped := True, ks_waiter := Dropped\<rparr>
      else s\<lparr>ks_waiter := Dropped\<rparr>)"

text \<open>A \<open>try_wait\<close> that fails says that the child was reaped before; the runtime reaps a child whose handle is
  gone.  Between \<open>child.wait\<close> and the flag there is no await, so nothing is dropped there.\<close>

inductive kill_step :: "kill_state \<Rightarrow> kill_state \<Rightarrow> bool" where
  fire_token: "kill_step s (s\<lparr>ks_token := True\<rparr>)"
| child_exit: "ks_child s = ChildRunning \<Longrightarrow> kill_step s (s\<lparr>ks_child := Zombie\<rparr>)"
| watcher_wakes: "ks_watcher s = WWaiting \<Longrightarrow> ks_token s \<Longrightarrow>
    kill_step s (s\<lparr>ks_watcher := (if ks_reaped s then WDone else WSendTerm)\<rparr>)"
| watcher_term: "ks_watcher s = WSendTerm \<Longrightarrow>
    kill_step s (send ByWatcher SigTerm (s\<lparr>ks_watcher := WGrace\<rparr>))"
| watcher_rechecks: "ks_watcher s = WGrace \<Longrightarrow>
    kill_step s (s\<lparr>ks_watcher := (if ks_reaped s then WDone else WSendKill)\<rparr>)"
| watcher_kill: "ks_watcher s = WSendKill \<Longrightarrow>
    kill_step s (send ByWatcher SigKill (s\<lparr>ks_watcher := WDone\<rparr>))"
| waiter_reaps: "ks_waiter s \<in> {Polling, InGrace, InKillWait} \<Longrightarrow> ks_child s = Zombie \<Longrightarrow>
    kill_step s (s\<lparr>ks_child := Gone, ks_waiter := ReapedUnflagged\<rparr>)"
| waiter_flags: "ks_waiter s = ReapedUnflagged \<Longrightarrow>
    kill_step s (s\<lparr>ks_reaped := True, ks_waiter := Draining\<rparr>)"
| waiter_fails: "ks_waiter s = Polling \<Longrightarrow> ks_child s = Gone \<Longrightarrow>
    kill_step s (s\<lparr>ks_reaped := True, ks_waiter := Draining\<rparr>)"
| waiter_term: "ks_waiter s = Polling \<Longrightarrow>
    kill_step s (send ByHandle SigTerm (s\<lparr>ks_waiter := InGrace\<rparr>))"
| waiter_kill: "ks_waiter s = InGrace \<Longrightarrow>
    kill_step s (send ByHandle SigKill (s\<lparr>ks_waiter := InKillWait\<rparr>))"
| waiter_dropped: "ks_waiter s \<in> {Polling, InGrace, InKillWait, Draining} \<Longrightarrow> kill_step s (drop_guard s)"
| orphan_reaped: "ks_waiter s = Dropped \<Longrightarrow> ks_child s = Zombie \<Longrightarrow> kill_step s (s\<lparr>ks_child := Gone\<rparr>)"

inductive kill_reachable :: "kill_state \<Rightarrow> bool" where
  reach_init: "kill_reachable kill_init"
| reach_step: "kill_reachable s \<Longrightarrow> kill_step s t \<Longrightarrow> kill_reachable t"

inductive_cases kill_stepE: "kill_step s t"

text \<open>The signals of the handle go to a child that has not been reaped, those of the watcher too while the token
  has not fired.\<close>

definition own_signal :: "bool \<Rightarrow> sender \<times> child_state \<times> signal \<Rightarrow> bool" where
  "own_signal fired x \<longleftrightarrow> (case x of (who, c, _) \<Rightarrow> c \<noteq> Gone \<or> who = ByWatcher \<and> fired)"

definition kill_inv :: "kill_state \<Rightarrow> bool" where
  "kill_inv s \<longleftrightarrow>
     (ks_child s = Gone \<longrightarrow> ks_waiter s \<in> {ReapedUnflagged, Draining, Dropped}) \<and>
     (ks_waiter s \<in> {Draining, Dropped} \<longrightarrow> ks_reaped s) \<and>
     (ks_watcher s \<noteq> WWaiting \<longrightarrow> ks_token s) \<and>
     list_all (own_signal (ks_token s)) (ks_sent s)"

lemma kill_inv_init: "kill_inv kill_init"
  by (simp add: kill_inv_def kill_init_def)

lemma own_signal_fired: "list_all (own_signal b) xs \<Longrightarrow> list_all (own_signal True) xs"
  by (auto simp: list_all_iff own_signal_def)

lemma kill_inv_step: "kill_step s t \<Longrightarrow> kill_inv s \<Longrightarrow> kill_inv t"
  by (erule kill_stepE)
    (auto simp: kill_inv_def drop_guard_def send_def own_signal_def [of _ "(_, _, _)"] intro: own_signal_fired)

lemma kill_inv_reachable: "kill_reachable s \<Longrightarrow> kill_inv s"
  by (induction rule: kill_reachable.induct) (auto intro: kill_inv_init kill_inv_step)

section \<open>Properties\<close>

text \<open>C28: However the pipe cuts the stream into reads, the lines delivered are those of the whole
  stream up to the end of file, converted line by line.\<close>

theorem forward_lines_chunk_independent:
  "forward_lines reads = map utf8_lossy (str_lines (concat (takeWhile (\<lambda>r. r \<noteq> []) reads)))"
  using forward_loop_deliver [of "[]" reads] by (simp add: forward_lines_def deliver_str_lines)

text \<open>C17: The value of a kubeconfig secret field never survives the scrubbing: whatever the
  indentation, the white space around the colon and the value, the result depends on the key and
  the white space alone.\<close>

theorem redact_hides_secret:
  assumes "key \<in> set KUBECONFIG_SECRET_KEYS"
    and "list_all is_ws1 ind" "list_all is_ws1 ws" "list_all is_ws1 ws2"
    and "trim_start v = v" "v \<noteq> []"
  shows "redact_kubeconfig_secrets (ind @ key @ ws @ '':'' @ ws2 @ v)
    = ind @ key @ ws @ '':'' @ ws2 @ ''<redacted>''"
  using assms by (rule redact_hit)

theorem redact_hides_secret_witness:
  "redact_kubeconfig_secrets ''    token: abc'' = ''    token: <redacted>''"
proof -
  have "redact_kubeconfig_secrets (''    '' @ ''token'' @ [] @ '':'' @ '' '' @ ''abc'')
    = ''    '' @ ''token'' @ [] @ '':'' @ '' '' @ ''<redacted>''"
    by (rule redact_hides_secret)
      (simp_all add: KUBECONFIG_SECRET_KEYS_def is_ws1_def is_ws2_def is_ws3_def)
  then show ?thesis by simp
qed

lemma is_cont_alnum: "is_ascii_alnum c \<Longrightarrow> \<not> is_cont c"
  by (auto simp: char_class_defs is_cont_def)

lemma append_tail_alnum:
  assumes "list_all is_ascii_alnum v" "STDERR_TAIL_BYTES \<le> length v" "p \<noteq> []"
  shows "append_tail [] (p @ v) = take_last STDERR_TAIL_BYTES v"
proof -
  let ?k = "length (p @ v) - STDERR_TAIL_BYTES"
  have pos: "0 < length p" using assms by simp
  have d: "drop ?k (p @ v) = take_last STDERR_TAIL_BYTES v"
    using assms by (simp add: take_last_def)
  have "list_all is_ascii_alnum (take_last STDERR_TAIL_BYTES v)"
    using assms(1) set_mono_suffix [OF take_last_suffix] by (fastforce simp: list_all_iff)
  then have "takeWhile is_cont (drop ?k (p @ v)) = []"
    unfolding d by (cases "take_last STDERR_TAIL_BYTES v") (auto simp: is_cont_alnum)
  then have "char_boundary_from ?k (p @ v) = ?k"
    unfolding char_boundary_from_def by simp
  moreover have "STDERR_TAIL_BYTES < length (p @ v)"
    unfolding length_append using assms(2) pos by linarith
  ultimately show ?thesis using d by (simp add: append_tail_def Let_def)
qed

lemma tail_for_error_alnum:
  assumes "list_all is_ascii_alnum v" "length v \<le> STDERR_TAIL_BYTES"
  shows "tail_for_error v = v"
proof -
  have "nl \<notin> set v" and c: "CHR '':'' \<notin> set v"
    using assms(1) by (auto simp: list_all_iff char_class_defs nl_def)
  then show ?thesis using assms(2)
    by (simp add: tail_for_error_def split_on_no_sep redact_kubeconfig_secrets_def
        redact_keys_no_colon [OF c])
qed

text \<open>The tail is cut to its last 2048 bytes before it is scrubbed, so a secret field whose
  value is at least that long loses its key first: the error message shows the last 2048 bytes of
  the value, unredacted.\<close>

theorem long_secret_survives_cut:
  assumes "list_all is_ascii_alnum v" "STDERR_TAIL_BYTES \<le> length v"
  shows "tail_for_error (append_tail [] (''token: '' @ v)) = take_last STDERR_TAIL_BYTES v"
proof -
  have "list_all is_ascii_alnum (take_last STDERR_TAIL_BYTES v)"
    using assms(1) set_mono_suffix [OF take_last_suffix] by (fastforce simp: list_all_iff)
  moreover have "append_tail [] (''token: '' @ v) = take_last STDERR_TAIL_BYTES v"
    using assms by (rule append_tail_alnum) simp
  ultimately show ?thesis by (simp only:) (rule tail_for_error_alnum, simp_all)
qed

theorem long_secret_survives_cut_witness:
  "tail_for_error (append_tail [] (''token: '' @ replicate 2048 (CHR ''A'')))
     = take_last STDERR_TAIL_BYTES (replicate 2048 (CHR ''A''))"
  by (rule long_secret_survives_cut)
    (simp_all add: list_all_iff char_class_defs STDERR_TAIL_BYTES_def)

text \<open>The stderr kept for messages never exceeds 2048 bytes and is the end of what the child
  wrote.\<close>

theorem stderr_tail_bounded:
  "length (snd (forward_tail reads [])) \<le> 2048 \<and>
   suffix (snd (forward_tail reads [])) (concat (fst (forward_tail reads [])))"
  using forward_tail_bound [of "[]" reads] forward_tail_suffix [of reads "[]"]
  by (simp add: STDERR_TAIL_BYTES_def)

text \<open>A finished \<open>wait\<close> has marked the child reaped, has sent at most one TERM and then at
  most one KILL, and dropping the handle afterwards sends nothing more.\<close>

theorem wait_terminal_handle:
  assumes "fst (await_outcome obs fresh_handle) = Some r"
  shows "let h = snd (await_outcome obs fresh_handle) in
    ph_reaped h \<and> ph_signals h \<in> {[], [SigTerm], [SigTerm, SigKill]} \<and> drop_handle h = h"
  using await_outcome_signals [OF assms] by (simp add: Let_def drop_handle_def fresh_handle_def)

theorem wait_terminal_handle_witness:
  "let h = snd (await_outcome
      [\<lparr>ob_try_wait = Running, ob_cancelled = False, ob_wake = DeadlineFired 60000,
        ob_exits_in_grace = False\<rparr>] fresh_handle) in
    ph_reaped h \<and> ph_signals h \<in> {[], [SigTerm], [SigTerm, SigKill]} \<and> drop_handle h = h"
  by (rule wait_terminal_handle [where r = "Err (OutTimeout 60000)"]) simp

text \<open>C18: Success is reported only when the child itself exited with code 0 while the token had
  not fired, after nothing but polls, with no signal sent; the output then is the whole stdout.\<close>

theorem wait_success_means_clean_exit:
  assumes "fst (wait_handle prog p) = Some (Ok res)"
  shows "out_exit_code res = Some 0 \<and>
    out_stdout_lines res = forward_lines (ps_stdout_reads p) \<and>
    ph_signals (snd (wait_handle prog p)) = [] \<and>
    (\<exists>pre ob post. ps_observations p = pre @ ob # post \<and> list_all still_polling pre
        \<and> ob_try_wait ob = Exited (Some 0) \<and> \<not> ob_cancelled ob)"
proof -
  obtain r h where a: "await_outcome (ps_observations p) fresh_handle = (Some r, h)"
    and w: "wait_result prog (forward_lines (ps_stdout_reads p))
        (snd (forward_tail (ps_stderr_reads p) [])) r = Ok res"
    and s: "snd (wait_handle prog p) = drop_handle h"
    using assms by (auto simp: wait_handle_def Let_def split: prod.splits)
  from w have r: "r = Ok (Some (Some 0))" by (simp add: wait_result_Ok)
  with a have o': "fst (await_outcome (ps_observations p) fresh_handle) = Some (Ok (Some (Some 0)))"
    by simp
  note e = await_outcome_exited [OF this]
  have "ph_reaped h" using await_outcome_signals [OF o'] a by simp
  then have "ph_signals (snd (wait_handle prog p)) = []"
    using e a s by (simp add: drop_handle_def fresh_handle_def)
  with e w show ?thesis by (auto simp: wait_result_Ok)
qed

theorem wait_success_means_clean_exit_witness:
  "let p = \<lparr>ps_stdout_reads = [''a''], ps_stderr_reads = [],
            ps_observations = [\<lparr>ob_try_wait = Exited (Some 0), ob_cancelled = False,
                                ob_wake = PollElapsed, ob_exits_in_grace = False\<rparr>]\<rparr>;
       res = \<lparr>out_exit_code = Some 0, out_stdout_lines = forward_lines [''a''],
              out_stderr_tail = []\<rparr> in
    out_exit_code res = Some 0 \<and>
    out_stdout_lines res = forward_lines (ps_stdout_reads p) \<and>
    ph_signals (snd (wait_handle ''ls'' p)) = [] \<and>
    (\<exists>pre ob post. ps_observations p = pre @ ob # post \<and> list_all still_polling pre
        \<and> ob_try_wait ob = Exited (Some 0) \<and> \<not> ob_cancelled ob)"
  unfolding Let_def
  by (rule wait_success_means_clean_exit) (simp add: wait_handle_def wait_result_def)

text \<open>C19: Whatever is interleaved with what, the handle never signals a child that has been reaped, neither in its
  ladder nor when it is dropped, and the watcher does so at most after the token has fired.\<close>

theorem signals_reach_own_child:
  assumes "kill_reachable s"
  shows "list_all (\<lambda>(who, c, sig). c = Gone \<longrightarrow> who = ByWatcher \<and> ks_token s) (ks_sent s)"
  using kill_inv_reachable [OF assms] by (auto simp: kill_inv_def own_signal_def list_all_iff)

text \<open>A wait that times out: the child gets a signal, exits, is reaped, and the handle is dropped.\<close>

lemma timed_out_wait:
  "kill_reachable (kill_init\<lparr>ks_child := Gone, ks_reaped := True, ks_waiter := Dropped,
     ks_sent := [(ByHandle, ChildRunning, SigTerm)]\<rparr>)"
proof -
  define s1 where "s1 = send ByHandle SigTerm (kill_init\<lparr>ks_waiter := InGrace\<rparr>)"
  define s2 where "s2 = s1\<lparr>ks_child := Zombie\<rparr>"
  define s3 where "s3 = s2\<lparr>ks_child := Gone, ks_waiter := ReapedUnflagged\<rparr>"
  define s4 where "s4 = s3\<lparr>ks_reaped := True, ks_waiter := Draining\<rparr>"
  note defs = s1_def s2_def s3_def s4_def kill_init_def send_def
  have "kill_step kill_init s1" unfolding s1_def by (rule waiter_term) (simp add: defs)
  note reach_step [OF reach_init this]
  moreover have "kill_step s1 s2" unfolding s2_def by (rule child_exit) (simp add: defs)
  ultimately have "kill_reachable s2" by (rule reach_step)
  moreover have "kill_step s2 s3" unfolding s3_def by (rule waiter_reaps) (simp_all add: defs)
  ultimately have "kill_reachable s3" by (rule reach_step)
  moreover have "kill_step s3 s4" unfolding s4_def by (rule waiter_flags) (simp add: defs)
  ultimately have "kill_reachable s4" by (rule reach_step)
  moreover have "kill_step s4 (drop_guard s4)" by (rule waiter_dropped) (simp add: defs)
  ultimately have "kill_reachable (drop_guard s4)" by (rule reach_step)
  then show ?thesis by (simp add: drop_guard_def defs)
qed

lemma signals_reach_own_child_witness:
  "\<exists>s. kill_reachable s \<and> ks_child s = Gone \<and> ks_sent s = [(ByHandle, ChildRunning, SigTerm)]
     \<and> list_all (\<lambda>(who, c, sig). c = Gone \<longrightarrow> who = ByWatcher \<and> ks_token s) (ks_sent s)"
  using timed_out_wait signals_reach_own_child [OF timed_out_wait]
  by (intro exI [of _ "kill_init\<lparr>ks_child := Gone, ks_reaped := True, ks_waiter := Dropped,
     ks_sent := [(ByHandle, ChildRunning, SigTerm)]\<rparr>"]) simp

text \<open>Once the token fires, the flag does not exclude a stale signal: the watcher may read it
  before the waiting task has reaped the child and send after, to a process group that is no
  longer the child's.\<close>

theorem stale_signal_reachable:
  "\<exists>s. kill_reachable s \<and> (ByWatcher, Gone, SigTerm) \<in> set (ks_sent s)"
proof -
  define s1 where "s1 = kill_init\<lparr>ks_token := True\<rparr>"
  define s2 where "s2 = s1\<lparr>ks_watcher := WSendTerm\<rparr>"
  define s3 where "s3 = s2\<lparr>ks_child := Zombie\<rparr>"
  define s4 where "s4 = s3\<lparr>ks_child := Gone, ks_waiter := ReapedUnflagged\<rparr>"
  note defs = s1_def s2_def s3_def s4_def kill_init_def
  have "kill_step kill_init s1" unfolding s1_def by (rule fire_token)
  note reach_step [OF reach_init this]
  moreover have "kill_step s1 s2"
    using watcher_wakes [of s1] by (simp add: defs)
  ultimately have "kill_reachable s2" by (rule reach_step)
  moreover have "kill_step s2 s3" unfolding s3_def by (rule child_exit) (simp add: defs)
  ultimately have "kill_reachable s3" by (rule reach_step)
  moreover have "kill_step s3 s4" unfolding s4_def by (rule waiter_reaps) (simp_all add: defs)
  ultimately have "kill_reachable s4" by (rule reach_step)
  moreover have "kill_step s4 (send ByWatcher SigTerm (s4\<lparr>ks_watcher := WGrace\<rparr>))"
    by (rule watcher_term) (simp add: defs)
  ultimately have "kill_reachable (send ByWatcher SigTerm (s4\<lparr>ks_watcher := WGrace\<rparr>))"
    by (rule reach_step)
  moreover have "(ByWatcher, Gone, SigTerm) \<in> set (ks_sent (send ByWatcher SigTerm (s4\<lparr>ks_watcher := WGrace\<rparr>)))"
    by (simp add: defs send_def)
  ultimately show ?thesis by blast
qed

end
