(* ===== verification/SearchPath.thy ===== *)
theory SearchPath
  imports ExecModel
begin

text \<open>
  The executable search path (\<open>kindboard-core/src/deps/mod.rs\<close>, \<open>path_entries\<close> to
  \<open>local_bin_dir\<close>): the process PATH, the directories added to it, and the lookup in it.  The
  environment and the file system are the record \<open>os_env\<close>.  Paths are compared as Rust compares
  them, by their components; those of Windows are written with forward slashes, which it takes as separators.
\<close>

datatype target_os = TargetLinux | TargetMacos | TargetWindows | TargetOther

record os_env =
  env_target :: target_os
  env_PATH :: "string option"
  env_home :: "string option"
  fs_is_dir :: "string \<Rightarrow> bool"
  fs_is_file :: "string \<Rightarrow> bool"
  fs_is_executable :: "string \<Rightarrow> bool"

text \<open>\<open>Path::components\<close>: repeated and trailing slashes vanish, \<open>.\<close> only counts at the start of
  a relative path.\<close>

definition path_is_absolute :: "string \<Rightarrow> bool" where
  "path_is_absolute p = starts_with ''/'' p"

definition path_key :: "string \<Rightarrow> bool \<times> string list" where
  "path_key p =
     (let cs = filter (\<lambda>c. c \<noteq> []) (split_on (CHR ''/'') p) in
      if path_is_absolute p then (True, filter (\<lambda>c. c \<noteq> ''.'') cs)
      else (case cs of [] \<Rightarrow> (False, [])
            | c # rest \<Rightarrow> (False, c # filter (\<lambda>c. c \<noteq> ''.'') rest)))"

definition path_join :: "string \<Rightarrow> string \<Rightarrow> string" where
  "path_join d c =
     (if path_is_absolute c then c
      else if d = [] \<or> last d = CHR ''/'' then d @ c
      else d @ ''/'' @ c)"

definition LOCAL_BIN_DIR_NAME :: string where "LOCAL_BIN_DIR_NAME = ''.local/bin''"

definition path_list_sep :: "target_os \<Rightarrow> char" where
  "path_list_sep t = (if t = TargetWindows then CHR '';'' else CHR '':'')"

definition path_entries :: "os_env \<Rightarrow> string list" where
  "path_entries e =
     (case env_PATH e of None \<Rightarrow> [] | Some p \<Rightarrow> split_on (path_list_sep (env_target e)) p)"

fun dedup_seen :: "(bool \<times> string list) list \<Rightarrow> string list \<Rightarrow> string list" where
  "dedup_seen seen [] = []"
| "dedup_seen seen (d # ds) =
     (if path_key d \<in> set seen then dedup_seen seen ds
      else d # dedup_seen (path_key d # seen) ds)"

definition dedup_path_entries :: "string list \<Rightarrow> string list" where
  "dedup_path_entries entries = dedup_seen [] entries"

definition push_missing :: "string \<Rightarrow> string list \<Rightarrow> string list" where
  "push_missing d ds = (if path_key d \<in> set (map path_key ds) then ds else ds @ [d])"

definition local_bin_dir :: "os_env \<Rightarrow> string" where
  "local_bin_dir e =
     (case env_home e of Some home \<Rightarrow> path_join home LOCAL_BIN_DIR_NAME
      | None \<Rightarrow> LOCAL_BIN_DIR_NAME)"

definition brew_dirs :: "os_env \<Rightarrow> string list" where
  "brew_dirs e =
     (if env_target e = TargetMacos
      then filter (fs_is_dir e) [''/opt/homebrew/bin'', ''/usr/local/bin''] else [])"

definition effective_path_entries :: "os_env \<Rightarrow> string list" where
  "effective_path_entries e =
     fold push_missing (local_bin_dir e # brew_dirs e) (dedup_path_entries (path_entries e))"

text \<open>\<open>std::env::join_paths\<close> fails on an entry that contains the separator.\<close>

definition join_paths :: "target_os \<Rightarrow> string list \<Rightarrow> string option" where
  "join_paths t ds =
     (if list_all (\<lambda>d. path_list_sep t \<notin> set d) ds then Some (join_with [path_list_sep t] ds)
      else None)"

definition with_effective_path :: "os_env \<Rightarrow> cmd \<Rightarrow> cmd" where
  "with_effective_path e c =
     (case join_paths (env_target e) (effective_path_entries e) of
        Some paths \<Rightarrow> (let joined = utf8_lossy paths in
                       if joined = [] then c else with_env ''PATH'' joined c)
      | None \<Rightarrow> c)"

section \<open>The lookup\<close>

text \<open>The extension of a plain file name: what follows its last dot, unless that dot comes first.\<close>

definition extension :: "string \<Rightarrow> string option" where
  "extension name =
     (let parts = split_on (CHR ''.'') name in
      if name = ''..'' \<or> length parts < 2 \<or> join_with ''.'' (butlast parts) = [] then None else Some (last parts))"

definition pathext_candidates :: "string \<Rightarrow> string \<Rightarrow> string list" where
  "pathext_candidates dir command =
     (if \<exists>e \<in> set_option (extension command). e \<noteq> [] then [path_join dir command]
      else path_join dir command # map (\<lambda>ext. path_join dir (command @ ext)) [''.exe'', ''.bat'', ''.cmd''])"

definition path_candidates :: "os_env \<Rightarrow> string \<Rightarrow> string \<Rightarrow> string list" where
  "path_candidates e dir command =
     (if env_target e = TargetWindows then pathext_candidates dir command else [path_join dir command])"

definition runnable :: "os_env \<Rightarrow> string \<Rightarrow> bool" where
  "runnable e p \<longleftrightarrow> fs_is_file e p \<and> (env_target e = TargetWindows \<or> fs_is_executable e p)"

fun find_in_path :: "os_env \<Rightarrow> string list \<Rightarrow> string \<Rightarrow> string option" where
  "find_in_path e [] command = None"
| "find_in_path e (d # ds) command =
     (case find (runnable e) (path_candidates e d command) of
        Some c \<Rightarrow> Some c
      | None \<Rightarrow> find_in_path e ds command)"

lemma path_candidates_unix [simp]:
  "env_target e \<noteq> TargetWindows \<Longrightarrow> path_candidates e d c = [path_join d c]"
  by (simp add: path_candidates_def)

text \<open>The lookup finds the first candidate that can be run, and nothing exactly when none can.\<close>

lemma find_in_path_None:
  "find_in_path e ds command = None \<longleftrightarrow> (\<forall>d \<in> set ds. \<forall>c \<in> set (path_candidates e d command). \<not> runnable e c)"
proof (induction ds)
  case (Cons d ds)
  show ?case
  proof (cases "find (runnable e) (path_candidates e d command)")
    case None
    then have "\<forall>c \<in> set (path_candidates e d command). \<not> runnable e c" by (simp add: find_None_iff)
    then show ?thesis using Cons None by simp
  next
    case (Some c)
    then have "runnable e c" "c \<in> set (path_candidates e d command)" by (auto simp: find_Some_iff)
    then show ?thesis using Some by auto
  qed
qed simp

lemma find_in_path_found:
  assumes "find_in_path e ds command = Some p"
  shows "runnable e p" and "\<exists>d \<in> set ds. p \<in> set (path_candidates e d command)"
  using assms by (induction ds) (auto simp: find_Some_iff split: option.splits)

lemma find_in_path_append:
  "find_in_path e (ds @ es) command =
     (case find_in_path e ds command of Some c \<Rightarrow> Some c | None \<Rightarrow> find_in_path e es command)"
  by (induction ds) (auto split: option.splits)

text \<open>On Windows a command without a dot is also found with each of the three extensions.\<close>

lemma plain_command_candidates:
  assumes "CHR ''.'' \<notin> set command"
  shows "pathext_candidates dir command =
    map (\<lambda>ext. path_join dir (command @ ext)) [[], ''.exe'', ''.bat'', ''.cmd'']"
proof -
  have "split_on (CHR ''.'') command = [command]" using assms by (rule split_on_no_sep)
  then show ?thesis by (simp add: pathext_candidates_def extension_def Let_def)
qed

section \<open>The search path\<close>

lemma dedup_seen_keys:
  "distinct (map path_key (dedup_seen seen ds)) \<and>
   path_key ` set (dedup_seen seen ds) = path_key ` set ds - set seen"
  by (induction seen ds rule: dedup_seen.induct) auto

lemma dedup_seen_subseq: "subseq (dedup_seen seen ds) ds"
  by (induction seen ds rule: dedup_seen.induct) auto

lemma push_missing_keys:
  "distinct (map path_key ds) \<Longrightarrow> distinct (map path_key (push_missing d ds))"
  "path_key ` set (push_missing d ds) = insert (path_key d) (path_key ` set ds)"
  "prefix ds (push_missing d ds)"
  by (auto simp: push_missing_def)

lemma fold_push_missing:
  "distinct (map path_key ds) \<Longrightarrow>
     distinct (map path_key (fold push_missing xs ds)) \<and>
     path_key ` set (fold push_missing xs ds) = path_key ` set xs \<union> path_key ` set ds \<and>
     prefix ds (fold push_missing xs ds)"
proof (induction xs arbitrary: ds)
  case (Cons x xs)
  from Cons.IH [OF push_missing_keys(1) [OF Cons.prems]] push_missing_keys(2,3) [where d = x and ds = ds]
  show ?case by (auto intro: prefix_order.trans)
qed simp

text \<open>The search path a child gets names no directory twice, starts with the entries of the
  process PATH in their order (the first of each), and contains every one of them and the local
  bin directory.\<close>

theorem effective_path_sound:
  "distinct (map path_key (effective_path_entries e)) \<and>
   prefix (dedup_path_entries (path_entries e)) (effective_path_entries e) \<and>
   subseq (dedup_path_entries (path_entries e)) (path_entries e) \<and>
   path_key ` set (path_entries e) \<union> {path_key (local_bin_dir e)}
     \<subseteq> path_key ` set (effective_path_entries e)"
proof -
  let ?d = "dedup_path_entries (path_entries e)"
  have d: "distinct (map path_key ?d)" "path_key ` set ?d = path_key ` set (path_entries e)"
    using dedup_seen_keys [of "[]"] by (simp_all add: dedup_path_entries_def)
  show ?thesis
    using fold_push_missing [OF d(1), of "local_bin_dir e # brew_dirs e"] d(2) dedup_seen_subseq
    by (auto simp: effective_path_entries_def dedup_path_entries_def)
qed

end
