(* ===== verification/FsModel.thy ===== *)
theory FsModel
  imports SearchPath
begin

text \<open>
  The crash-safe file writer (\<open>kindboard-core/src/fsutil.rs\<close>) over a model of the file system.
  A file-system operation ends in \<open>Done\<close>, in \<open>Failed\<close> with an error of the operating system, or
  in \<open>Crashed\<close> (the process dies there and nothing after it happens).  Which of these happens is
  decided by a script of faults, one per system call, so a theorem over all scripts speaks of every
  failure and every crash point, including a write cut short.  Existence queries are not faulted.
\<close>

section \<open>The file system\<close>

record reg_file =
  f_bytes :: string
  f_mode :: nat

datatype node = NFile reg_file | NDir | NLink string

type_synonym nodes = "string \<Rightarrow> node option"

datatype fault = NoFault | IoFault io_error nat | CrashFault nat

record fs =
  fs_nodes :: nodes
  fs_tmp_counter :: "64 word"
  fs_faults :: "fault list"
  fs_pid :: nat
  fs_umask_mode :: nat

datatype 'a outcome = Done 'a | Failed io_error | Crashed

type_synonym 'a io = "fs \<Rightarrow> 'a outcome \<times> fs"

definition io_return :: "'a \<Rightarrow> 'a io" where
  "io_return x w = (Done x, w)"

definition io_fail :: "io_error \<Rightarrow> 'a io" where
  "io_fail e w = (Failed e, w)"

definition io_bind :: "'a io \<Rightarrow> ('a \<Rightarrow> 'b io) \<Rightarrow> 'b io" where
  "io_bind m f w =
     (case m w of
        (Done x, w') \<Rightarrow> f x w'
      | (Failed e, w') \<Rightarrow> (Failed e, w')
      | (Crashed, w') \<Rightarrow> (Crashed, w'))"

text \<open>A system call: its effect, and what of it is done when it is cut short after \<open>k\<close> units.\<close>

definition io_prim ::
    "(nodes \<Rightarrow> io_error + 'a \<times> nodes) \<Rightarrow> (nat \<Rightarrow> nodes \<Rightarrow> nodes) \<Rightarrow> 'a io" where
  "io_prim act partial w =
     (let (fault, rest) = (case fs_faults w of [] \<Rightarrow> (NoFault, []) | f # r \<Rightarrow> (f, r));
          w' = w\<lparr>fs_faults := rest\<rparr>
      in (case fault of
            NoFault \<Rightarrow>
              (case act (fs_nodes w) of
                 Inl e \<Rightarrow> (Failed e, w')
               | Inr (x, n) \<Rightarrow> (Done x, w'\<lparr>fs_nodes := n\<rparr>))
          | IoFault e k \<Rightarrow> (Failed e, w'\<lparr>fs_nodes := partial k (fs_nodes w)\<rparr>)
          | CrashFault k \<Rightarrow> (Crashed, w'\<lparr>fs_nodes := partial k (fs_nodes w)\<rparr>)))"

fun resolve :: "nat \<Rightarrow> nodes \<Rightarrow> string \<Rightarrow> node option" where
  "resolve 0 n p = None"
| "resolve (Suc k) n p = (case n p of Some (NLink t) \<Rightarrow> resolve k n t | r \<Rightarrow> r)"

definition lookup_node :: "nodes \<Rightarrow> string \<Rightarrow> node option" where
  "lookup_node n p = resolve 41 n p"

definition is_file :: "string \<Rightarrow> bool io" where
  "is_file p w =
     (Done (case lookup_node (fs_nodes w) p of Some (NFile _) \<Rightarrow> True | _ \<Rightarrow> False), w)"

definition not_found :: io_error where
  "not_found = IoError NotFound ''No such file or directory (os error 2)''"

definition os_error :: "string \<Rightarrow> io_error" where
  "os_error t = IoError OtherKind t"

definition read_file :: "string \<Rightarrow> reg_file io" where
  "read_file p =
     io_prim (\<lambda>n. case lookup_node n p of
                Some (NFile f) \<Rightarrow> Inr (f, n)
              | Some _ \<Rightarrow> Inl (os_error ''Is a directory (os error 21)'')
              | None \<Rightarrow> Inl not_found)
       (\<lambda>k n. n)"

definition open_create_new :: "nat \<Rightarrow> string \<Rightarrow> unit io" where
  "open_create_new mode p =
     io_prim (\<lambda>n. if n p = None then Inr ((), n(p \<mapsto> NFile \<lparr>f_bytes = [], f_mode = mode\<rparr>))
                else Inl (IoError AlreadyExists ''File exists (os error 17)''))
       (\<lambda>k n. n)"

definition set_mode :: "string \<Rightarrow> nat \<Rightarrow> unit io" where
  "set_mode p m =
     io_prim (\<lambda>n. case n p of
                Some (NFile f) \<Rightarrow> Inr ((), n(p \<mapsto> NFile (f\<lparr>f_mode := m\<rparr>)))
              | _ \<Rightarrow> Inl not_found)
       (\<lambda>k n. n)"

definition write_all :: "string \<Rightarrow> string \<Rightarrow> unit io" where
  "write_all p bytes =
     io_prim (\<lambda>n. case n p of
                Some (NFile f) \<Rightarrow> Inr ((), n(p \<mapsto> NFile (f\<lparr>f_bytes := f_bytes f @ bytes\<rparr>)))
              | _ \<Rightarrow> Inl not_found)
       (\<lambda>k n. case n p of
                Some (NFile f) \<Rightarrow> n(p \<mapsto> NFile (f\<lparr>f_bytes := f_bytes f @ take k bytes\<rparr>))
              | _ \<Rightarrow> n)"

definition sync_all :: "string \<Rightarrow> unit io" where
  "sync_all p = io_prim (\<lambda>n. Inr ((), n)) (\<lambda>k n. n)"

definition rename_path :: "string \<Rightarrow> string \<Rightarrow> unit io" where
  "rename_path a b =
     io_prim (\<lambda>n. case n a of
                None \<Rightarrow> Inl not_found
              | Some x \<Rightarrow> if n b = Some NDir then Inl (os_error ''Is a directory (os error 21)'')
                          else Inr ((), (n(a := None))(b \<mapsto> x)))
       (\<lambda>k n. n)"

definition remove_file :: "string \<Rightarrow> unit io" where
  "remove_file p =
     io_prim (\<lambda>n. case n p of
                None \<Rightarrow> Inl not_found
              | Some NDir \<Rightarrow> Inl (os_error ''Is a directory (os error 21)'')
              | Some _ \<Rightarrow> Inr ((), n(p := None)))
       (\<lambda>k n. n)"

text \<open>\<open>create_dir_all\<close> makes the missing directories from the outermost inwards.\<close>

fun dir_chain :: "string \<Rightarrow> string list \<Rightarrow> string list" where
  "dir_chain pre [] = []"
| "dir_chain pre (c # cs) =
     (if c = [] then dir_chain (if pre = [] then ''/'' else pre) cs
      else (let d = (if pre = [] then c else path_join pre c) in d # dir_chain d cs))"

definition make_dirs :: "string list \<Rightarrow> nodes \<Rightarrow> nodes" where
  "make_dirs ds n = (\<lambda>q. if n q = None \<and> q \<in> set ds then Some NDir else n q)"

definition create_dir_all :: "string \<Rightarrow> unit io" where
  "create_dir_all p =
     (let ds = dir_chain [] (split_on (CHR ''/'') p) in
      io_prim (\<lambda>n. if list_all (\<lambda>d. n d = None \<or> lookup_node n d = Some NDir) ds
                 then Inr ((), make_dirs ds n)
                 else Inl (os_error ''Not a directory (os error 20)''))
        (\<lambda>k n. make_dirs (take k ds) n))"

section \<open>The writer\<close>

definition path_parent :: "string \<Rightarrow> string" where
  "path_parent p =
     (let cs = split_on (CHR ''/'') p in
      if butlast cs = [[]] then ''/'' else join_with ''/'' (butlast cs))"

definition path_file_name :: "string \<Rightarrow> string" where
  "path_file_name p = last (split_on (CHR ''/'') p)"

definition tmp_name :: "nat \<Rightarrow> string \<Rightarrow> 64 word \<Rightarrow> string" where
  "tmp_name pid p c =
     (let name = path_file_name p @ ''.tmp-'' @ dec pid @ ''-'' @ dec (unat c);
          parent = path_parent p
      in if parent \<noteq> [] then path_join parent name else name)"

definition tmp_sibling :: "string \<Rightarrow> string io" where
  "tmp_sibling p w =
     (Done (tmp_name (fs_pid w) p (fs_tmp_counter w)),
      w\<lparr>fs_tmp_counter := fs_tmp_counter w + 1\<rparr>)"

fun create_temp_tries :: "nat \<Rightarrow> string \<Rightarrow> string io" where
  "create_temp_tries 0 base w =
     (Failed (IoError AlreadyExists ''could not allocate a unique temp file''), w)"
| "create_temp_tries (Suc k) base w =
     (case tmp_sibling base w of
        (Done tmp, w1) \<Rightarrow>
          (case open_create_new (fs_umask_mode w1) tmp w1 of
             (Done _, w2) \<Rightarrow> (Done tmp, w2)
           | (Failed e, w2) \<Rightarrow>
               if io_kind_of e = AlreadyExists then create_temp_tries k base w2 else (Failed e, w2)
           | (Crashed, w2) \<Rightarrow> (Crashed, w2))
      | (Failed e, w1) \<Rightarrow> (Failed e, w1)
      | (Crashed, w1) \<Rightarrow> (Crashed, w1))"

definition create_new_temp :: "string \<Rightarrow> string io" where
  "create_new_temp base = create_temp_tries 16 base"

definition rename_or_remove :: "string \<Rightarrow> string \<Rightarrow> unit io" where
  "rename_or_remove tmp p w =
     (case rename_path tmp p w of
        (Failed e, w1) \<Rightarrow>
          (case remove_file tmp w1 of
             (Crashed, w2) \<Rightarrow> (Crashed, w2)
           | (_, w2) \<Rightarrow> (Failed e, w2))
      | r \<Rightarrow> r)"

definition bak_path :: "string \<Rightarrow> string" where
  "bak_path p = p @ ''.bak''"

definition backup :: "string \<Rightarrow> unit io" where
  "backup p =
     io_bind (read_file p) (\<lambda>src.
     io_bind (create_new_temp (bak_path p)) (\<lambda>tmp.
     io_bind (write_all tmp (f_bytes src)) (\<lambda>_.
     io_bind (set_mode tmp (f_mode src)) (\<lambda>_.
     io_bind (sync_all tmp) (\<lambda>_.
     rename_or_remove tmp (bak_path p))))))"

text \<open>Mode \<open>0o600\<close>.\<close>

definition MODE_PRIVATE :: nat where "MODE_PRIVATE = 384"

definition set_private_mode :: "string \<Rightarrow> unit io" where
  "set_private_mode p = set_mode p MODE_PRIVATE"

definition atomic_write_impl :: "string \<Rightarrow> string \<Rightarrow> bool \<Rightarrow> unit io" where
  "atomic_write_impl p bytes priv =
     io_bind (if path_parent p \<noteq> [] then create_dir_all (path_parent p) else io_return ()) (\<lambda>_.
     io_bind (is_file p) (\<lambda>exists.
     io_bind (if exists then backup p else io_return ()) (\<lambda>_.
     io_bind (create_new_temp p) (\<lambda>tmp.
     io_bind (if priv then set_private_mode tmp else io_return ()) (\<lambda>_.
     io_bind (write_all tmp bytes) (\<lambda>_.
     io_bind (sync_all tmp) (\<lambda>_.
     rename_or_remove tmp p)))))))"

definition atomic_write :: "string \<Rightarrow> string \<Rightarrow> unit io" where
  "atomic_write p bytes = atomic_write_impl p bytes False"

definition atomic_write_private :: "string \<Rightarrow> string \<Rightarrow> unit io" where
  "atomic_write_private p bytes = atomic_write_impl p bytes True"

definition sha256_file_hex :: "(string \<Rightarrow> string) \<Rightarrow> string \<Rightarrow> string io" where
  "sha256_file_hex sha256_hex p =
     io_bind (read_file p) (\<lambda>f. io_return (sha256_hex (f_bytes f)))"

section \<open>Reasoning about file-system programs\<close>

text \<open>\<open>touches S m\<close>: whatever the faults, \<open>m\<close> changes no node outside \<open>S\<close>.
  \<open>hoare P m Q\<close>: when \<open>m\<close> is done, from nodes with \<open>P\<close>, its result and the nodes satisfy \<open>Q\<close>.\<close>

definition touches :: "string set \<Rightarrow> 'a io \<Rightarrow> bool" where
  "touches S m \<longleftrightarrow> (\<forall>w q. q \<notin> S \<longrightarrow> fs_nodes (snd (m w)) q = fs_nodes w q)"

definition hoare :: "(nodes \<Rightarrow> bool) \<Rightarrow> 'a io \<Rightarrow> ('a \<Rightarrow> nodes \<Rightarrow> bool) \<Rightarrow> bool" where
  "hoare P m Q \<longleftrightarrow>
     (\<forall>w. P (fs_nodes w) \<longrightarrow> (case m w of (Done x, w') \<Rightarrow> Q x (fs_nodes w') | _ \<Rightarrow> True))"

lemma hoareD: "hoare P m Q \<Longrightarrow> P (fs_nodes w) \<Longrightarrow> m w = (Done x, w') \<Longrightarrow> Q x (fs_nodes w')"
  by (auto simp: hoare_def split: prod.splits outcome.splits)

lemma hoareI:
  "(\<And>w x w'. P (fs_nodes w) \<Longrightarrow> m w = (Done x, w') \<Longrightarrow> Q x (fs_nodes w')) \<Longrightarrow> hoare P m Q"
  by (auto simp: hoare_def split: prod.splits outcome.splits)

lemma hoare_weaken:
  "hoare P m Q \<Longrightarrow> (\<And>n. P' n \<Longrightarrow> P n) \<Longrightarrow> (\<And>x n. Q x n \<Longrightarrow> Q' x n) \<Longrightarrow> hoare P' m Q'"
  by (blast intro: hoareI dest: hoareD)

lemma hoare_return: "(\<And>n. P n \<Longrightarrow> Q x n) \<Longrightarrow> hoare P (io_return x) Q"
  by (simp add: hoare_def io_return_def)

lemma hoare_bind:
  assumes "hoare P m R" and "\<And>x. hoare (R x) (f x) Q"
  shows "hoare P (io_bind m f) Q"
proof (rule hoareI)
  fix w x w' assume P: "P (fs_nodes w)" and "io_bind m f w = (Done x, w')"
  then obtain y w1 where y: "m w = (Done y, w1)" "f y w1 = (Done x, w')"
    by (auto simp: io_bind_def split: prod.splits outcome.splits)
  from hoareD [OF assms(1) P y(1)] have "R y (fs_nodes w1)" .
  from hoareD [OF assms(2) this y(2)] show "Q x (fs_nodes w')" .
qed

lemma hoare_prim:
  assumes "\<And>n x n'. P n \<Longrightarrow> act n = Inr (x, n') \<Longrightarrow> Q x n'"
  shows "hoare P (io_prim act partial) Q"
  using assms
  by (auto simp: hoare_def io_prim_def Let_def split: prod.splits outcome.splits fault.splits
      sum.splits list.splits)

lemma touches_return: "touches S (io_return x)"
  by (simp add: touches_def io_return_def)

lemma touches_is_file: "touches S (is_file p)"
  by (simp add: touches_def is_file_def)

lemma touches_mono: "touches S m \<Longrightarrow> S \<subseteq> T \<Longrightarrow> touches T m"
  by (auto simp: touches_def)

lemma touches_bind:
  assumes m: "touches S m" and y: "hoare (\<lambda>_. True) m (\<lambda>x _. R x)"
    and f: "\<And>x. R x \<Longrightarrow> touches S (f x)"
  shows "touches S (io_bind m f)"
  unfolding touches_def
proof (intro allI impI)
  fix w q assume q: "q \<notin> S"
  obtain r w1 where e: "m w = (r, w1)" by fastforce
  have m1: "fs_nodes w1 q = fs_nodes w q" using m q e unfolding touches_def by (metis snd_conv)
  show "fs_nodes (snd (io_bind m f w)) q = fs_nodes w q"
  proof (cases r)
    case (Done x)
    then have "R x" using hoareD [OF y] e by blast
    then have "fs_nodes (snd (f x w1)) q = fs_nodes w1 q" using f q unfolding touches_def by blast
    then show ?thesis using e m1 Done by (simp add: io_bind_def)
  qed (use e m1 in \<open>simp_all add: io_bind_def\<close>)
qed

lemma hoare_True: "hoare P m (\<lambda>x _. True)"
  by (simp add: hoare_def split: prod.splits outcome.splits)

lemmas touches_seq = touches_bind [where R = "\<lambda>_. True", OF _ hoare_True]

lemma touches_prim:
  assumes "\<And>n x n' q. act n = Inr (x, n') \<Longrightarrow> q \<notin> S \<Longrightarrow> n' q = n q"
    and "\<And>k n q. q \<notin> S \<Longrightarrow> partial k n q = n q"
  shows "touches S (io_prim act partial)"
  using assms
  by (auto simp: touches_def io_prim_def Let_def split: fault.splits sum.splits list.splits)

lemma touches_calls:
  "touches {} (read_file p)" "touches {p} (open_create_new m p)" "touches {p} (set_mode p m)"
  "touches {p} (write_all p b)" "touches {} (sync_all p)" "touches {a, p} (rename_path a p)"
  "touches {p} (remove_file p)"
  by (auto simp: read_file_def open_create_new_def set_mode_def write_all_def sync_all_def
      rename_path_def remove_file_def intro!: touches_prim
      split: option.splits node.splits if_splits)

lemma touches_create_dir_all:
  "touches (set (dir_chain [] (split_on (CHR ''/'') p))) (create_dir_all p)"
  unfolding create_dir_all_def Let_def
  by (rule touches_prim) (auto simp: make_dirs_def split: if_splits dest: in_set_takeD)

lemma io_bind_assoc: "io_bind (io_bind m f) g = io_bind m (\<lambda>x. io_bind (f x) g)"
  by (rule ext) (simp add: io_bind_def split: prod.splits outcome.splits)

section \<open>Temporary names\<close>

definition tmps :: "string \<Rightarrow> string set" where
  "tmps p = {q. \<exists>pid c. q = tmp_name pid p c}"

text \<open>The paths the callers use: no empty component but the root's, a file name at the end.\<close>

definition path_plain :: "string \<Rightarrow> bool" where
  "path_plain p \<longleftrightarrow> list_all (\<lambda>c. c \<noteq> []) (tl (split_on (CHR ''/'') p)) \<and> path_file_name p \<noteq> []"

lemma join_with_snoc: "xs \<noteq> [] \<Longrightarrow> join_with s (xs @ [x]) = join_with s xs @ s @ x"
  by (induction s xs rule: join_with.induct) auto

lemma last_join:
  assumes "xs \<noteq> []" "last xs \<noteq> []"
  shows "last (join_with s xs) = last (last xs) \<and> join_with s xs \<noteq> []"
  using assms
proof (induction xs rule: rev_induct)
  case (snoc x xs)
  then show ?case by (cases "xs = []") (simp_all add: join_with_snoc)
qed simp

lemma path_split:
  assumes "path_plain p"
  shows "path_parent p = [] \<and> p = path_file_name p \<or>
    path_parent p = ''/'' \<and> p = ''/'' @ path_file_name p \<or>
    path_parent p \<noteq> [] \<and> last (path_parent p) \<noteq> CHR ''/'' \<and>
      p = path_parent p @ ''/'' @ path_file_name p"
proof -
  let ?cs = "split_on (CHR ''/'') p"
  have p: "p = join_with ''/'' ?cs" by simp
  have cs: "?cs = butlast ?cs @ [path_file_name p]"
    by (simp add: path_file_name_def)
  show ?thesis
  proof (cases "butlast ?cs = []")
    case True
    then have "p = path_file_name p" using p cs by (metis append_Nil join_with.simps(2))
    then show ?thesis using True by (simp add: path_parent_def Let_def)
  next
    case False
    have eq: "p = join_with ''/'' (butlast ?cs) @ ''/'' @ path_file_name p"
      using p cs join_with_snoc [OF False] by metis
    show ?thesis
    proof (cases "butlast ?cs = [[]]")
      case True
      then show ?thesis using eq by (simp add: path_parent_def Let_def)
    next
      case ne: False
      let ?l = "last (butlast ?cs)"
      have "?l \<noteq> []"
      proof (cases "butlast ?cs")
        case (Cons a as)
        then have "tl ?cs = as @ [path_file_name p]" using cs by (metis append_Cons list.sel(3))
        then have "list_all (\<lambda>c. c \<noteq> []) as" using assms by (simp add: path_plain_def)
        then show ?thesis using Cons ne by (cases as rule: rev_cases) (auto split: if_splits)
      qed (use False in simp)
      moreover have "?l \<in> set ?cs" using False by (metis in_set_butlastD last_in_set)
      then have "CHR ''/'' \<notin> set ?l" by (rule split_on_parts)
      ultimately have "last ?l \<noteq> CHR ''/''" by (metis last_in_set)
      then show ?thesis
        using eq ne last_join [OF False \<open>?l \<noteq> []\<close>, of "''/''"] by (simp add: path_parent_def Let_def)
    qed
  qed
qed

lemma path_file_name_no_slash: "CHR ''/'' \<notin> set (path_file_name p)"
  by (simp add: path_file_name_def split_on_last_no_sep)

lemma tmp_name_append:
  assumes "path_plain p"
  shows "tmp_name pid p c = p @ ''.tmp-'' @ dec pid @ ''-'' @ dec (unat c)"
proof -
  have ne: "path_file_name p \<noteq> []" using assms by (simp add: path_plain_def)
  then have "hd (path_file_name p) \<noteq> CHR ''/''"
    using path_file_name_no_slash [of p] by (metis hd_in_set)
  then have "\<not> path_is_absolute (path_file_name p @ s)" for s
    using ne by (cases "path_file_name p") (auto simp: path_is_absolute_def)
  then show ?thesis
    using path_split [OF assms]
    by (elim disjE) (auto simp: tmp_name_def path_join_def Let_def)
qed

lemma path_plain_bak: "path_plain p \<Longrightarrow> path_plain (bak_path p)"
proof -
  assume p: "path_plain p"
  have s: "split_on (CHR ''/'') (bak_path p) = butlast (split_on (CHR ''/'') p) @ [path_file_name p @ ''.bak'']"
    unfolding bak_path_def split_on_append [of "CHR ''/''" p "''.bak''"]
    using path_file_name_no_slash [of p]
    by (simp add: split_on_no_sep path_file_name_def)
  have "list_all (\<lambda>c. c \<noteq> []) (tl (butlast (split_on (CHR ''/'') p)))"
    using p by (metis path_plain_def butlast_tl list_all_iff in_set_butlastD)
  then show ?thesis
    unfolding path_plain_def path_file_name_def s
    by (cases "butlast (split_on (CHR ''/'') p)") simp_all
qed

lemma tmps_distinct:
  assumes "path_plain p"
  shows "p \<notin> tmps p" "p \<notin> tmps (bak_path p)" "bak_path p \<notin> tmps p" "p \<noteq> bak_path p"
proof -
  note n = tmp_name_append [OF assms] tmp_name_append [OF path_plain_bak [OF assms]]
  show "p \<notin> tmps p" "p \<notin> tmps (bak_path p)" "bak_path p \<notin> tmps p" "p \<noteq> bak_path p"
    unfolding tmps_def n by (simp_all add: bak_path_def)
qed

lemma dir_chain_length:
  "d \<in> set (dir_chain pre cs) \<Longrightarrow>
   length d + (if pre = [] \<or> last pre = CHR ''/'' then 1 else 0)
     \<le> length pre + sum_list (map (\<lambda>c. Suc (length c)) cs)"
  by (induction pre cs rule: dir_chain.induct) (auto simp: path_join_def Let_def split: if_splits)

lemma length_join_slash:
  "cs \<noteq> [] \<Longrightarrow> sum_list (map (\<lambda>c. Suc (length c)) cs) = Suc (length (join_with ''/'' cs))"
  by (induction "''/''" cs rule: join_with.induct) auto

lemma dir_chain_shorter:
  assumes "d \<in> set (dir_chain [] (split_on (CHR ''/'') p))"
  shows "length d \<le> length p"
  using dir_chain_length [OF assms] length_join_slash [of "split_on (CHR ''/'') p"] by simp

lemma parent_not_target:
  assumes "path_plain p" "path_parent p \<noteq> []"
  shows "p \<notin> set (dir_chain [] (split_on (CHR ''/'') (path_parent p)))"
proof -
  have "path_file_name p \<noteq> []" using assms by (simp add: path_plain_def)
  from path_split [OF assms(1)] assms(2) consider "path_parent p = ''/''"
    | "p = path_parent p @ ''/'' @ path_file_name p" by blast
  then show ?thesis
  proof cases
    case 1
    then show ?thesis by simp
  next
    case 2
    then have "length (path_parent p) < length p"
      by (metis add_Suc_right append_Cons append_Nil le_add1 le_imp_less_Suc length_Cons
          length_append)
    then show ?thesis using dir_chain_shorter [of p "path_parent p"] by auto
  qed
qed

section \<open>The temporary file\<close>

lemma hoare_create_temp:
  "hoare P (create_temp_tries k base)
     (\<lambda>tmp n. tmp \<in> tmps base \<and>
        (\<exists>n0 m. P n0 \<and> n0 tmp = None \<and> n = n0(tmp \<mapsto> NFile \<lparr>f_bytes = [], f_mode = m\<rparr>)))"
proof (induction k)
  case 0
  show ?case by (simp add: hoare_def)
next
  case (Suc k)
  show ?case
  proof (rule hoareI)
    fix w tmp w' assume P: "P (fs_nodes w)"
      and r: "create_temp_tries (Suc k) base w = (Done tmp, w')"
    let ?t = "tmp_name (fs_pid w) base (fs_tmp_counter w)"
    define w1 where "w1 = w\<lparr>fs_tmp_counter := fs_tmp_counter w + 1\<rparr>"
    have t: "tmp_sibling base w = (Done ?t, w1)" by (simp add: tmp_sibling_def w1_def)
    have P1: "P (fs_nodes w1)" using P by (simp add: w1_def)
    obtain x w2 where o': "open_create_new (fs_umask_mode w1) ?t w1 = (x, w2)" by fastforce
    show "tmp \<in> tmps base \<and> (\<exists>n0 m. P n0 \<and> n0 tmp = None \<and>
        fs_nodes w' = n0(tmp \<mapsto> NFile \<lparr>f_bytes = [], f_mode = m\<rparr>))"
    proof (cases x)
      case (Done u)
      then have e: "tmp = ?t" "w' = w2" using r t o' by simp_all
      have "fs_nodes w1 ?t = None \<and> fs_nodes w2 =
          (fs_nodes w1)(?t \<mapsto> NFile \<lparr>f_bytes = [], f_mode = fs_umask_mode w1\<rparr>)"
        using o' Done by (auto simp: open_create_new_def io_prim_def Let_def split: list.splits
            fault.splits if_splits)
      then show ?thesis using P1 e unfolding tmps_def by blast
    next
      case (Failed e)
      then have "create_temp_tries k base w2 = (Done tmp, w')" "io_kind_of e = AlreadyExists"
        using r t o' by (simp_all split: if_splits)
      moreover have "fs_nodes w2 = fs_nodes w1"
        using o' Failed by (auto simp: open_create_new_def io_prim_def Let_def split: list.splits
            fault.splits if_splits)
      ultimately show ?thesis using hoareD [OF Suc.IH, of w2] P1 by metis
    next
      case Crashed
      then show ?thesis using r t o' by simp
    qed
  qed
qed

lemma touches_create_temp: "touches (tmps base) (create_temp_tries k base)"
proof (induction k)
  case (Suc k)
  show ?case unfolding touches_def
  proof (intro allI impI)
    fix w :: fs and q assume q: "q \<notin> tmps base"
    let ?t = "tmp_name (fs_pid w) base (fs_tmp_counter w)"
    define w1 where "w1 = w\<lparr>fs_tmp_counter := fs_tmp_counter w + 1\<rparr>"
    have t: "tmp_sibling base w = (Done ?t, w1)" by (simp add: tmp_sibling_def w1_def)
    obtain x w2 where o': "open_create_new (fs_umask_mode w1) ?t w1 = (x, w2)" by fastforce
    have "?t \<in> tmps base" unfolding tmps_def by blast
    then have "q \<noteq> ?t" using q by auto
    then have "fs_nodes w2 q = fs_nodes w q"
      using touches_calls(2) [of ?t "fs_umask_mode w1"] o' unfolding touches_def
      by (metis singletonD snd_conv w1_def fs.ext_inject fs.surjective fs.update_convs(2))
    then show "fs_nodes (snd (create_temp_tries (Suc k) base w)) q = fs_nodes w q"
      using t o' Suc.IH q by (cases x) (simp_all add: touches_def)
  qed
qed (simp add: touches_def)

lemmas create_new_temp_hoare = hoare_create_temp [of _ 16, folded create_new_temp_def]
lemmas create_new_temp_touches = touches_create_temp [of _ 16, folded create_new_temp_def]

lemma hoare_True_tmp: "hoare (\<lambda>_. True) (create_new_temp base) (\<lambda>t _. t \<in> tmps base)"
  by (rule hoare_weaken [OF create_new_temp_hoare [where P = "\<lambda>_. True"]]) auto

lemma touches_rename_or_remove: "touches {a, p} (rename_or_remove a p)"
  using touches_calls(6) [of a p] touches_calls(7) [of a]
  by (auto simp: touches_def rename_or_remove_def split: prod.splits outcome.splits)
    (metis snd_conv)+

lemma rename_or_remove_result:
  assumes "a \<noteq> p"
  shows "case rename_or_remove a p w of
     (Done _, w') \<Rightarrow> fs_nodes w' p = fs_nodes w a
   | (_, w') \<Rightarrow> fs_nodes w' p = fs_nodes w p"
proof -
  obtain r w1 where r: "rename_path a p w = (r, w1)" by fastforce
  have w1: "case r of Done _ \<Rightarrow> fs_nodes w1 p = fs_nodes w a | _ \<Rightarrow> fs_nodes w1 = fs_nodes w"
    using r by (auto simp: rename_path_def io_prim_def Let_def
        split: outcome.splits fault.splits list.splits sum.splits option.splits if_splits)
  show ?thesis
  proof (cases r)
    case (Failed e)
    obtain r2 w2 where "remove_file a w1 = (r2, w2)" by fastforce
    moreover from this have "fs_nodes w2 p = fs_nodes w1 p"
      using touches_calls(7) [of a] assms unfolding touches_def by (metis singletonD snd_conv)
    ultimately show ?thesis
      using r w1 Failed by (cases r2) (simp_all add: rename_or_remove_def)
  qed (use r w1 in \<open>simp_all add: rename_or_remove_def\<close>)
qed

section \<open>The target is old or new\<close>

definition stable_at :: "string \<Rightarrow> (nodes \<Rightarrow> bool) \<Rightarrow> bool" where
  "stable_at t R \<longleftrightarrow> (\<forall>n v. R n \<longrightarrow> R (n(t := v)))"

lemma hoare_write:
  "stable_at t R \<Longrightarrow> hoare (\<lambda>n. n t = Some (NFile g) \<and> R n) (write_all t b)
     (\<lambda>_ n. n t = Some (NFile (g\<lparr>f_bytes := f_bytes g @ b\<rparr>)) \<and> R n)"
  unfolding write_all_def by (rule hoare_prim) (auto simp: stable_at_def)

lemma hoare_set_mode:
  "stable_at t R \<Longrightarrow> hoare (\<lambda>n. n t = Some (NFile g) \<and> R n) (set_mode t m)
     (\<lambda>_ n. n t = Some (NFile (g\<lparr>f_mode := m\<rparr>)) \<and> R n)"
  unfolding set_mode_def by (rule hoare_prim) (auto simp: stable_at_def)

lemma hoare_sync: "hoare P (sync_all t) (\<lambda>_ n. P n)"
  unfolding sync_all_def by (rule hoare_prim) auto

lemma hoare_rename_or_remove:
  assumes "a \<noteq> p"
  shows "hoare (\<lambda>n. n a = Some x) (rename_or_remove a p) (\<lambda>_ n. n p = Some x)"
proof (rule hoareI)
  fix w u w' assume "fs_nodes w a = Some x" "rename_or_remove a p w = (Done u, w')"
  then show "fs_nodes w' p = Some x" using rename_or_remove_result [OF assms, of w] by simp
qed

lemma hoare_read:
  "hoare (\<lambda>n. lookup_node n p = Some (NFile f)) (read_file p) (\<lambda>src _. src = f)"
  unfolding read_file_def by (rule hoare_prim) auto

lemma hoare_fresh_tmp:
  assumes "\<And>t. t \<in> tmps base \<Longrightarrow> stable_at t R"
  shows "hoare R (create_new_temp base)
    (\<lambda>t n. t \<in> tmps base \<and> (\<exists>m. n t = Some (NFile \<lparr>f_bytes = [], f_mode = m\<rparr>) \<and> R n))"
proof (rule hoare_weaken [OF create_new_temp_hoare [where P = R]])
  fix t n
  assume "t \<in> tmps base \<and> (\<exists>n0 m. R n0 \<and> n0 t = None \<and>
      n = n0(t \<mapsto> NFile \<lparr>f_bytes = [], f_mode = m\<rparr>))"
  then show "t \<in> tmps base \<and> (\<exists>m. n t = Some (NFile \<lparr>f_bytes = [], f_mode = m\<rparr>) \<and> R n)"
    using assms by (auto simp: stable_at_def)
qed simp

lemma hoare_False: "hoare (\<lambda>_. False) c Q"
  by (simp add: hoare_def)

lemma hoare_ex: "(\<And>m. hoare (P m) c Q) \<Longrightarrow> hoare (\<lambda>n. \<exists>m. P m n) c Q"
  by (rule hoareI) (blast dest: hoareD)

lemma hoare_conj_const: "(A \<Longrightarrow> hoare P c Q) \<Longrightarrow> hoare (\<lambda>n. A \<and> P n) c Q"
  by (auto simp: hoare_def split: prod.splits outcome.splits)

lemma backup_hoare:
  assumes "path_plain p"
  shows "hoare (\<lambda>n. lookup_node n p = Some (NFile f)) (backup p)
    (\<lambda>_ n. n (bak_path p) = Some (NFile f))"
  unfolding backup_def
proof (rule hoare_bind [OF hoare_read])
  fix src
  have ne: "t \<noteq> bak_path p" if "t \<in> tmps (bak_path p)" for t
    using tmps_distinct(1) [OF path_plain_bak [OF assms]] that by auto
  have st: "stable_at t (\<lambda>_. src = f)" for t by (simp add: stable_at_def)
  show "hoare (\<lambda>_. src = f) (io_bind (create_new_temp (bak_path p)) (\<lambda>tmp.
     io_bind (write_all tmp (f_bytes src)) (\<lambda>_. io_bind (set_mode tmp (f_mode src)) (\<lambda>_.
     io_bind (sync_all tmp) (\<lambda>_. rename_or_remove tmp (bak_path p))))))
     (\<lambda>_ n. n (bak_path p) = Some (NFile f))"
  proof (rule hoare_bind [OF hoare_fresh_tmp [OF st]], intro hoare_conj_const hoare_ex)
    fix t m assume t: "t \<in> tmps (bak_path p)"
    show "hoare (\<lambda>n. n t = Some (NFile \<lparr>f_bytes = [], f_mode = m\<rparr>) \<and> src = f)
      (io_bind (write_all t (f_bytes src)) (\<lambda>_. io_bind (set_mode t (f_mode src)) (\<lambda>_.
       io_bind (sync_all t) (\<lambda>_. rename_or_remove t (bak_path p)))))
      (\<lambda>_ n. n (bak_path p) = Some (NFile f))"
      by (rule hoare_bind [OF hoare_write [OF st]], rule hoare_bind [OF hoare_set_mode [OF st]],
          rule hoare_bind [OF hoare_sync],
          rule hoare_weaken [OF hoare_rename_or_remove [OF ne [OF t]]]) auto
  qed
qed

lemma backup_touches: "touches (tmps (bak_path p) \<union> {bak_path p}) (backup p)"
  unfolding backup_def
  by (intro touches_seq touches_bind [OF _ hoare_True_tmp] touches_mono [OF touches_calls(1)]
      touches_mono [OF create_new_temp_touches] touches_mono [OF touches_calls(4)]
      touches_mono [OF touches_calls(3)] touches_mono [OF touches_calls(5)]
      touches_mono [OF touches_rename_or_remove]) auto

definition atomic_prepare :: "string \<Rightarrow> string \<Rightarrow> bool \<Rightarrow> string io" where
  "atomic_prepare p bytes priv =
     io_bind (if path_parent p \<noteq> [] then create_dir_all (path_parent p) else io_return ()) (\<lambda>_.
     io_bind (is_file p) (\<lambda>exists.
     io_bind (if exists then backup p else io_return ()) (\<lambda>_.
     io_bind (create_new_temp p) (\<lambda>tmp.
     io_bind (if priv then set_private_mode tmp else io_return ()) (\<lambda>_.
     io_bind (write_all tmp bytes) (\<lambda>_.
     io_bind (sync_all tmp) (\<lambda>_. io_return tmp)))))))"

lemma io_bind_return: "io_bind (io_return x) f = f x"
  by (rule ext) (simp add: io_bind_def io_return_def)

lemma atomic_write_split:
  "atomic_write_impl p bytes priv = io_bind (atomic_prepare p bytes priv) (\<lambda>t. rename_or_remove t p)"
  by (simp add: atomic_write_impl_def atomic_prepare_def io_bind_assoc io_bind_return)

lemma prepare_touches:
  assumes "path_plain p"
  shows "touches (- {p}) (atomic_prepare p bytes priv)"
proof -
  have t: "t \<noteq> p" if "t \<in> tmps p" for t using tmps_distinct(1) [OF assms] that by auto
  have "touches (- {p}) (if path_parent p \<noteq> [] then create_dir_all (path_parent p) else io_return ())"
    using parent_not_target [OF assms] touches_create_dir_all [of "path_parent p"]
    by (auto simp: touches_return intro: touches_mono)
  moreover have "touches (- {p}) (if e then backup p else io_return ())" for e
    using tmps_distinct [OF assms] backup_touches [of p]
    by (auto simp: touches_return intro: touches_mono)
  moreover have "touches (- {p}) (create_new_temp p)"
    by (rule touches_mono [OF create_new_temp_touches]) (auto dest: t)
  moreover have "touches (- {p}) (if priv then set_private_mode t else io_return ())"
      "touches (- {p}) (write_all t bytes)" "touches (- {p}) (sync_all t)" if "t \<in> tmps p" for t
    using t [OF that] by (auto simp: set_private_mode_def touches_return
        intro: touches_mono [OF touches_calls(3)] touches_mono [OF touches_calls(4)]
        touches_mono [OF touches_calls(5)])
  ultimately show ?thesis unfolding atomic_prepare_def
    by (intro touches_seq touches_bind [OF _ hoare_True_tmp] touches_is_file touches_return) auto
qed

lemma resolve_make_dirs: "resolve k n p = Some x \<Longrightarrow> resolve k (make_dirs ds n) p = Some x"
  by (induction k arbitrary: p) (auto simp: make_dirs_def split: option.splits node.splits if_splits)

lemma create_dir_all_keeps:
  "hoare (\<lambda>n. lookup_node n p = Some x) (create_dir_all d) (\<lambda>_ n. lookup_node n p = Some x)"
  unfolding create_dir_all_def Let_def lookup_node_def
  by (rule hoare_prim) (auto simp: resolve_make_dirs split: if_splits)

text \<open>The precondition \<open>old\<close> records the file at the target, if there is one; the backup then
  holds it when the temporary file is ready.\<close>

definition old_file :: "string \<Rightarrow> reg_file option \<Rightarrow> nodes \<Rightarrow> bool" where
  "old_file p old n \<longleftrightarrow> (case old of Some f \<Rightarrow> lookup_node n p = Some (NFile f) | None \<Rightarrow> True)"

definition backed_up :: "string \<Rightarrow> reg_file option \<Rightarrow> nodes \<Rightarrow> bool" where
  "backed_up p old n \<longleftrightarrow> (case old of Some f \<Rightarrow> n (bak_path p) = Some (NFile f) | None \<Rightarrow> True)"

lemma prepare_hoare:
  assumes "path_plain p"
  shows "hoare (old_file p old) (atomic_prepare p bytes priv)
    (\<lambda>t n. t \<in> tmps p \<and> backed_up p old n \<and>
       (\<exists>m. n t = Some (NFile \<lparr>f_bytes = bytes, f_mode = m\<rparr>) \<and> (priv \<longrightarrow> m = MODE_PRIVATE)))"
  unfolding atomic_prepare_def
proof (rule hoare_bind)
  show "hoare (old_file p old)
      (if path_parent p \<noteq> [] then create_dir_all (path_parent p) else io_return ())
      (\<lambda>_. old_file p old)"
    using create_dir_all_keeps
    by (cases old) (auto simp: old_file_def [abs_def] hoare_True intro: hoare_return)
next
  have st: "stable_at t (backed_up p old)" if "t \<in> tmps p" for t
    using tmps_distinct(3) [OF assms] that
    by (auto simp: stable_at_def backed_up_def split: option.splits)
  show "hoare (old_file p old)
     (io_bind (is_file p) (\<lambda>exists. io_bind (if exists then backup p else io_return ()) (\<lambda>_.
      io_bind (create_new_temp p) (\<lambda>tmp.
      io_bind (if priv then set_private_mode tmp else io_return ()) (\<lambda>_.
      io_bind (write_all tmp bytes) (\<lambda>_. io_bind (sync_all tmp) (\<lambda>_. io_return tmp)))))))
     (\<lambda>t n. t \<in> tmps p \<and> backed_up p old n \<and>
       (\<exists>m. n t = Some (NFile \<lparr>f_bytes = bytes, f_mode = m\<rparr>) \<and> (priv \<longrightarrow> m = MODE_PRIVATE)))"
  proof (rule hoare_bind [where R = "\<lambda>e n. old_file p old n \<and> (old \<noteq> None \<longrightarrow> e)"])
    show "hoare (old_file p old) (is_file p) (\<lambda>e n. old_file p old n \<and> (old \<noteq> None \<longrightarrow> e))"
      by (auto simp: hoare_def is_file_def old_file_def split: option.splits)
  next
    fix e
    have b: "hoare (\<lambda>n. old_file p old n \<and> (old \<noteq> None \<longrightarrow> e))
        (if e then backup p else io_return ()) (\<lambda>_. backed_up p old)"
      using backup_hoare [OF assms]
      by (cases old; cases e)
        (simp_all add: old_file_def [abs_def] backed_up_def [abs_def] hoare_True hoare_False)
    show "hoare (\<lambda>n. old_file p old n \<and> (old \<noteq> None \<longrightarrow> e))
      (io_bind (if e then backup p else io_return ()) (\<lambda>_.
      io_bind (create_new_temp p) (\<lambda>tmp.
      io_bind (if priv then set_private_mode tmp else io_return ()) (\<lambda>_.
      io_bind (write_all tmp bytes) (\<lambda>_. io_bind (sync_all tmp) (\<lambda>_. io_return tmp))))))
     (\<lambda>t n. t \<in> tmps p \<and> backed_up p old n \<and>
       (\<exists>m. n t = Some (NFile \<lparr>f_bytes = bytes, f_mode = m\<rparr>) \<and> (priv \<longrightarrow> m = MODE_PRIVATE)))"
    proof (rule hoare_bind [OF b], rule hoare_bind [OF hoare_fresh_tmp [OF st]], assumption,
        intro hoare_conj_const hoare_ex)
      fix t m assume t: "t \<in> tmps p"
      note st = st [OF t]
      let ?Q = "\<lambda>_ n. \<exists>m. (priv \<longrightarrow> m = MODE_PRIVATE) \<and>
        n t = Some (NFile \<lparr>f_bytes = [], f_mode = m\<rparr>) \<and> backed_up p old n"
      have md: "hoare (\<lambda>n. n t = Some (NFile \<lparr>f_bytes = [], f_mode = m\<rparr>) \<and> backed_up p old n)
         (if priv then set_private_mode t else io_return ()) ?Q"
        by (auto simp: set_private_mode_def intro: hoare_return hoare_weaken [OF hoare_set_mode [OF st]])
      show "hoare (\<lambda>n. n t = Some (NFile \<lparr>f_bytes = [], f_mode = m\<rparr>) \<and> backed_up p old n)
        (io_bind (if priv then set_private_mode t else io_return ()) (\<lambda>_.
         io_bind (write_all t bytes) (\<lambda>_. io_bind (sync_all t) (\<lambda>_. io_return t))))
        (\<lambda>t n. t \<in> tmps p \<and> backed_up p old n \<and>
         (\<exists>m. n t = Some (NFile \<lparr>f_bytes = bytes, f_mode = m\<rparr>) \<and> (priv \<longrightarrow> m = MODE_PRIVATE)))"
      proof (rule hoare_bind [OF md], intro hoare_ex hoare_conj_const)
        fix m' assume m': "priv \<longrightarrow> m' = MODE_PRIVATE"
        show "hoare (\<lambda>n. n t = Some (NFile \<lparr>f_bytes = [], f_mode = m'\<rparr>) \<and> backed_up p old n)
          (io_bind (write_all t bytes) (\<lambda>_. io_bind (sync_all t) (\<lambda>_. io_return t)))
          (\<lambda>t n. t \<in> tmps p \<and> backed_up p old n \<and>
           (\<exists>m. n t = Some (NFile \<lparr>f_bytes = bytes, f_mode = m\<rparr>) \<and> (priv \<longrightarrow> m = MODE_PRIVATE)))"
          by (rule hoare_bind [OF hoare_write [OF st]], rule hoare_bind [OF hoare_sync],
              rule hoare_return) (use t m' in auto)
      qed
    qed
  qed
qed

lemma atomic_write_outcome:
  assumes "path_plain p"
  shows "case atomic_write_impl p bytes priv w of
      (Done _, w') \<Rightarrow>
        (\<exists>m. fs_nodes w' p = Some (NFile \<lparr>f_bytes = bytes, f_mode = m\<rparr>)
           \<and> (priv \<longrightarrow> m = MODE_PRIVATE)) \<and>
        (\<forall>f. lookup_node (fs_nodes w) p = Some (NFile f)
           \<longrightarrow> fs_nodes w' (bak_path p) = Some (NFile f))
    | (_, w') \<Rightarrow> fs_nodes w' p = fs_nodes w p"
proof -
  define old where "old = (case lookup_node (fs_nodes w) p of Some (NFile f) \<Rightarrow> Some f | _ \<Rightarrow> None)"
  have old: "old_file p old (fs_nodes w)"
    by (auto simp: old_def old_file_def split: option.splits node.splits)
  obtain r w1 where e: "atomic_prepare p bytes priv w = (r, w1)" by fastforce
  have p1: "fs_nodes w1 p = fs_nodes w p"
    using prepare_touches [OF assms, of bytes priv] e unfolding touches_def
    by (metis ComplD insertCI snd_conv)
  show ?thesis
  proof (cases r)
    case (Done t)
    from hoareD [OF prepare_hoare [OF assms] old e [unfolded Done]]
    obtain m where t: "t \<in> tmps p" and b: "backed_up p old (fs_nodes w1)"
      and m: "fs_nodes w1 t = Some (NFile \<lparr>f_bytes = bytes, f_mode = m\<rparr>)"
        "priv \<longrightarrow> m = MODE_PRIVATE" by blast
    have tp: "t \<noteq> p" "t \<noteq> bak_path p" "p \<noteq> bak_path p" using t tmps_distinct [OF assms] by auto
    obtain r2 w2 where r2: "rename_or_remove t p w1 = (r2, w2)" by fastforce
    have bak: "fs_nodes w2 (bak_path p) = fs_nodes w1 (bak_path p)"
      using touches_rename_or_remove [of t p] r2 tp unfolding touches_def
      by (metis empty_iff insert_iff snd_conv)
    have eq: "atomic_write_impl p bytes priv w = (r2, w2)"
      using e r2 Done by (simp add: atomic_write_split io_bind_def)
    show ?thesis unfolding eq
      using rename_or_remove_result [OF tp(1), of w1] r2 m p1 bak b
      by (cases r2) (auto simp: backed_up_def old_def)
  qed (use e p1 in \<open>simp_all add: atomic_write_split io_bind_def\<close>)
qed

lemma atomic_write_ok:
  assumes "path_plain p" and "atomic_write_impl p bytes priv w = (Done u, w')"
  shows "\<exists>m. fs_nodes w' p = Some (NFile \<lparr>f_bytes = bytes, f_mode = m\<rparr>)"
  using atomic_write_outcome [OF assms(1), of bytes priv w] assms(2) by auto

lemma io_prim_clean:
  "fs_faults w = [] \<Longrightarrow> io_prim act partial w =
     (case act (fs_nodes w) of Inl e \<Rightarrow> (Failed e, w) | Inr (x, n) \<Rightarrow> (Done x, w\<lparr>fs_nodes := n\<rparr>))"
  by (cases w) (auto simp: io_prim_def split: sum.splits)

text \<open>Without faults a write to a fresh path succeeds, when its directories are directories and the
  next temporary name is free.\<close>

lemma atomic_write_fresh:
  assumes "path_plain p" "fs_faults w = []" "fs_nodes w p = None"
    and "fs_nodes w (tmp_name (fs_pid w) p (fs_tmp_counter w)) = None"
    and "list_all (\<lambda>d. fs_nodes w d = None \<or> lookup_node (fs_nodes w) d = Some NDir)
      (dir_chain [] (split_on (CHR ''/'') (path_parent p)))"
  shows "\<exists>w'. atomic_write_impl p bytes False w = (Done (), w')"
proof -
  let ?ds = "dir_chain [] (split_on (CHR ''/'') (path_parent p))"
  let ?t = "tmp_name (fs_pid w) p (fs_tmp_counter w)"
  define w0 where "w0 = (if path_parent p \<noteq> [] then w\<lparr>fs_nodes := make_dirs ?ds (fs_nodes w)\<rparr> else w)"
  have dirs: "(if path_parent p \<noteq> [] then create_dir_all (path_parent p) else io_return ()) w = (Done (), w0)"
    using assms(5) by (simp add: w0_def create_dir_all_def Let_def io_prim_clean [OF assms(2)] io_return_def)
  have tl: "length p < length ?t" by (simp add: tmp_name_append [OF assms(1)])
  have pl: "length (path_parent p) \<le> length p"
  proof -
    have "path_file_name p \<noteq> []" using assms(1) by (simp add: path_plain_def)
    then show ?thesis
      using path_split [OF assms(1)]
      by (elim disjE) (auto simp: Suc_le_eq, metis append_eq_conv_conj le_add1 length_append)
  qed
  have "?t \<notin> set ?ds" using dir_chain_shorter [of ?t "path_parent p"] tl pl by auto
  then have t0: "fs_nodes w0 ?t = None" using assms(4) by (simp add: w0_def make_dirs_def)
  have p0: "fs_nodes w0 p = None"
    using assms(3) parent_not_target [OF assms(1)] by (simp add: w0_def make_dirs_def)
  have f0: "fs_faults w0 = []" "fs_pid w0 = fs_pid w" "fs_tmp_counter w0 = fs_tmp_counter w"
    using assms(2) by (simp_all add: w0_def)
  have "is_file p w0 = (Done False, w0)"
    using p0 by (simp add: is_file_def lookup_node_def numeral_eq_Suc)
  moreover have tries: "create_temp_tries (Suc k) p w0 = (Done ?t, w0\<lparr>fs_tmp_counter := fs_tmp_counter w + 1,
      fs_nodes := (fs_nodes w0)(?t \<mapsto> NFile \<lparr>f_bytes = [], f_mode = fs_umask_mode w0\<rparr>)\<rparr>)" for k
    using t0 by (simp add: f0 tmp_sibling_def open_create_new_def io_prim_clean)
  have "create_new_temp p w0 = (Done ?t, w0\<lparr>fs_tmp_counter := fs_tmp_counter w + 1,
      fs_nodes := (fs_nodes w0)(?t \<mapsto> NFile \<lparr>f_bytes = [], f_mode = fs_umask_mode w0\<rparr>)\<rparr>)"
    using tries [of 15] by (simp add: create_new_temp_def del: create_temp_tries.simps)
  moreover have "?t \<noteq> p" using tl by auto
  ultimately show ?thesis
    using dirs p0 f0
    by (simp add: atomic_write_impl_def io_bind_def io_return_def write_all_def sync_all_def
        rename_or_remove_def rename_path_def io_prim_clean)
qed

section \<open>Properties\<close>

text \<open>C1: Under every script of failures, short writes and crashes, an atomic write leaves the
  target untouched unless it reports success; on success the target holds exactly the new bytes,
  owner-only when asked, and the file that was there is in the backup, content and mode.\<close>

theorem atomic_write_all_or_nothing:
  assumes "path_plain p"
  shows "case atomic_write_impl p bytes priv w of
      (Done _, w') \<Rightarrow>
        (\<exists>m. fs_nodes w' p = Some (NFile \<lparr>f_bytes = bytes, f_mode = m\<rparr>)
           \<and> (priv \<longrightarrow> m = MODE_PRIVATE)) \<and>
        (\<forall>f. lookup_node (fs_nodes w) p = Some (NFile f)
           \<longrightarrow> fs_nodes w' (bak_path p) = Some (NFile f))
    | (_, w') \<Rightarrow> fs_nodes w' p = fs_nodes w p"
  using assms by (rule atomic_write_outcome)

definition fs_example :: fs where
  "fs_example =
     \<lparr>fs_nodes = [''config'' \<mapsto> NFile \<lparr>f_bytes = ''old'', f_mode = 384\<rparr>], fs_tmp_counter = 0,
      fs_faults = [], fs_pid = 7, fs_umask_mode = 420\<rparr>"

lemma path_plain_config: "path_plain ''config''"
  by (simp add: path_plain_def path_file_name_def)

theorem atomic_write_all_or_nothing_witness:
  "case atomic_write_impl ''config'' ''new'' True fs_example of
      (Done _, w') \<Rightarrow>
        (\<exists>m. fs_nodes w' ''config'' = Some (NFile \<lparr>f_bytes = ''new'', f_mode = m\<rparr>)
           \<and> (True \<longrightarrow> m = MODE_PRIVATE)) \<and>
        (\<forall>f. lookup_node (fs_nodes fs_example) ''config'' = Some (NFile f)
           \<longrightarrow> fs_nodes w' (bak_path ''config'') = Some (NFile f))
    | (_, w') \<Rightarrow> fs_nodes w' ''config'' = fs_nodes fs_example ''config''"
  by (rule atomic_write_all_or_nothing [OF path_plain_config])

text \<open>The backup copies the bytes before it sets the mode, so a crash in between leaves the
  content of an owner-only kubeconfig in a file with the default mode.\<close>

theorem backup_exposes_private_content:
  "\<exists>w q. fs_nodes w ''config'' = Some (NFile \<lparr>f_bytes = ''client-key-data: k'', f_mode = MODE_PRIVATE\<rparr>)
     \<and> fs_nodes (snd (atomic_write_private ''config'' bytes w)) q
        = Some (NFile \<lparr>f_bytes = ''client-key-data: k'', f_mode = fs_umask_mode w\<rparr>)
     \<and> fs_umask_mode w \<noteq> MODE_PRIVATE"
proof -
  let ?f = "\<lparr>f_bytes = ''client-key-data: k'', f_mode = MODE_PRIVATE\<rparr>"
  define w where "w = fs_example\<lparr>fs_nodes := [''config'' \<mapsto> NFile ?f],
    fs_faults := [NoFault, NoFault, NoFault, CrashFault 0]\<rparr>"
  let ?t = "tmp_name 7 (bak_path ''config'') 0"
  have parent: "path_parent ''config'' = []" by (simp add: path_parent_def)
  have t: "?t = ''config.bak.tmp-'' @ dec 7 @ ''-'' @ dec 0"
    by (subst tmp_name_append [OF path_plain_bak [OF path_plain_config]]) (simp add: bak_path_def)
  have ne: "?t \<noteq> ''config''" unfolding t by simp
  have look: "lookup_node [''config'' \<mapsto> NFile ?f] ''config'' = Some (NFile ?f)"
    by (simp add: lookup_node_def numeral_eq_Suc)
  define w1 where "w1 = w\<lparr>fs_faults := [NoFault, NoFault, CrashFault 0]\<rparr>"
  define w2 where "w2 = w1\<lparr>fs_tmp_counter := 1, fs_faults := [NoFault, CrashFault 0],
    fs_nodes := (fs_nodes w)(?t \<mapsto> NFile \<lparr>f_bytes = [], f_mode = 420\<rparr>)\<rparr>"
  define w3 where "w3 = w2\<lparr>fs_faults := [CrashFault 0],
    fs_nodes := (fs_nodes w)(?t \<mapsto> NFile \<lparr>f_bytes = f_bytes ?f, f_mode = 420\<rparr>)\<rparr>"
  note wd = w_def w1_def w2_def w3_def fs_example_def
  have sixteen: "(16::nat) = Suc 15" by simp
  have tries: "create_temp_tries (Suc k) (bak_path ''config'') w1 = (Done ?t, w2)" for k
    using ne by (simp add: tmp_sibling_def open_create_new_def io_prim_def wd)
  have "read_file ''config'' w = (Done ?f, w1)"
    by (simp add: read_file_def io_prim_def wd look)
  moreover have "create_new_temp (bak_path ''config'') w1 = (Done ?t, w2)"
    unfolding create_new_temp_def sixteen by (rule tries)
  moreover have "write_all ?t (f_bytes ?f) w2 = (Done (), w3)"
    by (simp add: write_all_def io_prim_def wd)
  moreover have "set_mode ?t (f_mode ?f) w3 = (Crashed, w3\<lparr>fs_faults := []\<rparr>)"
    by (simp add: set_mode_def io_prim_def w3_def)
  ultimately have "backup ''config'' w = (Crashed, w3\<lparr>fs_faults := []\<rparr>)"
    by (simp add: backup_def io_bind_def)
  moreover have "is_file ''config'' w = (Done True, w)"
    by (simp add: is_file_def wd look)
  ultimately have "fs_nodes (snd (atomic_write_private ''config'' bytes w)) ?t
      = Some (NFile \<lparr>f_bytes = ''client-key-data: k'', f_mode = fs_umask_mode w\<rparr>)"
    by (simp add: atomic_write_private_def atomic_write_impl_def parent io_bind_def io_return_def)
      (simp add: wd)
  moreover have "fs_umask_mode w \<noteq> MODE_PRIVATE"
    by (simp add: w_def fs_example_def MODE_PRIVATE_def)
  moreover have "fs_nodes w ''config'' = Some (NFile ?f)" by (simp add: w_def)
  ultimately show ?thesis by blast
qed

end
