(* ===== verification/Cidr.thy ===== *)
theory Cidr
  imports Prelude
begin

unbundle bit_operations_syntax

text \<open>
  IPv4 CIDR blocks (\<open>kindboard-core/src/spec/cidr.rs\<close>): parsing, the first and last address
  of a block, the overlap test and the display, on 32-bit words as in the code.  The abstract
  meaning of a block is its set of addresses, \<open>cidr_addrs\<close>.
\<close>

record ipv4_cidr =
  network :: "32 word"
  prefix_len :: "8 word"

fun cidr_octets :: "string list \<Rightarrow> 32 word \<Rightarrow> 32 word option" where
  "cidr_octets [] value = Some value"
| "cidr_octets (octet # octets) value =
     (if octet = [] then None
      else (case parse_uint (2 ^ 32 - 1) octet of
              None \<Rightarrow> None
            | Some n \<Rightarrow>
                if 255 < n then None
                else cidr_octets octets (push_bit 8 value OR of_nat n)))"

definition cidr_mask :: "8 word \<Rightarrow> 32 word" where
  "cidr_mask p = (if p = 0 then 0 else push_bit (32 - unat p) (- 1))"

definition cidr_parse :: "string \<Rightarrow> ipv4_cidr option" where
  "cidr_parse input =
     (case split_once (CHR ''/'') input of
        None \<Rightarrow> None
      | Some (addr, pfx) \<Rightarrow>
          if pfx = [] \<or> 2 < length pfx then None
          else (case parse_uint 255 pfx of
                  None \<Rightarrow> None
                | Some p \<Rightarrow>
                    if 32 < p then None
                    else (let octets = split_on (CHR ''.'') addr
                          in if length octets \<noteq> 4 then None
                             else (case cidr_octets octets 0 of
                                     None \<Rightarrow> None
                                   | Some v \<Rightarrow>
                                       Some \<lparr>network = v AND cidr_mask (of_nat p),
                                             prefix_len = of_nat p\<rparr>))))"

definition cidr_first :: "ipv4_cidr \<Rightarrow> 32 word" where
  "cidr_first c = network c"

definition cidr_last :: "ipv4_cidr \<Rightarrow> 32 word" where
  "cidr_last c =
     (if prefix_len c = 0 then - 1
      else if prefix_len c = 32 then network c
      else network c OR drop_bit (unat (prefix_len c)) (- 1))"

definition cidr_overlaps :: "ipv4_cidr \<Rightarrow> ipv4_cidr \<Rightarrow> bool" where
  "cidr_overlaps c d \<longleftrightarrow> cidr_first c \<le> cidr_last d \<and> cidr_first d \<le> cidr_last c"

definition cidr_octet :: "nat \<Rightarrow> 32 word \<Rightarrow> string" where
  "cidr_octet k w = dec (unat (drop_bit k w AND 0xff))"

definition cidr_display :: "ipv4_cidr \<Rightarrow> string" where
  "cidr_display c =
     join_with ''.'' [cidr_octet 24 (network c), cidr_octet 16 (network c),
                      cidr_octet 8 (network c), cidr_octet 0 (network c)]
     @ ''/'' @ dec (unat (prefix_len c))"

section \<open>Meaning of a block\<close>

text \<open>What the parser promises of a block: the prefix is at most 32 and the host bits are clear.\<close>

definition cidr_wf :: "ipv4_cidr \<Rightarrow> bool" where
  "cidr_wf c \<longleftrightarrow> prefix_len c \<le> 32 \<and> network c AND cidr_mask (prefix_len c) = network c"

text \<open>The addresses of a block: those which agree with the network on the prefix bits.\<close>

definition cidr_addrs :: "ipv4_cidr \<Rightarrow> 32 word set" where
  "cidr_addrs c = {a. a AND cidr_mask (prefix_len c) = network c}"

lemma cidr_mask_eq:
  assumes "p \<le> 32"
  shows "cidr_mask p = push_bit (32 - unat p) (- 1)"
proof (cases "p = 0")
  case True
  have "push_bit 32 (- 1 :: 32 word) = 0"
    by (rule bit_word_eqI) (auto simp: bit_simps)
  then show ?thesis using True by (simp add: cidr_mask_def)
qed (simp add: cidr_mask_def)

lemma and_cidr_mask:
  assumes "p \<le> 32"
  shows "unat (a AND cidr_mask p) = unat a div 2 ^ (32 - unat p) * 2 ^ (32 - unat p)"
proof -
  have "a AND push_bit k (- 1 :: 32 word) = push_bit k (drop_bit k a)" for k
    by (rule bit_word_eqI) (auto simp: bit_simps)
  then have "a AND cidr_mask p = push_bit (32 - unat p) (drop_bit (32 - unat p) a)"
    by (simp add: cidr_mask_eq assms)
  moreover have "unat (push_bit k (drop_bit k a)) = unat a div 2 ^ k * 2 ^ k" for k
  proof -
    have "unat (push_bit k (drop_bit k a)) = take_bit 32 (push_bit k (unat (drop_bit k a)))"
      by (simp add: unsigned_push_bit_eq)
    also have "\<dots> = take_bit 32 (unat a div 2 ^ k * 2 ^ k)"
      by (simp only: push_bit_eq_mult unat_drop_bit_eq) (simp only: drop_bit_eq_div)
    also have "\<dots> = unat a div 2 ^ k * 2 ^ k"
    proof (rule take_bit_nat_eq_self)
      have "unat a div 2 ^ k * 2 ^ k \<le> unat a" by (rule div_times_less_eq_dividend)
      also have "\<dots> < 2 ^ 32" using unsigned_less [of a, where 'a = nat] by simp
      finally show "unat a div 2 ^ k * 2 ^ k < 2 ^ 32" .
    qed
    finally show ?thesis .
  qed
  ultimately show ?thesis by simp
qed

lemma prefix_len_unat_le: "p \<le> (32 :: 8 word) \<Longrightarrow> unat p \<le> 32"
  by (simp add: word_le_nat_alt)

lemma block_interval:
  fixes a n k :: nat
  assumes "n div 2 ^ k * 2 ^ k = n"
  shows "a div 2 ^ k * 2 ^ k = n \<longleftrightarrow> n \<le> a \<and> a \<le> n + (2 ^ k - 1)"
proof -
  obtain q where q: "n = q * 2 ^ k" using assms by metis
  have pos: "(0::nat) < 2 ^ k" by simp
  have "a div 2 ^ k = q \<longleftrightarrow> q * 2 ^ k \<le> a \<and> a < Suc q * 2 ^ k"
    by (metis div_nat_eqI dividend_less_div_times le_eq_less_or_eq mult.commute mult_Suc
        div_times_less_eq_dividend pos)
  moreover have "a < Suc q * 2 ^ k \<longleftrightarrow> a \<le> q * 2 ^ k + (2 ^ k - 1)"
    unfolding mult_Suc using pos by linarith
  ultimately show ?thesis using q pos by auto
qed

lemma unat_cidr_last:
  assumes "cidr_wf c"
  shows "unat (cidr_last c) = unat (network c) + (2 ^ (32 - unat (prefix_len c)) - 1)"
proof -
  let ?p = "prefix_len c"
  have le: "?p \<le> 32" and n: "network c AND cidr_mask ?p = network c"
    using assms by (auto simp: cidr_wf_def)
  consider (zero) "?p = 0" | (full) "?p = 32" | (mid) "?p \<noteq> 0" "?p \<noteq> 32" by blast
  then show ?thesis
  proof cases
    case zero
    then have "network c = 0" using n by (simp add: cidr_mask_def)
    then show ?thesis using zero by (simp add: cidr_last_def unsigned_minus_1_eq_mask mask_eq_exp_minus_1)
  next
    case full
    then show ?thesis by (simp add: cidr_last_def)
  next
    case mid
    let ?h = "drop_bit (unat ?p) (- 1 :: 32 word)"
    have h: "?h = mask (32 - unat ?p)"
      by (rule bit_word_eqI) (auto simp: bit_simps)
    have "network c AND ?h = 0"
    proof -
      have "cidr_mask ?p AND mask (32 - unat ?p) = 0"
        unfolding cidr_mask_eq [OF le] by (rule bit_word_eqI) (auto simp: bit_simps)
      then have "(network c AND cidr_mask ?p) AND mask (32 - unat ?p) = 0"
        by (simp add: and.assoc)
      then show ?thesis using n h by simp
    qed
    then have 0: "unat (network c) AND unat ?h = 0"
      by (metis unsigned_0 unsigned_and_eq)
    have "unat (network c OR ?h) = unat (network c) + unat ?h"
      unfolding unsigned_or_eq by (rule disjunctive_add_eq_or [OF 0, symmetric])
    moreover have "unat ?h = 2 ^ (32 - unat ?p) - 1"
    proof -
      have "unat (mask (32 - unat ?p) :: 32 word) = mask (32 - unat ?p)"
        by (rule bit_eqI) (auto simp: bit_simps)
      then show ?thesis unfolding h by (simp add: mask_eq_exp_minus_1)
    qed
    ultimately show ?thesis using mid by (simp add: cidr_last_def)
  qed
qed

lemma cidr_addrs_interval:
  assumes "cidr_wf c"
  shows "a \<in> cidr_addrs c \<longleftrightarrow> cidr_first c \<le> a \<and> a \<le> cidr_last c"
proof -
  let ?k = "32 - unat (prefix_len c)"
  have le: "prefix_len c \<le> 32" and n: "network c AND cidr_mask (prefix_len c) = network c"
    using assms by (auto simp: cidr_wf_def)
  have "unat (network c) div 2 ^ ?k * 2 ^ ?k = unat (network c)"
    using and_cidr_mask [OF le, of "network c"] n by simp
  note iv = block_interval [OF this, of "unat a"]
  have "a \<in> cidr_addrs c \<longleftrightarrow> unat (a AND cidr_mask (prefix_len c)) = unat (network c)"
    by (simp add: cidr_addrs_def word_unat_eq_iff)
  then show ?thesis using iv
    by (simp add: and_cidr_mask [OF le] cidr_first_def word_le_nat_alt unat_cidr_last [OF assms])
qed

lemma cidr_first_le_last: "cidr_wf c \<Longrightarrow> cidr_first c \<le> cidr_last c"
  by (simp add: cidr_first_def word_le_nat_alt unat_cidr_last add_le_imp_le_diff Suc_le_eq)

section \<open>Parsing\<close>

lemma cidr_mask_idem: "(v AND cidr_mask p) AND cidr_mask p = v AND cidr_mask p"
  by (simp add: and.assoc)

lemma cidr_parse_wf: "cidr_parse s = Some c \<Longrightarrow> cidr_wf c"
  by (auto simp: cidr_parse_def cidr_wf_def cidr_mask_idem Let_def word_le_nat_alt unat_of_nat
      split: option.splits if_splits)


lemma mask8: "(0xff :: 32 word) = mask 8"
  by (simp add: mask_eq_exp_minus_1)

lemma octet_step: "push_bit 8 (drop_bit (k + 8) w) OR (drop_bit k w AND 0xff) = drop_bit k w"
  for w :: "32 word"
  unfolding mask8
proof (rule bit_word_eqI)
  fix n assume "n < LENGTH(32)"
  then show "bit (push_bit 8 (drop_bit (k + 8) w) OR (drop_bit k w AND mask 8)) n
      = bit (drop_bit k w) n"
    by (cases "n < 8") (auto simp: bit_simps ac_simps)
qed

lemma octet_top: "drop_bit 24 w AND 0xff = drop_bit 24 w" for w :: "32 word"
  unfolding mask8
proof (rule bit_word_eqI)
  fix n assume n: "n < LENGTH(32)"
  then show "bit (drop_bit 24 w AND mask 8) n = bit (drop_bit 24 w) n"
    by (cases "n < 8") (auto simp: bit_simps dest: bit_imp_le_length)
qed

lemma unat_octet_le: "unat (drop_bit k w AND (0xff :: 32 word)) \<le> 255"
proof -
  have "drop_bit k w AND 0xff \<le> (0xff :: 32 word)" by (rule word_and_le1)
  then show ?thesis by (simp add: word_le_nat_alt)
qed

lemma cidr_octets_octet:
  "cidr_octets (cidr_octet k w # os) v = cidr_octets os (push_bit 8 v OR (drop_bit k w AND 0xff))"
proof -
  let ?n = "unat (drop_bit k w AND 0xff)"
  have "?n \<le> 2 ^ 32 - 1" using unat_octet_le [of k w] by simp
  then have "parse_uint (2 ^ 32 - 1) (dec ?n) = Some ?n" by (rule parse_uint_dec)
  then show ?thesis
    using unat_octet_le [of k w] by (simp add: cidr_octet_def not_less [symmetric])
qed

lemma cidr_octets_display:
  "cidr_octets [cidr_octet 24 w, cidr_octet 16 w, cidr_octet 8 w, cidr_octet 0 w] 0 = Some w"
proof -
  have s: "push_bit 8 (drop_bit 24 w) OR (drop_bit 16 w AND 0xff) = drop_bit 16 w"
    "push_bit 8 (drop_bit 16 w) OR (drop_bit 8 w AND 0xff) = drop_bit 8 w"
    "push_bit 8 (drop_bit 8 w) OR (drop_bit 0 w AND 0xff) = w"
    using octet_step [of 16 w] octet_step [of 8 w] octet_step [of 0 w] by simp_all
  show ?thesis
    by (simp only: cidr_octets_octet cidr_octets.simps(1) octet_top push_bit_of_0
        or.left_neutral s)
qed

lemma cidr_octet_chars:
  "CHR ''.'' \<notin> set (cidr_octet k w)" "CHR ''/'' \<notin> set (cidr_octet k w)"
  by (auto simp: cidr_octet_def dec_no_char char_class_defs)

lemma cidr_display_split:
  "split_once (CHR ''/'') (cidr_display c)
     = Some (join_with ''.'' [cidr_octet 24 (network c), cidr_octet 16 (network c),
               cidr_octet 8 (network c), cidr_octet 0 (network c)], dec (unat (prefix_len c)))"
proof -
  have "CHR ''/'' \<notin> set (join_with ''.'' [cidr_octet 24 (network c), cidr_octet 16 (network c),
               cidr_octet 8 (network c), cidr_octet 0 (network c)])"
    using cidr_octet_chars by auto
  from split_once_append [OF this] show ?thesis by (simp add: cidr_display_def)
qed

lemma cidr_wf_prefix: "cidr_wf c \<Longrightarrow> unat (prefix_len c) \<le> 32"
  by (simp add: cidr_wf_def prefix_len_unat_le)

lemma cidr_parse_display:
  assumes "cidr_wf c"
  shows "cidr_parse (cidr_display c) = Some c"
proof -
  let ?os = "[cidr_octet 24 (network c), cidr_octet 16 (network c),
              cidr_octet 8 (network c), cidr_octet 0 (network c)]"
  have p: "unat (prefix_len c) \<le> 32" by (rule cidr_wf_prefix [OF assms])
  then have len: "length (dec (unat (prefix_len c))) \<le> 2"
    by (intro length_dec_le) auto
  have os: "split_on (CHR ''.'') (join_with ''.'' ?os) = ?os"
    using cidr_octet_chars by (intro split_on_join) auto
  have "network c AND cidr_mask (prefix_len c) = network c"
    using assms by (simp add: cidr_wf_def)
  then show ?thesis
    using p len
    by (simp add: cidr_parse_def cidr_display_split os cidr_octets_display del: split_on.simps
        cidr_octets.simps join_with.simps)
qed

lemma cidr_overlaps_shared:
  assumes "cidr_parse s = Some c" and "cidr_parse t = Some d"
  shows "cidr_overlaps c d \<longleftrightarrow> cidr_addrs c \<inter> cidr_addrs d \<noteq> {}"
proof
  note wf = assms [THEN cidr_parse_wf]
  note iv = wf [THEN cidr_addrs_interval]
  note le = wf [THEN cidr_first_le_last]
  show "cidr_addrs c \<inter> cidr_addrs d \<noteq> {}" if "cidr_overlaps c d"
  proof -
    have "max (cidr_first c) (cidr_first d) \<in> cidr_addrs c \<inter> cidr_addrs d"
      using that le iv by (auto simp: cidr_overlaps_def max_def)
    then show ?thesis by blast
  qed
  show "cidr_overlaps c d" if "cidr_addrs c \<inter> cidr_addrs d \<noteq> {}"
    using that iv by (auto simp: cidr_overlaps_def)
qed

section \<open>Properties\<close>

text \<open>The overlap test of two parsed blocks says exactly whether some address lies in both.\<close>

theorem cidr_overlaps_iff_shared:
  assumes "cidr_parse s = Some c" and "cidr_parse t = Some d"
  shows "cidr_overlaps c d \<longleftrightarrow> cidr_addrs c \<inter> cidr_addrs d \<noteq> {}"
  using assms by (rule cidr_overlaps_shared)

lemmas cidr_eval = cidr_parse_def parse_uint_def char_class_defs dec_val_def digit_val_def
  cidr_mask_def mask_eq_exp_minus_1

lemma cidr_example_pod: "cidr_parse ''10.244.0.0/16'' = Some \<lparr>network = 0x0AF40000, prefix_len = 16\<rparr>"
  by (simp add: cidr_eval)

lemma cidr_example_service:
  "cidr_parse ''10.96.0.0/16'' = Some \<lparr>network = 0x0A600000, prefix_len = 16\<rparr>"
  by (simp add: cidr_eval)

theorem cidr_overlaps_iff_shared_witness:
  "cidr_overlaps \<lparr>network = 0x0AF40000, prefix_len = 16\<rparr> \<lparr>network = 0x0A600000, prefix_len = 16\<rparr>
     \<longleftrightarrow> cidr_addrs \<lparr>network = 0x0AF40000, prefix_len = 16\<rparr>
         \<inter> cidr_addrs \<lparr>network = 0x0A600000, prefix_len = 16\<rparr> \<noteq> {}"
  by (rule cidr_overlaps_iff_shared [OF cidr_example_pod cidr_example_service])

text \<open>Whatever text a block was parsed from, displaying the block and parsing it again gives
  the same block.\<close>

theorem cidr_display_roundtrip:
  assumes "cidr_parse s = Some c"
  shows "cidr_parse (cidr_display c) = Some c"
  by (rule cidr_parse_display [OF cidr_parse_wf [OF assms]])

theorem cidr_display_roundtrip_witness:
  "cidr_parse (cidr_display \<lparr>network = 0x0AF40000, prefix_len = 16\<rparr>)
     = Some \<lparr>network = 0x0AF40000, prefix_len = 16\<rparr>"
  by (rule cidr_display_roundtrip [OF cidr_example_pod])

end
