(* ===== verification/ClusterSpecModel.thy ===== *)
theory ClusterSpecModel
  imports ErrorModel Cidr
begin

text \<open>
  The cluster specification (\<open>kindboard-core/src/spec/mod.rs\<close>): the user's input, its
  validation, and the kind configuration document it is rendered to.  The YAML printer of
  \<open>serde_yaml\<close> is a parameter; the document handed to it (keys, omitted fields, order) is
  modelled as a tree.
\<close>

section \<open>Data\<close>

definition DEFAULT_POD_CIDR :: string where "DEFAULT_POD_CIDR = ''10.244.0.0/16''"
definition DEFAULT_SERVICE_CIDR :: string where "DEFAULT_SERVICE_CIDR = ''10.96.0.0/16''"
definition DEFAULT_K8S_VERSION :: string where "DEFAULT_K8S_VERSION = ''1.37.0''"
definition MAX_NAME_LEN :: nat where "MAX_NAME_LEN = 32"
definition MAX_WORKERS :: "32 word" where "MAX_WORKERS = 32"
definition MIN_CLUSTER_ID :: "16 word" where "MIN_CLUSTER_ID = 1"
definition MAX_CLUSTER_ID :: "16 word" where "MAX_CLUSTER_ID = 255"

datatype cni = KindnetDefault | Flannel | Calico | CiliumCni

datatype ingress_controller = Nginx | Traefik | CiliumIngress

record cilium_options =
  co_api_gateway :: bool
  co_hubble :: bool
  co_ingress :: bool
  co_mesh :: bool
  co_cluster_id :: "16 word"
  co_cluster_name :: string

definition cilium_options_default :: cilium_options where
  "cilium_options_default =
     \<lparr>co_api_gateway = False, co_hubble = False, co_ingress = True, co_mesh = False,
      co_cluster_id = 0, co_cluster_name = []\<rparr>"

datatype protocol = Tcp | Udp | Sctp

record port_mapping =
  pm_container_port :: "16 word"
  pm_host_port :: "16 word"
  pm_listen_address :: string
  pm_protocol :: protocol

datatype kubernetes_version = KubernetesVersion string

text \<open>A \<open>BTreeMap\<close> is the list of its entries in key order.\<close>

record cluster_spec =
  cs_name :: string
  cs_k8s_version :: kubernetes_version
  cs_cni :: cni
  cs_pod_cidr :: string
  cs_service_cidr :: string
  cs_worker_count :: "32 word"
  cs_extra_port_mappings :: "port_mapping list"
  cs_feature_gates :: "(string \<times> bool) list"
  cs_ingress :: "ingress_controller option"
  cs_cilium :: "cilium_options option"

definition is_semver_3 :: "string \<Rightarrow> bool" where
  "is_semver_3 s =
     (let parts = split_on (CHR ''.'') s
      in if length parts \<noteq> 3 then False
         else list_all (\<lambda>p. p \<noteq> [] \<and> list_all is_ascii_digit p) parts)"

definition kubernetes_version_new :: "string \<Rightarrow> core_error + kubernetes_version" where
  "kubernetes_version_new v =
     (if is_semver_3 v then Ok (KubernetesVersion v) else Err (InvalidSpec (BadK8sVersion v)))"

fun version_str :: "kubernetes_version \<Rightarrow> string" where
  "version_str (KubernetesVersion v) = v"

definition node_image_tag :: "kubernetes_version \<Rightarrow> string" where
  "node_image_tag v = ''kindest/node:v'' @ version_str v"

definition is_well_formed :: "kubernetes_version \<Rightarrow> bool" where
  "is_well_formed v = is_semver_3 (version_str v)"

definition kubernetes_version_default :: kubernetes_version where
  "kubernetes_version_default = KubernetesVersion DEFAULT_K8S_VERSION"

definition cluster_spec_default :: cluster_spec where
  "cluster_spec_default =
     \<lparr>cs_name = [], cs_k8s_version = kubernetes_version_default, cs_cni = KindnetDefault,
      cs_pod_cidr = DEFAULT_POD_CIDR, cs_service_cidr = DEFAULT_SERVICE_CIDR,
      cs_worker_count = 0, cs_extra_port_mappings = [], cs_feature_gates = [],
      cs_ingress = None, cs_cilium = None\<rparr>"

section \<open>Validation\<close>

definition name_char :: "char \<Rightarrow> bool" where
  "name_char b \<longleftrightarrow> is_ascii_lower b \<or> is_ascii_digit b \<or> b = CHR ''-''"

definition validate_name :: "string \<Rightarrow> core_error + unit" where
  "validate_name name =
     (if name = [] then Err (InvalidSpec NameEmpty)
      else if MAX_NAME_LEN < length name then Err (InvalidSpec (NameTooLong name))
      else if \<not> (is_ascii_lower (hd name) \<or> is_ascii_digit (hd name))
        then Err (InvalidSpec (NameBadStart name))
      else if \<not> list_all name_char name then Err (InvalidSpec (NameBadChar name))
      else if last name = CHR ''-'' then Err (InvalidSpec (NameBadEnd name))
      else Ok ())"

text \<open>\<open>str::parse::<Ipv4Addr>\<close> of the standard library: four decimal octets of at most three
  digits, without leading zeros.\<close>

definition ipv4_octet_ok :: "string \<Rightarrow> bool" where
  "ipv4_octet_ok p \<longleftrightarrow>
     p \<noteq> [] \<and> length p \<le> 3 \<and> list_all is_ascii_digit p \<and>
     (hd p = CHR ''0'' \<longrightarrow> length p = 1) \<and> dec_val p \<le> 255"

definition ipv4_addr_ok :: "string \<Rightarrow> bool" where
  "ipv4_addr_ok s =
     (let ps = split_on (CHR ''.'') s in length ps = 4 \<and> list_all ipv4_octet_ok ps)"

fun check_mappings :: "port_mapping list \<Rightarrow> 16 word list \<Rightarrow> core_error + 16 word list" where
  "check_mappings [] seen = Ok seen"
| "check_mappings (m # ms) seen =
     (if pm_host_port m = 0 then Err (InvalidSpec HostPortZero)
      else if pm_container_port m = 0 then Err (InvalidSpec ContainerPortZero)
      else if pm_host_port m \<in> set seen
        then Err (InvalidSpec (DuplicateHostPort (unat (pm_host_port m))))
      else if \<not> ipv4_addr_ok (pm_listen_address m)
        then Err (InvalidSpec (BadListenAddress (pm_listen_address m)))
      else check_mappings ms (seen @ [pm_host_port m]))"

definition wants_ingress_ports :: "cluster_spec \<Rightarrow> bool" where
  "wants_ingress_ports spec \<longleftrightarrow> cs_ingress spec = Some Nginx \<or> cs_ingress spec = Some Traefik"

definition validate_port_mappings :: "cluster_spec \<Rightarrow> core_error + unit" where
  "validate_port_mappings spec =
     rbind (check_mappings (cs_extra_port_mappings spec) []) (\<lambda>seen.
       let wants = wants_ingress_ports spec; has_http = 80 \<in> set seen; has_https = 443 \<in> set seen
       in if wants \<noteq> (has_http \<and> has_https)
          then Err (InvalidSpec (IngressPorts wants has_http has_https))
          else Ok ())"

definition validate_cilium :: "cilium_options \<Rightarrow> core_error + unit" where
  "validate_cilium co =
     rbind
       (if co_mesh co
        then (if \<not> (MIN_CLUSTER_ID \<le> co_cluster_id co \<and> co_cluster_id co \<le> MAX_CLUSTER_ID)
              then Err (InvalidSpec (ClusterIdRange (unat (co_cluster_id co))))
              else if co_cluster_name co = [] then Err (InvalidSpec MeshNeedsName)
              else validate_name (co_cluster_name co))
        else Ok ())
       (\<lambda>_. if co_cluster_name co \<noteq> [] \<and> \<not> co_mesh co
             then validate_name (co_cluster_name co) else Ok ())"

definition cilium_ingress_ok :: "cluster_spec \<Rightarrow> bool" where
  "cilium_ingress_ok spec =
     (case (cs_cni spec, cs_cilium spec) of
        (CiliumCni, Some co) \<Rightarrow> co_ingress co
      | (CiliumCni, None) \<Rightarrow> True
      | _ \<Rightarrow> False)"

definition validate_cidrs :: "cluster_spec \<Rightarrow> core_error + unit" where
  "validate_cidrs spec =
     rbind (ok_or (InvalidSpec (BadPodCidr (cs_pod_cidr spec))) (cidr_parse (cs_pod_cidr spec)))
       (\<lambda>pod. rbind (ok_or (InvalidSpec (BadServiceCidr (cs_service_cidr spec)))
                        (cidr_parse (cs_service_cidr spec)))
         (\<lambda>service. if cidr_overlaps pod service
            then Err (InvalidSpec (CidrOverlap (cidr_display pod) (cidr_display service)))
            else Ok ()))"

definition validate :: "cluster_spec \<Rightarrow> core_error + unit" where
  "validate spec =
     rbind (validate_name (cs_name spec)) (\<lambda>_.
     rbind (ensure (is_well_formed (cs_k8s_version spec))
              (InvalidSpec (BadK8sVersion (version_str (cs_k8s_version spec))))) (\<lambda>_.
     rbind (ensure (cs_cni spec = CiliumCni \<or> cs_cilium spec = None)
              (InvalidSpec CiliumWithoutCni)) (\<lambda>_.
     rbind (case cs_cilium spec of Some co \<Rightarrow> validate_cilium co | None \<Rightarrow> Ok ()) (\<lambda>_.
     rbind (ensure (cs_ingress spec = Some CiliumIngress \<longrightarrow> cilium_ingress_ok spec)
              (InvalidSpec CiliumIngressNeedsCilium)) (\<lambda>_.
     rbind (ensure (cs_worker_count spec \<le> MAX_WORKERS)
              (InvalidSpec (TooManyWorkers (unat (cs_worker_count spec))))) (\<lambda>_.
     rbind (validate_port_mappings spec) (\<lambda>_.
     validate_cidrs spec)))))))"

section \<open>Rendering\<close>

datatype yaml = YStr string | YNum nat | YBool bool | YSeq "yaml list" | YMap "(string \<times> yaml) list"

record kind_port_mapping =
  kpm_container_port :: "16 word"
  kpm_host_port :: "16 word"
  kpm_listen_address :: string
  kpm_protocol :: protocol

record kind_node =
  kn_role :: string
  kn_image :: string
  kn_extra_port_mappings :: "kind_port_mapping list"

record kind_networking =
  net_ip_family :: "string option"
  net_pod_subnet :: "string option"
  net_service_subnet :: string
  net_disable_default_cni :: bool
  net_kube_proxy_mode :: "string option"

record kind_config_serde =
  kc_kind :: string
  kc_api_version :: string
  kc_name :: string
  kc_feature_gates :: "(string \<times> bool) list option"
  kc_networking :: kind_networking
  kc_nodes :: "kind_node list"

definition build_nodes :: "cluster_spec \<Rightarrow> kind_node list" where
  "build_nodes spec =
     (let image = node_image_tag (cs_k8s_version spec);
          mappings = map (\<lambda>m. \<lparr>kpm_container_port = pm_container_port m,
                               kpm_host_port = pm_host_port m,
                               kpm_listen_address = pm_listen_address m,
                               kpm_protocol = pm_protocol m\<rparr>) (cs_extra_port_mappings spec)
      in \<lparr>kn_role = ''control-plane'', kn_image = image, kn_extra_port_mappings = mappings\<rparr>
         # replicate (unat (cs_worker_count spec))
             \<lparr>kn_role = ''worker'', kn_image = image, kn_extra_port_mappings = []\<rparr>)"

definition kind_config_of :: "cluster_spec \<Rightarrow> kind_config_serde" where
  "kind_config_of spec =
     \<lparr>kc_kind = ''Cluster'', kc_api_version = ''kind.x-k8s.io/v1alpha4'', kc_name = cs_name spec,
      kc_feature_gates = (if cs_feature_gates spec = [] then None else Some (cs_feature_gates spec)),
      kc_networking =
        \<lparr>net_ip_family = Some ''ipv4'',
         net_pod_subnet = (if cs_pod_cidr spec \<noteq> DEFAULT_POD_CIDR \<or> cs_cni spec \<noteq> KindnetDefault
                           then Some (cs_pod_cidr spec) else None),
         net_service_subnet = cs_service_cidr spec,
         net_disable_default_cni = (cs_cni spec \<noteq> KindnetDefault),
         net_kube_proxy_mode = (if cs_cni spec = CiliumCni then Some ''none'' else None)\<rparr>,
      kc_nodes = build_nodes spec\<rparr>"

text \<open>The derived serializers: field names in camel case or renamed, \<open>None\<close> and empty
  sequences left out where the attribute says so.\<close>

definition opt_field :: "string \<Rightarrow> yaml option \<Rightarrow> (string \<times> yaml) list" where
  "opt_field k v = (case v of None \<Rightarrow> [] | Some y \<Rightarrow> [(k, y)])"

fun protocol_yaml :: "protocol \<Rightarrow> yaml" where
  "protocol_yaml Tcp = YStr ''TCP''"
| "protocol_yaml Udp = YStr ''UDP''"
| "protocol_yaml Sctp = YStr ''SCTP''"

definition port_yaml :: "kind_port_mapping \<Rightarrow> yaml" where
  "port_yaml m =
     YMap [(''containerPort'', YNum (unat (kpm_container_port m))),
           (''hostPort'', YNum (unat (kpm_host_port m))),
           (''listenAddress'', YStr (kpm_listen_address m)),
           (''protocol'', protocol_yaml (kpm_protocol m))]"

definition node_yaml :: "kind_node \<Rightarrow> yaml" where
  "node_yaml n =
     YMap ([(''role'', YStr (kn_role n)), (''image'', YStr (kn_image n))]
       @ opt_field ''extraPortMappings''
           (if kn_extra_port_mappings n = [] then None
            else Some (YSeq (map port_yaml (kn_extra_port_mappings n)))))"

definition networking_yaml :: "kind_networking \<Rightarrow> yaml" where
  "networking_yaml n =
     YMap (opt_field ''ipFamily'' (map_option YStr (net_ip_family n))
       @ opt_field ''podSubnet'' (map_option YStr (net_pod_subnet n))
       @ [(''serviceSubnet'', YStr (net_service_subnet n)),
          (''disableDefaultCNI'', YBool (net_disable_default_cni n))]
       @ opt_field ''kubeProxyMode'' (map_option YStr (net_kube_proxy_mode n)))"

definition kind_config_yaml :: "kind_config_serde \<Rightarrow> yaml" where
  "kind_config_yaml c =
     YMap ([(''kind'', YStr (kc_kind c)), (''apiVersion'', YStr (kc_api_version c)),
            (''name'', YStr (kc_name c))]
       @ opt_field ''featureGates''
           (map_option (\<lambda>gs. YMap (map (\<lambda>(k, b). (k, YBool b)) gs)) (kc_feature_gates c))
       @ [(''networking'', networking_yaml (kc_networking c)),
          (''nodes'', YSeq (map node_yaml (kc_nodes c)))])"

definition to_kind_yaml :: "(yaml \<Rightarrow> string option) \<Rightarrow> cluster_spec \<Rightarrow> string" where
  "to_kind_yaml yaml_to_string spec =
     (case yaml_to_string (kind_config_yaml (kind_config_of spec)) of Some s \<Rightarrow> s | None \<Rightarrow> [])"

section \<open>What validation promises\<close>

definition label_ok :: "string \<Rightarrow> bool" where
  "label_ok n \<longleftrightarrow>
     n \<noteq> [] \<and> length n \<le> 32 \<and> (\<forall>c \<in> set n. name_char c) \<and> hd n \<noteq> CHR ''-'' \<and> last n \<noteq> CHR ''-''"

definition mesh_ok :: "cilium_options \<Rightarrow> bool" where
  "mesh_ok co \<longleftrightarrow>
     (if co_mesh co
      then 1 \<le> unat (co_cluster_id co) \<and> unat (co_cluster_id co) \<le> 255 \<and> label_ok (co_cluster_name co)
      else co_cluster_name co = [] \<or> label_ok (co_cluster_name co))"

definition ports_ok :: "cluster_spec \<Rightarrow> bool" where
  "ports_ok s \<longleftrightarrow>
     (\<forall>m \<in> set (cs_extra_port_mappings s).
        pm_host_port m \<noteq> 0 \<and> pm_container_port m \<noteq> 0 \<and> ipv4_addr_ok (pm_listen_address m)) \<and>
     distinct (map pm_host_port (cs_extra_port_mappings s)) \<and>
     ((cs_ingress s = Some Nginx \<or> cs_ingress s = Some Traefik)
        \<longleftrightarrow> {80, 443} \<subseteq> set (map pm_host_port (cs_extra_port_mappings s)))"

definition networks_ok :: "cluster_spec \<Rightarrow> bool" where
  "networks_ok s \<longleftrightarrow>
     (\<exists>p q. cidr_parse (cs_pod_cidr s) = Some p \<and> cidr_parse (cs_service_cidr s) = Some q
        \<and> cidr_addrs p \<inter> cidr_addrs q = {})"

definition spec_ok :: "cluster_spec \<Rightarrow> bool" where
  "spec_ok s \<longleftrightarrow>
     label_ok (cs_name s) \<and> is_well_formed (cs_k8s_version s) \<and>
     (cs_cilium s \<noteq> None \<longrightarrow> cs_cni s = CiliumCni) \<and>
     (\<forall>co. cs_cilium s = Some co \<longrightarrow> mesh_ok co) \<and>
     (cs_ingress s = Some CiliumIngress \<longrightarrow>
        cs_cni s = CiliumCni \<and> (\<forall>co. cs_cilium s = Some co \<longrightarrow> co_ingress co)) \<and>
     unat (cs_worker_count s) \<le> 32 \<and> ports_ok s \<and> networks_ok s"

lemma name_char_start:
  "name_char c \<Longrightarrow> c \<noteq> CHR ''-'' \<longleftrightarrow> is_ascii_lower c \<or> is_ascii_digit c"
  by (auto simp: name_char_def is_ascii_lower_def is_ascii_digit_def less_eq_char_def)

lemma validate_name_iff: "validate_name n = Ok () \<longleftrightarrow> label_ok n"
proof (cases "n = []")
  case False
  then have "hd n \<in> set n" by simp
  then have "list_all name_char n \<Longrightarrow> hd n \<noteq> CHR ''-'' \<longleftrightarrow> is_ascii_lower (hd n) \<or> is_ascii_digit (hd n)"
    by (intro name_char_start) (auto simp: list_all_iff)
  then show ?thesis using False
    by (simp add: validate_name_def label_ok_def MAX_NAME_LEN_def list_all_iff not_less) blast
qed (simp add: validate_name_def label_ok_def)

lemma check_mappings_iff:
  "check_mappings ms seen = Ok r \<longleftrightarrow>
     r = seen @ map pm_host_port ms \<and>
     (\<forall>m \<in> set ms. pm_host_port m \<noteq> 0 \<and> pm_container_port m \<noteq> 0 \<and> ipv4_addr_ok (pm_listen_address m)) \<and>
     distinct (map pm_host_port ms) \<and> set seen \<inter> set (map pm_host_port ms) = {}"
  by (induction ms seen rule: check_mappings.induct) auto

lemma validate_port_mappings_iff: "validate_port_mappings s = Ok () \<longleftrightarrow> ports_ok s"
  by (auto simp: validate_port_mappings_def check_mappings_iff ports_ok_def wants_ingress_ports_def
      Let_def)

lemma validate_cilium_iff: "validate_cilium co = Ok () \<longleftrightarrow> mesh_ok co"
  by (auto simp: validate_cilium_def mesh_ok_def validate_name_iff MIN_CLUSTER_ID_def
      MAX_CLUSTER_ID_def word_le_nat_alt label_ok_def)

lemma validate_cidrs_iff: "validate_cidrs s = Ok () \<longleftrightarrow> networks_ok s"
proof -
  have "cidr_overlaps p q \<longleftrightarrow> cidr_addrs p \<inter> cidr_addrs q \<noteq> {}"
    if "cidr_parse (cs_pod_cidr s) = Some p" "cidr_parse (cs_service_cidr s) = Some q" for p q
    using that by (rule cidr_overlaps_shared)
  then show ?thesis by (auto simp: validate_cidrs_def networks_ok_def)
qed

lemma validate_cilium_opt_iff:
  "(case c of Some co \<Rightarrow> validate_cilium co | None \<Rightarrow> Ok ()) = Ok ()
     \<longleftrightarrow> (\<forall>co. c = Some co \<longrightarrow> mesh_ok co)"
  by (cases c) (auto simp: validate_cilium_iff)

lemma validate_Ok: "validate s = Ok () \<longleftrightarrow> spec_ok s"
  unfolding validate_def rbind_eq_Inr ensure_eq_Inr validate_name_iff validate_cilium_opt_iff
    validate_port_mappings_iff validate_cidrs_iff spec_ok_def MAX_WORKERS_def
  by (auto simp: validate_name_iff validate_cilium_opt_iff validate_port_mappings_iff
      validate_cidrs_iff cilium_ingress_ok_def word_le_nat_alt
      split: cni.splits option.splits)

lemma validated_name_start:
  assumes "validate s = Ok ()"
  shows "cs_name s \<noteq> []" and "hd (cs_name s) \<noteq> CHR ''-''"
  using assms by (auto simp: validate_Ok spec_ok_def label_ok_def)

section \<open>Properties\<close>

text \<open>The invariants as \<open>docs/contracts.md\<close> states them, with the name as the regular expression
  \<open>^[a-z0-9][a-z0-9-]*$\<close> of at most 32 characters; options of Cilium that are left out are the default ones.\<close>

definition contract_name :: "string \<Rightarrow> bool" where
  "contract_name n \<longleftrightarrow>
     (\<exists>c cs. n = c # cs \<and> (is_ascii_lower c \<or> is_ascii_digit c)
        \<and> (\<forall>x \<in> set cs. is_ascii_lower x \<or> is_ascii_digit x \<or> x = CHR ''-'')) \<and> length n \<le> 32"

definition contract_cilium :: "cluster_spec \<Rightarrow> bool" where
  "contract_cilium s \<longleftrightarrow>
     (cs_cni s \<noteq> CiliumCni \<longrightarrow> cs_cilium s = None) \<and>
     (let co = (case cs_cilium s of Some co \<Rightarrow> co | None \<Rightarrow> cilium_options_default) in
      (cs_ingress s = Some CiliumIngress \<longrightarrow> cs_cni s = CiliumCni \<and> co_ingress co) \<and>
      (co_mesh co \<longrightarrow> 1 \<le> unat (co_cluster_id co) \<and> unat (co_cluster_id co) \<le> 255 \<and> co_cluster_name co \<noteq> []))"

definition host_ports :: "cluster_spec \<Rightarrow> 16 word set" where
  "host_ports s = set (map pm_host_port (cs_extra_port_mappings s))"

definition web_ingress :: "cluster_spec \<Rightarrow> bool" where
  "web_ingress s \<longleftrightarrow> cs_ingress s = Some Nginx \<or> cs_ingress s = Some Traefik"

definition contract_ok :: "cluster_spec \<Rightarrow> bool" where
  "contract_ok s \<longleftrightarrow>
     contract_name (cs_name s) \<and> contract_cilium s \<and>
     distinct (map pm_host_port (cs_extra_port_mappings s)) \<and>
     (80 \<in> host_ports s \<longleftrightarrow> web_ingress s) \<and> (443 \<in> host_ports s \<longleftrightarrow> web_ingress s) \<and> networks_ok s"

text \<open>What the code asks for beyond it, and the one shape it lets pass against it: a single one of the two ports.\<close>

definition extra_checks :: "cluster_spec \<Rightarrow> bool" where
  "extra_checks s \<longleftrightarrow>
     last (cs_name s) \<noteq> CHR ''-'' \<and> is_well_formed (cs_k8s_version s) \<and> unat (cs_worker_count s) \<le> 32 \<and>
     (\<forall>co. cs_cilium s = Some co \<and> co_cluster_name co \<noteq> [] \<longrightarrow>
        contract_name (co_cluster_name co) \<and> last (co_cluster_name co) \<noteq> CHR ''-'') \<and>
     (\<forall>m \<in> set (cs_extra_port_mappings s).
        pm_host_port m \<noteq> 0 \<and> pm_container_port m \<noteq> 0 \<and> ipv4_addr_ok (pm_listen_address m))"

definition lone_web_port :: "cluster_spec \<Rightarrow> bool" where
  "lone_web_port s \<longleftrightarrow> \<not> web_ingress s \<and> (80 \<in> host_ports s) \<noteq> (443 \<in> host_ports s)"

lemma label_ok_contract: "label_ok n \<longleftrightarrow> contract_name n \<and> last n \<noteq> CHR ''-''"
proof (cases n)
  case (Cons c cs)
  have "name_char c \<and> c \<noteq> CHR ''-'' \<longleftrightarrow> is_ascii_lower c \<or> is_ascii_digit c"
    using name_char_start [of c] by (auto simp: name_char_def)
  then show ?thesis using Cons by (auto simp: label_ok_def contract_name_def name_char_def)
qed (simp add: label_ok_def contract_name_def)

lemma mesh_ok_contract:
  "mesh_ok co \<longleftrightarrow>
     (co_mesh co \<longrightarrow> 1 \<le> unat (co_cluster_id co) \<and> unat (co_cluster_id co) \<le> 255 \<and> co_cluster_name co \<noteq> []) \<and>
     (co_cluster_name co \<noteq> [] \<longrightarrow> contract_name (co_cluster_name co) \<and> last (co_cluster_name co) \<noteq> CHR ''-'')"
  by (auto simp: mesh_ok_def label_ok_contract) (simp_all add: contract_name_def)

lemma default_cilium: "co_ingress cilium_options_default" "\<not> co_mesh cilium_options_default"
  by (simp_all add: cilium_options_default_def)

text \<open>C6: Validation accepts exactly the specifications that satisfy the invariants of the contract and the further checks
  of the code, a trailing dash in a name among them, and besides these the ones in which, without an Nginx or Traefik
  ingress, a single one of the host ports 80 and 443 is mapped, which the contract excludes.\<close>

theorem validate_iff_contract:
  "validate s = Ok () \<longleftrightarrow>
     extra_checks s \<and>
     (if lone_web_port s
      then contract_ok (s\<lparr>cs_extra_port_mappings :=
             filter (\<lambda>m. pm_host_port m \<noteq> 80 \<and> pm_host_port m \<noteq> 443) (cs_extra_port_mappings s)\<rparr>)
        \<and> distinct (map pm_host_port (cs_extra_port_mappings s))
      else contract_ok s)"
proof -
  let ?f = "s\<lparr>cs_extra_port_mappings :=
             filter (\<lambda>m. pm_host_port m \<noteq> 80 \<and> pm_host_port m \<noteq> 443) (cs_extra_port_mappings s)\<rparr>"
  have same: "contract_cilium ?f = contract_cilium s" "networks_ok ?f = networks_ok s" "web_ingress ?f = web_ingress s"
    "80 \<notin> host_ports ?f" "443 \<notin> host_ports ?f"
    by (auto simp: contract_cilium_def networks_ok_def web_ingress_def host_ports_def)
  have d: "distinct (map pm_host_port ms) \<Longrightarrow> distinct (map pm_host_port (filter P ms))" for P ms
    by (induction ms) auto
  define core where "core \<longleftrightarrow> contract_name (cs_name s) \<and> contract_cilium s \<and>
     distinct (map pm_host_port (cs_extra_port_mappings s)) \<and> networks_ok s"
  have c: "contract_cilium s \<longleftrightarrow> (cs_cilium s \<noteq> None \<longrightarrow> cs_cni s = CiliumCni)
      \<and> (cs_ingress s = Some CiliumIngress \<longrightarrow> cs_cni s = CiliumCni \<and> (\<forall>co. cs_cilium s = Some co \<longrightarrow> co_ingress co))
      \<and> (\<forall>co. cs_cilium s = Some co \<longrightarrow> co_mesh co \<longrightarrow>
           1 \<le> unat (co_cluster_id co) \<and> unat (co_cluster_id co) \<le> 255 \<and> co_cluster_name co \<noteq> [])"
    by (cases "cs_cilium s") (auto simp: contract_cilium_def default_cilium Let_def)
  have "spec_ok s \<longleftrightarrow> extra_checks s \<and> core \<and> (web_ingress s \<longleftrightarrow> 80 \<in> host_ports s \<and> 443 \<in> host_ports s)"
    unfolding spec_ok_def core_def c extra_checks_def ports_ok_def label_ok_contract mesh_ok_contract web_ingress_def
      host_ports_def by (cases "cs_cilium s") auto
  moreover have "contract_ok s \<longleftrightarrow> core \<and> (80 \<in> host_ports s \<longleftrightarrow> web_ingress s) \<and> (443 \<in> host_ports s \<longleftrightarrow> web_ingress s)"
    unfolding contract_ok_def core_def by blast
  moreover have "contract_ok ?f \<and> distinct (map pm_host_port (cs_extra_port_mappings s)) \<longleftrightarrow> core \<and> \<not> web_ingress s"
    using d unfolding contract_ok_def core_def same using same(4,5) by auto
  ultimately show ?thesis unfolding validate_Ok by (auto simp: lone_web_port_def)
qed

text \<open>The pod network the rendered configuration gives the cluster: kind's own default when the
  field is left out.\<close>

definition effective_pod_subnet :: "kind_networking \<Rightarrow> string" where
  "effective_pod_subnet n =
     (case net_pod_subnet n of Some c \<Rightarrow> c | None \<Rightarrow> DEFAULT_POD_CIDR)"

text \<open>The rendered configuration has one control plane followed by \<open>worker_count\<close> workers,
  all on the image of the version; the control plane alone carries the port mappings, host ports
  in the order of the specification; and the pod network of the cluster is that of the
  specification, whether or not the field is written.\<close>

theorem kind_config_faithful:
  "let c = kind_config_of s; ns = kc_nodes c in
     length ns = Suc (unat (cs_worker_count s)) \<and>
     map kn_role ns = ''control-plane'' # replicate (unat (cs_worker_count s)) ''worker'' \<and>
     list_all (\<lambda>n. kn_image n = node_image_tag (cs_k8s_version s)) ns \<and>
     map kpm_host_port (kn_extra_port_mappings (hd ns)) = map pm_host_port (cs_extra_port_mappings s) \<and>
     list_all (\<lambda>n. kn_extra_port_mappings n = []) (tl ns) \<and>
     effective_pod_subnet (kc_networking c) = cs_pod_cidr s \<and>
     (net_disable_default_cni (kc_networking c) \<longleftrightarrow> cs_cni s \<noteq> KindnetDefault)"
  by (auto simp: Let_def kind_config_of_def build_nodes_def effective_pod_subnet_def list_all_iff
      map_replicate_const comp_def)

end
