(* ===== verification/StateStore.thy ===== *)
theory StateStore
  imports StoreLaws FsModel ClusterSpecModel "HOL-Library.Multiset"
begin

text \<open>
  Persistence (\<open>kindboard-core/src/state/mod.rs\<close>): the data directory, settings, the per-cluster
  records and the reconciliation of the stored records with the clusters kind reports.  The JSON
  codec and the clock are the record \<open>state_env\<close>; a directory listing is the answer of the system.
\<close>

section \<open>Data\<close>

definition DATA_DIR_NAME :: string where "DATA_DIR_NAME = ''kindboard''"
definition DEFAULT_POLL_INTERVAL_SECS :: "64 word" where "DEFAULT_POLL_INTERVAL_SECS = 5"

record settings =
  set_default_k8s_version :: "string option"
  set_remember_last_wizard :: bool
  set_poll_interval_secs :: "64 word"
  set_theme :: "string option"
  set_other :: string

definition settings_default :: settings where
  "settings_default =
     \<lparr>set_default_k8s_version = Some DEFAULT_K8S_VERSION, set_remember_last_wizard = True,
      set_poll_interval_secs = DEFAULT_POLL_INTERVAL_SECS, set_theme = None, set_other = []\<rparr>"

datatype cluster_source = SourceManaged | SourceAdopted

record cluster_record =
  cr_spec :: cluster_spec
  cr_created_at :: string
  cr_source :: cluster_source
  cr_kind_node_image :: string
  cr_other :: string

definition record_managed :: "string \<Rightarrow> cluster_spec \<Rightarrow> cluster_record" where
  "record_managed now spec =
     \<lparr>cr_spec = spec, cr_created_at = now, cr_source = SourceManaged,
      cr_kind_node_image = node_image_tag (cs_k8s_version spec), cr_other = []\<rparr>"

datatype cluster_state = Managed cluster_record | Adopted | Missing cluster_record

record cluster_row =
  ce_name :: string
  ce_state :: cluster_state

record reconcile_report = rr_clusters :: "cluster_row list"

record state_env =
  se_record_to_json :: "cluster_record \<Rightarrow> string + string"
  se_record_of_json :: "string \<Rightarrow> string + cluster_record"
  se_settings_to_json :: "settings \<Rightarrow> string + string"
  se_settings_of_json :: "string \<Rightarrow> string + settings"

section \<open>The data directory\<close>

definition safe_state_name :: "string \<Rightarrow> bool" where
  "safe_state_name n \<longleftrightarrow>
     n \<noteq> [] \<and> n \<noteq> ''.'' \<and> n \<noteq> ''..'' \<and> CHR ''/'' \<notin> set n \<and> CHR 0x5C \<notin> set n \<and> CHR 0x00 \<notin> set n"

fun create_dirs :: "string list \<Rightarrow> fs \<Rightarrow> (core_error + unit) outcome \<times> fs" where
  "create_dirs [] w = (Done (Ok ()), w)"
| "create_dirs (p # ps) w =
     (case create_dir_all p w of
        (Done _, w') \<Rightarrow> create_dirs ps w'
      | (Failed e, w') \<Rightarrow> (Done (Err (Io p e)), w')
      | (Crashed, w') \<Rightarrow> (Crashed, w'))"

definition data_dir_new :: "string \<Rightarrow> fs \<Rightarrow> (core_error + string) outcome \<times> fs" where
  "data_dir_new root =
     io_bind (create_dirs (root # map (path_join root) [''clusters'', ''logs'', ''tmp'']))
       (\<lambda>r. io_return (rbind r (\<lambda>_. Ok root)))"

definition data_dir_standard :: "string option \<Rightarrow> fs \<Rightarrow> (core_error + string) outcome \<times> fs" where
  "data_dir_standard base w =
     (case base of
        None \<Rightarrow> (Done (Err (Config
                   ''no local data dir available (XDG_DATA_HOME/HOME unset?)'')), w)
      | Some b \<Rightarrow> data_dir_new (path_join b DATA_DIR_NAME) w)"

definition settings_path :: "string \<Rightarrow> string" where "settings_path root = path_join root ''settings.json''"
definition clusters_dir :: "string \<Rightarrow> string" where "clusters_dir root = path_join root ''clusters''"
definition tmp_dir :: "string \<Rightarrow> string" where "tmp_dir root = path_join root ''tmp''"
definition logs_dir :: "string \<Rightarrow> string" where "logs_dir root = path_join root ''logs''"

definition bad_name_text :: string where
  "bad_name_text =
     ''cluster names must not contain '' @ [CHR 0x27, CHR ''/'', CHR 0x27] @ '', ''
     @ [CHR 0x27, CHR 0x5C, CHR 0x27] @ '', NUL, or be '' @ [CHR 0x27, CHR ''.'', CHR 0x27]
     @ '' or '' @ [CHR 0x27, CHR ''.'', CHR ''.'', CHR 0x27]"

definition cluster_path :: "string \<Rightarrow> string \<Rightarrow> core_error + string" where
  "cluster_path root n =
     (if \<not> safe_state_name n then Err (State (InvalidName n bad_name_text))
      else Ok (path_join (clusters_dir root) (n @ ''.json'')))"

text \<open>\<open>remove_dir_all\<close> removes children before their directory.\<close>

definition remove_dir_all :: "string \<Rightarrow> unit io" where
  "remove_dir_all p =
     io_prim (\<lambda>n. if n p = None then Inl not_found
                else Inr ((), \<lambda>q. if q = p \<or> starts_with (p @ ''/'') q then None else n q))
       (\<lambda>k n q. if starts_with (p @ ''/'') q \<and> k < length q then None else n q)"

definition clean_tmp :: "string \<Rightarrow> fs \<Rightarrow> (core_error + unit) outcome \<times> fs" where
  "clean_tmp root w =
     (let recreate = (\<lambda>w1. case create_dir_all (tmp_dir root) w1 of
            (Done _, w2) \<Rightarrow> (Done (Ok ()), w2)
          | (Failed e, w2) \<Rightarrow> (Done (Err (State (StateIo e))), w2)
          | (Crashed, w2) \<Rightarrow> (Crashed, w2))
      in (case remove_dir_all (tmp_dir root) w of
            (Done _, w1) \<Rightarrow> recreate w1
          | (Failed e, w1) \<Rightarrow>
              if io_kind_of e = NotFound then recreate w1
              else (Done (Err (State (StateIo e))), w1)
          | (Crashed, w1) \<Rightarrow> (Crashed, w1)))"

section \<open>Settings and records\<close>

definition load_settings :: "state_env \<Rightarrow> string \<Rightarrow> fs \<Rightarrow> (core_error + settings) outcome \<times> fs" where
  "load_settings se root w =
     (case read_file (settings_path root) w of
        (Failed e, w') \<Rightarrow>
          (Done (if io_kind_of e = NotFound then Ok settings_default
                 else Err (State (StateIo e))), w')
      | (Crashed, w') \<Rightarrow> (Crashed, w')
      | (Done f, w') \<Rightarrow>
          (let text = utf8_lossy (f_bytes f) in
           (Done (if str_trim text = [] then Ok settings_default
                  else map_err (\<lambda>e. State (InvalidRecord ''settings.json'' e))
                         (se_settings_of_json se text)), w')))"

definition write_json :: "string \<Rightarrow> string + string \<Rightarrow> fs \<Rightarrow> (core_error + unit) outcome \<times> fs" where
  "write_json p json w =
     (case json of
        Inl e \<Rightarrow> (Done (Err (State (StateJson e))), w)
      | Inr bytes \<Rightarrow>
          (case atomic_write p bytes w of
             (Done _, w') \<Rightarrow> (Done (Ok ()), w')
           | (Failed e, w') \<Rightarrow> (Done (Err (State (StateIo e))), w')
           | (Crashed, w') \<Rightarrow> (Crashed, w')))"

definition save_settings :: "state_env \<Rightarrow> string \<Rightarrow> settings \<Rightarrow> fs \<Rightarrow> (core_error + unit) outcome \<times> fs" where
  "save_settings se root s = write_json (settings_path root) (se_settings_to_json se s)"

definition save_cluster ::
    "fmt_env \<Rightarrow> state_env \<Rightarrow> string \<Rightarrow> cluster_record \<Rightarrow> fs \<Rightarrow> (core_error + unit) outcome \<times> fs" where
  "save_cluster fe se root r w =
     (let n = cs_name (cr_spec r) in
      case validate_name n of
        Inl e \<Rightarrow> (Done (Err (State (InvalidName n (core_error_text fe e)))), w)
      | Inr _ \<Rightarrow>
          (case se_record_to_json se r of
             Inl e \<Rightarrow> (Done (Err (State (StateJson e))), w)
           | Inr json \<Rightarrow>
               (case cluster_path root n of
                  Inl e \<Rightarrow> (Done (Err e), w)
                | Inr p \<Rightarrow> write_json p (Inr json) w)))"

definition load_cluster ::
    "state_env \<Rightarrow> string \<Rightarrow> string \<Rightarrow> fs \<Rightarrow> (core_error + cluster_record option) outcome \<times> fs" where
  "load_cluster se root n w =
     (case cluster_path root n of
        Inl e \<Rightarrow> (Done (Err e), w)
      | Inr p \<Rightarrow>
          (case read_file p w of
             (Failed e, w') \<Rightarrow>
               (Done (if io_kind_of e = NotFound then Ok None else Err (State (StateIo e))), w')
           | (Crashed, w') \<Rightarrow> (Crashed, w')
           | (Done f, w') \<Rightarrow>
               (let text = utf8_lossy (f_bytes f) in
                (Done (if str_trim text = [] then Ok None
                       else (case se_record_of_json se text of
                               Inl e \<Rightarrow> Err (State (InvalidRecord n e))
                             | Inr r \<Rightarrow> Ok (Some r))), w'))))"

definition remove_cluster :: "string \<Rightarrow> string \<Rightarrow> fs \<Rightarrow> (core_error + bool) outcome \<times> fs" where
  "remove_cluster root n w =
     (case cluster_path root n of
        Inl e \<Rightarrow> (Done (Err e), w)
      | Inr p \<Rightarrow>
          (case remove_file p w of
             (Done _, w') \<Rightarrow> (Done (Ok True), w')
           | (Failed e, w') \<Rightarrow>
               (Done (if io_kind_of e = NotFound then Ok False else Err (State (StateIo e))), w')
           | (Crashed, w') \<Rightarrow> (Crashed, w')))"

text \<open>\<open>Path::file_stem\<close> and \<open>extension\<close>: the last dot splits, unless it is the first byte.\<close>

definition stem_ext :: "string \<Rightarrow> string \<times> string option" where
  "stem_ext f =
     (let ps = split_on (CHR ''.'') f; stem = join_with ''.'' (butlast ps) in
      if f = ''..'' \<or> length ps = 1 \<or> stem = [] then (f, None) else (stem, Some (last ps)))"

text \<open>The answer to \<open>read_dir\<close>: an error, or the entries (an unreadable entry is \<open>None\<close>).\<close>

definition stored_cluster_names ::
    "io_error + string option list \<Rightarrow> string \<Rightarrow> fs \<Rightarrow> core_error + string list" where
  "stored_cluster_names listing root w =
     (case listing of
        Inl e \<Rightarrow> if io_kind_of e = NotFound then Ok [] else Err (State (StateIo e))
      | Inr entries \<Rightarrow>
          Ok (sort (concat (map (\<lambda>entry.
            (case entry of
               None \<Rightarrow> []
             | Some f \<Rightarrow>
                 (if fst (is_file (path_join (clusters_dir root) f) w) \<noteq> Done True then []
                  else (let (stem, ext) = stem_ext f in
                        if ext = Some ''json'' then [utf8_lossy stem] else [])))) entries))))"

section \<open>Reconciliation\<close>

fun reconcile_live ::
    "state_env \<Rightarrow> string \<Rightarrow> string list \<Rightarrow> fs \<Rightarrow> (core_error + cluster_row list) outcome \<times> fs" where
  "reconcile_live se root [] w = (Done (Ok []), w)"
| "reconcile_live se root (n # ns) w =
     (case load_cluster se root n w of
        (Done (Inr r), w') \<Rightarrow>
          (case reconcile_live se root ns w' of
             (Done (Inr rows), w'') \<Rightarrow>
               (Done (Ok (\<lparr>ce_name = n,
                   ce_state = (case r of Some c \<Rightarrow> Managed c | None \<Rightarrow> Adopted)\<rparr> # rows)), w'')
           | x \<Rightarrow> x)
      | (Done (Inl e), w') \<Rightarrow> (Done (Err e), w')
      | (Failed e, w') \<Rightarrow> (Failed e, w')
      | (Crashed, w') \<Rightarrow> (Crashed, w'))"

definition not_loadable :: "string \<Rightarrow> core_error" where
  "not_loadable n = State (InvalidRecord n ''listed in cluster dir but not loadable'')"

fun reconcile_stored ::
    "state_env \<Rightarrow> string \<Rightarrow> string list \<Rightarrow> string list \<Rightarrow> fs
       \<Rightarrow> (core_error + cluster_row list) outcome \<times> fs" where
  "reconcile_stored se root live [] w = (Done (Ok []), w)"
| "reconcile_stored se root live (n # ns) w =
     (if n \<in> set live then reconcile_stored se root live ns w
      else (case load_cluster se root n w of
              (Done (Inr (Some r)), w') \<Rightarrow>
                (case reconcile_stored se root live ns w' of
                   (Done (Inr rows), w'') \<Rightarrow>
                     (Done (Ok (\<lparr>ce_name = n, ce_state = Missing r\<rparr> # rows)), w'')
                 | x \<Rightarrow> x)
            | (Done (Inr None), w') \<Rightarrow> (Done (Err (not_loadable n)), w')
            | (Done (Inl e), w') \<Rightarrow> (Done (Err e), w')
            | (Failed e, w') \<Rightarrow> (Failed e, w')
            | (Crashed, w') \<Rightarrow> (Crashed, w')))"

definition reconcile ::
    "state_env \<Rightarrow> io_error + string option list \<Rightarrow> string \<Rightarrow> string list \<Rightarrow> fs
       \<Rightarrow> (core_error + reconcile_report) outcome \<times> fs" where
  "reconcile se listing root live w =
     (case stored_cluster_names listing root w of
        Inl e \<Rightarrow> (Done (Err e), w)
      | Inr stored \<Rightarrow>
          (case reconcile_live se root live w of
             (Done (Inr rows), w') \<Rightarrow>
               (case reconcile_stored se root live stored w' of
                  (Done (Inr rows'), w'') \<Rightarrow>
                    (Done (Ok \<lparr>rr_clusters = sort_key ce_name (rows @ rows')\<rparr>), w'')
                | (Done (Inl e), w'') \<Rightarrow> (Done (Err e), w'')
                | (Failed e, w'') \<Rightarrow> (Failed e, w'')
                | (Crashed, w'') \<Rightarrow> (Crashed, w''))
           | (Done (Inl e), w') \<Rightarrow> (Done (Err e), w')
           | (Failed e, w') \<Rightarrow> (Failed e, w')
           | (Crashed, w') \<Rightarrow> (Crashed, w')))"

definition rows_where :: "(cluster_state \<Rightarrow> bool) \<Rightarrow> reconcile_report \<Rightarrow> string list" where
  "rows_where P r = map ce_name (filter (\<lambda>x. P (ce_state x)) (rr_clusters r))"

fun is_managed :: "cluster_state \<Rightarrow> bool" where "is_managed (Managed _) = True" | "is_managed _ = False"
fun is_missing :: "cluster_state \<Rightarrow> bool" where "is_missing (Missing _) = True" | "is_missing _ = False"

definition managed_names :: "reconcile_report \<Rightarrow> string list" where "managed_names = rows_where is_managed"
definition adopted_names :: "reconcile_report \<Rightarrow> string list" where "adopted_names = rows_where (\<lambda>s. s = Adopted)"
definition missing_names :: "reconcile_report \<Rightarrow> string list" where "missing_names = rows_where is_missing"

section \<open>Paths of records\<close>

lemma split_on_append_list:
  "split_on c (s @ c # t) = split_on c s @ split_on c t"
proof -
  have "split_on c (s @ c # t) = butlast (split_on c s) @ split_on c (last (split_on c s) @ c # t)"
    by (rule split_on_append)
  also have "\<dots> = butlast (split_on c s) @ [last (split_on c s)] @ split_on c t"
    by (simp add: split_on_append_sep split_on_last_no_sep)
  also have "\<dots> = split_on c s @ split_on c t" by simp
  finally show ?thesis .
qed

lemma path_plain_last: "path_plain p \<Longrightarrow> p \<noteq> [] \<and> last p \<noteq> CHR ''/''"
proof -
  assume p: "path_plain p"
  then have ne: "path_file_name p \<noteq> []" by (simp add: path_plain_def)
  have "last (path_file_name p) \<noteq> CHR ''/''"
    using ne path_file_name_no_slash [of p] by (metis last_in_set)
  then show ?thesis using path_split [OF p] ne by (metis append_is_Nil_conv last_appendR)
qed

lemma path_join_plain:
  assumes "path_plain d" "c \<noteq> []" "CHR ''/'' \<notin> set c"
  shows "path_join d c = d @ ''/'' @ c" and "path_plain (path_join d c)"
    and "path_file_name (path_join d c) = c" and "path_parent (path_join d c) = d"
proof -
  have abs: "\<not> path_is_absolute c"
    using assms(2,3) by (cases c) (auto simp: path_is_absolute_def)
  show j: "path_join d c = d @ ''/'' @ c"
    using abs path_plain_last [OF assms(1)] by (simp add: path_join_def)
  have s: "split_on (CHR ''/'') (d @ CHR ''/'' # c) = split_on (CHR ''/'') d @ [c]"
    using split_on_append_list [of "CHR ''/''" d c] assms(3) by (simp add: split_on_no_sep)
  then show f: "path_file_name (path_join d c) = c" by (simp add: j path_file_name_def)
  have "split_on (CHR ''/'') d \<noteq> [[]]"
    using assms(1) by (auto simp: path_plain_def path_file_name_def)
  then show "path_parent (path_join d c) = d" by (simp add: j path_parent_def s Let_def)
  show "path_plain (path_join d c)"
    using assms(1,2) f unfolding path_plain_def by (simp add: j s)
qed

lemma clusters_dir_plain: "path_plain root \<Longrightarrow> path_plain (clusters_dir root)"
  unfolding clusters_dir_def by (rule path_join_plain) auto

lemma cluster_path_Ok:
  "cluster_path root n = Ok p \<longleftrightarrow> safe_state_name n \<and> p = path_join (clusters_dir root) (n @ ''.json'')"
  by (auto simp: cluster_path_def)

lemma cluster_path_plain:
  assumes "path_plain root" "cluster_path root n = Ok p"
  shows "path_plain p" "path_parent p = clusters_dir root" "path_file_name p = n @ ''.json''"
  using assms path_join_plain [OF clusters_dir_plain [OF assms(1)], of "n @ ''.json''"]
  by (auto simp: cluster_path_Ok safe_state_name_def)

lemma label_safe: "label_ok n \<Longrightarrow> safe_state_name n"
proof -
  assume n: "label_ok n"
  have "\<not> name_char (CHR ''/'')" "\<not> name_char (CHR 0x5C)" "\<not> name_char (CHR 0x00)" "\<not> name_char (CHR ''.'')"
    by (simp_all add: name_char_def char_class_defs)
  then show ?thesis using n by (auto simp: label_ok_def safe_state_name_def)
qed

section \<open>Loading without faults\<close>

text \<open>What the directory says of a name: the answer of an undisturbed \<open>load_cluster\<close>.\<close>

definition record_at :: "state_env \<Rightarrow> string \<Rightarrow> nodes \<Rightarrow> string \<Rightarrow> core_error + cluster_record option" where
  "record_at se root n name =
     rbind (cluster_path root name) (\<lambda>p.
       case lookup_node n p of
         None \<Rightarrow> Ok None
       | Some (NFile f) \<Rightarrow>
           (let text = utf8_lossy (f_bytes f) in
            if str_trim text = [] then Ok None
            else (case se_record_of_json se text of
                    Inl e \<Rightarrow> Err (State (InvalidRecord name e))
                  | Inr r \<Rightarrow> Ok (Some r)))
       | Some _ \<Rightarrow> Err (State (StateIo (os_error ''Is a directory (os error 21)''))))"

lemma load_clean:
  "fs_faults w = [] \<Longrightarrow> load_cluster se root n w = (Done (record_at se root (fs_nodes w) n), w)"
  by (cases w) (auto simp: load_cluster_def record_at_def read_file_def io_prim_clean Let_def not_found_def
      os_error_def split: sum.splits option.splits node.splits)

lemma reconcile_live_clean:
  assumes "fs_faults w = []"
  shows "reconcile_live se root ns w = (Done
    (if list_all (\<lambda>n. is_ok (record_at se root (fs_nodes w) n)) ns
     then Ok (map (\<lambda>n. \<lparr>ce_name = n, ce_state = (case projr (record_at se root (fs_nodes w) n) of
            Some c \<Rightarrow> Managed c | None \<Rightarrow> Adopted)\<rparr>) ns)
     else Err (projl (record_at se root (fs_nodes w)
            (hd (filter (\<lambda>n. \<not> is_ok (record_at se root (fs_nodes w) n)) ns))))), w)"
  by (induction ns) (auto simp: load_clean [OF assms] split: sum.splits)

definition stored_ok :: "state_env \<Rightarrow> string \<Rightarrow> nodes \<Rightarrow> string \<Rightarrow> bool" where
  "stored_ok se root nd n \<longleftrightarrow> (case record_at se root nd n of Inr (Some _) \<Rightarrow> True | _ \<Rightarrow> False)"

lemma reconcile_stored_clean:
  assumes "fs_faults w = []"
  shows "\<exists>e. reconcile_stored se root live ns w = (Done
    (if list_all (stored_ok se root (fs_nodes w)) (filter (\<lambda>n. n \<notin> set live) ns)
     then Ok (map (\<lambda>n. \<lparr>ce_name = n, ce_state = Missing (the (projr (record_at se root (fs_nodes w) n)))\<rparr>)
            (filter (\<lambda>n. n \<notin> set live) ns))
     else Err e), w)"
proof (induction ns)
  case (Cons n ns)
  then obtain e where "reconcile_stored se root live ns w = (Done
    (if list_all (stored_ok se root (fs_nodes w)) (filter (\<lambda>n. n \<notin> set live) ns)
     then Ok (map (\<lambda>n. \<lparr>ce_name = n, ce_state = Missing (the (projr (record_at se root (fs_nodes w) n)))\<rparr>)
            (filter (\<lambda>n. n \<notin> set live) ns))
     else Err e), w)" by blast
  note ih = this
  show ?case
  proof (cases "n \<in> set live")
    case True
    then show ?thesis using ih by auto
  next
    case False
    show ?thesis
    proof (cases "stored_ok se root (fs_nodes w) n")
      case True
      then obtain r where "record_at se root (fs_nodes w) n = Ok (Some r)"
        by (auto simp: stored_ok_def split: sum.splits option.splits)
      then show ?thesis using False True ih by (auto simp: load_clean [OF assms])
    next
      case bad: False
      then have "\<exists>e'. reconcile_stored se root live (n # ns) w = (Done (Err e'), w)"
        using False by (auto simp: load_clean [OF assms] stored_ok_def split: sum.splits option.splits)
      then show ?thesis using False bad by auto
    qed
  qed
qed simp

text \<open>The rows the classification matrix asks for.\<close>

definition expected_rows :: "state_env \<Rightarrow> string \<Rightarrow> nodes \<Rightarrow> string list \<Rightarrow> string list \<Rightarrow> cluster_row list" where
  "expected_rows se root nd live stored =
     map (\<lambda>n. \<lparr>ce_name = n, ce_state = (case record_at se root nd n of
            Inr (Some c) \<Rightarrow> Managed c | _ \<Rightarrow> Adopted)\<rparr>) live
     @ map (\<lambda>n. \<lparr>ce_name = n, ce_state = Missing (the (projr (record_at se root nd n)))\<rparr>)
         (filter (\<lambda>n. n \<notin> set live) stored)"

definition all_loadable :: "state_env \<Rightarrow> string \<Rightarrow> nodes \<Rightarrow> string list \<Rightarrow> string list \<Rightarrow> bool" where
  "all_loadable se root nd live stored \<longleftrightarrow>
     list_all (\<lambda>n. is_ok (record_at se root nd n)) live \<and>
     list_all (stored_ok se root nd) (filter (\<lambda>n. n \<notin> set live) stored)"

lemma reconcile_clean:
  assumes "fs_faults w = []" "stored_cluster_names listing root w = Ok stored"
  shows "\<exists>e. reconcile se listing root live w =
    (Done (if all_loadable se root (fs_nodes w) live stored
           then Ok \<lparr>rr_clusters = sort_key ce_name (expected_rows se root (fs_nodes w) live stored)\<rparr>
           else Err e), w)"
proof -
  have live: "map (\<lambda>n. \<lparr>ce_name = n, ce_state = (case projr (record_at se root (fs_nodes w) n) of
            Some c \<Rightarrow> Managed c | None \<Rightarrow> Adopted)\<rparr>) live
      = map (\<lambda>n. \<lparr>ce_name = n, ce_state = (case record_at se root (fs_nodes w) n of
            Inr (Some c) \<Rightarrow> Managed c | _ \<Rightarrow> Adopted)\<rparr>) live"
    if "list_all (\<lambda>n. is_ok (record_at se root (fs_nodes w) n)) live"
    using that by (intro map_cong) (auto simp: list_all_iff is_ok_iff)
  obtain e where st: "reconcile_stored se root live stored w = (Done
    (if list_all (stored_ok se root (fs_nodes w)) (filter (\<lambda>n. n \<notin> set live) stored)
     then Ok (map (\<lambda>n. \<lparr>ce_name = n, ce_state = Missing (the (projr (record_at se root (fs_nodes w) n)))\<rparr>)
            (filter (\<lambda>n. n \<notin> set live) stored))
     else Err e), w)" using reconcile_stored_clean [OF assms(1)] by blast
  show ?thesis
    by (auto simp: reconcile_def assms(2) reconcile_live_clean [OF assms(1)] st all_loadable_def
        expected_rows_def live)
qed

section \<open>Properties\<close>

text \<open>C7: On an undisturbed file system, reconciliation changes nothing, and succeeds exactly when
  every live name has a readable record or none and every other stored name has a record; its rows,
  in name order, are then one per live cluster (managed with its record, adopted without) and one
  missing row per stored cluster that is not live.\<close>

theorem reconcile_classifies:
  assumes "fs_faults w = []" and "stored_cluster_names listing root w = Ok stored"
  shows "case reconcile se listing root live w of (r, w') \<Rightarrow>
    w' = w \<and>
    (all_loadable se root (fs_nodes w) live stored \<longleftrightarrow> (\<exists>rep. r = Done (Ok rep))) \<and>
    (\<forall>rep. r = Done (Ok rep) \<longrightarrow>
       sorted (map ce_name (rr_clusters rep)) \<and>
       mset (rr_clusters rep) = mset (expected_rows se root (fs_nodes w) live stored))"
proof -
  obtain e where "reconcile se listing root live w =
    (Done (if all_loadable se root (fs_nodes w) live stored
           then Ok \<lparr>rr_clusters = sort_key ce_name (expected_rows se root (fs_nodes w) live stored)\<rparr>
           else Err e), w)" using reconcile_clean [OF assms] by blast
  then show ?thesis by auto
qed

definition state_env_example :: state_env where
  "state_env_example =
     \<lparr>se_record_to_json = (\<lambda>r. Ok (cs_name (cr_spec r))),
      se_record_of_json = (\<lambda>t. Ok (record_managed ''now'' (cluster_spec_default\<lparr>cs_name := t\<rparr>))),
      se_settings_to_json = (\<lambda>_. Ok ''{}''), se_settings_of_json = (\<lambda>_. Ok settings_default)\<rparr>"

theorem reconcile_classifies_witness:
  "case reconcile state_env_example (Ok []) ''/data'' [''dev''] fs_example of (r, w') \<Rightarrow>
    w' = fs_example \<and>
    (all_loadable state_env_example ''/data'' (fs_nodes fs_example) [''dev''] []
       \<longleftrightarrow> (\<exists>rep. r = Done (Ok rep))) \<and>
    (\<forall>rep. r = Done (Ok rep) \<longrightarrow>
       sorted (map ce_name (rr_clusters rep)) \<and>
       mset (rr_clusters rep)
         = mset (expected_rows state_env_example ''/data'' (fs_nodes fs_example) [''dev''] []))"
  by (rule reconcile_classifies) (simp_all add: fs_example_def stored_cluster_names_def)

text \<open>One blank record file of a cluster that is gone makes the whole reconciliation fail,
  whatever the other clusters are.\<close>

theorem blank_record_blocks_reconcile:
  assumes "fs_faults w = []" and "stored_cluster_names listing root w = Ok stored"
    and "n \<in> set stored" "n \<notin> set live" "cluster_path root n = Ok p"
    and "lookup_node (fs_nodes w) p = Some (NFile \<lparr>f_bytes = [], f_mode = m\<rparr>)"
  shows "\<exists>e. reconcile se listing root live w = (Done (Err e), w)"
proof -
  have "record_at se root (fs_nodes w) n = Ok None"
    using assms(5,6) by (simp add: record_at_def)
  then have "\<not> all_loadable se root (fs_nodes w) live stored"
    using assms(3,4) by (auto simp: all_loadable_def stored_ok_def list_all_iff)
  then show ?thesis using reconcile_clean [OF assms(1,2), of se live] by auto
qed

definition fs_blank :: fs where
  "fs_blank = fs_example\<lparr>fs_nodes := [''/data/clusters/a.json'' \<mapsto> NFile \<lparr>f_bytes = [], f_mode = 420\<rparr>]\<rparr>"

lemma fs_blank_lookup:
  "lookup_node (fs_nodes fs_blank) ''/data/clusters/a.json'' = Some (NFile \<lparr>f_bytes = [], f_mode = 420\<rparr>)"
  by (simp add: lookup_node_def numeral_eq_Suc fs_blank_def)

lemma clusters_dir_data: "path_join (clusters_dir ''/data'') ''a.json'' = ''/data/clusters/a.json''"
  by (simp add: clusters_dir_def path_join_def path_is_absolute_def)

lemma fs_blank_stored: "stored_cluster_names (Ok [Some ''a.json'']) ''/data'' fs_blank = Ok [''a'']"
  by (simp add: stored_cluster_names_def is_file_def clusters_dir_data fs_blank_lookup stem_ext_def
      utf8_next_def utf8_width_def less_char_def Let_def)

theorem blank_record_blocks_reconcile_witness:
  "\<exists>e. reconcile state_env_example (Ok [Some ''a.json'']) ''/data'' [''dev''] fs_blank
     = (Done (Err e), fs_blank)"
  by (rule blank_record_blocks_reconcile [where p = "''/data/clusters/a.json''" and n = "''a''",
        OF _ fs_blank_stored _ _ _ fs_blank_lookup])
    (simp_all add: fs_blank_def fs_example_def cluster_path_def safe_state_name_def
      clusters_dir_def path_join_def path_is_absolute_def)

text \<open>C24: A saved record is the one loaded back, whatever faults the save went through on its way to
  reporting success, provided the JSON codec reads what it wrote.\<close>

theorem save_load_roundtrip:
  assumes "path_plain root"
    and "save_cluster fe se root r w = (Done (Ok ()), w')"
    and "se_record_to_json se r = Ok json"
    and "se_record_of_json se (utf8_lossy json) = Ok r" "str_trim (utf8_lossy json) \<noteq> []"
  shows "load_cluster se root (cs_name (cr_spec r)) (w'\<lparr>fs_faults := []\<rparr>)
    = (Done (Ok (Some r)), w'\<lparr>fs_faults := []\<rparr>)"
proof -
  let ?n = "cs_name (cr_spec r)"
  obtain p where p: "cluster_path root ?n = Ok p" and wj: "write_json p (Ok json) w = (Done (Ok ()), w')"
    using assms(2,3) by (auto simp: save_cluster_def Let_def split: sum.splits)
  then have "atomic_write_impl p json False w = (Done (), w')"
    by (auto simp: write_json_def atomic_write_def split: prod.splits outcome.splits)
  then obtain m where "fs_nodes w' p = Some (NFile \<lparr>f_bytes = json, f_mode = m\<rparr>)"
    using atomic_write_ok [OF cluster_path_plain(1) [OF assms(1) p], of json False w] by auto
  then have "lookup_node (fs_nodes w') p = Some (NFile \<lparr>f_bytes = json, f_mode = m\<rparr>)"
    by (simp add: lookup_node_def numeral_eq_Suc)
  then show ?thesis
    using p assms(4,5) by (simp add: load_clean record_at_def)
qed

definition dev_record :: cluster_record where
  "dev_record = record_managed ''now'' (cluster_spec_default\<lparr>cs_name := ''dev''\<rparr>)"

definition fmt_example :: fmt_env where
  "fmt_example = \<lparr>dbg_str = (\<lambda>s. s), dbg_dur = dec\<rparr>"

lemma dev_path: "cluster_path ''/data'' ''dev'' = Ok ''/data/clusters/dev.json''"
  by (simp add: cluster_path_def safe_state_name_def clusters_dir_def path_join_def
      path_is_absolute_def)

lemma dev_save:
  "\<exists>w'. save_cluster fmt_example state_env_example ''/data'' dev_record fs_example = (Done (Ok ()), w')"
proof -
  have "\<exists>w'. atomic_write_impl ''/data/clusters/dev.json'' ''dev'' False fs_example = (Done (), w')"
    by (rule atomic_write_fresh)
      (simp_all add: fs_example_def path_plain_def path_file_name_def path_parent_def
        path_join_def path_is_absolute_def tmp_name_def)
  moreover have "validate_name ''dev'' = Ok ()"
    by (simp add: validate_name_def MAX_NAME_LEN_def name_char_def char_class_defs)
  ultimately show ?thesis
    by (auto simp: save_cluster_def dev_record_def record_managed_def cluster_spec_default_def
        state_env_example_def dev_path write_json_def atomic_write_def)
qed

lemma utf8_dev: "utf8_lossy ''dev'' = ''dev''"
  by (simp add: utf8_next_def utf8_width_def less_char_def)

theorem save_load_roundtrip_witness:
  "\<exists>w'. load_cluster state_env_example ''/data'' (cs_name (cr_spec dev_record)) w'
     = (Done (Ok (Some dev_record)), w')"
proof -
  obtain w' where w': "save_cluster fmt_example state_env_example ''/data'' dev_record fs_example
      = (Done (Ok ()), w')" using dev_save by blast
  have "load_cluster state_env_example ''/data'' (cs_name (cr_spec dev_record)) (w'\<lparr>fs_faults := []\<rparr>)
      = (Done (Ok (Some dev_record)), w'\<lparr>fs_faults := []\<rparr>)"
    by (rule save_load_roundtrip [OF _ w', where json = "''dev''"])
      (simp_all add: path_plain_def path_file_name_def state_env_example_def dev_record_def
        record_managed_def cluster_spec_default_def utf8_dev str_trim_def trim_end_def is_ws1_def
        is_ws2_def is_ws3_def less_eq_char_def del: utf8_lossy.simps)
  then show ?thesis by blast
qed

text \<open>No cluster name, wherever it comes from, reaches a file outside the directory of
  records: an accepted name is the stem of a file directly in it.\<close>

theorem cluster_path_confined:
  assumes "path_plain root" and "cluster_path root n = Ok p"
  shows "path_parent p = clusters_dir root \<and> path_file_name p = n @ ''.json'' \<and> safe_state_name n"
  using cluster_path_plain [OF assms] assms(2) by (simp add: cluster_path_Ok)

theorem cluster_path_confined_witness:
  "path_parent ''/data/clusters/dev.json'' = clusters_dir ''/data'' \<and>
   path_file_name ''/data/clusters/dev.json'' = ''dev'' @ ''.json'' \<and> safe_state_name ''dev''"
  by (rule cluster_path_confined)
    (simp_all add: path_plain_def path_file_name_def cluster_path_def safe_state_name_def
      clusters_dir_def path_join_def path_is_absolute_def)

end
