(* ===== verification/Manifests.thy ===== *)
theory Manifests
  imports Prelude
begin

text \<open>
  The pinned manifests and the two manifest edits
  (\<open>kindboard-core/src/provision/manifests.rs\<close>).
\<close>

definition FLANNEL_MANIFEST_URL :: string where
  "FLANNEL_MANIFEST_URL = ''https://raw.githubusercontent.com/flannel-io/flannel/v0.28.9/Documentation/kube-flannel.yml''"
definition FLANNEL_MANIFEST_SHA256 :: string where
  "FLANNEL_MANIFEST_SHA256 = ''e875824be2f552b45711dbda91af81b17eb961d00025d914d9fef18fad8f09c0''"
definition FLANNEL_DEFAULT_NETWORK :: string where
  "FLANNEL_DEFAULT_NETWORK = ''10.244.0.0/16''"
definition TIGERA_OPERATOR_URL :: string where
  "TIGERA_OPERATOR_URL = ''https://raw.githubusercontent.com/projectcalico/calico/v3.32.0/manifests/tigera-operator.yaml''"
definition TIGERA_OPERATOR_SHA256 :: string where
  "TIGERA_OPERATOR_SHA256 = ''e48fe027f8be3d9136a012a32450f1eabc4c5257c0b76083cd1ab32316637d47''"
definition INGRESS_NGINX_KIND_DEPLOY_URL :: string where
  "INGRESS_NGINX_KIND_DEPLOY_URL = ''https://raw.githubusercontent.com/kubernetes/ingress-nginx/controller-v1.12.1/deploy/static/provider/kind/deploy.yaml''"
definition INGRESS_NGINX_KIND_DEPLOY_SHA256 :: string where
  "INGRESS_NGINX_KIND_DEPLOY_SHA256 = ''cb84b0ea747c9149cce08aef4e95b1e55f183f07299f40e7009043e960a0133f''"
definition GATEWAY_API_CRDS_URL :: string where
  "GATEWAY_API_CRDS_URL = ''https://github.com/kubernetes-sigs/gateway-api/releases/download/v1.6.2/standard-install.yaml''"
definition GATEWAY_API_CRDS_SHA256 :: string where
  "GATEWAY_API_CRDS_SHA256 = ''faede450fa178126aba41337737b97d351ebe87d93c910237ce1e072d1ca40d9''"
definition TRAEFIK_HELM_REPO_URL :: string where
  "TRAEFIK_HELM_REPO_URL = ''https://traefik.github.io/charts''"
definition TRAEFIK_HELM_REPO_NAME :: string where "TRAEFIK_HELM_REPO_NAME = ''traefik''"
definition TRAEFIK_HELM_CHART :: string where "TRAEFIK_HELM_CHART = ''traefik/traefik''"
definition TRAEFIK_NAMESPACE :: string where "TRAEFIK_NAMESPACE = ''kube-system''"
definition INGRESS_NGINX_NAMESPACE :: string where "INGRESS_NGINX_NAMESPACE = ''ingress-nginx''"
definition NODE_READY_TIMEOUT :: string where "NODE_READY_TIMEOUT = ''2m''"
definition CALICO_CRD_TIMEOUT :: nat where "CALICO_CRD_TIMEOUT = 300000"
definition CILIUM_SET_KUBE_PROXY_REPLACEMENT :: string where
  "CILIUM_SET_KUBE_PROXY_REPLACEMENT = ''kubeProxyReplacement=true''"
definition CILIUM_SET_INGRESS_ENABLED :: string where
  "CILIUM_SET_INGRESS_ENABLED = ''ingressController.enabled=true''"
definition CILIUM_SET_GATEWAY_API_ENABLED :: string where
  "CILIUM_SET_GATEWAY_API_ENABLED = ''gatewayAPI.enabled=true''"
definition CILIUM_SET_MESH_NODE_PORT :: string where
  "CILIUM_SET_MESH_NODE_PORT = ''clustermesh.apiserver.service.type=NodePort''"
definition CILIUM_VERSION_KERNEL_72 :: string where
  "CILIUM_VERSION_KERNEL_72 = ''v1.21.0-pre.2''"
definition CILIUM_MESH_SERVICE_TYPE :: string where "CILIUM_MESH_SERVICE_TYPE = ''NodePort''"

definition calico_installation_cr :: "string \<Rightarrow> string" where
  "calico_installation_cr pod_cidr =
     concat (map (\<lambda>l. l @ [nl])
       [''apiVersion: operator.tigera.io/v1'', ''kind: Installation'', ''metadata:'',
        ''  name: default'', ''spec:'', ''  calicoNetwork:'', ''    ipPools:'',
        ''    - blockSize: 26'', ''      cidr: '' @ pod_cidr,
        ''      encapsulation: VXLANCrossSubnet'', ''      natOutgoing: Enabled'',
        ''      nodeSelector: all()''])"

text \<open>\<open>str::replace\<close>: the matches from left to right, none overlapping another.\<close>

function replace_all :: "string \<Rightarrow> string \<Rightarrow> string \<Rightarrow> string" where
  "replace_all needle r [] = []"
| "replace_all needle r (x # xs) =
     (if needle \<noteq> [] \<and> starts_with needle (x # xs)
      then r @ replace_all needle r (drop (length needle) (x # xs))
      else x # replace_all needle r xs)"
  by pat_completeness auto
termination
  by (relation "measure (\<lambda>(_, _, s). length s)") (auto simp: neq_Nil_conv)

declare replace_all.simps(2) [simp del]

definition network_entry :: "string \<Rightarrow> string" where
  "network_entry cidr =
     [CHR 0x22] @ ''Network'' @ [CHR 0x22] @ '': '' @ [CHR 0x22] @ cidr @ [CHR 0x22]"

definition patch_flannel_network :: "string \<Rightarrow> string \<Rightarrow> string option" where
  "patch_flannel_network manifest pod_cidr =
     (let needle = network_entry FLANNEL_DEFAULT_NETWORK; replacement = network_entry pod_cidr in
      if has_sub needle manifest then Some (replace_all needle replacement manifest)
      else if has_sub replacement manifest then Some manifest
      else None)"

lemma has_sub_replace_all:
  "has_sub needle s \<Longrightarrow> needle \<noteq> [] \<Longrightarrow> has_sub r (replace_all needle r s)"
proof (induction needle r s rule: replace_all.induct)
  case (2 needle r x xs)
  show ?case
  proof (cases "starts_with needle (x # xs)")
    case True
    then have "replace_all needle r (x # xs)
        = r @ replace_all needle r (drop (length needle) (x # xs))"
      using 2(4) by (subst replace_all.simps) (simp only: simp_thms if_True)
    then show ?thesis by (simp only:) (simp add: has_sub_iff)
  next
    case False
    then have "has_sub r (replace_all needle r xs)"
      using 2(2) [OF _ _ 2(4)] 2(3) False by (simp only: has_sub.simps) blast
    moreover have "replace_all needle r (x # xs) = x # replace_all needle r xs"
      using False by (subst replace_all.simps) (simp only: simp_thms if_False)
    ultimately show ?thesis by (simp only: has_sub_iff sublist_Cons_right simp_thms)
  qed
qed simp

lemma network_entry_nonempty: "network_entry c \<noteq> []"
  by (simp add: network_entry_def)

lemma patch_contains:
  assumes "patch_flannel_network m c = Some m'"
  shows "has_sub (network_entry c) m'"
proof (cases "has_sub (network_entry FLANNEL_DEFAULT_NETWORK) m")
  case True
  then have "m' = replace_all (network_entry FLANNEL_DEFAULT_NETWORK) (network_entry c) m"
    using assms by (simp add: patch_flannel_network_def Let_def)
  then show ?thesis
    using has_sub_replace_all [OF True network_entry_nonempty] by simp
next
  case False
  then show ?thesis using assms
    by (simp add: patch_flannel_network_def Let_def split: if_splits)
qed

text \<open>A patched flannel manifest names the pod network of the cluster, and patching fails
  exactly when the manifest names neither flannel's default network nor the cluster's.\<close>

theorem flannel_patch_sets_network:
  "(case patch_flannel_network m c of
      Some m' \<Rightarrow> has_sub (network_entry c) m'
    | None \<Rightarrow> True) \<and>
   (patch_flannel_network m c = None \<longleftrightarrow>
      \<not> has_sub (network_entry FLANNEL_DEFAULT_NETWORK) m \<and> \<not> has_sub (network_entry c) m)"
proof
  show "case patch_flannel_network m c of Some m' \<Rightarrow> has_sub (network_entry c) m' | None \<Rightarrow> True"
    by (cases "patch_flannel_network m c") (simp_all add: patch_contains)
  show "patch_flannel_network m c = None \<longleftrightarrow>
      \<not> has_sub (network_entry FLANNEL_DEFAULT_NETWORK) m \<and> \<not> has_sub (network_entry c) m"
    by (simp add: patch_flannel_network_def Let_def)
qed

end
