(* ===== verification/KindCtl.thy ===== *)
theory KindCtl
  imports SearchPath ClusterSpecModel
begin

text \<open>
  The subprocess surface (\<open>kindboard-core/src/kindctl.rs\<close>): every command line the application
  runs, as one datatype with its argument vector and timeout, and the parsers of
  \<open>kind get clusters\<close> and \<open>kind get nodes\<close>.
\<close>

definition PROBE_TIMEOUT :: nat where "PROBE_TIMEOUT = 30000"
definition INSTALL_TIMEOUT :: nat where "INSTALL_TIMEOUT = 600000"
definition CREATE_TIMEOUT :: nat where "CREATE_TIMEOUT = 300000"
definition GENERAL_TIMEOUT :: nat where "GENERAL_TIMEOUT = 60000"
definition EXPORT_LOGS_TIMEOUT :: nat where "EXPORT_LOGS_TIMEOUT = 300000"
definition WAIT_TIMEOUT :: nat where "WAIT_TIMEOUT = 180000"
definition KIND_WAIT_FLAG :: string where "KIND_WAIT_FLAG = ''5m''"

record helm_chart =
  hc_release :: string
  hc_chart :: string
  hc_repo :: "string option"
  hc_version :: "string option"
  hc_ns :: string
  hc_create_namespace :: bool
  hc_sets :: "string list"
  hc_wait_watcher :: bool
  hc_kube_context :: string

datatype kind_command =
    KindVersion
  | KindGetClusters
  | KindGetNodes string
  | KindCreate string bool
  | KindDelete string
  | KindExportKubeconfig string bool
  | KindLoadImage string string
  | KindExportLogs string string
  | DockerVersion
  | DockerKernelVersion
  | DockerPs string
  | DockerLogs string bool "nat option"
  | DockerInspect string
  | KubectlVersion
  | KubectlGetNodes string
  | KubectlApply string string bool
  | KubectlWait string string string string string string
  | KubectlLogs string string string "string option" bool "nat option"
  | KubectlGetEvents string string
  | KubectlGetCrd string string
  | KubectlGetPodsByLabel string string string
  | HelmVersion
  | HelmInstall helm_chart
  | HelmUpgrade helm_chart
  | HelmUninstall string string string
  | HelmRepoAdd string string
  | CiliumVersion
  | CiliumInstall string "string option" "string list" bool
  | CiliumStatus string bool
  | CiliumHubbleEnable string bool bool
  | CiliumClustermeshEnable string "string option"
  | CiliumClustermeshConnect string string
  | CiliumClustermeshDisconnect string string

definition flag_if :: "bool \<Rightarrow> string list \<Rightarrow> string list" where
  "flag_if b args = (if b then args else [])"

definition opt_arg :: "string \<Rightarrow> string option \<Rightarrow> string list" where
  "opt_arg flag v = (case v of Some x \<Rightarrow> [flag, x] | None \<Rightarrow> [])"

definition ns_args :: "string \<Rightarrow> string list" where
  "ns_args ns = (if ns = [] then [] else [''-n'', ns])"

definition set_args :: "string list \<Rightarrow> string list" where
  "set_args sets = concat (map (\<lambda>s. [''--set'', s]) sets)"

definition helm_install_args :: "string \<Rightarrow> helm_chart \<Rightarrow> string list" where
  "helm_install_args verb h =
     [verb, hc_release h, hc_chart h] @ opt_arg ''--repo'' (hc_repo h)
     @ opt_arg ''--version'' (hc_version h) @ [''-n'', hc_ns h]
     @ flag_if (hc_create_namespace h) [''--create-namespace''] @ set_args (hc_sets h)
     @ flag_if (hc_wait_watcher h) [''--wait'', ''watcher'']
     @ [''--kube-context'', hc_kube_context h]"

text \<open>The arguments of the arms that build them step by step.\<close>

definition kubectl_apply_args :: "string \<Rightarrow> string \<Rightarrow> bool \<Rightarrow> string list" where
  [simp]: "kubectl_apply_args context manifest_path server_side =
     [''--context'', context, ''apply''] @ flag_if server_side [''--server-side'']
       @ [''-f'', utf8_lossy manifest_path]"

definition kubectl_wait_args :: "string \<Rightarrow> string \<Rightarrow> string \<Rightarrow> string \<Rightarrow> string \<Rightarrow> string \<Rightarrow> string list" where
  [simp]: "kubectl_wait_args context kind name ns condition timeout =
     [''--context'', context, ''wait'', kind, name] @ ns_args ns
       @ [''--for'', condition, ''--timeout'', timeout]"

definition kubectl_logs_args :: "string \<Rightarrow> string \<Rightarrow> string \<Rightarrow> string option \<Rightarrow> bool \<Rightarrow> nat option \<Rightarrow> string list" where
  [simp]: "kubectl_logs_args context pod ns container follow tail =
     [''--context'', context, ''logs'', pod] @ ns_args ns @ opt_arg ''-c'' container
       @ (if follow then [''-f''] else opt_arg ''--tail'' (map_option dec tail))"

definition kubectl_events_args :: "string \<Rightarrow> string \<Rightarrow> string list" where
  [simp]: "kubectl_events_args context ns =
     [''--context'', context, ''get'', ''events''] @ ns_args ns @ [''-o'', ''json'']"

definition kubectl_crd_args :: "string \<Rightarrow> string \<Rightarrow> string list" where
  [simp]: "kubectl_crd_args context name =
     [''--context'', context, ''get'', ''crd'', name]"

definition kubectl_pods_args :: "string \<Rightarrow> string \<Rightarrow> string \<Rightarrow> string list" where
  [simp]: "kubectl_pods_args context ns label =
     [''--context'', context, ''get'', ''pods''] @ ns_args ns @ [''-l'', label, ''-o'', ''json'']"

definition helm_run :: "string \<Rightarrow> helm_chart \<Rightarrow> string \<times> string list \<times> nat" where
  [simp]: "helm_run verb h = (''helm'', helm_install_args verb h, INSTALL_TIMEOUT)"

definition helm_uninstall_args :: "string \<Rightarrow> string \<Rightarrow> string \<Rightarrow> string list" where
  [simp]: "helm_uninstall_args release ns kube_context =
     [''uninstall'', release, ''-n'', ns, ''--kube-context'', kube_context]"

definition cilium_install_args :: "string \<Rightarrow> string option \<Rightarrow> string list \<Rightarrow> bool \<Rightarrow> string list" where
  [simp]: "cilium_install_args context version sets wait =
     [''install'', ''--context'', context] @ opt_arg ''--version'' version @ set_args sets
       @ flag_if wait [''--wait'']"

definition cilium_status_args :: "string \<Rightarrow> bool \<Rightarrow> string list" where
  [simp]: "cilium_status_args context wait =
     [''status'', ''--context'', context] @ flag_if wait [''--wait'']"

definition hubble_enable_args :: "string \<Rightarrow> bool \<Rightarrow> bool \<Rightarrow> string list" where
  [simp]: "hubble_enable_args context ui relay =
     [''hubble'', ''enable'', ''--context'', context] @ flag_if relay [''--relay''] @ flag_if ui [''--ui'']"

definition clustermesh_enable_args :: "string \<Rightarrow> string option \<Rightarrow> string list" where
  [simp]: "clustermesh_enable_args context service_type =
     [''clustermesh'', ''enable'', ''--context'', context] @ opt_arg ''--service-type'' service_type"

definition clustermesh_connect_args :: "string \<Rightarrow> string \<Rightarrow> string list" where
  [simp]: "clustermesh_connect_args context destination =
     [''clustermesh'', ''connect'', ''--context'', context, ''--destination-context'', destination]"

definition clustermesh_disconnect_args :: "string \<Rightarrow> string \<Rightarrow> string list" where
  [simp]: "clustermesh_disconnect_args context destination =
     [''clustermesh'', ''disconnect'', ''--context'', context, ''--destination-context'', destination]"

fun to_program_args_and_timeout :: "kind_command \<Rightarrow> string \<times> string list \<times> nat" where
  "to_program_args_and_timeout KindVersion = (''kind'', [''version''], PROBE_TIMEOUT)"
| "to_program_args_and_timeout KindGetClusters = (''kind'', [''get'', ''clusters''], GENERAL_TIMEOUT)"
| "to_program_args_and_timeout (KindGetNodes cluster) =
     (''kind'', [''get'', ''nodes'', ''--name'', cluster], GENERAL_TIMEOUT)"
| "to_program_args_and_timeout (KindCreate config_path wait) =
     (''kind'', [''create'', ''cluster'', ''--config'', utf8_lossy config_path]
        @ flag_if wait [''--wait'', KIND_WAIT_FLAG], CREATE_TIMEOUT)"
| "to_program_args_and_timeout (KindDelete name) =
     (''kind'', [''delete'', ''cluster'', ''--name'', name], CREATE_TIMEOUT)"
| "to_program_args_and_timeout (KindExportKubeconfig name internal) =
     (''kind'', [''get'', ''kubeconfig'', ''--name'', name] @ flag_if internal [''--internal''],
      GENERAL_TIMEOUT)"
| "to_program_args_and_timeout (KindLoadImage name img) =
     (''kind'', [''load'', ''docker-image'', img, ''--name'', name], GENERAL_TIMEOUT)"
| "to_program_args_and_timeout (KindExportLogs dest name) =
     (''kind'', [''export'', ''logs'', utf8_lossy dest, ''--name'', name], EXPORT_LOGS_TIMEOUT)"
| "to_program_args_and_timeout DockerVersion =
     (''docker'', [''version'', ''--format'', ''{{.Client.Version}}''], PROBE_TIMEOUT)"
| "to_program_args_and_timeout DockerKernelVersion =
     (''docker'', [''info'', ''--format'', ''{{.KernelVersion}}''], PROBE_TIMEOUT)"
| "to_program_args_and_timeout (DockerPs name_filter) =
     (''docker'', [''ps'', ''--filter'', ''name='' @ name_filter @ ''-'', ''--format'', ''json''],
      GENERAL_TIMEOUT)"
| "to_program_args_and_timeout (DockerLogs container follow tail) =
     (''docker'', [''logs''] @ flag_if follow [''--follow'']
        @ opt_arg ''--tail'' (map_option dec tail) @ [container], GENERAL_TIMEOUT)"
| "to_program_args_and_timeout (DockerInspect container) =
     (''docker'', [''inspect'', container], GENERAL_TIMEOUT)"
| "to_program_args_and_timeout KubectlVersion =
     (''kubectl'', [''version'', ''--client'', ''--output=json''], PROBE_TIMEOUT)"
| "to_program_args_and_timeout (KubectlGetNodes context) =
     (''kubectl'', [''--context'', context, ''get'', ''nodes'', ''-o'', ''json''], GENERAL_TIMEOUT)"
| "to_program_args_and_timeout (KubectlApply context manifest_path server_side) =
     (''kubectl'', kubectl_apply_args context manifest_path server_side, GENERAL_TIMEOUT)"
| "to_program_args_and_timeout (KubectlWait context kind name ns condition timeout) =
     (''kubectl'', kubectl_wait_args context kind name ns condition timeout, WAIT_TIMEOUT)"
| "to_program_args_and_timeout (KubectlLogs context pod ns container follow tail) =
     (''kubectl'', kubectl_logs_args context pod ns container follow tail, GENERAL_TIMEOUT)"
| "to_program_args_and_timeout (KubectlGetEvents context ns) =
     (''kubectl'', kubectl_events_args context ns, GENERAL_TIMEOUT)"
| "to_program_args_and_timeout (KubectlGetCrd context name) =
     (''kubectl'', kubectl_crd_args context name, GENERAL_TIMEOUT)"
| "to_program_args_and_timeout (KubectlGetPodsByLabel context ns label) =
     (''kubectl'', kubectl_pods_args context ns label, GENERAL_TIMEOUT)"
| "to_program_args_and_timeout HelmVersion = (''helm'', [''version'', ''--short''], PROBE_TIMEOUT)"
| "to_program_args_and_timeout (HelmInstall h) =
     helm_run ''install'' h"
| "to_program_args_and_timeout (HelmUpgrade h) =
     helm_run ''upgrade'' h"
| "to_program_args_and_timeout (HelmUninstall release ns kube_context) =
     (''helm'', helm_uninstall_args release ns kube_context, INSTALL_TIMEOUT)"
| "to_program_args_and_timeout (HelmRepoAdd name url) =
     (''helm'', [''repo'', ''add'', name, url], PROBE_TIMEOUT)"
| "to_program_args_and_timeout CiliumVersion =
     (''cilium'', [''version'', ''--client''], PROBE_TIMEOUT)"
| "to_program_args_and_timeout (CiliumInstall context version sets wait) =
     (''cilium'', cilium_install_args context version sets wait, INSTALL_TIMEOUT)"
| "to_program_args_and_timeout (CiliumStatus context wait) =
     (''cilium'', cilium_status_args context wait, INSTALL_TIMEOUT)"
| "to_program_args_and_timeout (CiliumHubbleEnable context ui relay) =
     (''cilium'', hubble_enable_args context ui relay, INSTALL_TIMEOUT)"
| "to_program_args_and_timeout (CiliumClustermeshEnable context service_type) =
     (''cilium'', clustermesh_enable_args context service_type, INSTALL_TIMEOUT)"
| "to_program_args_and_timeout (CiliumClustermeshConnect context destination_context) =
     (''cilium'', clustermesh_connect_args context destination_context, INSTALL_TIMEOUT)"
| "to_program_args_and_timeout (CiliumClustermeshDisconnect context destination_context) =
     (''cilium'', clustermesh_disconnect_args context destination_context, INSTALL_TIMEOUT)"

definition to_program_and_args :: "kind_command \<Rightarrow> string \<times> string list" where
  "to_program_and_args k =
     (let (program, args, _) = to_program_args_and_timeout k in (program, args))"

definition default_timeout :: "kind_command \<Rightarrow> nat" where
  "default_timeout k = snd (snd (to_program_args_and_timeout k))"

definition to_cmd :: "os_env \<Rightarrow> kind_command \<Rightarrow> cmd" where
  "to_cmd e k =
     (let (program, args, timeout) = to_program_args_and_timeout k
      in with_effective_path e (with_timeout timeout (with_args args (cmd_new program))))"

definition parse_kind_get_clusters :: "string \<Rightarrow> string list" where
  "parse_kind_get_clusters stdout = filter (\<lambda>l. l \<noteq> []) (map str_trim (str_lines stdout))"

definition parse_kind_get_nodes :: "string \<Rightarrow> string list" where
  "parse_kind_get_nodes stdout = parse_kind_get_clusters stdout"

lemma to_cmd_argv:
  "cmd_argv (to_cmd e k) = fst (to_program_and_args k) # snd (to_program_and_args k)"
  "cmd_deadline (to_cmd e k) = default_timeout k"
  by (auto simp: to_cmd_def to_program_and_args_def default_timeout_def with_effective_path_def
      with_env_def with_timeout_def with_args_def cmd_new_def cmd_argv_def cmd_deadline_def Let_def
      split: prod.splits option.splits)

lemma default_timeout_pos: "30000 \<le> default_timeout k"
  by (cases k) (simp_all add: default_timeout_def PROBE_TIMEOUT_def INSTALL_TIMEOUT_def
      CREATE_TIMEOUT_def GENERAL_TIMEOUT_def EXPORT_LOGS_TIMEOUT_def WAIT_TIMEOUT_def)

section \<open>Names survive the listing\<close>

lemma name_char_alnum: "name_char c \<Longrightarrow> c \<noteq> CHR ''-'' \<Longrightarrow> is_ascii_alnum c"
  by (auto simp: name_char_def is_ascii_alnum_def)

lemma trim_end_rev_alnum: "is_ascii_alnum a \<Longrightarrow> trim_end_rev (a # s) = a # s"
proof -
  assume a: "is_ascii_alnum a"
  have "\<not> is_ws2 b a" "\<not> is_ws3 c b a" for b c
    using a by (auto simp: char_class_defs is_ws2_def is_ws3_def)
  then show ?thesis using alnum_not_ws(1) [OF a]
    by (cases s rule: remdups_adj.cases) simp_all
qed

lemma label_trim: "label_ok n \<Longrightarrow> str_trim n = n"
proof -
  assume n: "label_ok n"
  then obtain a r where a: "n = a # r" "is_ascii_alnum a"
    by (cases n) (auto simp: label_ok_def name_char_alnum)
  obtain b q where b: "rev n = b # q" "is_ascii_alnum b"
    using n by (cases "rev n") (auto simp: label_ok_def name_char_alnum last_rev hd_rev [symmetric])
  have "trim_start n = n" using a by (simp add: trim_start_letter)
  moreover have "trim_end n = n"
    using b by (simp add: trim_end_def trim_end_rev_alnum)
  ultimately show ?thesis by (simp add: str_trim_def)
qed

lemma name_char_not_nl: "name_char c \<Longrightarrow> c \<noteq> nl \<and> c \<noteq> cr"
  by (auto simp: name_char_def nl_def cr_def char_class_defs)

lemma str_lines_join:
  assumes "list_all (\<lambda>w. w \<noteq> [] \<and> list_all (\<lambda>c. c \<noteq> nl \<and> c \<noteq> cr) w) ws"
  shows "str_lines (join_with [nl] ws) = ws"
proof (cases "ws = []")
  case False
  then have s: "split_on nl (join_with [nl] ws) = ws"
    using assms by (intro split_on_join) (auto simp: list_all_iff)
  have "map strip_cr (butlast ws) = butlast ws"
    using assms by (intro map_idI) (fastforce simp: list_all_iff dest: in_set_butlastD last_in_set)
  moreover have "last ws \<noteq> []"
    using assms False by (simp add: list_all_iff)
  ultimately show ?thesis
    using s False by (simp add: str_lines_def Let_def del: strip_cr.simps)
qed (simp add: str_lines_def)

lemma label_no_breaks: "label_ok n \<Longrightarrow> n \<noteq> [] \<and> list_all (\<lambda>c. c \<noteq> nl \<and> c \<noteq> cr) n"
  by (auto simp: label_ok_def list_all_iff name_char_not_nl)

text \<open>The listing parser gives back exactly the cluster names kind printed, one per line, when
  they are the names validation accepts.\<close>

theorem get_clusters_roundtrip:
  assumes "list_all label_ok names"
  shows "parse_kind_get_clusters (join_with [nl] names) = names"
proof -
  have "list_all (\<lambda>w. w \<noteq> [] \<and> list_all (\<lambda>c. c \<noteq> nl \<and> c \<noteq> cr) w) names"
    using assms label_no_breaks by (auto simp: list_all_iff)
  note str_lines_join [OF this]
  moreover have "map str_trim names = names"
    using assms by (intro map_idI) (auto simp: list_all_iff label_trim)
  moreover have "filter (\<lambda>l. l \<noteq> []) names = names"
    using assms by (auto simp: filter_id_conv list_all_iff label_ok_def)
  ultimately show ?thesis by (simp add: parse_kind_get_clusters_def)
qed

theorem get_clusters_roundtrip_witness:
  "parse_kind_get_clusters (join_with [nl] [''dev'', ''prod-1'']) = [''dev'', ''prod-1'']"
  by (rule get_clusters_roundtrip) (simp add: label_ok_def name_char_def char_class_defs)

end
