(* ===== verification/Kubeconfig.thy ===== *)
theory Kubeconfig
  imports StoreLaws FsModel
begin

text \<open>
  The kubeconfig store (\<open>kindboard-core/src/kubeconfig.rs\<close>): loading, the two ways a context
  is ensured, the upsert merge, removal, and the atomic save.  Of the structures of the kube crate
  the fields the program reads or writes are modelled, the rest of each is an opaque text
  (\<open>*_rest\<close>) that every operation carries along.  The YAML codec and the URL parser are the
  record \<open>kube_env\<close>.
\<close>

definition KIND_ENTRY_PREFIX :: string where "KIND_ENTRY_PREFIX = ''kind-''"

record kcluster =
  kcl_server :: "string option"
  kcl_ca_data :: "string option"
  kcl_rest :: string

record kauth =
  kau_cert_data :: "string option"
  kau_key_data :: "string option"
  kau_rest :: string

record kcontext =
  kctx_cluster :: string
  kctx_user :: "string option"
  kctx_namespace :: "string option"
  kctx_rest :: string

record named_cluster =
  nc_name :: string
  nc_cluster :: "kcluster option"
  nc_rest :: string

record named_auth =
  na_name :: string
  na_auth :: "kauth option"
  na_rest :: string

record named_context =
  nx_name :: string
  nx_context :: "kcontext option"
  nx_rest :: string

record kubeconfig =
  kc_clusters :: "named_cluster list"
  kc_auth_infos :: "named_auth list"
  kc_contexts :: "named_context list"
  kc_current_context :: "string option"
  kc_rest :: string

definition kubeconfig_default :: kubeconfig where
  "kubeconfig_default = \<lparr>kc_clusters = [], kc_auth_infos = [], kc_contexts = [],
     kc_current_context = None, kc_rest = []\<rparr>"

record kube_env =
  ke_from_yaml :: "string \<Rightarrow> string + kubeconfig"
  ke_to_yaml :: "kubeconfig \<Rightarrow> string + string"
  ke_url_scheme :: "string \<Rightarrow> string + string"

record kubeconfig_store =
  ks_path :: string
  ks_config :: kubeconfig

section \<open>Loading\<close>

definition default_path_with :: "string option \<Rightarrow> string option \<Rightarrow> string" where
  "default_path_with home kubeconfig_env =
     (case (case kubeconfig_env of
              Some v \<Rightarrow> (case split_on (CHR '':'') v of f # _ \<Rightarrow> Some f | [] \<Rightarrow> None)
            | None \<Rightarrow> None) of
        Some f \<Rightarrow> f
      | None \<Rightarrow> (case home of
                   Some h \<Rightarrow> path_join (path_join h ''.kube'') ''config''
                 | None \<Rightarrow> ''.kube/config''))"

definition store_empty :: "string option \<Rightarrow> string option \<Rightarrow> kubeconfig_store" where
  "store_empty home kenv = \<lparr>ks_path = default_path_with home kenv, ks_config = kubeconfig_default\<rparr>"

definition load_kubeconfig :: "kube_env \<Rightarrow> string \<Rightarrow> fs \<Rightarrow> (core_error + kubeconfig) outcome \<times> fs" where
  "load_kubeconfig ke p w =
     (case read_file p w of
        (Failed e, w') \<Rightarrow>
          (Done (if io_kind_of e = NotFound then Ok kubeconfig_default
                 else Err (Kubeconfig (KubeIo e))), w')
      | (Crashed, w') \<Rightarrow> (Crashed, w')
      | (Done f, w') \<Rightarrow>
          (let text = utf8_lossy (f_bytes f) in
           (Done (if str_trim text = [] then Ok kubeconfig_default
                  else map_err (\<lambda>e. Kubeconfig (KubeErr e)) (ke_from_yaml ke text)), w')))"

definition store_load_from ::
    "kube_env \<Rightarrow> string \<Rightarrow> fs \<Rightarrow> (core_error + kubeconfig_store) outcome \<times> fs" where
  "store_load_from ke p =
     io_bind (load_kubeconfig ke p)
       (\<lambda>r. io_return (rbind r (\<lambda>c. Ok \<lparr>ks_path = p, ks_config = c\<rparr>)))"

definition store_load ::
    "kube_env \<Rightarrow> string option \<Rightarrow> string option \<Rightarrow> fs
       \<Rightarrow> (core_error + kubeconfig_store) outcome \<times> fs" where
  "store_load ke home kenv = store_load_from ke (default_path_with home kenv)"

definition store_from_yaml :: "kube_env \<Rightarrow> string \<Rightarrow> string \<Rightarrow> core_error + kubeconfig_store" where
  "store_from_yaml ke p yaml =
     rbind (if str_trim yaml = [] then Ok kubeconfig_default
            else map_err (\<lambda>e. Kubeconfig (KubeErr e)) (ke_from_yaml ke yaml))
       (\<lambda>c. Ok \<lparr>ks_path = p, ks_config = c\<rparr>)"

definition context_names :: "kubeconfig_store \<Rightarrow> string list" where
  "context_names s = map nx_name (kc_contexts (ks_config s))"

definition current_context :: "kubeconfig_store \<Rightarrow> string option" where
  "current_context s = kc_current_context (ks_config s)"

definition set_current_context :: "string \<Rightarrow> kubeconfig_store \<Rightarrow> kubeconfig_store" where
  "set_current_context n s = s\<lparr>ks_config := (ks_config s)\<lparr>kc_current_context := Some n\<rparr>\<rparr>"

definition verify_context :: "string \<Rightarrow> kubeconfig_store \<Rightarrow> bool" where
  "verify_context n s = list_ex (\<lambda>x. nx_name x = n) (kc_contexts (ks_config s))"

definition kind_context_name :: "string \<Rightarrow> string" where
  "kind_context_name cluster = KIND_ENTRY_PREFIX @ cluster"

section \<open>Editing\<close>

definition kube_merge :: "kubeconfig \<Rightarrow> kubeconfig \<Rightarrow> kubeconfig" where
  "kube_merge config next' =
     config\<lparr>kc_clusters := named_upsert nc_name (kc_clusters config) (kc_clusters next'),
            kc_auth_infos := named_upsert na_name (kc_auth_infos config) (kc_auth_infos next'),
            kc_contexts := named_upsert nx_name (kc_contexts config) (kc_contexts next')\<rparr>"

definition cluster_entry :: "string \<Rightarrow> string \<Rightarrow> string \<Rightarrow> named_cluster" where
  "cluster_entry n server ca =
     \<lparr>nc_name = n,
      nc_cluster = Some \<lparr>kcl_server = Some server, kcl_ca_data = Some ca, kcl_rest = []\<rparr>,
      nc_rest = []\<rparr>"

definition auth_entry :: "string \<Rightarrow> string \<Rightarrow> string \<Rightarrow> named_auth" where
  "auth_entry n cert k =
     \<lparr>na_name = n,
      na_auth = Some \<lparr>kau_cert_data = Some cert, kau_key_data = Some k, kau_rest = []\<rparr>,
      na_rest = []\<rparr>"

definition context_entry :: "string \<Rightarrow> named_context" where
  "context_entry n =
     \<lparr>nx_name = n,
      nx_context = Some \<lparr>kctx_cluster = n, kctx_user = Some n, kctx_namespace = Some ''default'',
                         kctx_rest = []\<rparr>,
      nx_rest = []\<rparr>"

definition ensure_context ::
    "kube_env \<Rightarrow> string \<Rightarrow> string \<Rightarrow> string \<Rightarrow> string \<Rightarrow> string \<Rightarrow> kubeconfig_store
       \<Rightarrow> core_error + kubeconfig_store" where
  "ensure_context ke cluster server ca cert k s =
     (case ke_url_scheme ke server of
        Inl e \<Rightarrow> Err (Kubeconfig (InvalidServer server e))
      | Inr scheme \<Rightarrow>
          if scheme \<noteq> ''https''
          then Err (Kubeconfig (InvalidServer server ''only https:// servers are accepted''))
          else (let n = kind_context_name cluster;
                    triple = kubeconfig_default\<lparr>kc_clusters := [cluster_entry n server ca],
                               kc_auth_infos := [auth_entry n cert k],
                               kc_contexts := [context_entry n]\<rparr>
                in Ok (s\<lparr>ks_config := (kube_merge (ks_config s) triple)
                                        \<lparr>kc_current_context := Some n\<rparr>\<rparr>)))"

definition take_entry :: "string \<Rightarrow> string list \<Rightarrow> string option" where
  "take_entry wanted entries =
     (case find (\<lambda>n. n = wanted) entries of
        Some n \<Rightarrow> Some n
      | None \<Rightarrow> (case entries of [] \<Rightarrow> None | n # _ \<Rightarrow> Some n))"

definition take_named :: "('a \<Rightarrow> string) \<Rightarrow> string \<Rightarrow> 'a list \<Rightarrow> 'a list" where
  "take_named nm wanted l =
     (case take_entry wanted (map nm l) of
        None \<Rightarrow> []
      | Some n \<Rightarrow> (case find (\<lambda>e. nm e = n) l of None \<Rightarrow> [] | Some e \<Rightarrow> [e]))"

definition ensure_context_from_kind_output ::
    "kube_env \<Rightarrow> string \<Rightarrow> string \<Rightarrow> kubeconfig_store \<Rightarrow> core_error + kubeconfig_store" where
  "ensure_context_from_kind_output ke cluster yaml s =
     (case ke_from_yaml ke yaml of
        Inl e \<Rightarrow> Err (Kubeconfig (KubeErr e))
      | Inr incoming \<Rightarrow>
          (let wanted = kind_context_name cluster;
               triple = kubeconfig_default
                 \<lparr>kc_clusters := take_named nc_name wanted (kc_clusters incoming),
                  kc_auth_infos := take_named na_name wanted (kc_auth_infos incoming),
                  kc_contexts := take_named nx_name wanted (kc_contexts incoming)\<rparr>;
               merged = kube_merge (ks_config s) triple
           in Ok (s\<lparr>ks_config :=
                (case take_entry wanted (map nx_name (kc_contexts incoming)) of
                   Some n \<Rightarrow> merged\<lparr>kc_current_context := Some n\<rparr>
                 | None \<Rightarrow> merged)\<rparr>)))"

definition entry_count :: "kubeconfig \<Rightarrow> nat" where
  "entry_count c = length (kc_clusters c) + length (kc_auth_infos c) + length (kc_contexts c)"

definition remove_context :: "string \<Rightarrow> kubeconfig_store \<Rightarrow> bool \<times> kubeconfig_store" where
  "remove_context cluster s =
     (let n = kind_context_name cluster; c = ks_config s;
          c' = c\<lparr>kc_clusters := named_del nc_name n (kc_clusters c),
                 kc_auth_infos := named_del na_name n (kc_auth_infos c),
                 kc_contexts := named_del nx_name n (kc_contexts c),
                 kc_current_context := (if kc_current_context c = Some n then None
                                        else kc_current_context c)\<rparr>
      in (entry_count c \<noteq> entry_count c', s\<lparr>ks_config := c'\<rparr>))"

definition store_to_yaml :: "kube_env \<Rightarrow> kubeconfig_store \<Rightarrow> core_error + string" where
  "store_to_yaml ke s = map_err (\<lambda>e. Kubeconfig (YamlErr e)) (ke_to_yaml ke (ks_config s))"

definition store_save :: "kube_env \<Rightarrow> kubeconfig_store \<Rightarrow> fs \<Rightarrow> (core_error + unit) outcome \<times> fs" where
  "store_save ke s w =
     (case store_to_yaml ke s of
        Inl e \<Rightarrow> (Done (Err e), w)
      | Inr yaml \<Rightarrow>
          (case atomic_write_private (ks_path s) yaml w of
             (Done _, w') \<Rightarrow> (Done (Ok ()), w')
           | (Failed e, w') \<Rightarrow> (Done (Err (Kubeconfig (KubeIo e))), w')
           | (Crashed, w') \<Rightarrow> (Crashed, w')))"

section \<open>The three lists are stores of named entries\<close>

interpretation kcl: listed_store "named_get nc_name" "named_put nc_name" "named_del nc_name"
    nc_name "named_ok nc_name" "\<lambda>_. True" "map nc_name"
  by (rule named_store)

interpretation kau: listed_store "named_get na_name" "named_put na_name" "named_del na_name"
    na_name "named_ok na_name" "\<lambda>_. True" "map na_name"
  by (rule named_store)

interpretation kcx: listed_store "named_get nx_name" "named_put nx_name" "named_del nx_name"
    nx_name "named_ok nx_name" "\<lambda>_. True" "map nx_name"
  by (rule named_store)

text \<open>No list names an entry twice.\<close>

definition kube_ok :: "kubeconfig \<Rightarrow> bool" where
  "kube_ok c \<longleftrightarrow> named_ok nc_name (kc_clusters c) \<and> named_ok na_name (kc_auth_infos c)
     \<and> named_ok nx_name (kc_contexts c)"

text \<open>What a configuration says of a name: its cluster, its user, its context.\<close>

definition kube_get ::
    "kubeconfig \<Rightarrow> string \<Rightarrow> named_cluster option \<times> named_auth option \<times> named_context option" where
  "kube_get c n = (named_get nc_name (kc_clusters c) n, named_get na_name (kc_auth_infos c) n,
     named_get nx_name (kc_contexts c) n)"

lemma ensure_context_Ok:
  "ensure_context ke cluster server ca cert k s = Ok t \<longleftrightarrow>
     ke_url_scheme ke server = Inr ''https'' \<and>
     (let n = kind_context_name cluster; c = ks_config s in
      t = s\<lparr>ks_config := c\<lparr>kc_clusters := named_put nc_name (cluster_entry n server ca) (kc_clusters c),
              kc_auth_infos := named_put na_name (auth_entry n cert k) (kc_auth_infos c),
              kc_contexts := named_put nx_name (context_entry n) (kc_contexts c),
              kc_current_context := Some n\<rparr>\<rparr>)"
  by (auto simp: ensure_context_def kube_merge_def named_put_def kubeconfig_default_def Let_def
      split: sum.splits if_splits)

lemma entry_names:
  "nc_name (cluster_entry n server ca) = n" "na_name (auth_entry n cert k) = n"
  "nx_name (context_entry n) = n"
  by (simp_all add: cluster_entry_def auth_entry_def context_entry_def)

lemma ensure_context_get:
  assumes "kube_ok (ks_config s)" and "ensure_context ke cluster server ca cert k s = Ok t"
  defines "n \<equiv> kind_context_name cluster"
  shows "kube_ok (ks_config t)" and "kc_current_context (ks_config t) = Some n"
    and "kube_get (ks_config t) n
      = (Some (cluster_entry n server ca), Some (auth_entry n cert k), Some (context_entry n))"
    and "m \<noteq> n \<Longrightarrow> kube_get (ks_config t) m = kube_get (ks_config s) m"
  using assms
  by (auto simp: ensure_context_Ok Let_def kube_ok_def kube_get_def entry_names
      kcl.ok_put kau.ok_put kcx.ok_put kcl.get_put kau.get_put kcx.get_put)

lemma named_upsert_put_twice: "named_put nm e (named_put nm e l) = named_put nm e l"
  by (simp add: named_put_def named_upsert_twice)

lemma ensure_context_twice:
  assumes "ensure_context ke cluster server ca cert k s = Ok t"
  shows "ensure_context ke cluster server ca cert k t = Ok t"
  using assms by (auto simp: ensure_context_Ok Let_def named_upsert_put_twice)

lemma take_entry_cases:
  "take_entry w ns = (if w \<in> set ns then Some w else case ns of [] \<Rightarrow> None | n # _ \<Rightarrow> Some n)"
  by (auto simp: take_entry_def find_None_iff find_Some_iff split: option.splits)

lemma take_named_props:
  "length (take_named nm w l) \<le> 1" "named_ok nm (take_named nm w l)"
  "take_named nm w l = (case (if w \<in> set (map nm l) then named_get nm l w
      else case l of [] \<Rightarrow> None | e # _ \<Rightarrow> Some e) of None \<Rightarrow> [] | Some e \<Rightarrow> [e])"
  by (auto simp: take_named_def take_entry_cases named_ok_def named_get_def find_None_iff
      split: option.splits list.splits)

lemma kube_merge_ok: "kube_ok c \<Longrightarrow> kube_ok d \<Longrightarrow> kube_ok (kube_merge c d)"
  by (simp add: kube_ok_def kube_merge_def named_ok_upsert)

lemma kube_merge_get:
  "kube_get (kube_merge c d) n =
     (named_get nc_name (if n \<in> set (map nc_name (kc_clusters d)) then kc_clusters d else kc_clusters c) n,
      named_get na_name (if n \<in> set (map na_name (kc_auth_infos d)) then kc_auth_infos d else kc_auth_infos c) n,
      named_get nx_name (if n \<in> set (map nx_name (kc_contexts d)) then kc_contexts d else kc_contexts c) n)"
  by (simp add: kube_get_def kube_merge_def named_get_upsert del: set_map)

lemma remove_context_get:
  "kube_get (ks_config (snd (remove_context cluster s))) m =
     (if m = kind_context_name cluster then (None, None, None) else kube_get (ks_config s) m)"
  by (simp add: remove_context_def Let_def kube_get_def named_get_del)

lemma filter_length_neq: "length (filter P l) \<noteq> length l \<longleftrightarrow> \<not> list_all P l"
  by (induction l) (auto simp: le_imp_less_Suc less_imp_neq intro: length_filter_le)

lemma filter_length_le_eq: "length (filter P l) = length l \<longleftrightarrow> list_all P l"
  using filter_length_neq by blast

lemma named_get_None: "named_get nm l k = None \<longleftrightarrow> list_all (\<lambda>e. nm e \<noteq> k) l"
  by (auto simp: named_get_def find_None_iff list_all_iff)

lemma sum3_eq:
  fixes a b c A B C :: nat
  assumes "a \<le> A" "b \<le> B" "c \<le> C"
  shows "A + B + C \<noteq> a + b + c \<longleftrightarrow> \<not> (a = A \<and> b = B \<and> c = C)"
  using assms by linarith

lemma find_in_set: "find P l = Some x \<Longrightarrow> x \<in> set l"
  by (induction l) (auto split: if_splits)

lemma take_named_subset: "set (take_named nm w l) \<subseteq> set l"
proof (cases "take_entry w (map nm l)")
  case (Some n)
  then show ?thesis
    by (cases "find (\<lambda>e. nm e = n) l") (auto simp: take_named_def dest: find_in_set)
qed (simp add: take_named_def)

lemma remove_context_reports:
  "fst (remove_context cluster s) \<longleftrightarrow>
     kube_get (ks_config s) (kind_context_name cluster) \<noteq> (None, None, None)"
proof -
  let ?n = "kind_context_name cluster" and ?c = "ks_config s"
  have "fst (remove_context cluster s) \<longleftrightarrow>
      \<not> (length (named_del nc_name ?n (kc_clusters ?c)) = length (kc_clusters ?c) \<and>
         length (named_del na_name ?n (kc_auth_infos ?c)) = length (kc_auth_infos ?c) \<and>
         length (named_del nx_name ?n (kc_contexts ?c)) = length (kc_contexts ?c))"
    using sum3_eq [OF length_filter_le [of "\<lambda>e. nc_name e \<noteq> ?n" "kc_clusters ?c"]
        length_filter_le [of "\<lambda>e. na_name e \<noteq> ?n" "kc_auth_infos ?c"]
        length_filter_le [of "\<lambda>e. nx_name e \<noteq> ?n" "kc_contexts ?c"]]
    by (simp add: remove_context_def entry_count_def Let_def named_del_def)
  then show ?thesis
    by (simp add: named_del_def filter_length_le_eq kube_get_def named_get_None)
qed

section \<open>Properties\<close>

text \<open>C5: Ensuring the context of a cluster on an \<open>https\<close> server installs exactly its cluster,
  user and context under \<open>kind-<name>\<close>, makes it current, keeps every other name as it was,
  never duplicates a name, and doing it again changes nothing.\<close>

theorem ensure_context_installs:
  assumes "kube_ok (ks_config s)" and "ensure_context ke cluster server ca cert k s = Ok t"
  shows "let n = kind_context_name cluster in
    kube_ok (ks_config t) \<and> current_context t = Some n \<and> verify_context n t \<and>
    kube_get (ks_config t) n
      = (Some (cluster_entry n server ca), Some (auth_entry n cert k), Some (context_entry n)) \<and>
    (\<forall>m. m \<noteq> n \<longrightarrow> kube_get (ks_config t) m = kube_get (ks_config s) m) \<and>
    ensure_context ke cluster server ca cert k t = Ok t"
proof -
  let ?n = "kind_context_name cluster"
  note g = ensure_context_get [OF assms]
  have "named_get nx_name (kc_contexts (ks_config t)) ?n = Some (context_entry ?n)"
    using g(3) by (simp add: kube_get_def)
  then have "verify_context ?n t"
    by (auto simp: verify_context_def named_get_def list_ex_iff find_Some_iff)
  then show ?thesis
    using g ensure_context_twice [OF assms(2)] by (simp add: Let_def current_context_def)
qed

definition kube_env_example :: kube_env where
  "kube_env_example = \<lparr>ke_from_yaml = (\<lambda>_. Ok kubeconfig_default), ke_to_yaml = (\<lambda>_. Ok ''{}''),
     ke_url_scheme = (\<lambda>u. if starts_with ''https://'' u then Ok ''https'' else Err ''relative URL'')\<rparr>"

definition store_example :: kubeconfig_store where
  "store_example = \<lparr>ks_path = ''config'', ks_config = kubeconfig_default\<lparr>kc_contexts := [context_entry ''prod'']\<rparr>\<rparr>"

theorem ensure_context_installs_witness:
  "let t = projr (ensure_context kube_env_example ''dev'' ''https://a'' ''ca'' ''c'' ''k'' store_example);
       n = kind_context_name ''dev'' in
    kube_ok (ks_config t) \<and> current_context t = Some n \<and> verify_context n t \<and>
    kube_get (ks_config t) n
      = (Some (cluster_entry n ''https://a'' ''ca''), Some (auth_entry n ''c'' ''k''), Some (context_entry n)) \<and>
    (\<forall>m. m \<noteq> n \<longrightarrow> kube_get (ks_config t) m = kube_get (ks_config store_example) m) \<and>
    ensure_context kube_env_example ''dev'' ''https://a'' ''ca'' ''c'' ''k'' t = Ok t"
  unfolding Let_def [of "projr _"]
  by (rule ensure_context_installs)
    (simp_all add: kube_ok_def named_ok_def store_example_def kubeconfig_default_def
      ensure_context_def kube_env_example_def Let_def)

text \<open>A server that is not a URL, or whose scheme is not \<open>https\<close>, is refused.\<close>

theorem ensure_context_refuses_plaintext:
  "ke_url_scheme ke server \<noteq> Ok ''https'' \<Longrightarrow>
   \<exists>reason. ensure_context ke cluster server ca cert k s
     = Err (Kubeconfig (InvalidServer server reason))"
  by (cases "ke_url_scheme ke server") (auto simp: ensure_context_def)

theorem ensure_context_refuses_plaintext_witness:
  "\<exists>reason. ensure_context kube_env_example ''dev'' ''http://a'' [] [] [] store_example
     = Err (Kubeconfig (InvalidServer ''http://a'' reason))"
  by (rule ensure_context_refuses_plaintext) (simp add: kube_env_example_def)

text \<open>Removing the context of a cluster forgets its three entries and nothing else, clears the
  current context only when it pointed there, and reports whether there was anything to remove.\<close>

theorem remove_context_exact:
  "let (removed, t) = remove_context cluster s; n = kind_context_name cluster in
     (removed \<longleftrightarrow> kube_get (ks_config s) n \<noteq> (None, None, None)) \<and>
     kube_get (ks_config t) n = (None, None, None) \<and> \<not> verify_context n t \<and>
     current_context t \<noteq> Some n \<and>
     (current_context s = Some n \<or> current_context t = current_context s) \<and>
     list_all (\<lambda>m. m = n \<or> kube_get (ks_config t) m = kube_get (ks_config s) m) ms"
proof -
  obtain r t where e: "remove_context cluster s = (r, t)" by fastforce
  have c: "current_context t = (if current_context s = Some (kind_context_name cluster) then None
      else current_context s)"
    and v: "\<not> verify_context (kind_context_name cluster) t"
    using e by (auto simp: remove_context_def Let_def current_context_def verify_context_def
        named_del_def list_ex_iff)
  show ?thesis
    using remove_context_reports [of cluster s] remove_context_get [of cluster s] e c v
    by (auto simp: Let_def list_all_iff)
qed

text \<open>Merging kind's own document takes at most one entry of each kind, leaves every name it
  does not carry as it was, and never duplicates a name.\<close>

theorem ensure_from_kind_output_frame:
  assumes "kube_ok (ks_config s)" and "ke_from_yaml ke yaml = Ok incoming"
    and "ensure_context_from_kind_output ke cluster yaml s = Ok t"
    and "m \<notin> set (map nc_name (kc_clusters incoming))" "m \<notin> set (map na_name (kc_auth_infos incoming))"
      "m \<notin> set (map nx_name (kc_contexts incoming))"
  shows "kube_ok (ks_config t) \<and> kube_get (ks_config t) m = kube_get (ks_config s) m"
proof -
  let ?w = "kind_context_name cluster"
  define triple where "triple = kubeconfig_default
      \<lparr>kc_clusters := take_named nc_name ?w (kc_clusters incoming),
       kc_auth_infos := take_named na_name ?w (kc_auth_infos incoming),
       kc_contexts := take_named nx_name ?w (kc_contexts incoming)\<rparr>"
  have t: "kube_get (ks_config t) = kube_get (kube_merge (ks_config s) triple)"
      "kube_ok (ks_config t) = kube_ok (kube_merge (ks_config s) triple)"
    using assms(2,3)
    by (auto simp: ensure_context_from_kind_output_def triple_def Let_def kube_get_def kube_ok_def
        fun_eq_iff split: option.splits)
  have "kube_ok triple" by (simp add: triple_def kube_ok_def take_named_props(2))
  then have "kube_ok (ks_config t)" using t assms(1) by (simp add: kube_merge_ok)
  moreover have "kube_get (kube_merge (ks_config s) triple) m = kube_get (ks_config s) m"
  proof -
    have "m \<notin> set (map nc_name (kc_clusters triple))"
      using assms(4) take_named_subset [of nc_name ?w] by (auto simp: triple_def)
    moreover have "m \<notin> set (map na_name (kc_auth_infos triple))"
      using assms(5) take_named_subset [of na_name ?w] by (auto simp: triple_def)
    moreover have "m \<notin> set (map nx_name (kc_contexts triple))"
      using assms(6) take_named_subset [of nx_name ?w] by (auto simp: triple_def)
    ultimately show ?thesis unfolding kube_merge_get by (simp add: kube_get_def del: set_map)
  qed
  ultimately show ?thesis using t by simp
qed

theorem ensure_from_kind_output_frame_witness:
  "kube_ok (ks_config store_example) \<and> kube_get (ks_config store_example) ''prod''
     = kube_get (ks_config store_example) ''prod''"
  by (rule ensure_from_kind_output_frame [where ke = kube_env_example and yaml = "''{}''"
        and cluster = "''dev''" and incoming = kubeconfig_default])
    (simp_all add: kube_ok_def named_ok_def store_example_def kubeconfig_default_def
      kube_env_example_def ensure_context_from_kind_output_def take_named_def take_entry_def
      kube_merge_def named_upsert_def Let_def)

end
