(* ===== verification/ProvisionPlan.thy ===== *)
theory ProvisionPlan
  imports Manifests KindCtl Kubeconfig
begin

text \<open>
  The create plan (\<open>kindboard-core/src/provision/mod.rs\<close>): the steps, the plan builder and the
  topological sort.  The YAML printer the kind configuration goes through is a parameter.
\<close>

section \<open>Data\<close>

definition CILIUM_INSTALL_STEP :: string where "CILIUM_INSTALL_STEP = ''cni-cilium-install''"

datatype provision_action =
    RunCommand kind_command
  | Download string string "string option"
  | WriteFile string string
  | ExportAndMergeKubeconfig string string
  | PatchFlannel string string string
  | WaitForCrd string string nat

datatype verify_spec = VerifyNone | VerifyCommand kind_command

record provision_step =
  ps_id :: string
  ps_command :: provision_action
  ps_depends_on :: "string list"
  ps_verify :: verify_spec

record create_plan =
  cp_steps :: "provision_step list"
  cp_data_dir :: string
  cp_kubeconfig_path :: string

definition step_ids :: "create_plan \<Rightarrow> string list" where
  "step_ids p = map ps_id (cp_steps p)"

definition arrow :: string where "arrow = [CHR 0xE2, CHR 0x86, CHR 0x92]"

fun render_action :: "fmt_env \<Rightarrow> provision_action \<Rightarrow> string" where
  "render_action f (RunCommand c) =
     (let (program, args) = to_program_and_args c in program @ '' '' @ join_with '' '' args)"
| "render_action f (Download url dest _) =
     ''curl -L --fail -o '' @ utf8_lossy dest @ '' '' @ url"
| "render_action f (WriteFile path _) = ''write '' @ utf8_lossy path"
| "render_action f (ExportAndMergeKubeconfig n _) =
     ''kind get kubeconfig --name '' @ n @ '' '' @ arrow @ '' merge''"
| "render_action f (PatchFlannel src dest cidr) =
     ''patch '' @ utf8_lossy src @ '' '' @ arrow @ '' '' @ utf8_lossy dest
     @ '' (network='' @ cidr @ '')''"
| "render_action f (WaitForCrd _ n timeout) =
     ''wait for CRD '' @ n @ '' (up to '' @ dbg_dur f timeout @ '')''"

definition render_plan :: "fmt_env \<Rightarrow> create_plan \<Rightarrow> string list" where
  "render_plan f p =
     map (\<lambda>s. ''['' @ ps_id s @ ''] '' @ render_action f (ps_command s)) (cp_steps p)"

text \<open>The release for a kernel: \<open>split\<close> always yields a first part; the third and later parts
  are not read.\<close>

definition cilium_version_for_kernel :: "string \<Rightarrow> string option" where
  "cilium_version_for_kernel kern =
     (case split_on (CHR ''.'') (str_trim kern) of
        a # b # _ \<Rightarrow>
          (case (parse_uint (2 ^ 32 - 1) a, parse_uint (2 ^ 32 - 1) b) of
             (Some major, Some minor) \<Rightarrow>
               if 7 < major \<or> (major = 7 \<and> 2 \<le> minor) then Some CILIUM_VERSION_KERNEL_72 else None
           | _ \<Rightarrow> None)
      | _ \<Rightarrow> None)"

definition detect_cilium_version :: "exec_error + cmd_output \<Rightarrow> string option" where
  "detect_cilium_version probe =
     (case probe of
        Inl _ \<Rightarrow> None
      | Inr out \<Rightarrow> cilium_version_for_kernel (str_trim (out_stdout out)))"

section \<open>Building the plan\<close>

definition step ::
    "string \<Rightarrow> string list \<Rightarrow> provision_action \<Rightarrow> verify_spec \<Rightarrow> provision_step list
       \<Rightarrow> provision_step list \<times> string" where
  "step i deps action verify steps =
     (steps @ [\<lparr>ps_id = i, ps_command = action, ps_depends_on = deps, ps_verify = verify\<rparr>], i)"

definition nodes_ready :: "string \<Rightarrow> kind_command" where
  "nodes_ready context =
     KubectlWait context ''nodes'' ''--all'' [] ''condition=Ready'' NODE_READY_TIMEOUT"

definition resolve_cilium :: "cluster_spec \<Rightarrow> cilium_options option" where
  "resolve_cilium spec =
     (case (cs_cni spec, cs_cilium spec) of
        (CiliumCni, None) \<Rightarrow> Some cilium_options_default
      | (_, options) \<Rightarrow> options)"

definition plan_flannel ::
    "string \<Rightarrow> string \<Rightarrow> cluster_spec \<Rightarrow> provision_step list \<times> string
       \<Rightarrow> provision_step list \<times> string" where
  "plan_flannel tmp context spec sp =
     (let (steps, previous) = sp;
          flannel_yaml = path_join tmp (''kube-flannel-'' @ cs_name spec @ ''.yml'');
          (steps, download) = step ''cni-flannel-download'' [previous]
             (Download FLANNEL_MANIFEST_URL flannel_yaml (Some FLANNEL_MANIFEST_SHA256))
             VerifyNone steps;
          (steps, previous, apply_path) =
            (if cs_pod_cidr spec \<noteq> FLANNEL_DEFAULT_NETWORK
             then (let patched_path = path_join tmp (''kube-flannel-'' @ cs_name spec @ ''-patched.yml'');
                       (steps, patch_id) = step ''cni-flannel-patch'' [download]
                         (PatchFlannel flannel_yaml patched_path (cs_pod_cidr spec)) VerifyNone steps
                   in (steps, patch_id, patched_path))
             else (steps, download, flannel_yaml))
      in step ''cni-flannel-apply'' [previous] (RunCommand (KubectlApply context apply_path False))
           (VerifyCommand (nodes_ready context)) steps)"

definition plan_calico ::
    "string \<Rightarrow> string \<Rightarrow> cluster_spec \<Rightarrow> provision_step list \<times> string
       \<Rightarrow> provision_step list \<times> string" where
  "plan_calico tmp context spec sp =
     (let (steps, previous) = sp;
          operator_yaml = path_join tmp (''tigera-operator-'' @ cs_name spec @ ''.yaml'');
          (steps, download) = step ''cni-calico-operator-download'' [previous]
             (Download TIGERA_OPERATOR_URL operator_yaml (Some TIGERA_OPERATOR_SHA256))
             VerifyNone steps;
          (steps, apply_operator) = step ''cni-calico-operator-apply'' [download]
             (RunCommand (KubectlApply context operator_yaml False)) VerifyNone steps;
          (steps, wait_crds) = step ''cni-calico-operator-wait-crds'' [apply_operator]
             (WaitForCrd context ''installations.operator.tigera.io'' CALICO_CRD_TIMEOUT)
             VerifyNone steps;
          cr_path = path_join tmp (''calico-installation-'' @ cs_name spec @ ''.yaml'');
          (steps, write_cr) = step ''cni-calico-cr-write'' [wait_crds]
             (WriteFile cr_path (calico_installation_cr (cs_pod_cidr spec))) VerifyNone steps
      in step ''cni-calico-cr-apply'' [write_cr] (RunCommand (KubectlApply context cr_path False))
           (VerifyCommand (nodes_ready context)) steps)"

definition cilium_sets :: "cilium_options option \<Rightarrow> string list" where
  "cilium_sets cilium =
     [CILIUM_SET_KUBE_PROXY_REPLACEMENT]
     @ (case cilium of
          Some co \<Rightarrow> if co_mesh co
            then [''cluster.name='' @ co_cluster_name co,
                  ''cluster.id='' @ dec (unat (co_cluster_id co)), CILIUM_SET_MESH_NODE_PORT]
            else []
        | None \<Rightarrow> [])
     @ (case cilium of
          Some co \<Rightarrow> flag_if (co_ingress co) [CILIUM_SET_INGRESS_ENABLED]
             @ flag_if (co_api_gateway co) [CILIUM_SET_GATEWAY_API_ENABLED]
        | None \<Rightarrow> [])"

definition plan_gateway_crds ::
    "string \<Rightarrow> string \<Rightarrow> cluster_spec \<Rightarrow> cilium_options option
       \<Rightarrow> provision_step list \<times> string \<Rightarrow> provision_step list \<times> string" where
  "plan_gateway_crds tmp context spec cilium sp =
     (let (steps, previous) = sp in
      if (case cilium of Some co \<Rightarrow> co_api_gateway co | None \<Rightarrow> False)
      then (let crds_path = path_join tmp (''gateway-api-crds-'' @ cs_name spec @ ''.yaml'');
                (steps, download) = step ''cilium-gateway-crds-download'' [previous]
                  (Download GATEWAY_API_CRDS_URL crds_path (Some GATEWAY_API_CRDS_SHA256))
                  VerifyNone steps
            in step ''cilium-gateway-crds-apply'' [download]
                 (RunCommand (KubectlApply context crds_path True)) VerifyNone steps)
      else (steps, previous))"

definition plan_cilium_extras ::
    "string \<Rightarrow> cilium_options option \<Rightarrow> provision_step list \<times> string
       \<Rightarrow> provision_step list \<times> string" where
  "plan_cilium_extras context cilium sp =
     (let (steps, previous) = sp in
      case cilium of
        None \<Rightarrow> (steps, previous)
      | Some co \<Rightarrow>
          (let (steps, previous) =
                 (if co_hubble co
                  then step ''cilium-hubble-enable'' [previous]
                         (RunCommand (CiliumHubbleEnable context (co_hubble co) (co_hubble co)))
                         VerifyNone steps
                  else (steps, previous))
           in if co_mesh co
              then step ''cilium-clustermesh-enable'' [previous]
                     (RunCommand (CiliumClustermeshEnable context (Some CILIUM_MESH_SERVICE_TYPE)))
                     VerifyNone steps
              else (steps, previous)))"

definition plan_cilium ::
    "string \<Rightarrow> string \<Rightarrow> cluster_spec \<Rightarrow> string option \<Rightarrow> provision_step list \<times> string
       \<Rightarrow> provision_step list \<times> string" where
  "plan_cilium tmp context spec cilium_version sp =
     (let cilium = resolve_cilium spec;
          (steps, install_dep) = plan_gateway_crds tmp context spec cilium sp;
          (steps, install) = step CILIUM_INSTALL_STEP [install_dep]
            (RunCommand (CiliumInstall context cilium_version (cilium_sets cilium) True))
            (VerifyCommand (CiliumStatus context True)) steps
      in plan_cilium_extras context cilium (steps, install))"

definition plan_cni ::
    "string \<Rightarrow> string \<Rightarrow> cluster_spec \<Rightarrow> string option \<Rightarrow> provision_step list \<times> string
       \<Rightarrow> provision_step list \<times> string" where
  "plan_cni tmp context spec cilium_version sp =
     (case cs_cni spec of
        KindnetDefault \<Rightarrow> sp
      | Flannel \<Rightarrow> plan_flannel tmp context spec sp
      | Calico \<Rightarrow> plan_calico tmp context spec sp
      | CiliumCni \<Rightarrow> plan_cilium tmp context spec cilium_version sp)"

definition plan_ingress ::
    "string \<Rightarrow> string \<Rightarrow> cluster_spec \<Rightarrow> provision_step list \<times> string
       \<Rightarrow> provision_step list \<times> string" where
  "plan_ingress tmp context spec sp =
     (let (steps, previous) = sp in
      case cs_ingress spec of
        None \<Rightarrow> sp
      | Some CiliumIngress \<Rightarrow> sp
      | Some Nginx \<Rightarrow>
          (let deploy_yaml = path_join tmp (''ingress-nginx-'' @ cs_name spec @ ''.yaml'');
               (steps, download) = step ''ingress-nginx-download'' [previous]
                 (Download INGRESS_NGINX_KIND_DEPLOY_URL deploy_yaml
                    (Some INGRESS_NGINX_KIND_DEPLOY_SHA256)) VerifyNone steps
           in step ''ingress-nginx-apply'' [download]
                (RunCommand (KubectlApply context deploy_yaml False))
                (VerifyCommand (KubectlWait context ''deployment'' ''ingress-nginx-controller''
                   INGRESS_NGINX_NAMESPACE ''condition=Available'' NODE_READY_TIMEOUT)) steps)
      | Some Traefik \<Rightarrow>
          (let (steps, repo_add) = step ''traefik-repo-add'' [previous]
                 (RunCommand (HelmRepoAdd TRAEFIK_HELM_REPO_NAME TRAEFIK_HELM_REPO_URL))
                 VerifyNone steps
           in step ''traefik-install'' [repo_add]
                (RunCommand (HelmInstall
                   \<lparr>hc_release = ''traefik'', hc_chart = TRAEFIK_HELM_CHART, hc_repo = None,
                    hc_version = None, hc_ns = TRAEFIK_NAMESPACE, hc_create_namespace = False,
                    hc_sets = [], hc_wait_watcher = True, hc_kube_context = context\<rparr>))
                VerifyNone steps))"

definition build_plan_with_cilium_version ::
    "(yaml \<Rightarrow> string option) \<Rightarrow> cluster_spec \<Rightarrow> string \<Rightarrow> string \<Rightarrow> string option
       \<Rightarrow> core_error + create_plan" where
  "build_plan_with_cilium_version to_yaml spec data_dir kubeconfig_path cilium_version =
     rbind (validate spec) (\<lambda>_.
       let context = kind_context_name (cs_name spec);
           tmp = path_join data_dir ''tmp'';
           kind_config_path = path_join tmp (''kind-'' @ cs_name spec @ ''.yaml'');
           (steps, config_id) = step ''write-kind-config'' []
             (WriteFile kind_config_path (to_kind_yaml to_yaml spec)) VerifyNone [];
           (steps, create_id) = step ''kind-create'' [config_id]
             (RunCommand (KindCreate kind_config_path True)) VerifyNone steps;
           (steps, merge_id) = step ''merge-kubeconfig'' [create_id]
             (ExportAndMergeKubeconfig (cs_name spec) kubeconfig_path) VerifyNone steps;
           sp = plan_cni tmp context spec cilium_version (steps, merge_id);
           (steps, previous) = plan_ingress tmp context spec sp;
           final_verify = (case cs_cni spec of CiliumCni \<Rightarrow> CiliumStatus context True
                           | _ \<Rightarrow> nodes_ready context);
           (steps, _) = step ''final-verify'' [previous] (RunCommand final_verify) VerifyNone steps
       in Ok \<lparr>cp_steps = steps, cp_data_dir = data_dir, cp_kubeconfig_path = kubeconfig_path\<rparr>)"

definition build_plan ::
    "(yaml \<Rightarrow> string option) \<Rightarrow> cluster_spec \<Rightarrow> string \<Rightarrow> string \<Rightarrow> core_error + create_plan" where
  "build_plan to_yaml spec data_dir kubeconfig_path =
     build_plan_with_cilium_version to_yaml spec data_dir kubeconfig_path None"

section \<open>Topological sort\<close>

text \<open>\<open>in_degree\<close> and \<open>dependents\<close>.  The lookups \<open>in_degree[id]\<close> of the code are of ids that were
  entered.\<close>

fun enter_ids :: "provision_step list \<Rightarrow> (string \<rightharpoonup> nat) \<Rightarrow> (string \<rightharpoonup> nat)" where
  "enter_ids [] deg = deg"
| "enter_ids (s # ss) deg =
     enter_ids ss (if deg (ps_id s) = None then deg(ps_id s \<mapsto> 0) else deg)"

fun enter_deps ::
    "string \<Rightarrow> string list \<Rightarrow> (string \<rightharpoonup> nat) \<times> (string \<Rightarrow> string list)
       \<Rightarrow> core_error + (string \<rightharpoonup> nat) \<times> (string \<Rightarrow> string list)" where
  "enter_deps i [] (deg, out) = Ok (deg, out)"
| "enter_deps i (d # ds) (deg, out) =
     (if deg d = None
      then Err (Provision (InvalidPlan
             (''step '' @ i @ '' depends on unknown step '' @ d)))
      else enter_deps i ds
             (deg(i \<mapsto> (case deg i of Some k \<Rightarrow> k | None \<Rightarrow> 0) + 1), out(d := out d @ [i])))"

fun enter_edges ::
    "provision_step list \<Rightarrow> (string \<rightharpoonup> nat) \<times> (string \<Rightarrow> string list)
       \<Rightarrow> core_error + (string \<rightharpoonup> nat) \<times> (string \<Rightarrow> string list)" where
  "enter_edges [] st = Ok st"
| "enter_edges (s # ss) st =
     rbind (enter_deps (ps_id s) (ps_depends_on s) st) (enter_edges ss)"

text \<open>The relaxation of the dependents of a popped step; \<open>ready\<close> is a stack whose top is last.\<close>

fun relax :: "string list \<Rightarrow> (string \<rightharpoonup> nat) \<times> string list \<Rightarrow> (string \<rightharpoonup> nat) \<times> string list" where
  "relax [] st = st"
| "relax (v # vs) (deg, ready) =
     (case deg v of
        None \<Rightarrow> relax vs (deg, ready)
      | Some k \<Rightarrow>
          relax vs (deg(v \<mapsto> k - 1), if k - 1 = 0 then ready @ [v] else ready))"

text \<open>The loop need not end on a plan with repeated ids, so it is a partial function: \<open>None\<close> is
  not returning.\<close>

partial_function (option) kahn_loop ::
    "(string \<Rightarrow> string list) \<Rightarrow> (string \<rightharpoonup> nat) \<Rightarrow> string list \<Rightarrow> string list
       \<Rightarrow> string list option" where
  "kahn_loop out deg ready sorted' =
     (if ready = [] then Some sorted'
      else (let next' = last ready; (deg', ready') = relax (out next') (deg, butlast ready)
            in kahn_loop out deg' ready' (sorted' @ [next'])))"

definition topological_sort :: "create_plan \<Rightarrow> (core_error + string list) option" where
  "topological_sort plan =
     (case enter_edges (cp_steps plan) (enter_ids (cp_steps plan) Map.empty, \<lambda>_. []) of
        Inl e \<Rightarrow> Some (Err e)
      | Inr (deg, out) \<Rightarrow>
          (case kahn_loop out deg
                  (map ps_id (filter (\<lambda>s. deg (ps_id s) = Some 0) (cp_steps plan))) [] of
             None \<Rightarrow> None
           | Some sorted' \<Rightarrow>
               Some (if length sorted' \<noteq> length (cp_steps plan)
                     then Err (Provision (InvalidPlan
                            ''provisioning plan contains a dependency cycle''))
                     else Ok sorted')))"

end
