(* ===== verification/TopoSort.thy ===== *)
theory TopoSort
  imports ProvisionPlan "HOL-Library.Multiset"
begin

text \<open>
  Correctness of the topological sort of a plan and of the plans the builder makes.  The sort is
  Kahn's algorithm with a stack; its invariant \<open>kahn_inv\<close> ties the in-degrees to the dependencies
  not yet emitted.
\<close>

section \<open>The graph\<close>

definition deps_of :: "provision_step list \<Rightarrow> string \<Rightarrow> string list" where
  "deps_of steps v = (case find (\<lambda>s. ps_id s = v) steps of Some s \<Rightarrow> ps_depends_on s | None \<Rightarrow> [])"

definition known_deps :: "provision_step list \<Rightarrow> bool" where
  "known_deps steps \<longleftrightarrow> (\<forall>s \<in> set steps. set (ps_depends_on s) \<subseteq> ps_id ` set steps)"

definition deps_before :: "provision_step list \<Rightarrow> string list \<Rightarrow> bool" where
  "deps_before steps order \<longleftrightarrow>
     (\<forall>pre v post. order = pre @ v # post \<longrightarrow> set (deps_of steps v) \<subseteq> set pre)"

lemma enter_ids_eq:
  "enter_ids steps deg = (\<lambda>v. if deg v = None \<and> v \<in> ps_id ` set steps then Some 0 else deg v)"
  by (induction steps deg rule: enter_ids.induct) (auto simp: fun_eq_iff)

lemma find_absent: "v \<notin> ps_id ` set ss \<Longrightarrow> find (\<lambda>t. ps_id t = v) ss = None"
  by (induction ss) auto

lemma enter_deps_Ok:
  "i \<in> dom deg \<Longrightarrow> set ds \<subseteq> dom deg \<Longrightarrow> enter_deps i ds (deg, out) =
    Ok (deg(i \<mapsto> the (deg i) + length ds), \<lambda>d. out d @ replicate (count_list ds d) i)"
proof (induction ds arbitrary: deg out)
  case Nil
  then show ?case by (auto simp: fun_eq_iff)
next
  case (Cons d ds)
  then obtain k where k: "deg i = Some k" by auto
  have dom: "dom (deg(i \<mapsto> k + 1)) = dom deg" using k by auto
  have "enter_deps i (d # ds) (deg, out) = enter_deps i ds (deg(i \<mapsto> k + 1), out(d := out d @ [i]))"
    using Cons.prems k by auto
  also have "\<dots> = Ok ((deg(i \<mapsto> k + 1))(i \<mapsto> the ((deg(i \<mapsto> k + 1)) i) + length ds),
      \<lambda>x. (out(d := out d @ [i])) x @ replicate (count_list ds x) i)"
    using Cons.prems by (intro Cons.IH) (simp_all only: dom, simp_all)
  also have "\<dots> = Ok (deg(i \<mapsto> the (deg i) + length (d # ds)),
      \<lambda>x. out x @ replicate (count_list (d # ds) x) i)"
    using k by (auto simp: fun_eq_iff)
  finally show ?case .
qed

lemma enter_deps_Err:
  "\<not> set ds \<subseteq> dom deg \<Longrightarrow> i \<in> dom deg \<Longrightarrow> \<exists>e. enter_deps i ds (deg, out) = Err e"
proof (induction ds arbitrary: deg out)
  case (Cons d ds)
  show ?case
  proof (cases "deg d")
    case (Some j)
    obtain k where k: "deg i = Some k" using Cons.prems by auto
    have dom: "dom (deg(i \<mapsto> k + 1)) = dom deg" using k by auto
    have "\<not> set ds \<subseteq> dom deg" using Cons.prems Some by auto
    then have "\<exists>e. enter_deps i ds (deg(i \<mapsto> k + 1), out(d := out d @ [i])) = Err e"
      using Cons.prems(2) by (intro Cons.IH) (simp_all only: dom, simp_all)
    then show ?thesis using Some k by simp
  qed simp
qed simp

text \<open>The edges out of \<open>d\<close>, one per mention of \<open>d\<close> in a step.\<close>

definition out_edges :: "provision_step list \<Rightarrow> string \<Rightarrow> string list" where
  "out_edges steps d =
     concat (map (\<lambda>s. replicate (count_list (ps_depends_on s) d) (ps_id s)) steps)"

lemma enter_edges_Ok:
  assumes "ps_id ` set steps \<subseteq> dom deg" "distinct (map ps_id steps)"
    and "\<forall>s \<in> set steps. set (ps_depends_on s) \<subseteq> dom deg"
  shows "enter_edges steps (deg, out) = Ok
    ((\<lambda>v. map_option (\<lambda>k. k + length (deps_of steps v)) (deg v)), \<lambda>d. out d @ out_edges steps d)"
  using assms
proof (induction steps arbitrary: deg out)
  case (Cons s ss)
  let ?deg = "deg(ps_id s \<mapsto> the (deg (ps_id s)) + length (ps_depends_on s))"
  have dom: "dom ?deg = dom deg" using Cons.prems by auto
  have e: "enter_deps (ps_id s) (ps_depends_on s) (deg, out) =
      Ok (?deg, \<lambda>d. out d @ replicate (count_list (ps_depends_on s) d) (ps_id s))"
    using Cons.prems by (intro enter_deps_Ok) auto
  have none: "find (\<lambda>t. ps_id t = ps_id s) ss = None"
    using Cons.prems by (intro find_absent) simp
  have "enter_edges (s # ss) (deg, out) = Ok
    ((\<lambda>v. map_option (\<lambda>k. k + length (deps_of ss v)) (?deg v)),
     \<lambda>d. (out d @ replicate (count_list (ps_depends_on s) d) (ps_id s)) @ out_edges ss d)"
  proof -
    have "enter_edges (s # ss) (deg, out) = enter_edges ss
        (?deg, \<lambda>d. out d @ replicate (count_list (ps_depends_on s) d) (ps_id s))"
      by (simp only: enter_edges.simps e rbind_simps)
    also have "\<dots> = Ok
    ((\<lambda>v. map_option (\<lambda>k. k + length (deps_of ss v)) (?deg v)),
     \<lambda>d. (out d @ replicate (count_list (ps_depends_on s) d) (ps_id s)) @ out_edges ss d)"
      using Cons.prems by (intro Cons.IH) (simp_all only: dom, simp_all)
    finally show ?thesis .
  qed
  moreover have "map_option (\<lambda>k. k + length (deps_of ss v)) (?deg v)
      = map_option (\<lambda>k. k + length (deps_of (s # ss) v)) (deg v)" for v
    using Cons.prems none by (auto simp: deps_of_def)
  ultimately show ?case by (simp add: out_edges_def)
qed (simp_all add: deps_of_def out_edges_def map_option.identity)

lemma enter_edges_Err:
  assumes "ps_id ` set steps \<subseteq> dom deg" "\<not> (\<forall>s \<in> set steps. set (ps_depends_on s) \<subseteq> dom deg)"
  shows "\<exists>e. enter_edges steps (deg, out) = Err e"
  using assms
proof (induction steps arbitrary: deg out)
  case (Cons s ss)
  show ?case
  proof (cases "set (ps_depends_on s) \<subseteq> dom deg")
    case True
    let ?deg = "deg(ps_id s \<mapsto> the (deg (ps_id s)) + length (ps_depends_on s))"
    have dom: "dom ?deg = dom deg" using Cons.prems by auto
    have "enter_edges (s # ss) (deg, out) = enter_edges ss
        (?deg, \<lambda>d. out d @ replicate (count_list (ps_depends_on s) d) (ps_id s))"
      using Cons.prems True by (simp add: enter_deps_Ok)
    moreover have "\<exists>e. enter_edges ss
        (?deg, \<lambda>d. out d @ replicate (count_list (ps_depends_on s) d) (ps_id s)) = Err e"
    proof (rule Cons.IH)
      show "ps_id ` set ss \<subseteq> dom ?deg" unfolding dom using Cons.prems(1) by simp
      show "\<not> (\<forall>s \<in> set ss. set (ps_depends_on s) \<subseteq> dom ?deg)"
        unfolding dom using Cons.prems(2) True by (metis set_ConsD)
    qed
    ultimately show ?thesis by metis
  next
    case False
    have "ps_id s \<in> dom deg" using Cons.prems(1) by simp
    from enter_deps_Err [OF False this, of out] show ?thesis by auto
  qed
qed simp

section \<open>Relaxation\<close>

lemma relax_spec:
  assumes "\<forall>v \<in> set L. \<exists>k. deg v = Some k \<and> count_list L v \<le> k"
  shows "\<exists>N. relax L (deg, R) = ((\<lambda>v. map_option (\<lambda>k. k - count_list L v) (deg v)), R @ N)
    \<and> distinct N \<and> set N = {v \<in> set L. deg v = Some (count_list L v)}"
  using assms
proof (induction L arbitrary: deg R)
  case (Cons v vs)
  then obtain k where k: "deg v = Some k" "Suc (count_list vs v) \<le> k" by auto
  let ?deg = "deg(v \<mapsto> k - 1)" and ?R = "if k - 1 = 0 then R @ [v] else R"
  have pre: "\<forall>u \<in> set vs. \<exists>j. ?deg u = Some j \<and> count_list vs u \<le> j"
  proof
    fix u assume u: "u \<in> set vs"
    then obtain j where "deg u = Some j" "count_list (v # vs) u \<le> j" using Cons.prems by auto
    then show "\<exists>j. ?deg u = Some j \<and> count_list vs u \<le> j"
      using k by (cases "u = v") auto
  qed
  from Cons.IH [OF pre, of ?R] obtain N where N:
    "relax vs (?deg, ?R) = ((\<lambda>u. map_option (\<lambda>k. k - count_list vs u) (?deg u)), ?R @ N)"
    "distinct N" "set N = {u \<in> set vs. ?deg u = Some (count_list vs u)}" by blast
  have r: "relax (v # vs) (deg, R) =
      ((\<lambda>u. map_option (\<lambda>k. k - count_list (v # vs) u) (deg u)), ?R @ N)"
    using N(1) k by (auto simp: fun_eq_iff)
  show ?case
  proof (cases "k - 1 = 0")
    case True
    then have 0: "k = 1" "count_list vs v = 0" using k by auto
    then have "v \<notin> set vs" by (simp add: count_list_0_iff)
    then have "distinct (v # N)" "set (v # N) = {u \<in> set (v # vs). deg u = Some (count_list (v # vs) u)}"
      using N k 0 by auto
    then show ?thesis using r True by (intro exI [of _ "v # N"]) auto
  next
    case False
    have "u \<in> set N \<longleftrightarrow> u \<in> set (v # vs) \<and> deg u = Some (count_list (v # vs) u)" for u
    proof (cases "u = v")
      case True
      have "v \<in> set vs" if "count_list vs v \<noteq> 0"
        using that by (metis count_list_0_iff)
      then show ?thesis using N(3) k False True by auto
    next
      case False
      then show ?thesis using N(3) by auto
    qed
    then have "set N = {u \<in> set (v # vs). deg u = Some (count_list (v # vs) u)}" by blast
    then show ?thesis using r N(2) False by (intro exI [of _ N]) auto
  qed
qed (simp add: fun_eq_iff option.map_ident)

lemma count_out_edges:
  assumes "distinct (map ps_id steps)"
  shows "count_list (out_edges steps d) v = count_list (deps_of steps v) d"
  using assms
proof (induction steps)
  case (Cons s ss)
  have rep: "count_list (replicate n x) y = (if x = y then n else 0)" for n and x y :: string
    by (induction n) auto
  have none: "find (\<lambda>t. ps_id t = ps_id s) ss = None"
    using Cons.prems by (intro find_absent) simp
  have "count_list (out_edges (s # ss) d) v =
      (if ps_id s = v then count_list (ps_depends_on s) d else 0) + count_list (deps_of ss v) d"
    using Cons by (simp add: out_edges_def rep)
  then show ?case using none by (auto simp: deps_of_def)
qed (simp add: out_edges_def deps_of_def)

lemma set_out_edges:
  assumes "distinct (map ps_id steps)"
  shows "v \<in> set (out_edges steps d) \<longleftrightarrow> d \<in> set (deps_of steps v)"
  using count_out_edges [OF assms, of d v]
  by (metis count_list_0_iff)

section \<open>The loop\<close>

definition kahn_inv :: "provision_step list \<Rightarrow> (string \<rightharpoonup> nat) \<Rightarrow> string list \<Rightarrow> string list \<Rightarrow> bool" where
  "kahn_inv steps deg ready done' \<longleftrightarrow>
     distinct (done' @ ready) \<and> set (done' @ ready) \<subseteq> ps_id ` set steps \<and>
     (\<forall>v. deg v = (if v \<in> ps_id ` set steps
        then Some (length (filter (\<lambda>d. d \<notin> set done') (deps_of steps v))) else None)) \<and>
     (\<forall>v \<in> ps_id ` set steps. deg v = Some 0 \<longleftrightarrow> v \<in> set (done' @ ready)) \<and>
     deps_before steps done'"

lemma deps_of_outside: "v \<notin> ps_id ` set steps \<Longrightarrow> deps_of steps v = []"
  by (simp add: deps_of_def find_absent)

lemma filter_not_snoc:
  "length (filter (\<lambda>d. d \<notin> set xs) ds) =
   length (filter (\<lambda>d. d \<notin> set (xs @ [x])) ds) + (if x \<in> set xs then 0 else count_list ds x)"
  by (induction ds) auto

lemma kahn_inv_step:
  assumes inv: "kahn_inv steps deg (ready @ [x]) done'"
    and d: "distinct (map ps_id steps)"
    and r: "relax (out_edges steps x) (deg, ready) = (deg', ready')"
  shows "kahn_inv steps deg' ready' (done' @ [x])"
proof -
  let ?L = "out_edges steps x" and ?V = "ps_id ` set steps"
  have x: "x \<notin> set done'" "x \<notin> set ready" "x \<in> ?V" using inv by (auto simp: kahn_inv_def)
  have deg: "deg v = (if v \<in> ?V
      then Some (length (filter (\<lambda>d. d \<notin> set done') (deps_of steps v))) else None)" for v
    using inv by (auto simp: kahn_inv_def)
  have len: "length (filter (\<lambda>d. d \<notin> set done') (deps_of steps v)) =
      length (filter (\<lambda>d. d \<notin> set (done' @ [x])) (deps_of steps v)) + count_list ?L v" for v
    using filter_not_snoc [of done' "deps_of steps v" x] x(1) by (simp add: count_out_edges [OF d])
  have LV: "v \<in> ?V" if "v \<in> set ?L" for v
    using that set_out_edges [OF d] deps_of_outside by fastforce
  have pre: "\<forall>v \<in> set ?L. \<exists>k. deg v = Some k \<and> count_list ?L v \<le> k"
    using LV deg len by auto
  from relax_spec [OF pre, of ready] r obtain N where N:
    "deg' = (\<lambda>v. map_option (\<lambda>k. k - count_list ?L v) (deg v))" "ready' = ready @ N"
    "distinct N" "set N = {v \<in> set ?L. deg v = Some (count_list ?L v)}" by auto
  have deg': "deg' v = (if v \<in> ?V
      then Some (length (filter (\<lambda>d. d \<notin> set (done' @ [x])) (deps_of steps v))) else None)" for v
    using deg [of v] len [of v] by (auto simp: N(1))
  have zero: "deg v = Some 0 \<longleftrightarrow> v \<in> set (done' @ ready @ [x])" if "v \<in> ?V" for v
    using inv that unfolding kahn_inv_def by auto
  have pos: "count_list ?L v > 0" if "v \<in> set ?L" for v
    using that by (metis count_list_0_iff gr0I)
  have N0: "v \<notin> set (done' @ ready @ [x])" if "v \<in> set N" for v
    using that zero [of v] LV [of v] pos [of v] N(4) by auto
  have zero': "deg' v = Some 0 \<longleftrightarrow> v \<in> set (done' @ [x] @ ready')" if v: "v \<in> ?V" for v
  proof -
    obtain k where k: "deg v = Some k" "count_list ?L v \<le> k" using deg len v by auto
    have "deg' v = Some 0 \<longleftrightarrow> k = count_list ?L v" using k by (auto simp: N(1))
    also have "\<dots> \<longleftrightarrow> deg v = Some 0 \<or> v \<in> set N"
      using k pos [of v] by (cases "v \<in> set ?L") (auto simp: N(4) count_list_0_iff)
    finally show ?thesis using zero [OF v] by (auto simp: N(2))
  qed
  have "set (deps_of steps x) \<subseteq> set done'"
    using zero [OF x(3)] deg [of x] x(3) by (auto simp: filter_empty_conv)
  then have "deps_before steps (done' @ [x])"
    using inv unfolding kahn_inv_def deps_before_def
    by (auto simp: append_eq_append_conv2 append_eq_Cons_conv Cons_eq_append_conv
        split: list.splits) blast+
  moreover have "distinct ((done' @ [x]) @ ready')"
    using inv N0 N(3) by (auto simp: kahn_inv_def N(2))
  moreover have "set ((done' @ [x]) @ ready') \<subseteq> ?V"
    using inv LV N(4) by (auto simp: kahn_inv_def N(2))
  ultimately show ?thesis using deg' zero' unfolding kahn_inv_def by auto
qed

lemma kahn_loop_ends:
  assumes "kahn_inv steps deg ready done'" and d: "distinct (map ps_id steps)"
  shows "\<exists>r deg'. kahn_loop (out_edges steps) deg ready done' = Some r \<and> kahn_inv steps deg' [] r"
  using assms(1)
proof (induction "length steps - length done'" arbitrary: deg ready done' rule: less_induct)
  case less
  show ?case
  proof (cases ready rule: rev_cases)
    case Nil
    then show ?thesis using less.prems by (subst kahn_loop.simps) auto
  next
    case (snoc rs x)
    obtain deg' ready' where r: "relax (out_edges steps x) (deg, rs) = (deg', ready')" by fastforce
    have inv: "kahn_inv steps deg' ready' (done' @ [x])"
      using kahn_inv_step [OF _ d r] less.prems snoc by blast
    have "distinct (done' @ ready)" "set (done' @ ready) \<subseteq> set (map ps_id steps)"
      using less.prems by (auto simp: kahn_inv_def)
    then have "length (done' @ ready) \<le> length (map ps_id steps)"
      by (metis card_mono distinct_card d List.finite_set)
    then have "length steps - length (done' @ [x]) < length steps - length done'"
      using snoc by simp
    from less.hyps [OF this inv] obtain res deg'' where
      "kahn_loop (out_edges steps) deg' ready' (done' @ [x]) = Some res" "kahn_inv steps deg'' [] res"
      by blast
    then show ?thesis using snoc r by (subst kahn_loop.simps) auto
  qed
qed

lemma kahn_inv_init:
  assumes "distinct (map ps_id steps)"
  defines "deg \<equiv> (\<lambda>v. if v \<in> ps_id ` set steps then Some (length (deps_of steps v)) else None)"
  shows "kahn_inv steps deg (map ps_id (filter (\<lambda>s. deg (ps_id s) = Some 0) steps)) []"
  using assms(1)
  by (auto simp: kahn_inv_def deg_def deps_before_def distinct_map_filter)

lemma topological_sort_eq:
  assumes "distinct (step_ids plan)" and "known_deps (cp_steps plan)"
  shows "\<exists>r deg. kahn_inv (cp_steps plan) deg [] r \<and> topological_sort plan =
    Some (if length r \<noteq> length (cp_steps plan)
          then Err (Provision (InvalidPlan ''provisioning plan contains a dependency cycle''))
          else Ok r)"
proof -
  let ?s = "cp_steps plan"
  let ?zeros = "\<lambda>v. if v \<in> ps_id ` set ?s then Some (0::nat) else None"
  let ?deg = "\<lambda>v. if v \<in> ps_id ` set ?s then Some (length (deps_of ?s v)) else None"
  have d: "distinct (map ps_id ?s)" using assms(1) by (simp add: step_ids_def)
  have ids: "enter_ids ?s Map.empty = ?zeros" by (simp add: enter_ids_eq fun_eq_iff)
  have dom: "dom ?zeros = ps_id ` set ?s" by (auto split: if_splits)
  have "enter_edges ?s (?zeros, \<lambda>_. []) =
      Ok ((\<lambda>v. map_option (\<lambda>k. k + length (deps_of ?s v)) (?zeros v)), \<lambda>x. [] @ out_edges ?s x)"
    using assms(2) d enter_edges_Ok [of ?s ?zeros "\<lambda>_. []"] by (simp only: dom known_deps_def)
  also have "(\<lambda>v. map_option (\<lambda>k. k + length (deps_of ?s v)) (?zeros v)) = ?deg"
    by (simp add: fun_eq_iff)
  finally have e: "enter_edges ?s (enter_ids ?s Map.empty, \<lambda>_. []) = Ok (?deg, out_edges ?s)"
    by (simp add: ids)
  from kahn_loop_ends [OF kahn_inv_init [OF d] d] obtain r deg' where
    "kahn_loop (out_edges ?s) ?deg (map ps_id (filter (\<lambda>s. ?deg (ps_id s) = Some 0) ?s)) [] = Some r"
    "kahn_inv ?s deg' [] r" by blast
  then show ?thesis using e by (auto simp: topological_sort_def)
qed

lemma topological_sort_unknown:
  assumes "\<not> known_deps (cp_steps plan)"
  shows "\<exists>e. topological_sort plan = Some (Err e)"
proof -
  let ?s = "cp_steps plan"
  let ?zeros = "\<lambda>v. if v \<in> ps_id ` set ?s then Some (0::nat) else None"
  have dom: "dom ?zeros = ps_id ` set ?s" by (auto split: if_splits)
  have ids: "enter_ids ?s Map.empty = ?zeros" by (simp add: enter_ids_eq fun_eq_iff)
  have "\<exists>e. enter_edges ?s (?zeros, \<lambda>_. []) = Err e"
    using assms by (intro enter_edges_Err) (simp_all add: dom known_deps_def)
  then show ?thesis by (auto simp: topological_sort_def ids)
qed

text \<open>A set of steps none of which can be the first of them to run.\<close>

definition blocked_set :: "provision_step list \<Rightarrow> string set \<Rightarrow> bool" where
  "blocked_set steps U \<longleftrightarrow>
     U \<noteq> {} \<and> U \<subseteq> ps_id ` set steps \<and> (\<forall>v \<in> U. set (deps_of steps v) \<inter> U \<noteq> {})"

lemma deps_of_known:
  assumes "known_deps steps" "d \<in> set (deps_of steps v)"
  shows "d \<in> ps_id ` set steps"
proof (cases "find (\<lambda>s. ps_id s = v) steps")
  case (Some s)
  then have "s \<in> set steps" by (rule find_in_set)
  then show ?thesis using assms Some by (auto simp: known_deps_def deps_of_def)
qed (use assms(2) in \<open>simp add: deps_of_def\<close>)

lemma kahn_final:
  assumes "kahn_inv steps deg [] r" "distinct (map ps_id steps)" "known_deps steps"
  shows "length r = length steps \<and> mset r = mset (map ps_id steps) \<and> deps_before steps r \<or>
    length r \<noteq> length steps \<and> blocked_set steps (ps_id ` set steps - set r)"
proof (cases "set r = ps_id ` set steps")
  case True
  then have "mset r = mset (map ps_id steps)"
    using assms(1,2) by (intro set_eq_iff_mset_eq_distinct [THEN iffD1]) (auto simp: kahn_inv_def)
  moreover from this have "length r = length steps" by (metis length_map mset_eq_length)
  ultimately show ?thesis using assms(1) by (simp add: kahn_inv_def)
next
  case False
  let ?U = "ps_id ` set steps - set r"
  have sub: "set r \<subseteq> ps_id ` set steps" "distinct r" using assms(1) by (auto simp: kahn_inv_def)
  then have "?U \<noteq> {}" using False by blast
  moreover have "set (deps_of steps v) \<inter> ?U \<noteq> {}" if v: "v \<in> ?U" for v
  proof -
    have "deg v = Some (length (filter (\<lambda>d. d \<notin> set r) (deps_of steps v)))" "deg v \<noteq> Some 0"
      using assms(1) v by (auto simp: kahn_inv_def)
    then obtain x where "x \<in> set (deps_of steps v)" "x \<notin> set r"
      by (auto simp: filter_empty_conv)
    then show ?thesis using deps_of_known [OF assms(3)] by blast
  qed
  moreover have "length r \<noteq> length steps"
  proof
    assume "length r = length steps"
    then have "card (set r) = card (ps_id ` set steps)"
      using sub(2) assms(2) by (metis distinct_card length_map set_map)
    then show False using sub(1) False by (metis List.finite_set card_subset_eq finite_imageI)
  qed
  ultimately show ?thesis by (auto simp: blocked_set_def)
qed

lemma topological_sort_cases:
  assumes "distinct (step_ids plan)"
  shows "case topological_sort plan of
      Some (Inr order) \<Rightarrow> mset order = mset (step_ids plan) \<and> deps_before (cp_steps plan) order
    | Some (Inl e) \<Rightarrow> \<not> known_deps (cp_steps plan) \<or> (\<exists>U. blocked_set (cp_steps plan) U)
    | None \<Rightarrow> False"
proof (cases "known_deps (cp_steps plan)")
  case True
  obtain r deg where r: "kahn_inv (cp_steps plan) deg [] r" "topological_sort plan =
    Some (if length r \<noteq> length (cp_steps plan)
          then Err (Provision (InvalidPlan ''provisioning plan contains a dependency cycle''))
          else Ok r)" using topological_sort_eq [OF assms True] by blast
  from kahn_final [OF r(1) _ True] assms r(2) show ?thesis
    by (auto simp: step_ids_def)
next
  case False
  from topological_sort_unknown [OF False] False show ?thesis by auto
qed

section \<open>Built plans are chains\<close>

fun chain_from :: "string list \<Rightarrow> provision_step list \<Rightarrow> bool" where
  "chain_from deps [] = True"
| "chain_from deps (s # ss) \<longleftrightarrow> ps_depends_on s = deps \<and> chain_from [ps_id s] ss"

definition chained :: "provision_step list \<times> string \<Rightarrow> bool" where
  "chained sp \<longleftrightarrow> fst sp \<noteq> [] \<and> chain_from [] (fst sp) \<and> snd sp = ps_id (last (fst sp))"

lemma chain_from_append:
  "chain_from ds (xs @ ys) \<longleftrightarrow>
     chain_from ds xs \<and> chain_from (if xs = [] then ds else [ps_id (last xs)]) ys"
  by (induction ds xs rule: chain_from.induct) auto

lemma chained_step: "chained (steps, prev) \<Longrightarrow> chained (step i [prev] a v steps)"
  by (auto simp: chained_def step_def chain_from_append)

lemmas chained_simps = chained_def step_def chain_from_append

lemma chained_plan_flannel: "chained sp \<Longrightarrow> chained (plan_flannel tmp ctx spec sp)"
  by (cases sp) (simp add: plan_flannel_def chained_simps Let_def)

lemma chained_plan_calico: "chained sp \<Longrightarrow> chained (plan_calico tmp ctx spec sp)"
  by (cases sp) (simp add: plan_calico_def chained_simps Let_def)

lemma chained_plan_gateway: "chained sp \<Longrightarrow> chained (plan_gateway_crds tmp ctx spec c sp)"
  by (cases sp) (simp add: plan_gateway_crds_def chained_simps Let_def)

lemma chained_plan_extras: "chained sp \<Longrightarrow> chained (plan_cilium_extras ctx c sp)"
  by (cases sp; cases c) (simp_all add: plan_cilium_extras_def chained_simps Let_def)

lemma chained_plan_ingress: "chained sp \<Longrightarrow> chained (plan_ingress tmp ctx spec sp)"
  by (cases sp) (simp add: plan_ingress_def chained_simps Let_def
      split: option.split ingress_controller.split)

lemma chained_plan_cilium:
  assumes "chained sp"
  shows "chained (plan_cilium tmp ctx spec ver sp)"
proof -
  obtain steps prev where g: "plan_gateway_crds tmp ctx spec (resolve_cilium spec) sp = (steps, prev)"
    by fastforce
  then have "chained (steps, prev)" using chained_plan_gateway [OF assms] by metis
  note chained_step [OF this]
  then show ?thesis
    by (simp add: plan_cilium_def g Let_def chained_plan_extras split: prod.split)
qed

lemma chained_plan_cni: "chained sp \<Longrightarrow> chained (plan_cni tmp ctx spec ver sp)"
  by (auto simp: plan_cni_def chained_plan_flannel chained_plan_calico chained_plan_cilium
      split: cni.splits)

text \<open>The step ids of each part of the plan.\<close>

definition cni_ids :: "cluster_spec \<Rightarrow> string list" where
  "cni_ids spec =
     (case cs_cni spec of
        KindnetDefault \<Rightarrow> []
      | Flannel \<Rightarrow> [''cni-flannel-download'']
          @ flag_if (cs_pod_cidr spec \<noteq> FLANNEL_DEFAULT_NETWORK) [''cni-flannel-patch'']
          @ [''cni-flannel-apply'']
      | Calico \<Rightarrow> [''cni-calico-operator-download'', ''cni-calico-operator-apply'',
          ''cni-calico-operator-wait-crds'', ''cni-calico-cr-write'', ''cni-calico-cr-apply'']
      | CiliumCni \<Rightarrow>
          (case resolve_cilium spec of
             None \<Rightarrow> [CILIUM_INSTALL_STEP]
           | Some co \<Rightarrow>
               flag_if (co_api_gateway co) [''cilium-gateway-crds-download'', ''cilium-gateway-crds-apply'']
               @ [CILIUM_INSTALL_STEP] @ flag_if (co_hubble co) [''cilium-hubble-enable'']
               @ flag_if (co_mesh co) [''cilium-clustermesh-enable'']))"

definition ingress_ids :: "cluster_spec \<Rightarrow> string list" where
  "ingress_ids spec =
     (case cs_ingress spec of
        Some Nginx \<Rightarrow> [''ingress-nginx-download'', ''ingress-nginx-apply'']
      | Some Traefik \<Rightarrow> [''traefik-repo-add'', ''traefik-install'']
      | _ \<Rightarrow> [])"

definition plan_ids :: "cluster_spec \<Rightarrow> string list" where
  "plan_ids spec =
     [''write-kind-config'', ''kind-create'', ''merge-kubeconfig''] @ cni_ids spec
     @ ingress_ids spec @ [''final-verify'']"

lemma ids_plan_cni:
  "map ps_id (fst (plan_cni tmp ctx spec ver sp)) = map ps_id (fst sp) @ cni_ids spec"
  by (cases sp; cases "resolve_cilium spec")
    (simp_all add: plan_cni_def plan_flannel_def plan_calico_def plan_cilium_def
      plan_gateway_crds_def plan_cilium_extras_def step_def cni_ids_def flag_if_def Let_def
      split: cni.split)

lemma ids_plan_ingress:
  "map ps_id (fst (plan_ingress tmp ctx spec sp)) = map ps_id (fst sp) @ ingress_ids spec"
  by (cases sp) (simp add: plan_ingress_def step_def ingress_ids_def Let_def
      split: option.split ingress_controller.split)

lemma distinct_cni_ids: "distinct (cni_ids spec)"
  by (simp add: cni_ids_def flag_if_def CILIUM_INSTALL_STEP_def split: cni.split option.split)

lemma cni_ids_prefix: "x \<in> set (cni_ids spec) \<Longrightarrow> x ! 0 = CHR ''c''"
  by (auto simp: cni_ids_def flag_if_def CILIUM_INSTALL_STEP_def split: cni.splits option.splits if_splits)

lemma distinct_plan_ids: "distinct (plan_ids spec)"
proof -
  have "x \<notin> set (cni_ids spec)" if "x ! 0 \<noteq> CHR ''c''" for x
    using cni_ids_prefix that by blast
  then show ?thesis
    using distinct_cni_ids [of spec]
    by (auto simp: plan_ids_def ingress_ids_def dest: cni_ids_prefix
        split: option.splits ingress_controller.splits)
qed

lemma built_plan:
  assumes "build_plan_with_cilium_version ty spec dir kc ver = Ok p"
  shows "validate spec = Ok ()" and "step_ids p = plan_ids spec" and "chain_from [] (cp_steps p)"
    and "cp_steps p \<noteq> []"
proof -
  let ?ctx = "kind_context_name (cs_name spec)" and ?tmp = "path_join dir ''tmp''"
  let ?path = "path_join ?tmp (''kind-'' @ cs_name spec @ ''.yaml'')"
  define sp0 where "sp0 =
     ([\<lparr>ps_id = ''write-kind-config'', ps_command = WriteFile ?path (to_kind_yaml ty spec),
        ps_depends_on = [], ps_verify = VerifyNone\<rparr>,
       \<lparr>ps_id = ''kind-create'', ps_command = RunCommand (KindCreate ?path True),
        ps_depends_on = [''write-kind-config''], ps_verify = VerifyNone\<rparr>,
       \<lparr>ps_id = ''merge-kubeconfig'', ps_command = ExportAndMergeKubeconfig (cs_name spec) kc,
        ps_depends_on = [''kind-create''], ps_verify = VerifyNone\<rparr>], ''merge-kubeconfig'')"
  define sp1 where "sp1 = plan_ingress ?tmp ?ctx spec (plan_cni ?tmp ?ctx spec ver sp0)"
  obtain steps prev where sp1: "sp1 = (steps, prev)" by fastforce
  have "chained sp0" by (simp add: chained_def sp0_def)
  then have c1: "chained (steps, prev)"
    using chained_plan_ingress chained_plan_cni sp1 by (metis sp1_def)
  have i1: "map ps_id steps = [''write-kind-config'', ''kind-create'', ''merge-kubeconfig'']
      @ cni_ids spec @ ingress_ids spec"
    using ids_plan_ingress [of ?tmp ?ctx spec "plan_cni ?tmp ?ctx spec ver sp0"] sp1
    by (simp add: sp1_def ids_plan_cni) (simp add: sp0_def)
  have v: "validate spec = Ok ()"
    and p: "cp_steps p = fst (step ''final-verify'' [prev] (RunCommand (case cs_cni spec of
        CiliumCni \<Rightarrow> CiliumStatus ?ctx True | _ \<Rightarrow> nodes_ready ?ctx)) VerifyNone steps)"
    using assms sp1
    by (auto simp: build_plan_with_cilium_version_def step_def Let_def sp1_def sp0_def)
  show "validate spec = Ok ()" by (rule v)
  show "step_ids p = plan_ids spec"
    by (simp add: step_ids_def p step_def plan_ids_def i1)
  show "chain_from [] (cp_steps p)" "cp_steps p \<noteq> []"
    unfolding p using chained_step [OF c1] by (auto simp: chained_def)
qed

end
