(* ===== verification/PlanChecks.thy ===== *)
theory PlanChecks
  imports TopoSort
begin

text \<open>
  What a built plan does when it is run: the order the sort gives it, the clusters and files its
  commands touch, and the downloads it trusts.
\<close>

section \<open>A chain has one order\<close>

lemma find_nth_id:
  assumes "distinct (map ps_id steps)" "i < length steps"
  shows "find (\<lambda>s. ps_id s = ps_id (steps ! i)) steps = Some (steps ! i)"
  using assms
proof (induction steps arbitrary: i)
  case (Cons s ss)
  then show ?case
  proof (cases i)
    case (Suc j)
    then have "ps_id (ss ! j) \<in> ps_id ` set ss" using Cons.prems by simp
    then have "ps_id s \<noteq> ps_id (ss ! j)" using Cons.prems(1) by auto
    then show ?thesis using Cons Suc by simp
  qed simp
qed simp

lemma chain_from_nth:
  "chain_from ds steps \<Longrightarrow> i < length steps \<Longrightarrow>
     ps_depends_on (steps ! i) = (if i = 0 then ds else [ps_id (steps ! (i - 1))])"
proof (induction ds steps arbitrary: i rule: chain_from.induct)
  case (2 ds s ss)
  then show ?case
    by (cases i) (auto simp: nth_Cons split: nat.split)
qed simp

lemma deps_of_chain:
  assumes "chain_from [] steps" "distinct (map ps_id steps)" "i < length steps"
  shows "deps_of steps (ps_id (steps ! i)) = (if i = 0 then [] else [ps_id (steps ! (i - 1))])"
  using find_nth_id [OF assms(2,3)] chain_from_nth [OF assms(1,3)] by (simp add: deps_of_def)

lemma chain_known: "chain_from [] steps \<Longrightarrow> known_deps steps"
  unfolding known_deps_def
proof
  fix s assume c: "chain_from [] steps" and s: "s \<in> set steps"
  then obtain i where i: "i < length steps" "s = steps ! i" by (metis in_set_conv_nth)
  then show "set (ps_depends_on s) \<subseteq> ps_id ` set steps"
    using chain_from_nth [OF c i(1)] by (cases i) auto
qed

lemma chain_not_blocked:
  assumes "chain_from [] steps" "distinct (map ps_id steps)"
  shows "\<not> blocked_set steps U"
proof
  assume b: "blocked_set steps U"
  let ?P = "\<lambda>i. i < length steps \<and> ps_id (steps ! i) \<in> U"
  have "\<exists>i. ?P i" using b by (auto simp: blocked_set_def in_set_conv_nth) (metis in_set_conv_nth subsetD imageE ex_in_conv)
  then have i: "?P (LEAST i. ?P i)" by (rule LeastI_ex)
  have least: "\<not> ?P j" if "j < (LEAST i. ?P i)" for j using that by (rule not_less_Least)
  define i where "i = (LEAST i. ?P i)"
  have "set (deps_of steps (ps_id (steps ! i))) \<inter> U \<noteq> {}"
    using b i by (simp add: blocked_set_def i_def)
  then have "i \<noteq> 0" "ps_id (steps ! (i - 1)) \<in> U"
    using deps_of_chain [OF assms] i by (auto simp: i_def split: if_splits)
  moreover have "i < length steps" using i by (simp add: i_def)
  ultimately show False using least [of "i - 1"] unfolding i_def [symmetric] by simp
qed

lemma chain_order:
  assumes c: "chain_from [] steps" and d: "distinct (map ps_id steps)"
    and m: "mset r = mset (map ps_id steps)" and b: "deps_before steps r"
  shows "r = map ps_id steps"
proof -
  let ?ids = "map ps_id steps"
  have len: "length r = length ?ids" using m by (metis mset_eq_length)
  have dr: "distinct r" using m d by (metis mset_eq_imp_distinct_iff)
  have "take k r = take k ?ids" if "k \<le> length r" for k
    using that
  proof (induction k)
    case (Suc k)
    then have k: "k < length r" and eq: "take k r = take k ?ids" by auto
    have "r ! k \<in> set ?ids" using k m by (metis nth_mem set_mset_mset)
    then obtain j where j: "j < length steps" "r ! k = ps_id (steps ! j)"
      by (metis in_set_conv_nth length_map nth_map)
    have notin: "r ! k \<notin> set (take k r)" using dr k by (metis id_take_nth_drop distinct_append disjoint_iff list.set_intros(1))
    have "k \<le> j"
    proof (rule ccontr)
      assume "\<not> k \<le> j"
      then have "r ! k \<in> set (take k ?ids)" using j by (auto simp: in_set_conv_nth intro!: exI [of _ j])
      then show False using notin eq by simp
    qed
    moreover have "\<not> k < j"
    proof
      assume kj: "k < j"
      have "r = take k r @ r ! k # drop (Suc k) r" using k by (rule id_take_nth_drop)
      then have "set (deps_of steps (r ! k)) \<subseteq> set (take k r)"
        using b unfolding deps_before_def by metis
      then have "ps_id (steps ! (j - 1)) \<in> set (take k ?ids)"
        using deps_of_chain [OF c d j(1)] j(2) kj eq by simp
      then obtain i where "i < k" "?ids ! i = ?ids ! (j - 1)" using k len kj j(1)
        by (auto simp: in_set_conv_nth)
      then show False using d kj j(1) k len
        by (subst (asm) nth_eq_iff_index_eq) auto
    qed
    ultimately have "r ! k = ?ids ! k" using j by (simp add: order.antisym)
    then show ?case using eq k len by (simp add: take_Suc_conv_app_nth)
  qed simp
  from this [of "length r"] show ?thesis using len by simp
qed

lemma chain_sorts:
  assumes "chain_from [] (cp_steps p)" "distinct (step_ids p)"
  shows "topological_sort p = Some (Ok (step_ids p))"
proof -
  have d: "distinct (map ps_id (cp_steps p))" using assms(2) by (simp add: step_ids_def)
  show ?thesis
    using topological_sort_cases [OF assms(2)] chain_known [OF assms(1)]
      chain_not_blocked [OF assms(1) d] chain_order [OF assms(1) d]
    by (auto simp: step_ids_def split: option.splits sum.splits)
qed

section \<open>Plans with repeated ids\<close>

text \<open>A plan put together by hand may repeat an id.  When the repeated step has a dependent on a
  cycle, the sort does not return: its in-degree is already zero when the second copy is popped, so
  the dependent is pushed again, for ever.\<close>

definition looping_plan :: create_plan where
  "looping_plan = \<lparr>cp_steps =
     [\<lparr>ps_id = ''a'', ps_command = WriteFile [] [], ps_depends_on = [], ps_verify = VerifyNone\<rparr>,
      \<lparr>ps_id = ''a'', ps_command = WriteFile [] [], ps_depends_on = [], ps_verify = VerifyNone\<rparr>,
      \<lparr>ps_id = ''b'', ps_command = WriteFile [] [], ps_depends_on = [''a'', ''c''], ps_verify = VerifyNone\<rparr>,
      \<lparr>ps_id = ''c'', ps_command = WriteFile [] [], ps_depends_on = [''b''], ps_verify = VerifyNone\<rparr>],
     cp_data_dir = [], cp_kubeconfig_path = []\<rparr>"

definition looping_state :: "(string \<Rightarrow> string list) \<Rightarrow> (string \<rightharpoonup> nat) \<Rightarrow> string list \<Rightarrow> bool" where
  "looping_state out deg ready \<longleftrightarrow>
     out ''b'' = [''c''] \<and> out ''c'' = [''b''] \<and> (\<exists>x \<in> {''b'', ''c''}. ready = [x]) \<and>
     (\<exists>k. deg ''b'' = Some k \<and> k \<le> 1) \<and> (\<exists>k. deg ''c'' = Some k \<and> k \<le> 1)"

lemma kahn_loop_diverges:
  assumes "kahn_loop out deg ready done' = Some r"
  shows "\<not> looping_state out deg ready"
proof (rule kahn_loop.raw_induct [of "\<lambda>out deg ready _ _. \<not> looping_state out deg ready", OF _ assms])
  fix kahn out deg ready done' r
  assume IH: "\<And>out deg ready done' r. kahn out deg ready done' = Some r \<Longrightarrow> \<not> looping_state out deg ready"
    and body: "(if ready = [] then Some done'
      else let next' = last ready; (deg', ready') = relax (out next') (deg, butlast ready)
           in kahn out deg' ready' (done' @ [next'])) = Some (r :: string list)"
  show "\<not> looping_state out deg ready"
  proof
    assume l: "looping_state out deg ready"
    then obtain x where x: "x = ''b'' \<or> x = ''c''" "ready = [x]" by (auto simp: looping_state_def)
    obtain deg' ready' where r: "relax (out x) (deg, []) = (deg', ready')" by fastforce
    have "looping_state out deg' ready'" using l x r by (auto simp: looping_state_def)
    moreover have "kahn out deg' ready' (done' @ [x]) = Some r"
      using body x r by simp
    ultimately show False using IH by blast
  qed
qed

lemma topological_sort_can_diverge: "topological_sort looping_plan = None"
proof -
  let ?out = "((\<lambda>_. [])(''a'' := [''b''], ''c'' := [''b''], ''b'' := [''c'']))"
  let ?deg = "[''a'' \<mapsto> 0, ''b'' \<mapsto> Suc (Suc 0), ''c'' \<mapsto> Suc 0]"
  have d: "kahn_loop ?out deg [''b''] s = None" if "deg ''b'' = Some 0" "deg ''c'' = Some 1" for deg s
  proof (rule ccontr)
    assume "kahn_loop ?out deg [''b''] s \<noteq> None"
    then obtain r where "kahn_loop ?out deg [''b''] s = Some r" by blast
    from kahn_loop_diverges [OF this] that show False by (simp add: looping_state_def)
  qed
  have "kahn_loop ?out ?deg [''a'', ''a''] [] = None"
    by (subst kahn_loop.simps, simp, subst kahn_loop.simps) (simp add: Let_def d)
  moreover have "enter_edges (cp_steps looping_plan) (enter_ids (cp_steps looping_plan) Map.empty, \<lambda>_. [])
     = Ok (?deg, ?out)"
    by (simp add: looping_plan_def fun_eq_iff)
  ultimately show ?thesis
    by (simp add: topological_sort_def) (simp add: looping_plan_def)
qed

section \<open>What the steps of a built plan may do\<close>

text \<open>
  A plan is vetted from a set \<open>P\<close> of files already produced when every download is an \<open>https\<close> URL with
  a SHA-256 pin, every file it writes is under \<open>tmp\<close>, every manifest applied (and the source of
  every patch) was produced before, and every command that names a cluster names \<open>ctx\<close>.
\<close>

definition is_sha256_hex :: "string \<Rightarrow> bool" where
  "is_sha256_hex h \<longleftrightarrow> length h = 64 \<and> list_all (\<lambda>c. c \<in> set ''0123456789abcdef'') h"

fun vetted_command :: "string \<Rightarrow> string list \<Rightarrow> kind_command \<Rightarrow> bool" where
  "vetted_command ctx P (KindCreate path w) \<longleftrightarrow> path \<in> set P"
| "vetted_command ctx P (KubectlApply c path ss) \<longleftrightarrow> c = ctx \<and> path \<in> set P"
| "vetted_command ctx P (KubectlWait c k n ns cond t) \<longleftrightarrow> c = ctx"
| "vetted_command ctx P (HelmRepoAdd n url) \<longleftrightarrow> starts_with ''https://'' url"
| "vetted_command ctx P (HelmInstall h) \<longleftrightarrow> hc_kube_context h = ctx"
| "vetted_command ctx P (CiliumInstall c v sets w) \<longleftrightarrow> c = ctx"
| "vetted_command ctx P (CiliumStatus c w) \<longleftrightarrow> c = ctx"
| "vetted_command ctx P (CiliumHubbleEnable c r u) \<longleftrightarrow> c = ctx"
| "vetted_command ctx P (CiliumClustermeshEnable c t) \<longleftrightarrow> c = ctx"
| "vetted_command ctx P _ \<longleftrightarrow> False"

definition under :: "string \<Rightarrow> string \<Rightarrow> bool" where
  "under tmp path \<longleftrightarrow>
     (let f = last (split_on (CHR ''/'') path) in path = path_join tmp f \<and> f \<notin> {[], ''.'', ''..''})"

fun vetted_action :: "string \<Rightarrow> string \<Rightarrow> string \<Rightarrow> string \<Rightarrow> string list \<Rightarrow> provision_action \<Rightarrow> bool" where
  "vetted_action tmp ctx n kc P (RunCommand c) \<longleftrightarrow> vetted_command ctx P c"
| "vetted_action tmp ctx n kc P (Download url dest sha) \<longleftrightarrow>
     starts_with ''https://'' url \<and> under tmp dest
     \<and> (case sha of Some h \<Rightarrow> is_sha256_hex h | None \<Rightarrow> False)"
| "vetted_action tmp ctx n kc P (WriteFile path content) \<longleftrightarrow> under tmp path"
| "vetted_action tmp ctx n kc P (ExportAndMergeKubeconfig m path) \<longleftrightarrow> m = n \<and> path = kc"
| "vetted_action tmp ctx n kc P (PatchFlannel src dest cidr) \<longleftrightarrow> src \<in> set P \<and> under tmp dest"
| "vetted_action tmp ctx n kc P (WaitForCrd c crd t) \<longleftrightarrow> c = ctx"

fun produced :: "provision_action \<Rightarrow> string list" where
  "produced (Download url dest sha) = [dest]"
| "produced (WriteFile path content) = [path]"
| "produced (PatchFlannel src dest cidr) = [dest]"
| "produced (RunCommand c) = []"
| "produced (ExportAndMergeKubeconfig m path) = []"
| "produced (WaitForCrd c crd t) = []"

definition vetted_verify :: "string \<Rightarrow> verify_spec \<Rightarrow> bool" where
  "vetted_verify ctx v \<longleftrightarrow> (case v of VerifyNone \<Rightarrow> True | VerifyCommand c \<Rightarrow> vetted_command ctx [] c)"

fun vetted :: "string \<Rightarrow> string \<Rightarrow> string \<Rightarrow> string \<Rightarrow> string list \<Rightarrow> provision_step list \<Rightarrow> bool" where
  "vetted tmp ctx n kc P [] = True"
| "vetted tmp ctx n kc P (s # ss) \<longleftrightarrow>
     vetted_action tmp ctx n kc P (ps_command s) \<and> vetted_verify ctx (ps_verify s)
     \<and> vetted tmp ctx n kc (P @ produced (ps_command s)) ss"

lemma vetted_append:
  "vetted tmp ctx n kc P (xs @ ys) \<longleftrightarrow> vetted tmp ctx n kc P xs
     \<and> vetted tmp ctx n kc (P @ concat (map (\<lambda>s. produced (ps_command s)) xs)) ys"
  by (induction xs arbitrary: P) auto

lemmas vetted_simps = vetted_append step_def vetted_verify_def nodes_ready_def Let_def

lemma last_split_on_sep: "c \<notin> set f \<Longrightarrow> last (split_on c (d @ c # f)) = f"
proof (induction d)
  case (Cons x d)
  have "split_on c (d @ c # f) \<noteq> [y]" for y
    by (induction d arbitrary: y) (auto split: list.splits)
  with Cons show ?case
    by (cases "split_on c (d @ c # f)") auto
qed (simp add: split_on_no_sep)

lemma last_split_on_append:
  "d = [] \<or> last d = c \<Longrightarrow> c \<notin> set f \<Longrightarrow> last (split_on c (d @ f)) = f"
proof (cases "d = []")
  case False
  assume "d = [] \<or> last d = c" "c \<notin> set f"
  then obtain d' where "d = d' @ [c]" using False by (metis append_butlast_last_id)
  then show ?thesis using \<open>c \<notin> set f\<close> by (simp add: last_split_on_sep)
qed (simp add: split_on_no_sep)

lemma under_join:
  assumes "CHR ''/'' \<notin> set f" "f \<notin> {[], ''.'', ''..''}"
  shows "under tmp (path_join tmp f)"
proof -
  have "\<not> path_is_absolute f" using assms(1) by (cases f) (auto simp: path_is_absolute_def)
  then have "last (split_on (CHR ''/'') (path_join tmp f)) = f"
    using last_split_on_append [of tmp "CHR ''/''" f] last_split_on_append [of "tmp @ ''/''" "CHR ''/''" f]
      assms(1) by (auto simp: path_join_def)
  then show ?thesis using assms(2) by (simp add: under_def Let_def)
qed

lemma label_no_slash: "label_ok n \<Longrightarrow> CHR ''/'' \<notin> set n"
  by (auto simp: label_ok_def list_all_iff name_char_def char_class_defs)

lemma pins:
  "starts_with ''https://'' FLANNEL_MANIFEST_URL" "is_sha256_hex FLANNEL_MANIFEST_SHA256"
  "starts_with ''https://'' TIGERA_OPERATOR_URL" "is_sha256_hex TIGERA_OPERATOR_SHA256"
  "starts_with ''https://'' INGRESS_NGINX_KIND_DEPLOY_URL"
  "is_sha256_hex INGRESS_NGINX_KIND_DEPLOY_SHA256"
  "starts_with ''https://'' GATEWAY_API_CRDS_URL" "is_sha256_hex GATEWAY_API_CRDS_SHA256"
  "starts_with ''https://'' TRAEFIK_HELM_REPO_URL"
  by (simp_all add: FLANNEL_MANIFEST_URL_def TIGERA_OPERATOR_URL_def INGRESS_NGINX_KIND_DEPLOY_URL_def
      GATEWAY_API_CRDS_URL_def TRAEFIK_HELM_REPO_URL_def is_sha256_hex_def FLANNEL_MANIFEST_SHA256_def
      TIGERA_OPERATOR_SHA256_def INGRESS_NGINX_KIND_DEPLOY_SHA256_def GATEWAY_API_CRDS_SHA256_def)

lemma vetted_plan_cni:
  assumes "vetted tmp ctx n kc [] (fst sp)" "label_ok (cs_name spec)"
  shows "vetted tmp ctx n kc [] (fst (plan_cni tmp ctx spec ver sp))"
  using assms label_no_slash [OF assms(2)]
  by (cases sp; cases "cs_cni spec"; cases "resolve_cilium spec")
    (simp_all add: plan_cni_def plan_flannel_def plan_calico_def plan_cilium_def
      plan_gateway_crds_def plan_cilium_extras_def vetted_simps under_join pins)

lemma vetted_plan_ingress:
  assumes "vetted tmp ctx n kc [] (fst sp)" "label_ok (cs_name spec)"
  shows "vetted tmp ctx n kc [] (fst (plan_ingress tmp ctx spec sp))"
  using assms label_no_slash [OF assms(2)]
  by (cases sp) (simp add: plan_ingress_def vetted_simps under_join pins
      split: option.split ingress_controller.split)

lemma built_plan_is_vetted:
  assumes "build_plan_with_cilium_version ty spec dir kc ver = Ok p"
  shows "vetted (path_join dir ''tmp'') (kind_context_name (cs_name spec)) (cs_name spec) kc []
    (cp_steps p)"
proof -
  let ?ctx = "kind_context_name (cs_name spec)" and ?tmp = "path_join dir ''tmp''"
  let ?path = "path_join ?tmp (''kind-'' @ cs_name spec @ ''.yaml'')"
  let ?v = "vetted ?tmp ?ctx (cs_name spec) kc []"
  define sp0 where "sp0 =
     ([\<lparr>ps_id = ''write-kind-config'', ps_command = WriteFile ?path (to_kind_yaml ty spec),
        ps_depends_on = [], ps_verify = VerifyNone\<rparr>,
       \<lparr>ps_id = ''kind-create'', ps_command = RunCommand (KindCreate ?path True),
        ps_depends_on = [''write-kind-config''], ps_verify = VerifyNone\<rparr>,
       \<lparr>ps_id = ''merge-kubeconfig'', ps_command = ExportAndMergeKubeconfig (cs_name spec) kc,
        ps_depends_on = [''kind-create''], ps_verify = VerifyNone\<rparr>], ''merge-kubeconfig'')"
  define sp1 where "sp1 = plan_ingress ?tmp ?ctx spec (plan_cni ?tmp ?ctx spec ver sp0)"
  obtain steps prev where sp1: "sp1 = (steps, prev)" by fastforce
  have l: "label_ok (cs_name spec)"
    using built_plan(1) [OF assms] by (simp add: validate_Ok spec_ok_def)
  then have "?v (fst sp0)"
    using label_no_slash [OF l] by (simp add: sp0_def vetted_simps under_join)
  then have v1: "?v steps"
    using vetted_plan_ingress [OF vetted_plan_cni] l sp1 by (metis fst_conv sp1_def)
  have "cp_steps p = fst (step ''final-verify'' [prev] (RunCommand (case cs_cni spec of
        CiliumCni \<Rightarrow> CiliumStatus ?ctx True | _ \<Rightarrow> nodes_ready ?ctx)) VerifyNone steps)"
    using assms sp1
    by (auto simp: build_plan_with_cilium_version_def step_def Let_def sp1_def sp0_def)
  then show ?thesis using v1 by (simp add: vetted_simps split: cni.split)
qed

lemma build_plan_succeeds:
  "validate spec = Ok () \<Longrightarrow> \<exists>p. build_plan_with_cilium_version ty spec dir kc ver = Ok p"
  by (simp add: build_plan_with_cilium_version_def step_def Let_def split: prod.split)

definition mesh_spec :: cluster_spec where
  "mesh_spec = cluster_spec_default\<lparr>cs_name := ''dev'', cs_cni := CiliumCni, cs_cilium :=
     Some \<lparr>co_api_gateway = True, co_hubble = True, co_ingress = False, co_mesh = True,
       co_cluster_id = 7, co_cluster_name = ''dev''\<rparr>\<rparr>"

lemma default_networks: "\<not> cidr_overlaps \<lparr>network = 0x0AF40000, prefix_len = 16\<rparr>
    \<lparr>network = 0x0A600000, prefix_len = 16\<rparr>"
  by (simp add: cidr_overlaps_def cidr_first_def cidr_last_def cidr_mask_def mask_eq_exp_minus_1)

lemma mesh_spec_valid: "validate mesh_spec = Ok ()"
proof -
  have "validate_cidrs mesh_spec = Ok ()"
    using default_networks by (simp add: validate_cidrs_def mesh_spec_def cluster_spec_default_def
        DEFAULT_POD_CIDR_def DEFAULT_SERVICE_CIDR_def cidr_example_pod cidr_example_service)
  moreover have "is_semver_3 DEFAULT_K8S_VERSION" by code_simp
  ultimately show ?thesis
    by (simp add: validate_def mesh_spec_def cluster_spec_default_def validate_name_iff label_ok_def
        name_char_def char_class_defs validate_cilium_iff mesh_ok_def validate_port_mappings_iff
        ports_ok_def is_well_formed_def kubernetes_version_default_def)
qed

section \<open>Properties\<close>

text \<open>C13: On a plan with distinct step ids the topological sort returns: either a
  permutation of the steps with every step after the steps it depends on, or an error, and then a
  dependency is unknown or some steps wait for each other.\<close>

theorem topological_sort_correct:
  assumes "distinct (step_ids plan)"
  shows "\<exists>r. topological_sort plan = Some r \<and>
    (case r of
       Inr order \<Rightarrow> mset order = mset (step_ids plan) \<and> deps_before (cp_steps plan) order
     | Inl e \<Rightarrow> \<not> known_deps (cp_steps plan) \<or> (\<exists>U. blocked_set (cp_steps plan) U))"
  using topological_sort_cases [OF assms] by (cases "topological_sort plan") auto

definition sample_plan :: create_plan where
  "sample_plan = \<lparr>cp_steps =
     [\<lparr>ps_id = ''b'', ps_command = WriteFile ''x'' ''y'', ps_depends_on = [''a''], ps_verify = VerifyNone\<rparr>,
      \<lparr>ps_id = ''a'', ps_command = WriteFile ''u'' ''v'', ps_depends_on = [], ps_verify = VerifyNone\<rparr>],
     cp_data_dir = ''/d'', cp_kubeconfig_path = ''/k''\<rparr>"

lemma topological_sort_correct_witness:
  "step_ids sample_plan = [''b'', ''a''] \<and> (\<exists>r. topological_sort sample_plan = Some r)"
  using topological_sort_correct [of sample_plan] by (auto simp: sample_plan_def step_ids_def)

text \<open>Every plan the builder makes sorts to its own order, which is the documented sequence of
  step ids, without repetition.\<close>

theorem built_plan_sorts:
  assumes "build_plan_with_cilium_version ty spec dir kc ver = Ok p"
  shows "topological_sort p = Some (Ok (plan_ids spec)) \<and> distinct (plan_ids spec)
    \<and> map ps_id (cp_steps p) = plan_ids spec"
  using chain_sorts [of p] built_plan [OF assms] distinct_plan_ids [of spec]
  by (simp add: step_ids_def)

lemma built_plan_sorts_witness:
  "\<exists>p. build_plan_with_cilium_version (\<lambda>y. Some ''y'') mesh_spec ''/d'' ''/k'' None = Ok p \<and>
     topological_sort p = Some (Ok (plan_ids mesh_spec))"
proof -
  obtain p where "build_plan_with_cilium_version (\<lambda>y. Some ''y'') mesh_spec ''/d'' ''/k'' None = Ok p"
    using mesh_spec_valid build_plan_succeeds by blast
  with built_plan_sorts [OF this] show ?thesis by blast
qed

text \<open>C16: A built plan is vetted: its downloads are pinned, the manifests it applies were produced
  by earlier steps in the plan's own directory, and its commands name only the cluster's context.\<close>

theorem built_plan_vetted:
  assumes "build_plan_with_cilium_version ty spec dir kc ver = Ok p"
  shows "vetted (path_join dir ''tmp'') (kind_context_name (cs_name spec)) (cs_name spec) kc []
    (cp_steps p)"
  using assms by (rule built_plan_is_vetted)

lemma built_plan_vetted_witness:
  "\<exists>p. build_plan_with_cilium_version (\<lambda>y. Some ''y'') mesh_spec ''/d'' ''/k'' None = Ok p \<and>
     vetted ''/d/tmp'' ''kind-dev'' ''dev'' ''/k'' [] (cp_steps p)"
proof -
  obtain p where b: "build_plan_with_cilium_version (\<lambda>y. Some ''y'') mesh_spec ''/d'' ''/k'' None = Ok p"
    using mesh_spec_valid build_plan_succeeds by blast
  have "path_join ''/d'' ''tmp'' = ''/d/tmp''" "cs_name mesh_spec = ''dev''"
    "kind_context_name ''dev'' = ''kind-dev''"
    by (simp_all add: path_join_def path_is_absolute_def mesh_spec_def kind_context_name_def KIND_ENTRY_PREFIX_def)
  then show ?thesis using built_plan_vetted [OF b] b by auto
qed

text \<open>The builder accepts exactly the valid specifications.\<close>

theorem build_plan_iff_valid:
  "is_ok (build_plan_with_cilium_version ty spec dir kc ver) \<longleftrightarrow> spec_ok spec"
  using build_plan_succeeds [of spec ty dir kc ver] built_plan(1) [of ty spec dir kc ver]
  by (auto simp: is_ok_iff validate_Ok)

end
