(* ===== verification/Curl.thy ===== *)
theory Curl
  imports SearchPath
begin

text \<open>
  The probe of the host's curl (\<open>kindboard-core/src/curl.rs\<close>).  What the program does with an
  argument vector is a parameter: it cannot be started, or it ends with an exit status.
\<close>

record curl_opts =
  co_proto :: bool
  co_proto_redir :: bool

definition CURL_ALL :: curl_opts where
  "CURL_ALL = \<lparr>co_proto = True, co_proto_redir = True\<rparr>"

definition CURL_NONE :: curl_opts where
  "CURL_NONE = \<lparr>co_proto = False, co_proto_redir = False\<rparr>"

type_synonym status_of = "string list \<Rightarrow> io_error + int option"

definition probe_flag :: "status_of \<Rightarrow> string \<Rightarrow> string \<Rightarrow> bool" where
  "probe_flag status program flag =
     (case status [program, flag, ''=https'', ''--version''] of
        Inr code \<Rightarrow> code = Some 0
      | Inl _ \<Rightarrow> False)"

definition probe_program :: "status_of \<Rightarrow> string \<Rightarrow> curl_opts" where
  "probe_program status program =
     (let proto = probe_flag status program ''--proto'';
          proto_redir = proto \<and> probe_flag status program ''--proto-redir''
      in \<lparr>co_proto = proto, co_proto_redir = proto_redir\<rparr>)"

definition curl_probe :: "target_os \<Rightarrow> status_of \<Rightarrow> curl_opts" where
  "curl_probe t status =
     probe_program status (if t = TargetWindows then ''curl.exe'' else ''curl'')"

text \<open>\<open>CAPS\<close> is the memo: the probe runs at most once.\<close>

definition curl_caps ::
    "target_os \<Rightarrow> status_of \<Rightarrow> curl_opts option \<Rightarrow> curl_opts \<times> curl_opts option" where
  "curl_caps t status caps =
     (case caps of
        Some c \<Rightarrow> (c, Some c)
      | None \<Rightarrow> (let c = curl_probe t status in (c, Some c)))"

definition secure_args :: "curl_opts \<Rightarrow> string list" where
  "secure_args caps =
     (if co_proto caps then [''--proto'', ''=https''] else [])
     @ (if co_proto_redir caps then [''--proto-redir'', ''=https''] else [])"

text \<open>The program only ever passes curl a hardening flag that this curl accepted when it was
  probed, always in the restrictive form, and restricts redirects only together with the first URL;
  the answer of the first call is the answer of every later one, whatever curl does then.\<close>

theorem curl_flags_were_accepted:
  "let prog = (if t = TargetWindows then ''curl.exe'' else ''curl'');
       (caps, memo) = curl_caps t status None in
   secure_args caps =
     (if \<not> probe_flag status prog ''--proto'' then []
      else if \<not> probe_flag status prog ''--proto-redir'' then [''--proto'', ''=https'']
      else [''--proto'', ''=https'', ''--proto-redir'', ''=https''])
   \<and> curl_caps t status' memo = (caps, memo)"
  by (simp add: curl_caps_def curl_probe_def probe_program_def secure_args_def Let_def)

end
