(* ===== verification/JsonModel.thy ===== *)
theory JsonModel
  imports Prelude
begin

text \<open>
  The JSON values the program reads out of tool output (\<open>serde_json::Value\<close>) and the accessors it
  uses.  The text parser is a parameter of the definitions that use it.
\<close>

datatype json =
    JNull
  | JBool bool
  | JNum string
  | JStr string
  | JArr "json list"
  | JObj "(string \<times> json) list"

fun json_get :: "string \<Rightarrow> json \<Rightarrow> json option" where
  "json_get k (JObj kvs) = map_of (rev kvs) k"
| "json_get k _ = None"

fun as_array :: "json \<Rightarrow> json list option" where
  "as_array (JArr xs) = Some xs"
| "as_array _ = None"

fun as_str :: "json \<Rightarrow> string option" where
  "as_str (JStr s) = Some s"
| "as_str _ = None"

end
