(* ===== verification/Host.thy ===== *)
theory Host
  imports Kubeconfig Curl JsonModel
begin

text \<open>
  The host a long operation runs on.  The world such an operation changes is the file system, the
  clock, the processes started and the events sent (of a type \<open>'e\<close>, one per kind of operation).  What the
  system does with a process is the environment \<open>host_env\<close>: a process started at a tick cannot be
  spawned, or it has a script of reads and poll observations (theory \<open>ExecModel\<close>), an effect on the files
  and a duration.  The cancellation token is read at ticks too, so a statement over all environments
  is one over every moment the token may fire.  A computation has no result (\<open>None\<close>) when the process
  dies inside it or a child never ends.
\<close>

section \<open>The world\<close>

record child =
  ch_script :: process_script
  ch_effect :: "nodes \<Rightarrow> nodes"
  ch_elapsed :: nat

record host_env =
  he_os :: os_env
  he_kube :: kube_env
  he_fmt :: fmt_env
  he_sha256 :: "string \<Rightarrow> string"
  he_curl :: curl_opts
  he_arch :: string
  he_json :: "string \<Rightarrow> json option"
  he_spawn :: "nat \<Rightarrow> cmd \<Rightarrow> nodes \<Rightarrow> io_error + child"
  he_cancelled :: "nat \<Rightarrow> bool"

record 'e world =
  w_fs :: fs
  w_now :: nat
  w_tick :: nat
  w_ran :: "cmd list"
  w_events :: "'e list"

type_synonym ('e, 'a) prov = "'e world \<Rightarrow> (core_error + 'a) option \<times> 'e world"

definition prov_return :: "'a \<Rightarrow> ('e, 'a) prov" where
  "prov_return x w = (Some (Ok x), w)"

definition prov_fail :: "core_error \<Rightarrow> ('e, 'a) prov" where
  "prov_fail e w = (Some (Err e), w)"

definition prov_bind :: "('e, 'a) prov \<Rightarrow> ('a \<Rightarrow> ('e, 'b) prov) \<Rightarrow> ('e, 'b) prov" where
  "prov_bind m f w =
     (case m w of
        (Some (Inr x), w') \<Rightarrow> f x w'
      | (Some (Inl e), w') \<Rightarrow> (Some (Err e), w')
      | (None, w') \<Rightarrow> (None, w'))"

definition prov_lift :: "core_error + 'a \<Rightarrow> ('e, 'a) prov" where
  "prov_lift r w = (Some r, w)"

text \<open>A file-system program whose errors become \<open>CoreError::Io\<close> at a path; and one that reports
  its own errors.\<close>

definition prov_fs :: "(fs \<Rightarrow> (core_error + 'a) outcome \<times> fs) \<Rightarrow> ('e, 'a) prov" where
  "prov_fs m w =
     (case m (w_fs w) of
        (Done r, f) \<Rightarrow> (Some r, w\<lparr>w_fs := f\<rparr>)
      | (Failed e, f) \<Rightarrow> (Some (Err (Io [] e)), w\<lparr>w_fs := f\<rparr>)
      | (Crashed, f) \<Rightarrow> (None, w\<lparr>w_fs := f\<rparr>))"

definition prov_io :: "string \<Rightarrow> 'a io \<Rightarrow> ('e, 'a) prov" where
  "prov_io path m w =
     (case m (w_fs w) of
        (Done x, f) \<Rightarrow> (Some (Ok x), w\<lparr>w_fs := f\<rparr>)
      | (Failed e, f) \<Rightarrow> (Some (Err (Io path e)), w\<lparr>w_fs := f\<rparr>)
      | (Crashed, f) \<Rightarrow> (None, w\<lparr>w_fs := f\<rparr>))"

text \<open>\<open>let _ = remove_file(..)\<close>.\<close>

definition prov_io_quiet :: "'a io \<Rightarrow> ('e, unit) prov" where
  "prov_io_quiet m w =
     (case m (w_fs w) of
        (Crashed, f) \<Rightarrow> (None, w\<lparr>w_fs := f\<rparr>)
      | (_, f) \<Rightarrow> (Some (Ok ()), w\<lparr>w_fs := f\<rparr>))"

definition emit :: "'e \<Rightarrow> 'e world \<Rightarrow> 'e world" where
  "emit ev w = w\<lparr>w_events := w_events w @ [ev]\<rparr>"

section \<open>Processes\<close>

definition attach :: "nat option \<Rightarrow> cmd \<Rightarrow> cmd" where
  "attach cancel c = (case cancel of Some t \<Rightarrow> with_cancel t c | None \<Rightarrow> c)"

definition is_cancelled :: "host_env \<Rightarrow> nat option \<Rightarrow> 'e world \<Rightarrow> bool \<times> 'e world" where
  "is_cancelled env cancel w =
     (case cancel of
        None \<Rightarrow> (False, w)
      | Some _ \<Rightarrow> (he_cancelled env (w_tick w), w\<lparr>w_tick := w_tick w + 1\<rparr>))"

definition after_child :: "cmd \<Rightarrow> child \<Rightarrow> 'e world \<Rightarrow> 'e world" where
  "after_child c ch w =
     w\<lparr>w_fs := (w_fs w)\<lparr>fs_nodes := ch_effect ch (fs_nodes (w_fs w))\<rparr>,
       w_now := w_now w + ch_elapsed ch, w_tick := w_tick w + 1, w_ran := w_ran w @ [c]\<rparr>"

definition run_cmd ::
    "host_env \<Rightarrow> cmd \<Rightarrow> 'e world \<Rightarrow> (exec_error + cmd_output) option \<times> 'e world" where
  "run_cmd env c w =
     (case he_spawn env (w_tick w) c (fs_nodes (w_fs w)) of
        Inl e \<Rightarrow> (Some (Err (ExecSpawn (cmd_program c) e)), w\<lparr>w_tick := w_tick w + 1\<rparr>)
      | Inr ch \<Rightarrow> (fst (wait_handle (cmd_program c) (ch_script ch)), after_child c ch w))"

definition prov_run :: "host_env \<Rightarrow> cmd \<Rightarrow> ('e, cmd_output) prov" where
  "prov_run env c w = (case run_cmd env c w of (r, w') \<Rightarrow> (map_option (map_err Exec) r, w'))"

text \<open>The environment's file queries answered by the files of the world; \<open>0o111\<close> is 73.\<close>

definition os_at :: "host_env \<Rightarrow> nodes \<Rightarrow> os_env" where
  "os_at env n =
     (he_os env)\<lparr>
       fs_is_dir := (\<lambda>p. lookup_node n p = Some NDir),
       fs_is_file := (\<lambda>p. case lookup_node n p of Some (NFile _) \<Rightarrow> True | _ \<Rightarrow> False),
       fs_is_executable := (\<lambda>p. case lookup_node n p of
          Some (NFile f) \<Rightarrow> and (f_mode f) 73 \<noteq> 0 | Some NDir \<Rightarrow> True | _ \<Rightarrow> False)\<rparr>"

section \<open>Files\<close>

text \<open>\<open>tokio::fs::write\<close> follows a link, truncates and writes; cut short it leaves a part.\<close>

fun resolve_path :: "nat \<Rightarrow> nodes \<Rightarrow> string \<Rightarrow> string" where
  "resolve_path 0 n p = p"
| "resolve_path (Suc k) n p = (case n p of Some (NLink t) \<Rightarrow> resolve_path k n t | _ \<Rightarrow> p)"

definition store_bytes :: "nat \<Rightarrow> string \<Rightarrow> string \<Rightarrow> nodes \<Rightarrow> nodes" where
  "store_bytes mode p bytes n =
     (let q = resolve_path 41 n p in
      n(q \<mapsto> NFile \<lparr>f_bytes = bytes,
               f_mode = (case n q of Some (NFile f) \<Rightarrow> f_mode f | _ \<Rightarrow> mode)\<rparr>))"

definition write_file :: "string \<Rightarrow> string \<Rightarrow> unit io" where
  "write_file p bytes w =
     io_prim (\<lambda>n. case n (resolve_path 41 n p) of
                Some NDir \<Rightarrow> Inl (os_error ''Is a directory (os error 21)'')
              | Some (NLink _) \<Rightarrow> Inl (os_error ''Too many levels of symbolic links (os error 40)'')
              | _ \<Rightarrow> Inr ((), store_bytes (fs_umask_mode w) p bytes n))
       (\<lambda>k n. case k of 0 \<Rightarrow> n | Suc j \<Rightarrow> store_bytes (fs_umask_mode w) p (take j bytes) n) w"

definition utf8_valid :: "string \<Rightarrow> bool" where
  "utf8_valid s \<longleftrightarrow> utf8_lossy s = s"

definition read_to_string :: "string \<Rightarrow> string io" where
  "read_to_string p =
     io_bind (read_file p)
       (\<lambda>f. if utf8_valid (f_bytes f) then io_return (f_bytes f)
            else io_fail (IoError OtherKind ''stream did not contain valid UTF-8''))"

definition eq_ignore_ascii_case :: "string \<Rightarrow> string \<Rightarrow> bool" where
  "eq_ignore_ascii_case a b \<longleftrightarrow> map to_ascii_lower a = map to_ascii_lower b"

lemma run_cmd_now: "w_now w \<le> w_now (snd (run_cmd env c w))"
  by (auto simp: run_cmd_def after_child_def split: sum.split)

section \<open>Which events a computation sends\<close>

definition sends :: "('e \<Rightarrow> bool) \<Rightarrow> ('e world \<Rightarrow> 'r \<times> 'e world) \<Rightarrow> bool" where
  "sends P m \<longleftrightarrow> (\<forall>w. \<exists>evs. w_events (snd (m w)) = w_events w @ evs \<and> list_all P evs)"

lemma sendsD: "sends P m \<Longrightarrow> m w = (r, w') \<Longrightarrow> \<exists>evs. w_events w' = w_events w @ evs \<and> list_all P evs"
  by (metis sends_def snd_conv)

lemma sendsI:
  "(\<And>w r w'. m w = (r, w') \<Longrightarrow> \<exists>evs. w_events w' = w_events w @ evs \<and> list_all P evs) \<Longrightarrow> sends P m"
  unfolding sends_def by (metis prod.collapse)

lemma sends_quiet: "(\<And>w. w_events (snd (m w)) = w_events w) \<Longrightarrow> sends P m"
  by (auto simp: sends_def)

lemma sends_chain:
  assumes "sends P m" "sends P k" "m w = (r, w1)" "k w1 = (r', w')"
  shows "\<exists>evs. w_events w' = w_events w @ evs \<and> list_all P evs"
proof -
  from sendsD [OF assms(1,3)] obtain e1 where "w_events w1 = w_events w @ e1" "list_all P e1" by blast
  moreover from sendsD [OF assms(2,4)] obtain e2 where "w_events w' = w_events w1 @ e2" "list_all P e2"
    by blast
  ultimately show ?thesis by auto
qed

lemma sends_bind:
  assumes "sends P m" "\<And>x. sends P (f x)"
  shows "sends P (prov_bind m f)"
proof (rule sendsI)
  fix w r w' assume e: "prov_bind m f w = (r, w')"
  obtain q w1 where q: "m w = (q, w1)" by fastforce
  show "\<exists>evs. w_events w' = w_events w @ evs \<and> list_all P evs"
  proof (cases "\<exists>x. q = Some (Inr x)")
    case True
    then obtain x where x: "m w = (Some (Inr x), w1)" using q by blast
    then have "f x w1 = (r, w')" using e by (simp add: prov_bind_def)
    with sends_chain [OF assms(1) assms(2) x] show ?thesis by blast
  next
    case False
    then have "w' = w1" using e q by (auto simp: prov_bind_def split: option.splits sum.splits)
    with sendsD [OF assms(1) q] show ?thesis by blast
  qed
qed

lemma sends_io:
  "sends P (prov_io p m)" "sends P (prov_fs m')" "sends P (prov_io_quiet m'')"
  "sends P (prov_return x)" "sends P (prov_fail e)" "sends P (prov_lift r)"
  by (auto intro!: sends_quiet simp: prov_io_def prov_fs_def prov_io_quiet_def prov_return_def
      prov_fail_def prov_lift_def split: prod.split outcome.split)

lemma run_cmd_quiet: "w_events (snd (run_cmd env c w)) = w_events w"
  by (auto simp: run_cmd_def after_child_def split: sum.split)

lemma run_cmd_events: "run_cmd env c w = (r, w') \<Longrightarrow> w_events w' = w_events w"
  by (metis run_cmd_quiet snd_conv)

lemma is_cancelled_events: "is_cancelled env cancel w = (b, w') \<Longrightarrow> w_events w' = w_events w"
  by (auto simp: is_cancelled_def split: option.splits)

lemma sends_run: "sends P (prov_run env c)"
  by (auto intro!: sends_quiet simp: prov_run_def run_cmd_events split: prod.split)

lemma forward_lines_eq:
  "forward_lines reads = map utf8_lossy (str_lines (concat (takeWhile (\<lambda>r. r \<noteq> []) reads)))"
  using forward_loop_deliver [of "[]" reads] by (simp add: forward_lines_def deliver_str_lines)

section \<open>A concrete environment\<close>

text \<open>Every process prints a token and exits with the given code, and leaves a file; the token
  fires after its first check.\<close>

definition child_example :: "int \<Rightarrow> child" where
  "child_example code =
     \<lparr>ch_script = \<lparr>ps_stdout_reads = [''token: x'' @ [nl]], ps_stderr_reads = [],
        ps_observations = [\<lparr>ob_try_wait = Exited (Some code), ob_cancelled = False,
          ob_wake = PollElapsed, ob_exits_in_grace = False\<rparr>]\<rparr>,
      ch_effect = (\<lambda>n. n(''got'' \<mapsto> NFile \<lparr>f_bytes = ''data'', f_mode = 420\<rparr>)), ch_elapsed = 1\<rparr>"

definition env_example :: "int \<Rightarrow> host_env" where
  "env_example code =
     \<lparr>he_os = \<lparr>env_target = TargetLinux, env_PATH = None, env_home = None, fs_is_dir = (\<lambda>_. False),
        fs_is_file = (\<lambda>_. False), fs_is_executable = (\<lambda>_. False)\<rparr>,
      he_kube = kube_env_example, he_fmt = \<lparr>dbg_str = (\<lambda>s. s), dbg_dur = dec\<rparr>,
      he_sha256 = (\<lambda>_. ''aa''), he_curl = CURL_NONE, he_arch = ''x86_64'', he_json = (\<lambda>_. None),
      he_spawn = (\<lambda>_ _ _. Inr (child_example code)), he_cancelled = (\<lambda>n. 0 < n)\<rparr>"

definition world_example :: "'e world" where
  "world_example = \<lparr>w_fs = fs_example, w_now = 0, w_tick = 0, w_ran = [], w_events = []\<rparr>"

lemma forward_example: "forward_lines [''token: x'' @ [nl]] = [''token: x'']"
  unfolding forward_lines_eq by (simp add: str_lines_def nl_def cr_def utf8_next_def utf8_width_def Let_def)

lemma run_cmd_example:
  "run_cmd (env_example 0) c w =
     (Some (Ok \<lparr>out_exit_code = Some 0, out_stdout_lines = [''token: x''], out_stderr_tail = []\<rparr>),
      after_child c (child_example 0) w)"
  by (simp add: run_cmd_def env_example_def child_example_def wait_handle_def wait_result_def
      forward_example [simplified] Let_def split: prod.split)

end
