(* ===== verification/ProvisionRun.thy ===== *)
theory ProvisionRun
  imports PlanChecks Host
begin

text \<open>
  Running a create plan (\<open>kindboard-core/src/provision/mod.rs\<close>): the actions of a step, its
  verification, the streamed output, the wait for a CRD, the diagnosis of a failed Cilium install
  and the run of the whole plan with its events, on the host of theory \<open>Host\<close>.
\<close>

section \<open>Events\<close>

datatype provision_event =
    EvStepStarted string
  | EvStepOutput string string
  | EvStepFinished string
  | EvStepFailed string string
  | EvPlanFinished bool

type_synonym pworld = "provision_event world"

type_synonym 'a prun = "(provision_event, 'a) prov"

text \<open>The streamed run: the lines are forwarded until the channel closes, then \<open>wait\<close> is called.\<close>

definition run_streaming :: "host_env \<Rightarrow> cmd \<Rightarrow> string \<Rightarrow> unit prun" where
  "run_streaming env c step_id w =
     (case he_spawn env (w_tick w) c (fs_nodes (w_fs w)) of
        Inl e \<Rightarrow> (Some (Err (Exec (ExecSpawn (cmd_program c) e))), w\<lparr>w_tick := w_tick w + 1\<rparr>)
      | Inr ch \<Rightarrow>
          (let lines = forward_lines (ps_stdout_reads (ch_script ch));
               w1 = after_child c ch w;
               w2 = w1\<lparr>w_events := w_events w1
                         @ map (\<lambda>l. EvStepOutput step_id (redact_kubeconfig_secrets l)) lines\<rparr>
           in (map_option (\<lambda>r. rbind (map_err Exec r) (\<lambda>_. Ok ()))
                 (fst (wait_handle (cmd_program c) (ch_script ch))), w2)))"

section \<open>The wait for a CRD\<close>

definition CRD_POLL :: nat where "CRD_POLL = 5000"

function wait_for_crd ::
    "host_env \<Rightarrow> nat option \<Rightarrow> string \<Rightarrow> string \<Rightarrow> string \<Rightarrow> nat \<Rightarrow> nat \<Rightarrow> unit prun" where
  "wait_for_crd env cancel step_id context crd timeout deadline w =
     (case run_cmd env (attach cancel (to_cmd (he_os env) (KubectlGetCrd context crd))) w of
        (None, w1) \<Rightarrow> (None, w1)
      | (Some (Inr _), w1) \<Rightarrow> (Some (Ok ()), w1)
      | (Some (Inl (ExecCommand _ _ _)), w1) \<Rightarrow>
          if deadline \<le> w_now w1
          then (Some (Err (Provision (StepFailed step_id (Config
                  (''CRD '' @ crd @ '' did not appear within '' @ dbg_dur (he_fmt env) timeout))))), w1)
          else wait_for_crd env cancel step_id context crd timeout deadline
                 (w1\<lparr>w_now := w_now w1 + CRD_POLL\<rparr>)
      | (Some (Inl other), w1) \<Rightarrow> (Some (Err (Provision (StepFailed step_id (Exec other)))), w1))"
  by pat_completeness auto

termination
proof (relation "measure (\<lambda>(env, cancel, i, ctx, crd, t, deadline, w). deadline - w_now w)")
  show "wf (measure (\<lambda>(env, cancel, i, ctx, crd, t, deadline, w). deadline - w_now w))" by simp
next
  fix env cancel step_id ctx crd timeout deadline w r w1 a b c d e
  assume r: "(r, w1) = run_cmd env (attach cancel (to_cmd (he_os env) (KubectlGetCrd ctx crd))) w"
    and "\<not> deadline \<le> w_now w1"
  moreover have "w_now w \<le> w_now w1" using run_cmd_now r by (metis snd_conv)
  ultimately show "((env, cancel, step_id, ctx, crd, timeout, deadline,
      w1\<lparr>w_now := w_now w1 + CRD_POLL\<rparr>), (env, cancel, step_id, ctx, crd, timeout, deadline, w))
    \<in> measure (\<lambda>(env, cancel, i, ctx, crd, t, deadline, w). deadline - w_now w)"
    by (auto simp: CRD_POLL_def)
qed

declare wait_for_crd.simps [simp del]

section \<open>The diagnosis of a failed Cilium install\<close>

definition is_agent_probe_failure :: "string \<Rightarrow> bool" where
  "is_agent_probe_failure log \<longleftrightarrow>
     has_sub ''failed to probe helper'' log
     \<and> (has_sub ''FnSetRetval'' log \<or> has_sub ''bpf_set_retval'' log)"

definition pod_name :: "json \<Rightarrow> string option" where
  "pod_name item =
     Option.bind (json_get ''metadata'' item) (\<lambda>m. Option.bind (json_get ''name'' m) as_str)"

definition pod_names_from_json :: "(string \<Rightarrow> json option) \<Rightarrow> string \<Rightarrow> string list" where
  "pod_names_from_json from_str text =
     (case from_str text of
        None \<Rightarrow> []
      | Some v \<Rightarrow>
          (case Option.bind (json_get ''items'' v) as_array of
             None \<Rightarrow> []
           | Some items \<Rightarrow> List.map_filter pod_name items))"

definition em_dash :: string where "em_dash = [CHR 0xE2, CHR 0x80, CHR 0x94]"

definition diagnosis_text :: "string \<Rightarrow> string" where
  "diagnosis_text pod =
     ''diagnosis: Cilium agent pod '' @ pod @ '' cannot start on this host kernel ''
     @ ''(BPF probe failure: FnSetRetval/bpf_set_retval) '' @ em_dash @ '' the known upstream ''
     @ ''incompatibility cilium#48016, fixed upstream in commit 67c619c and ''
     @ ''first released in '' @ CILIUM_VERSION_KERNEL_72 @ '' (no stable release as of 2026-09-13). ''
     @ ''kindboard selects '' @ CILIUM_VERSION_KERNEL_72
     @ '' automatically on Docker host kernels >= 7.2, ''
     @ ''so this host failed despite that override '' @ em_dash @ '' the docker kernel probe ''
     @ ''may have failed or kindboard is outdated. Remedies: check ''
     @ ''`docker info --format '' @ [CHR 0x27] @ ''{{.KernelVersion}}'' @ [CHR 0x27]
     @ ''` and update kindboard, ''
     @ ''boot a kernel < 7.2 and re-create the cluster, or use the '' @ ''flannel/calico CNI.''"

fun diagnose_pods ::
    "host_env \<Rightarrow> string \<Rightarrow> string list \<Rightarrow> pworld \<Rightarrow> string option option \<times> pworld" where
  "diagnose_pods env context [] w = (Some None, w)"
| "diagnose_pods env context (pod # pods) w =
     (case run_cmd env (to_cmd (he_os env)
              (KubectlLogs context pod ''kube-system'' None False (Some 200))) w of
        (None, w1) \<Rightarrow> (None, w1)
      | (Some (Inl _), w1) \<Rightarrow> diagnose_pods env context pods w1
      | (Some (Inr logs), w1) \<Rightarrow>
          if is_agent_probe_failure (out_stdout logs) then (Some (Some (diagnosis_text pod)), w1)
          else diagnose_pods env context pods w1)"

definition diagnose_cilium_failure ::
    "host_env \<Rightarrow> string \<Rightarrow> pworld \<Rightarrow> string option option \<times> pworld" where
  "diagnose_cilium_failure env context w =
     (case run_cmd env (to_cmd (he_os env)
              (KubectlGetPodsByLabel context ''kube-system'' ''k8s-app=cilium'')) w of
        (None, w1) \<Rightarrow> (None, w1)
      | (Some (Inl _), w1) \<Rightarrow> (Some None, w1)
      | (Some (Inr pods), w1) \<Rightarrow>
          (let names = pod_names_from_json (he_json env) (out_stdout pods)
           in if names = [] then (Some None, w1) else diagnose_pods env context (take 3 names) w1))"

section \<open>Executing a step\<close>

definition make_parent :: "string \<Rightarrow> unit prun" where
  "make_parent path = prov_io (path_parent path) (create_dir_all (path_parent path))"

definition download_cmd :: "host_env \<Rightarrow> string \<Rightarrow> string \<Rightarrow> cmd" where
  "download_cmd env url dest =
     with_effective_path (he_os env)
       (with_arg url (with_arg (utf8_lossy dest) (with_args [''-o'']
         (with_args [''--max-filesize'', ''67108864'']
           (with_args (secure_args (he_curl env))
             (with_args [''-L'', ''--fail'', ''--silent'', ''--show-error''] (cmd_new ''curl'')))))))"

definition check_sha256 :: "host_env \<Rightarrow> string \<Rightarrow> string \<Rightarrow> unit prun" where
  "check_sha256 env dest expected =
     prov_bind (prov_io dest (sha256_file_hex (he_sha256 env) dest)) (\<lambda>digest.
       if eq_ignore_ascii_case digest expected then prov_return ()
       else prov_bind (prov_io_quiet (remove_file dest)) (\<lambda>_.
              prov_fail (Provision (ProvChecksumMismatch dest expected))))"

definition do_download ::
    "host_env \<Rightarrow> nat option \<Rightarrow> string \<Rightarrow> string \<Rightarrow> string \<Rightarrow> string option \<Rightarrow> unit prun" where
  "do_download env cancel step_id url dest expected_sha256 =
     prov_bind (make_parent dest) (\<lambda>_.
     prov_bind (run_streaming env (attach cancel (download_cmd env url dest)) step_id) (\<lambda>_.
       case expected_sha256 of
         None \<Rightarrow> prov_return ()
       | Some expected \<Rightarrow> check_sha256 env dest expected))"

definition do_write_file :: "string \<Rightarrow> string \<Rightarrow> unit prun" where
  "do_write_file path content =
     prov_bind (make_parent path) (\<lambda>_. prov_io path (write_file path content))"

definition do_export_and_merge :: "host_env \<Rightarrow> nat option \<Rightarrow> string \<Rightarrow> string \<Rightarrow> unit prun" where
  "do_export_and_merge env cancel cluster_name store_path =
     prov_bind (prov_run env (attach cancel (to_cmd (he_os env)
                  (KindExportKubeconfig cluster_name False)))) (\<lambda>output.
     prov_bind (prov_fs (store_load_from (he_kube env) store_path)) (\<lambda>store.
     prov_bind (prov_lift (ensure_context_from_kind_output (he_kube env) cluster_name
                  (out_stdout output) store)) (\<lambda>store'.
     prov_fs (store_save (he_kube env) store'))))"

definition do_patch_flannel :: "string \<Rightarrow> string \<Rightarrow> string \<Rightarrow> unit prun" where
  "do_patch_flannel source dest pod_cidr =
     prov_bind (prov_io source (read_to_string source)) (\<lambda>manifest.
     prov_bind (prov_lift (ok_or (Provision (InvalidPlan (''flannel manifest '' @ utf8_lossy source
                  @ '' does not contain the expected network key'')))
                  (patch_flannel_network manifest pod_cidr))) (\<lambda>patched.
     prov_bind (make_parent dest) (\<lambda>_. prov_io dest (write_file dest patched))))"

definition execute_action :: "host_env \<Rightarrow> nat option \<Rightarrow> provision_step \<Rightarrow> unit prun" where
  "execute_action env cancel st =
     (case ps_command st of
        RunCommand c \<Rightarrow> run_streaming env (attach cancel (to_cmd (he_os env) c)) (ps_id st)
      | Download url dest sha \<Rightarrow> do_download env cancel (ps_id st) url dest sha
      | WriteFile path content \<Rightarrow> do_write_file path content
      | ExportAndMergeKubeconfig n path \<Rightarrow> do_export_and_merge env cancel n path
      | PatchFlannel src dest cidr \<Rightarrow> do_patch_flannel src dest cidr
      | WaitForCrd ctx crd timeout \<Rightarrow> (\<lambda>w.
          wait_for_crd env cancel (ps_id st) ctx crd timeout (w_now w + timeout) w))"

definition verify_step :: "host_env \<Rightarrow> nat option \<Rightarrow> provision_step \<Rightarrow> unit prun" where
  "verify_step env cancel st w =
     (case ps_verify st of
        VerifyNone \<Rightarrow> (Some (Ok ()), w)
      | VerifyCommand c \<Rightarrow>
          (case run_cmd env (attach cancel (to_cmd (he_os env) c)) w of
             (None, w1) \<Rightarrow> (None, w1)
           | (Some (Inr _), w1) \<Rightarrow> (Some (Ok ()), w1)
           | (Some (Inl e), w1) \<Rightarrow>
               (Some (Err (Provision (VerifyFailed (ps_id st) (exec_error_text (he_fmt env) e)))), w1)))"

definition execute_step :: "host_env \<Rightarrow> nat option \<Rightarrow> provision_step \<Rightarrow> unit prun" where
  "execute_step env cancel st = prov_bind (execute_action env cancel st) (\<lambda>_. verify_step env cancel st)"

section \<open>Running the plan\<close>

text \<open>The message of a failed step; the diagnosis runs only for the Cilium install and only when the
  token has not fired.\<close>

definition failure_message ::
    "host_env \<Rightarrow> nat option \<Rightarrow> provision_step \<Rightarrow> core_error \<Rightarrow> pworld \<Rightarrow> string option \<times> pworld" where
  "failure_message env cancel st err w =
     (let msg = core_error_text (he_fmt env) err; (cancelled, w1) = is_cancelled env cancel w in
      if \<not> cancelled \<and> ps_id st = CILIUM_INSTALL_STEP
      then (case ps_command st of
              RunCommand (CiliumInstall ctx _ _ _) \<Rightarrow>
                (case diagnose_cilium_failure env ctx w1 of
                   (None, w2) \<Rightarrow> (None, w2)
                 | (Some None, w2) \<Rightarrow> (Some msg, w2)
                 | (Some (Some d), w2) \<Rightarrow> (Some (msg @ [nl] @ d), w2))
            | _ \<Rightarrow> (Some msg, w1))
      else (Some msg, w1))"

fun run_steps :: "host_env \<Rightarrow> nat option \<Rightarrow> create_plan \<Rightarrow> string list \<Rightarrow> unit prun" where
  "run_steps env cancel plan [] w = (Some (Ok ()), emit (EvPlanFinished True) w)"
| "run_steps env cancel plan (i # ids) w =
     (case find (\<lambda>s. ps_id s = i) (cp_steps plan) of
        None \<Rightarrow> (Some (Err (Provision (InvalidPlan (''unknown step '' @ i)))), w)
      | Some st \<Rightarrow>
          (case is_cancelled env cancel w of
             (True, w1) \<Rightarrow>
               (Some (Err (Provision (StepFailed (ps_id st) (Config ''cancelled'')))),
                emit (EvPlanFinished False) w1)
           | (False, w1) \<Rightarrow>
               (case execute_step env cancel st (emit (EvStepStarted (ps_id st)) w1) of
                  (None, w2) \<Rightarrow> (None, w2)
                | (Some (Inr _), w2) \<Rightarrow>
                    run_steps env cancel plan ids (emit (EvStepFinished (ps_id st)) w2)
                | (Some (Inl err), w2) \<Rightarrow>
                    (case failure_message env cancel st err w2 of
                       (None, w3) \<Rightarrow> (None, w3)
                     | (Some msg, w3) \<Rightarrow>
                         (Some (Err (Provision (StepFailed (ps_id st) err))),
                          emit (EvPlanFinished False) (emit (EvStepFailed (ps_id st) msg) w3))))))"

definition run_plan :: "host_env \<Rightarrow> create_plan \<Rightarrow> nat option \<Rightarrow> unit prun" where
  "run_plan env plan cancel w =
     (case topological_sort plan of
        None \<Rightarrow> (None, w)
      | Some (Inl e) \<Rightarrow> (Some (Err e), w)
      | Some (Inr sorted') \<Rightarrow> run_steps env cancel plan sorted' w)"

end
