(* ===== verification/RunProps.thy ===== *)
theory RunProps
  imports ProvisionRun
begin

text \<open>
  What a run of a plan guarantees: the protocol of its events, the integrity of its downloads, the
  bound on the wait for a CRD and the effect of the merge step.
\<close>

section \<open>The events of a step\<close>

definition output_of :: "string \<Rightarrow> provision_event \<Rightarrow> bool" where
  "output_of i ev \<longleftrightarrow> (case ev of EvStepOutput j _ \<Rightarrow> j = i | _ \<Rightarrow> False)"

lemma sends_streaming: "sends (output_of i) (run_streaming env c i)"
  by (rule sendsI) (auto simp: run_streaming_def after_child_def Let_def list_all_iff output_of_def
      split: sum.splits)

lemma wait_for_crd_quiet:
  "w_events (snd (wait_for_crd env cancel i ctx crd t d w)) = w_events w"
proof (induction env cancel i ctx crd t d w rule: wait_for_crd.induct)
  case (1 env cancel i ctx crd t d w)
  obtain r w1 where r: "run_cmd env (attach cancel (to_cmd (he_os env) (KubectlGetCrd ctx crd))) w = (r, w1)"
    by fastforce
  note e = run_cmd_events [OF r]
  show ?case
    using 1 r e by (subst wait_for_crd.simps) (auto split: option.split sum.split exec_error.split)
qed

lemma sends_verify: "sends P (verify_step env cancel st)"
  by (rule sends_quiet) (auto simp: verify_step_def run_cmd_events
      split: verify_spec.split prod.split option.split sum.split)

lemma sends_wait: "sends P (\<lambda>w. wait_for_crd env cancel i ctx crd t (w_now w + t) w)"
  by (rule sends_quiet) (rule wait_for_crd_quiet)

lemma sends_if: "sends P m \<Longrightarrow> sends P k \<Longrightarrow> sends P (if b then m else k)"
  by simp

lemmas sends_intros = sends_bind sends_io sends_run sends_streaming sends_if sends_wait

lemma sends_action: "sends (output_of (ps_id st)) (execute_action env cancel st)"
  unfolding execute_action_def do_download_def do_write_file_def do_export_and_merge_def
    do_patch_flannel_def make_parent_def check_sha256_def
  by (auto intro!: sends_intros split: provision_action.split option.split simp del: if_split)

lemma sends_step: "sends (output_of (ps_id st)) (execute_step env cancel st)"
  unfolding execute_step_def by (intro sends_bind sends_action sends_verify)

lemma diagnose_pods_events: "w_events (snd (diagnose_pods env ctx pods w)) = w_events w"
  by (induction env ctx pods w rule: diagnose_pods.induct)
    (auto simp: run_cmd_events split: prod.split option.split sum.split)

lemma diagnose_events: "w_events (snd (diagnose_cilium_failure env ctx w)) = w_events w"
  by (auto simp: diagnose_cilium_failure_def Let_def run_cmd_events diagnose_pods_events
      split: prod.split option.split sum.split)

lemma failure_message_events: "w_events (snd (failure_message env cancel st err w)) = w_events w"
proof -
  obtain b w1 where c: "is_cancelled env cancel w = (b, w1)" by fastforce
  have d: "diagnose_cilium_failure env ctx w1 = (r, w2) \<Longrightarrow> w_events w2 = w_events w1" for ctx r w2
    by (metis diagnose_events snd_conv)
  show ?thesis
    using is_cancelled_events [OF c]
    by (auto simp: failure_message_def c Let_def d
        split: provision_action.split kind_command.split prod.split option.split)
qed

section \<open>The protocol of events\<close>

text \<open>The events of a run over a sequence of step ids that ended with success or failure.  Each step
  is started, then only sends output, then is finished; the first that fails (or the first not begun
  because the token fired) ends the run; one \<open>EvPlanFinished\<close> comes, at the end.\<close>

fun run_protocol :: "string list \<Rightarrow> bool \<Rightarrow> provision_event list \<Rightarrow> bool" where
  "run_protocol [] success evs \<longleftrightarrow> success \<and> evs = [EvPlanFinished True]"
| "run_protocol (i # ids) success evs \<longleftrightarrow>
     (case evs of
        EvStepStarted j # rest \<Rightarrow> j = i \<and>
          (case dropWhile (output_of i) rest of
             EvStepFinished k # rest' \<Rightarrow> k = i \<and> run_protocol ids success rest'
           | [EvStepFailed k m, EvPlanFinished b] \<Rightarrow> k = i \<and> \<not> b \<and> \<not> success
           | _ \<Rightarrow> False)
      | [EvPlanFinished b] \<Rightarrow> \<not> b \<and> \<not> success
      | _ \<Rightarrow> False)"

lemma dropWhile_outputs: "list_all (output_of i) es \<Longrightarrow> dropWhile (output_of i) (es @ r) = dropWhile (output_of i) r"
  by (induction es) auto

lemma run_steps_protocol:
  assumes "set ids \<subseteq> ps_id ` set (cp_steps plan)"
    and "run_steps env cancel plan ids w = (Some r, w')"
  shows "\<exists>evs. w_events w' = w_events w @ evs \<and> run_protocol ids (is_ok r) evs"
  using assms
proof (induction ids arbitrary: w)
  case (Cons i ids)
  note 2 = Cons.IH Cons.prems
  obtain st where st: "find (\<lambda>s. ps_id s = i) (cp_steps plan) = Some st" "ps_id st = i"
    using 2(2) by (cases "find (\<lambda>s. ps_id s = i) (cp_steps plan)")
      (auto simp: find_None_iff dest: find_Some_iff [THEN iffD1])
  obtain b w1 where c: "is_cancelled env cancel w = (b, w1)" by fastforce
  note c1 = is_cancelled_events [OF c]
  obtain q w2 where q: "execute_step env cancel st (emit (EvStepStarted i) w1) = (q, w2)" by fastforce
  from sendsD [OF sends_step q] obtain es where
    es: "w_events w2 = w_events w @ EvStepStarted i # es" "list_all (output_of i) es"
    using c1 st by (auto simp: emit_def)
  consider "b" | "\<not> b" "q = None" | u where "\<not> b" "q = Some (Inr u)" | e where "\<not> b" "q = Some (Inl e)"
    by (metis sum.exhaust option.exhaust)
  then show ?case
  proof cases
    case 1
    then show ?thesis using 2(3) st c c1 by (auto simp: emit_def)
  next
    case 2
    then show ?thesis using Cons.prems(2) st c q by simp
  next
    case (3 u)
    then have "run_steps env cancel plan ids (emit (EvStepFinished i) w2) = (Some r, w')"
      using 2(3) st c q by simp
    with 2(1,2) obtain evs where
      "w_events w' = w_events (emit (EvStepFinished i) w2) @ evs" "run_protocol ids (is_ok r) evs"
      by auto
    then show ?thesis using es
      by (intro exI [of _ "EvStepStarted i # es @ EvStepFinished i # evs"])
        (simp add: emit_def dropWhile_outputs output_of_def)
  next
    case (4 e)
    obtain m w3 where m: "failure_message env cancel st e w2 = (m, w3)" by fastforce
    have "w_events w3 = w_events w2" using failure_message_events m by (metis snd_conv)
    then show ?thesis using es 2(3) st c q m 4
      by (intro exI [of _ "EvStepStarted i # es @ [EvStepFailed i (the m), EvPlanFinished False]"])
        (auto simp: emit_def dropWhile_outputs output_of_def split: option.splits)
  qed
qed (auto simp: emit_def)

section \<open>The wait for a CRD\<close>

text \<open>The number of polls left before the deadline.\<close>

definition polls_left :: "nat \<Rightarrow> nat \<Rightarrow> nat" where
  "polls_left now deadline = (deadline - now + (CRD_POLL - 1)) div CRD_POLL"

lemma run_cmd_tick: "w_tick (snd (run_cmd env c w)) = w_tick w + 1"
  by (auto simp: run_cmd_def after_child_def split: sum.split)

lemma polls_left_step: "now < deadline \<Longrightarrow> now0 \<le> now \<Longrightarrow> Suc (polls_left (now + CRD_POLL) deadline) \<le> polls_left now0 deadline"
proof (cases "now + CRD_POLL \<le> deadline")
  case True
  assume a: "now < deadline" "now0 \<le> now"
  have "Suc (polls_left (now + CRD_POLL) deadline) = (deadline - (now + CRD_POLL) + (CRD_POLL - 1) + CRD_POLL) div CRD_POLL"
    by (simp add: polls_left_def CRD_POLL_def)
  also have "\<dots> \<le> polls_left now0 deadline"
    unfolding polls_left_def using a True by (intro div_le_mono) (auto simp: CRD_POLL_def)
  finally show ?thesis .
next
  case False
  assume "now < deadline" "now0 \<le> now"
  then have "5000 div 5000 \<le> (deadline - now0 + 4999) div 5000" by (intro div_le_mono) simp
  then show ?thesis using False by (simp add: polls_left_def CRD_POLL_def)
qed

definition crd_cmd :: "host_env \<Rightarrow> nat option \<Rightarrow> string \<Rightarrow> string \<Rightarrow> cmd" where
  "crd_cmd env cancel ctx crd = attach cancel (to_cmd (he_os env) (KubectlGetCrd ctx crd))"

lemma wait_for_crd_outcome:
  "wait_for_crd env cancel i ctx crd t deadline w = (r, w') \<Longrightarrow>
     w_tick w' \<le> w_tick w + 1 + polls_left (w_now w) deadline \<and>
     (\<exists>w0 q. run_cmd env (crd_cmd env cancel ctx crd) w0 = (q, w') \<and>
        (case q of
           None \<Rightarrow> r = None
         | Some (Inr out) \<Rightarrow> r = Some (Ok ())
         | Some (Inl e) \<Rightarrow> \<exists>cause. r = Some (Err (Provision (StepFailed i cause))) \<and>
             (case e of ExecCommand _ _ _ \<Rightarrow> deadline \<le> w_now w' | _ \<Rightarrow> cause = Exec e)))"
proof (induction env cancel i ctx crd t deadline w rule: wait_for_crd.induct)
  case (1 env cancel i ctx crd t d w)
  obtain q w1 where q: "run_cmd env (crd_cmd env cancel ctx crd) w = (q, w1)" by fastforce
  have tick: "w_tick w1 = w_tick w + 1" using run_cmd_tick q by (metis snd_conv)
  have now: "w_now w \<le> w_now w1" using run_cmd_now q by (metis snd_conv)
  show ?case
  proof (cases "\<exists>p c s. q = Some (Inl (ExecCommand p c s)) \<and> w_now w1 < d")
    case True
    then obtain p c s where t: "q = Some (Inl (ExecCommand p c s))" "w_now w1 < d" by blast
    then have "wait_for_crd env cancel i ctx crd t d (w1\<lparr>w_now := w_now w1 + CRD_POLL\<rparr>) = (r, w')"
      using "1.prems" q by (subst (asm) wait_for_crd.simps) (simp add: crd_cmd_def)
    from "1.IH" [OF q [symmetric, unfolded crd_cmd_def] t(1) refl refl _ this] t(2)
    show ?thesis using tick polls_left_step [OF t(2) now] by auto
  next
    case False
    then show ?thesis using "1.prems" q tick
      by (subst (asm) wait_for_crd.simps)
        (auto simp: crd_cmd_def not_less split: option.splits sum.splits exec_error.splits if_splits
          intro!: exI [of _ w])
  qed
qed

section \<open>Files of a step\<close>

lemma read_file_done:
  "read_file p f = (Done x, f') \<Longrightarrow>
     lookup_node (fs_nodes f) p = Some (NFile x) \<and> fs_nodes f' = fs_nodes f"
  by (auto simp: read_file_def io_prim_def Let_def split: list.splits fault.splits option.splits node.splits)

lemma check_sha256_outcome:
  "check_sha256 env dest expected w = (Some (Inr u), w') \<Longrightarrow>
     \<exists>f. lookup_node (fs_nodes (w_fs w')) dest = Some (NFile f)
       \<and> eq_ignore_ascii_case (he_sha256 env (f_bytes f)) expected"
  by (auto simp: check_sha256_def prov_bind_def prov_io_def sha256_file_hex_def io_bind_def
      io_return_def prov_return_def prov_fail_def prov_io_quiet_def
      split: prod.splits outcome.splits option.splits sum.splits if_splits dest!: read_file_done)

lemma load_touches: "touches {} (store_load_from ke p)"
proof -
  have "touches {} (load_kubeconfig ke p)"
    using touches_calls(1) [of p]
    by (auto simp: touches_def load_kubeconfig_def Let_def split: prod.splits outcome.splits)
      (metis snd_conv)+
  then show ?thesis unfolding store_load_from_def by (rule touches_seq) (rule touches_return)
qed

lemma store_save_outcome:
  assumes "path_plain (ks_path s)" "store_save ke s f = (r, f')"
  shows "(case r of
      Done (Inr _) \<Rightarrow> \<exists>yaml. ke_to_yaml ke (ks_config s) = Ok yaml \<and>
        fs_nodes f' (ks_path s) = Some (NFile \<lparr>f_bytes = yaml, f_mode = MODE_PRIVATE\<rparr>)
    | _ \<Rightarrow> fs_nodes f' (ks_path s) = fs_nodes f (ks_path s))"
proof (cases "store_to_yaml ke s")
  case (Inr yaml)
  obtain q f1 where q: "atomic_write_private (ks_path s) yaml f = (q, f1)" by fastforce
  have "ke_to_yaml ke (ks_config s) = Ok yaml" using Inr by (simp add: store_to_yaml_def)
  then show ?thesis
    using atomic_write_outcome [OF assms(1), of yaml True f] assms(2) Inr q
    by (auto simp: store_save_def atomic_write_private_def split: outcome.splits)
qed (use assms(2) in \<open>auto simp: store_save_def\<close>)

lemma merge_outcome:
  assumes plain: "path_plain p"
    and run: "run_cmd env (attach cancel (to_cmd (he_os env) (KindExportKubeconfig n False))) w = (Some (Ok out), w1)"
    and e: "do_export_and_merge env cancel n p w = (r, w')"
  shows "case r of
      Some (Inr _) \<Rightarrow> (\<exists>store store' yaml.
        fst (store_load_from (he_kube env) p (w_fs w1)) = Done (Ok store) \<and>
        ensure_context_from_kind_output (he_kube env) n (out_stdout out) store = Ok store' \<and>
        ke_to_yaml (he_kube env) (ks_config store') = Ok yaml \<and>
        fs_nodes (w_fs w') p = Some (NFile \<lparr>f_bytes = yaml, f_mode = MODE_PRIVATE\<rparr>))
    | _ \<Rightarrow> fs_nodes (w_fs w') p = fs_nodes (w_fs w1) p"
proof -
  let ?ke = "he_kube env"
  obtain l f1 where l: "store_load_from ?ke p (w_fs w1) = (l, f1)" by fastforce
  have f1: "fs_nodes f1 = fs_nodes (w_fs w1)"
    using load_touches [of ?ke p] l by (auto simp: touches_def fun_eq_iff) (metis snd_conv)
  have run': "prov_run env (attach cancel (to_cmd (he_os env) (KindExportKubeconfig n False))) w
      = (Some (Ok out), w1)" using run by (simp add: prov_run_def)
  show ?thesis
  proof (cases "\<exists>s t. l = Done (Inr s) \<and> ensure_context_from_kind_output ?ke n (out_stdout out) s = Ok t")
    case True
    then obtain s t where st: "l = Done (Inr s)"
      "ensure_context_from_kind_output ?ke n (out_stdout out) s = Ok t" by blast
    have "ks_path s = p" using l st(1)
      by (auto simp: store_load_from_def io_bind_def io_return_def split: prod.splits outcome.splits)
    then have pt: "ks_path t = p"
      using st(2) by (auto simp: ensure_context_from_kind_output_def Let_def split: sum.splits)
    obtain q f2 where q: "store_save ?ke t f1 = (q, f2)" by fastforce
    from store_save_outcome [OF _ q, unfolded pt, OF plain]
    have "case q of
        Done (Inr _) \<Rightarrow> \<exists>yaml. ke_to_yaml ?ke (ks_config t) = Ok yaml \<and>
          fs_nodes f2 p = Some (NFile \<lparr>f_bytes = yaml, f_mode = MODE_PRIVATE\<rparr>)
      | _ \<Rightarrow> fs_nodes f2 p = fs_nodes f1 p" .
    then show ?thesis
      using e run' l st q f1
      by (cases q) (auto simp: do_export_and_merge_def prov_bind_def prov_fs_def prov_lift_def
          split: sum.splits)
  next
    case False
    then show ?thesis
      using e run' l f1
      by (cases l) (auto simp: do_export_and_merge_def prov_bind_def prov_fs_def prov_lift_def
          split: sum.splits)
  qed
qed

abbreviation run_world :: pworld where
  "run_world \<equiv> world_example"

section \<open>Properties\<close>

text \<open>C2: The events of the run of a built plan follow the protocol of its step ids, whatever the
  processes, the file system and the token do: every step is started, sends only its own output
  and is finished before the next; the first failure ends the run; the result of the run is the flag
  of its one last event.\<close>

theorem run_plan_protocol:
  assumes "build_plan_with_cilium_version ty spec dir kc ver = Ok p"
    and "run_plan env p cancel w = (Some r, w')"
  shows "\<exists>evs. w_events w' = w_events w @ evs \<and> run_protocol (plan_ids spec) (is_ok r) evs"
proof -
  note b = built_plan [OF assms(1)]
  have "topological_sort p = Some (Ok (plan_ids spec))"
    using chain_sorts [of p] b distinct_plan_ids [of spec] by simp
  then have "run_steps env cancel p (plan_ids spec) w = (Some r, w')"
    using assms(2) by (simp add: run_plan_def)
  moreover have "set (plan_ids spec) = ps_id ` set (cp_steps p)"
    using b(2) by (metis step_ids_def set_map)
  ultimately show ?thesis using run_steps_protocol [of "plan_ids spec" p] by simp
qed

lemma run_plan_protocol_witness:
  "\<exists>p w' evs. build_plan_with_cilium_version (\<lambda>y. Some ''y'') mesh_spec ''/d'' ''/k'' None = Ok p \<and>
     run_plan (env_example 0) p (Some 0) run_world
       = (Some (Err (Provision (StepFailed ''kind-create'' (Config ''cancelled'')))), w') \<and>
     w_events w' = evs \<and> run_protocol (plan_ids mesh_spec) False evs"
proof -
  obtain p where b: "build_plan_with_cilium_version (\<lambda>y. Some ''y'') mesh_spec ''/d'' ''/k'' None = Ok p"
    using mesh_spec_valid build_plan_succeeds by blast
  obtain rest where steps: "cp_steps p =
      \<lparr>ps_id = ''write-kind-config'', ps_command = WriteFile ''/d/tmp/kind-dev.yaml'' ''y'',
        ps_depends_on = [], ps_verify = VerifyNone\<rparr> #
      \<lparr>ps_id = ''kind-create'', ps_command = RunCommand (KindCreate ''/d/tmp/kind-dev.yaml'' True),
        ps_depends_on = [''write-kind-config''], ps_verify = VerifyNone\<rparr> # rest"
    using b mesh_spec_valid
    by (auto simp: build_plan_with_cilium_version_def step_def plan_cni_def plan_cilium_def
        resolve_cilium_def plan_gateway_crds_def plan_cilium_extras_def plan_ingress_def mesh_spec_def
        cluster_spec_default_def Let_def path_join_def path_is_absolute_def to_kind_yaml_def)
  have sort: "topological_sort p = Some (Ok (plan_ids mesh_spec))"
    using chain_sorts [of p] built_plan [OF b] distinct_plan_ids [of mesh_spec] by simp
  obtain w' where w': "run_plan (env_example 0) p (Some 0) run_world
       = (Some (Err (Provision (StepFailed ''kind-create'' (Config ''cancelled'')))), w')"
    by (simp add: run_plan_def sort plan_ids_def steps is_cancelled_def execute_step_def
        execute_action_def do_write_file_def make_parent_def prov_bind_def prov_io_def path_parent_def
        create_dir_all_def io_prim_def write_file_def store_bytes_def make_dirs_def verify_step_def
        emit_def world_example_def fs_example_def env_example_def path_join_def path_is_absolute_def
        lookup_node_def numeral_eq_Suc Let_def)
  from run_plan_protocol [OF b w'] b w' show ?thesis by (auto simp: world_example_def)
qed

text \<open>C25: A download that returns successfully left at its destination a file with the pinned digest,
  whatever curl did.\<close>

theorem download_is_verified:
  assumes "ps_command st = Download url dest (Some expected)"
    and "execute_action env cancel st w = (Some (Ok ()), w')"
  shows "\<exists>f. lookup_node (fs_nodes (w_fs w')) dest = Some (NFile f)
    \<and> eq_ignore_ascii_case (he_sha256 env (f_bytes f)) expected"
  using assms
  by (auto simp: execute_action_def do_download_def prov_bind_def
      split: prod.splits option.splits sum.splits dest!: check_sha256_outcome)

lemma download_is_verified_witness:
  "\<exists>w' f. execute_action (env_example 0) None
       \<lparr>ps_id = ''d'', ps_command = Download ''https://h/m'' ''got'' (Some ''AA''), ps_depends_on = [],
        ps_verify = VerifyNone\<rparr> run_world = (Some (Ok ()), w') \<and>
     lookup_node (fs_nodes (w_fs w')) ''got'' = Some (NFile f) \<and>
     eq_ignore_ascii_case (he_sha256 (env_example 0) (f_bytes f)) ''AA''"
proof -
  define st where "st = \<lparr>ps_id = ''d'', ps_command = Download ''https://h/m'' ''got'' (Some ''AA''),
    ps_depends_on = [], ps_verify = VerifyNone\<rparr>"
  have hex: "eq_ignore_ascii_case ''aa'' ''AA''"
    by code_simp
  have "\<exists>w'. execute_action (env_example 0) None st run_world = (Some (Ok ()), w')"
    by (simp add: st_def execute_action_def do_download_def make_parent_def prov_bind_def prov_io_def
        path_parent_def create_dir_all_def io_prim_def world_example_def fs_example_def
        run_streaming_def env_example_def child_example_def wait_handle_def wait_result_def
        check_sha256_def sha256_file_hex_def io_bind_def io_return_def read_file_def prov_return_def
        after_child_def lookup_node_def numeral_eq_Suc hex Let_def)
  then obtain w' where w': "execute_action (env_example 0) None st run_world = (Some (Ok ()), w')" ..
  have c: "ps_command st = Download ''https://h/m'' ''got'' (Some ''AA'')" by (simp add: st_def)
  from download_is_verified [OF c w'] w' show ?thesis unfolding st_def by blast
qed

text \<open>The wait for a CRD returns after at most one poll every five seconds of its budget and one
  more; it succeeds exactly when its last poll does, and reports that the CRD did not appear only
  after the deadline.\<close>

theorem wait_for_crd_bounded:
  assumes "wait_for_crd env cancel i ctx crd t (w_now w + t) w = (r, w')"
  shows "w_tick w' \<le> w_tick w + 1 + (t + 4999) div 5000 \<and>
     (\<exists>w0 q. run_cmd env (crd_cmd env cancel ctx crd) w0 = (q, w') \<and>
        (case q of
           None \<Rightarrow> r = None
         | Some (Inr out) \<Rightarrow> r = Some (Ok ())
         | Some (Inl e) \<Rightarrow> \<exists>cause. r = Some (Err (Provision (StepFailed i cause))) \<and>
             (case e of ExecCommand _ _ _ \<Rightarrow> w_now w + t \<le> w_now w' | _ \<Rightarrow> cause = Exec e)))"
  using wait_for_crd_outcome [OF assms] by (simp add: polls_left_def CRD_POLL_def)

lemma wait_for_crd_bounded_witness:
  "\<exists>r w'. wait_for_crd (env_example 0) None ''i'' ''kind-dev'' ''c'' CALICO_CRD_TIMEOUT
      (w_now run_world + CALICO_CRD_TIMEOUT) run_world = (r, w') \<and> w_tick w' \<le> 61"
proof -
  obtain r w' where e: "wait_for_crd (env_example 0) None ''i'' ''kind-dev'' ''c'' CALICO_CRD_TIMEOUT
      (w_now run_world + CALICO_CRD_TIMEOUT) run_world = (r, w')" by fastforce
  from wait_for_crd_bounded [OF this] have "w_tick w' \<le> 61"
    by (simp add: CALICO_CRD_TIMEOUT_def world_example_def)
  then show ?thesis using e by blast
qed

text \<open>C26: The merge step either leaves the kubeconfig as it was after the export, or ends well, and
  then the kubeconfig is exactly the merge of kind's document into the configuration that was there,
  in an owner-only file.\<close>

theorem merge_step_outcome:
  assumes "path_plain p"
    and "run_cmd env (attach cancel (to_cmd (he_os env) (KindExportKubeconfig n False))) w = (Some (Ok out), w1)"
    and "do_export_and_merge env cancel n p w = (r, w')"
  shows "case r of
      Some (Inr _) \<Rightarrow> (\<exists>store store' yaml.
        fst (store_load_from (he_kube env) p (w_fs w1)) = Done (Ok store) \<and>
        ensure_context_from_kind_output (he_kube env) n (out_stdout out) store = Ok store' \<and>
        ke_to_yaml (he_kube env) (ks_config store') = Ok yaml \<and>
        fs_nodes (w_fs w') p = Some (NFile \<lparr>f_bytes = yaml, f_mode = MODE_PRIVATE\<rparr>))
    | _ \<Rightarrow> fs_nodes (w_fs w') p = fs_nodes (w_fs w1) p"
  using assms by (rule merge_outcome)

lemma merge_step_outcome_witness:
  "\<exists>r w'. do_export_and_merge (env_example 0) None ''dev'' ''config'' run_world = (r, w') \<and>
     (case r of
        Some (Inr _) \<Rightarrow> fs_nodes (w_fs w') ''config'' = Some (NFile \<lparr>f_bytes = ''{}'', f_mode = MODE_PRIVATE\<rparr>)
      | _ \<Rightarrow> fs_nodes (w_fs w') ''config'' = Some (NFile \<lparr>f_bytes = ''old'', f_mode = 384\<rparr>))"
proof -
  obtain r w' where e: "do_export_and_merge (env_example 0) None ''dev'' ''config'' run_world = (r, w')"
    by fastforce
  show ?thesis
    using merge_step_outcome [OF path_plain_config run_cmd_example e] e
    by (intro exI [of _ r] exI [of _ w'])
      (auto simp: env_example_def kube_env_example_def after_child_def child_example_def
        world_example_def fs_example_def split: option.splits sum.splits)
qed

text \<open>What a streamed command sends is the lines of its standard output, decoded and scrubbed, in
  order, and nothing else.\<close>

theorem streamed_lines_are_scrubbed:
  assumes "he_spawn env (w_tick w) c (fs_nodes (w_fs w)) = Inr ch"
  shows "w_events (snd (run_streaming env c i w)) = w_events w @
    map (\<lambda>l. EvStepOutput i (redact_kubeconfig_secrets (utf8_lossy l)))
      (str_lines (concat (takeWhile (\<lambda>r. r \<noteq> []) (ps_stdout_reads (ch_script ch)))))"
  using assms
  by (simp add: run_streaming_def after_child_def Let_def forward_lines_eq comp_def)

lemma streamed_lines_are_scrubbed_witness:
  "w_events (snd (run_streaming (env_example 0) (cmd_new ''kind'') ''s'' run_world))
     = [EvStepOutput ''s'' ''token: <redacted>'']"
proof -
  have l: "map utf8_lossy (str_lines (concat (takeWhile (\<lambda>r. r \<noteq> [])
      (ps_stdout_reads (ch_script (child_example 0)))))) = [''token: x'']"
    using forward_example unfolding forward_lines_eq by (simp add: child_example_def)
  have r: "redact_kubeconfig_secrets ''token: x'' = ''token: <redacted>''"
    by (simp add: redact_kubeconfig_secrets_def KUBECONFIG_SECRET_KEYS_def Let_def strip_prefix_def
        is_ws1_def is_ws2_def is_ws3_def)
  have "he_spawn (env_example 0) (w_tick run_world) (cmd_new ''kind'') (fs_nodes (w_fs run_world))
      = Inr (child_example 0)" by (simp add: env_example_def)
  from streamed_lines_are_scrubbed [OF this, of "''s''"] l r show ?thesis
    by (auto simp: world_example_def map_map [symmetric, unfolded comp_def] simp del: map_map)
qed

end
