(* ===== verification/DepsVersion.thy ===== *)
theory DepsVersion
  imports JsonModel KindCtl
begin

text \<open>
  Versions and the version banners of tools (\<open>kindboard-core/src/deps/mod.rs\<close>, \<open>Version\<close> to
  \<open>parse_version3_at\<close>).  \<open>version\<close> has three 32-bit parts and the derived lexicographic order.
\<close>

section \<open>Versions\<close>

datatype version = Version (v_major: "32 word") (v_minor: "32 word") (v_patch: "32 word")

text \<open>The derived order: the three numbers, one after the other.\<close>

definition version_le :: "version \<Rightarrow> version \<Rightarrow> bool" where
  "version_le a b \<longleftrightarrow>
     v_major a < v_major b \<or> v_major a = v_major b \<and>
     (v_minor a < v_minor b \<or> v_minor a = v_minor b \<and> v_patch a \<le> v_patch b)"

instantiation version :: linorder
begin

definition less_eq_version :: "version \<Rightarrow> version \<Rightarrow> bool" where
  "less_eq_version = version_le"

definition less_version :: "version \<Rightarrow> version \<Rightarrow> bool" where
  "less_version a b \<longleftrightarrow> a \<le> b \<and> \<not> b \<le> (a :: version)"

instance
  by standard (auto simp: less_eq_version_def version_le_def less_version_def intro: version.expand)

end

definition VERSION_UNKNOWN :: version where "VERSION_UNKNOWN = Version 0 0 0"

definition is_known :: "version \<Rightarrow> bool" where "is_known v \<longleftrightarrow> v \<noteq> VERSION_UNKNOWN"

definition at_least :: "version \<Rightarrow> 32 word \<Rightarrow> 32 word \<Rightarrow> 32 word \<Rightarrow> bool" where
  "at_least v major minor patch \<longleftrightarrow> Version major minor patch \<le> v"

definition version_text :: "version \<Rightarrow> string" where
  "version_text v =
     dec (unat (v_major v)) @ ''.'' @ dec (unat (v_minor v)) @ ''.'' @ dec (unat (v_patch v))"

section \<open>Parsing\<close>

definition version_part :: "string \<Rightarrow> 32 word option" where
  "version_part part =
     (if part = [] \<or> \<not> list_all is_ascii_digit part then None
      else map_option of_nat (parse_uint (2 ^ 32 - 1) part))"

definition parse_version3 :: "string \<Rightarrow> version option" where
  "parse_version3 s =
     (case split_on (CHR ''.'') (str_trim s) of
        [a, b, c] \<Rightarrow>
          Option.bind (version_part a) (\<lambda>major.
          Option.bind (version_part b) (\<lambda>minor.
          Option.bind (version_part c) (\<lambda>patch. Some (Version major minor patch))))
      | _ \<Rightarrow> None)"

datatype version_parse = JsonField string | RegexParse string | ShortLine

text \<open>The two patterns of the registry, \<open>v(\d+\.\d+\.\d+)\<close> and \<open>Version\s+(\S+)\<close>.\<close>

definition VERSION_REGEX :: string where
  "VERSION_REGEX = ''v('' @ [CHR 0x5C] @ ''d+'' @ [CHR 0x5C] @ ''.'' @ [CHR 0x5C] @ ''d+''
     @ [CHR 0x5C] @ ''.'' @ [CHR 0x5C] @ ''d+)''"

definition VERSION_WORD_REGEX :: string where
  "VERSION_WORD_REGEX = ''Version'' @ [CHR 0x5C] @ ''s+('' @ [CHR 0x5C] @ ''S+)''"

definition parse_version3_at :: "string \<Rightarrow> version option" where
  "parse_version3_at tail =
     parse_version3 (takeWhile (\<lambda>c. is_ascii_digit c \<or> c = CHR ''.'') tail)"

text \<open>The scan for a version after \<open>v\<close> or \<open>V\<close>.\<close>

fun scan_v :: "string \<Rightarrow> version option" where
  "scan_v [] = None"
| "scan_v (b # s) =
     (case (if b = CHR ''v'' \<or> b = CHR ''V'' then parse_version3_at s else None) of
        Some v \<Rightarrow> Some v
      | None \<Rightarrow> scan_v s)"

text \<open>\<open>split_whitespace().next()\<close>.\<close>

fun take_token :: "string \<Rightarrow> string" where
  "take_token [] = []"
| "take_token (a # s) =
     (if is_ws1 a \<or> (case s of b # r \<Rightarrow> is_ws2 a b \<or> (case r of c # _ \<Rightarrow> is_ws3 a b c | [] \<Rightarrow> False)
                     | [] \<Rightarrow> False)
      then [] else a # take_token s)"

definition first_token :: "string \<Rightarrow> string option" where
  "first_token s = (let t = trim_start s in if t = [] then None else Some (take_token t))"

text \<open>What follows the first occurrence of a needle.\<close>

fun after_sub :: "string \<Rightarrow> string \<Rightarrow> string option" where
  "after_sub needle [] = (if needle = [] then Some [] else None)"
| "after_sub needle (c # s) =
     (case strip_prefix needle (c # s) of Some r \<Rightarrow> Some r | None \<Rightarrow> after_sub needle s)"

definition regex_like :: "string \<Rightarrow> string \<Rightarrow> version option" where
  "regex_like pattern output =
     (if starts_with ''Version'' pattern
      then Option.bind (after_sub ''Version'' output) (\<lambda>rest.
           Option.bind (first_token rest) parse_version3)
      else if starts_with ''v'' pattern then scan_v output
      else parse_version3 (str_trim output))"

fun json_path :: "string list \<Rightarrow> json \<Rightarrow> json option" where
  "json_path [] j = Some j"
| "json_path (s # ss) j = Option.bind (json_get s j) (json_path ss)"

fun parse_version :: "(string \<Rightarrow> json option) \<Rightarrow> version_parse \<Rightarrow> string \<Rightarrow> version option" where
  "parse_version from_str (JsonField path) output =
     Option.bind (from_str (str_trim output)) (\<lambda>value.
     Option.bind (json_path (split_on (CHR ''.'') path) value) (\<lambda>current.
     Option.bind (as_str current) (\<lambda>text.
       parse_version3 (dropWhile (\<lambda>c. c = CHR ''v'') text))))"
| "parse_version from_str (RegexParse pattern) output = regex_like pattern output"
| "parse_version from_str ShortLine output =
     parse_version3 (case after_sub ''v'' output of Some rest \<Rightarrow> rest | None \<Rightarrow> output)"

section \<open>Facts about versions\<close>

text \<open>A decimal part of a version.\<close>

definition decimal_part :: "string \<Rightarrow> bool" where
  "decimal_part p \<longleftrightarrow> p \<noteq> [] \<and> list_all is_ascii_digit p \<and> dec_val p < 2 ^ 32"

lemma version_part_iff: "version_part p = Some x \<longleftrightarrow> decimal_part p \<and> x = of_nat (dec_val p)"
proof -
  have "hd p \<noteq> CHR ''+''" if "p \<noteq> []" "list_all is_ascii_digit p"
    using that is_ascii_digit_not_plus by (cases p) auto
  then show ?thesis
    by (auto simp: version_part_def decimal_part_def parse_uint_def Let_def)
qed

lemma decimal_part_no_dot: "decimal_part p \<Longrightarrow> CHR ''.'' \<notin> set p"
  by (auto simp: decimal_part_def list_all_iff char_class_defs)

lemma split_on_three:
  assumes "c \<notin> set x" "c \<notin> set y" "c \<notin> set z"
  shows "split_on c s = [x, y, z] \<longleftrightarrow> s = x @ [c] @ y @ [c] @ z"
proof
  assume "split_on c s = [x, y, z]"
  then have "join_with [c] (split_on c s) = join_with [c] [x, y, z]" by simp
  then show "s = x @ [c] @ y @ [c] @ z" by simp
next
  assume "s = x @ [c] @ y @ [c] @ z"
  then show "split_on c s = [x, y, z]"
    using assms by (simp add: split_on_append_sep split_on_no_sep)
qed

lemma parse_version3_Some:
  "parse_version3 s = Some v \<longleftrightarrow>
     (\<exists>a b c. str_trim s = a @ ''.'' @ b @ ''.'' @ c \<and> decimal_part a \<and> decimal_part b \<and> decimal_part c
        \<and> v = Version (of_nat (dec_val a)) (of_nat (dec_val b)) (of_nat (dec_val c)))"
  (is "_ \<longleftrightarrow> ?R")
proof
  assume "parse_version3 s = Some v"
  then obtain a b c where "split_on (CHR ''.'') (str_trim s) = [a, b, c]"
    "decimal_part a" "decimal_part b" "decimal_part c"
    "v = Version (of_nat (dec_val a)) (of_nat (dec_val b)) (of_nat (dec_val c))"
    by (auto simp: parse_version3_def version_part_iff bind_eq_Some_conv split: list.splits)
  then show ?R using split_on_three decimal_part_no_dot by (metis append_Cons append_Nil)
next
  assume ?R
  then obtain a b c where e: "str_trim s = a @ ''.'' @ b @ ''.'' @ c"
    and p: "decimal_part a" "decimal_part b" "decimal_part c"
    "v = Version (of_nat (dec_val a)) (of_nat (dec_val b)) (of_nat (dec_val c))" by blast
  have "split_on (CHR ''.'') (str_trim s) = [a, b, c]"
    using split_on_three [of "CHR ''.''" a b c "str_trim s"] e p(1-3) decimal_part_no_dot by simp
  moreover have "version_part a = Some (of_nat (dec_val a))" "version_part b = Some (of_nat (dec_val b))"
    "version_part c = Some (of_nat (dec_val c))" using p by (simp_all add: version_part_iff)
  ultimately show "parse_version3 s = Some v" using p(4) by (simp add: parse_version3_def)
qed

lemma decimal_part_dec: "decimal_part (dec (unat (x :: 32 word)))"
  using unsigned_less [of x] by (simp add: decimal_part_def dec_digits)

lemma version_text_trim: "str_trim (version_text v) = version_text v"
proof -
  have d: "\<exists>a r. dec n = a # r \<and> is_ascii_digit a" for n
    using dec_digits [of n] by (cases "dec n") auto
  have l: "\<exists>a r. dec n = r @ [a] \<and> is_ascii_digit a" for n
    using dec_digits [of n] by (cases "dec n" rule: rev_cases) auto
  obtain a r where a: "version_text v = a # r" "is_ascii_digit a"
    using d [of "unat (v_major v)"] by (auto simp: version_text_def)
  obtain b q where b: "rev (version_text v) = b # q" "is_ascii_digit b"
    using l [of "unat (v_patch v)"] by (auto simp: version_text_def)
  have "trim_start (version_text v) = version_text v"
    using a by (simp add: trim_start_letter is_ascii_alnum_def)
  moreover have "trim_end (version_text v) = version_text v"
    using b trim_end_rev_alnum [of b q] by (simp add: trim_end_def is_ascii_alnum_def)
  ultimately show ?thesis by (simp add: str_trim_def)
qed

lemma parse_version_text: "parse_version3 (version_text v) = Some v"
  unfolding parse_version3_Some version_text_trim
  by (rule exI [of _ "dec (unat (v_major v))"], rule exI [of _ "dec (unat (v_minor v))"],
      rule exI [of _ "dec (unat (v_patch v))"])
    (simp add: version_text_def decimal_part_dec)

lemma version_text_chars: "list_all (\<lambda>c. is_ascii_digit c \<or> c = CHR ''.'') (version_text v)"
  using dec_digits by (auto simp: version_text_def list_all_iff)

lemma parse_version3_at_text:
  assumes "post = [] \<or> \<not> (is_ascii_digit (hd post) \<or> hd post = CHR ''.'')"
  shows "parse_version3_at (version_text v @ post) = Some v"
proof -
  have "takeWhile (\<lambda>c. is_ascii_digit c \<or> c = CHR ''.'') (version_text v @ post) = version_text v"
    using assms version_text_chars [of v]
    by (cases post) (simp_all add: list_all_iff takeWhile_append2 takeWhile_append1 takeWhile_eq_all_conv)
  then show ?thesis by (simp add: parse_version3_at_def parse_version_text)
qed

section \<open>Properties\<close>

text \<open>A text is a version exactly when, trimmed, it is three dot-separated decimal numbers that
  fit 32 bits, and its value is theirs.\<close>

theorem parse_version3_iff:
  "parse_version3 s = Some v \<longleftrightarrow>
     (\<exists>a b c. str_trim s = a @ ''.'' @ b @ ''.'' @ c \<and> decimal_part a \<and> decimal_part b \<and> decimal_part c
        \<and> v = Version (of_nat (dec_val a)) (of_nat (dec_val b)) (of_nat (dec_val c)))"
  by (rule parse_version3_Some)

text \<open>The version of a banner such as \<open>kind v0.33.0 go1.24\<close> is found: the first \<open>v\<close> followed
  by a version that ends there gives exactly that version.\<close>

theorem banner_version_found:
  assumes "list_all (\<lambda>c. c \<noteq> CHR ''v'' \<and> c \<noteq> CHR ''V'') pre" and "x = CHR ''v'' \<or> x = CHR ''V''"
    and "post = [] \<or> \<not> (is_ascii_digit (hd post) \<or> hd post = CHR ''.'')"
  shows "regex_like (CHR ''v'' # pat) (pre @ x # version_text v @ post) = Some v"
proof -
  have "scan_v (pre @ x # version_text v @ post) = Some v"
    using assms(1,2) parse_version3_at_text [OF assms(3), of v] by (induction pre) auto
  then show ?thesis by (simp add: regex_like_def)
qed

lemma banner_version_found_witness:
  "regex_like VERSION_REGEX (''kind '' @ CHR ''v'' # version_text (Version 0 33 0) @ '' go1.24'')
     = Some (Version 0 33 0)"
  using banner_version_found [of "''kind ''" "CHR ''v''" "'' go1.24''" "tl VERSION_REGEX" "Version 0 33 0"]
  by (simp add: VERSION_REGEX_def char_class_defs)

end
