(* ===== verification/DepsRegistry.thy ===== *)
theory DepsRegistry
  imports DepsVersion
begin

text \<open>
  The tools kindboard can detect and install, as data
  (\<open>kindboard-core/src/deps/registry.rs\<close> and the types of \<open>deps/mod.rs\<close>).
\<close>

section \<open>Types\<close>

datatype tool_id =
    ToolDocker | ToolKind | ToolKubectl | ToolHelm | ToolCilium | ToolK9s | ToolKubectx | ToolKustomize

fun tool_name :: "tool_id \<Rightarrow> string" where
  "tool_name ToolDocker = ''docker''"
| "tool_name ToolKind = ''kind''"
| "tool_name ToolKubectl = ''kubectl''"
| "tool_name ToolHelm = ''helm''"
| "tool_name ToolCilium = ''cilium''"
| "tool_name ToolK9s = ''k9s''"
| "tool_name ToolKubectx = ''kubectx''"
| "tool_name ToolKustomize = ''kustomize''"

record detect_spec =
  ds_command :: string
  ds_version_args :: "string list"
  ds_parse :: version_parse

record binary_download =
  bd_url_template :: string
  bd_windows_url_template :: "string option"
  bd_members :: "string list"
  bd_windows_members :: "string list"
  bd_sha256 :: "(string \<times> string) list"

record install_recipe =
  ir_brew :: "string option"
  ir_brew_cask :: "string option"
  ir_dnf :: "string option"
  ir_apt :: "string option"
  ir_pacman :: "string option"
  ir_winget :: "string option"
  ir_choco :: "string option"
  ir_windows_unsupported :: bool
  ir_binary :: "binary_download option"
  ir_pkg_manager_only :: bool
  ir_post_install :: "string option"

record tool =
  t_id :: tool_id
  t_display :: string
  t_detect :: detect_spec
  t_install :: install_recipe

section \<open>The tools\<close>

definition tool_docker :: tool where
  "tool_docker =
     \<lparr>t_id = ToolDocker, t_display = ''docker'',
      t_detect = \<lparr>ds_command = ''docker'',
        ds_version_args = [''version'', ''--format'', ''{{.Client.Version}}''],
        ds_parse = ShortLine\<rparr>,
      t_install = \<lparr>ir_brew = (Some ''docker''), ir_brew_cask = (Some ''docker-desktop''), ir_dnf = (Some ''moby-engine''),
        ir_apt = (Some ''docker.io''), ir_pacman = (Some ''docker''),
        ir_winget = (Some ''Docker.DockerDesktop''), ir_choco = (Some ''docker-desktop''),
        ir_windows_unsupported = False, ir_binary = None,
        ir_pkg_manager_only = True, ir_post_install = (Some (''enable the daemon (sudo systemctl enable --now docker) and '' @
        ''add your user to the docker group (log out/in afterwards)''))\<rparr>\<rparr>"

definition tool_kind :: tool where
  "tool_kind =
     \<lparr>t_id = ToolKind, t_display = ''kind'',
      t_detect = \<lparr>ds_command = ''kind'',
        ds_version_args = [''version''],
        ds_parse = (RegexParse VERSION_REGEX)\<rparr>,
      t_install = \<lparr>ir_brew = (Some ''kind''), ir_brew_cask = None, ir_dnf = (Some ''kind''),
        ir_apt = None, ir_pacman = None,
        ir_winget = (Some ''Kubernetes.kind''), ir_choco = (Some ''kind''),
        ir_windows_unsupported = False, ir_binary = (Some \<lparr>bd_url_template =
         ''https://kind.sigs.k8s.io/dl/v0.33.0/kind-{os}-{arch}'',
       bd_windows_url_template = None,
       bd_members = [], bd_windows_members = [],
       bd_sha256 =
        [(''linux-amd64'', ''aee6151561422756b764a4ae28e7f44cda5af5a9eead3cc9985112b1de8d8e0d''),
         (''linux-arm64'', ''20022bee6cfcd5086cb7234d218e3454e6090022f2a8f55d1fa7fcf42c3867a2''),
         (''darwin-amd64'', ''5a99f26f57246dc9319dd294803313197a0f34d33c525b3ea8b655db5916ece0''),
         (''darwin-arm64'', ''0c8c7dbe5e23594a198b786c4bc13dacc101fa6196b0cb0b23a1ca44e61f4b4f''),
         (''windows-amd64'', ''4b22adaa135368c5a465d56bbd8e520cbea87272a06ca00b6078e7b81515c9fc'')]\<rparr>),
        ir_pkg_manager_only = False, ir_post_install = None\<rparr>\<rparr>"

definition tool_kubectl :: tool where
  "tool_kubectl =
     \<lparr>t_id = ToolKubectl, t_display = ''kubectl'',
      t_detect = \<lparr>ds_command = ''kubectl'',
        ds_version_args = [''version'', ''--client'', ''--output=json''],
        ds_parse = (JsonField ''clientVersion.gitVersion'')\<rparr>,
      t_install = \<lparr>ir_brew = (Some ''kubernetes-cli''), ir_brew_cask = None, ir_dnf = None,
        ir_apt = (Some ''kubectl''), ir_pacman = (Some ''kubectl''),
        ir_winget = (Some ''Kubernetes.kubectl''), ir_choco = (Some ''kubernetes-cli''),
        ir_windows_unsupported = False, ir_binary = (Some \<lparr>bd_url_template =
         ''https://dl.k8s.io/release/v1.37.0/bin/{os}/{arch}/kubectl'',
       bd_windows_url_template =
         Some ''https://dl.k8s.io/release/v1.37.0/bin/{os}/{arch}/kubectl.exe'',
       bd_members = [], bd_windows_members = [],
       bd_sha256 =
        [(''linux-amd64'', ''6129359f4e1f3848a5572ccb0b26cf28b8ca08cef38c95a765b2f64a2c961a2f''),
         (''linux-arm64'', ''922df28df248cc00a9e025f947704f1d1482de64ece54cfe57e61f19eaf1eef3''),
         (''darwin-amd64'', ''d5276c0f4fde77fc446070290f345944a7f1fda153df6b960e5fde93b7a9bccd''),
         (''darwin-arm64'', ''583beedaebe422e71d3f1a96acef8b1fef86ea2f09a45ad01aa6c9ce287c1380''),
         (''windows-amd64'', ''4721b614a67bb4932a0369e61f4a323d8c6ca00943d3a2ff14837c124da06f0e'')]\<rparr>),
        ir_pkg_manager_only = False, ir_post_install = None\<rparr>\<rparr>"

definition tool_helm :: tool where
  "tool_helm =
     \<lparr>t_id = ToolHelm, t_display = ''helm'',
      t_detect = \<lparr>ds_command = ''helm'',
        ds_version_args = [''version'', ''--short''],
        ds_parse = (RegexParse VERSION_REGEX)\<rparr>,
      t_install = \<lparr>ir_brew = (Some ''helm''), ir_brew_cask = None, ir_dnf = (Some ''helm''),
        ir_apt = (Some ''helm''), ir_pacman = (Some ''helm''),
        ir_winget = (Some ''Helm.Helm''), ir_choco = (Some ''kubernetes-helm''),
        ir_windows_unsupported = False, ir_binary = (Some \<lparr>bd_url_template =
         ''https://get.helm.sh/helm-v4.2.2-{os}-{arch}.tar.gz'',
       bd_windows_url_template =
         Some ''https://get.helm.sh/helm-v4.2.2-{os}-{arch}.zip'',
       bd_members = [''{os}-{arch}/helm''], bd_windows_members = [''{os}-{arch}/helm.exe''],
       bd_sha256 =
        [(''linux-amd64'', ''9adafecab4d406853bba163a70e9f104f47dbbf65ce24b7653bae7e36150bcb6''),
         (''linux-arm64'', ''78803142087a0069fa4b50d3f32a84d3ef25c14d1ee8a40fbccf86a6216d2f36''),
         (''darwin-amd64'', ''10c1e36ee8c5f2e2ee25a16599cb03ab74c0953cd889cacb980a49ba4b6574ba''),
         (''darwin-arm64'', ''5410a0dae3d5d91f45653b161260d9301aabc4ae80ae50a6605d66884b6df8ea''),
         (''windows-amd64'', ''5fad8562e98c34fa5af3ef904086a5874a6701050f9bf36e30238c975df94dcd'')]\<rparr>),
        ir_pkg_manager_only = False, ir_post_install = None\<rparr>\<rparr>"

definition tool_cilium :: tool where
  "tool_cilium =
     \<lparr>t_id = ToolCilium, t_display = ''cilium'',
      t_detect = \<lparr>ds_command = ''cilium'',
        ds_version_args = [''version'', ''--client''],
        ds_parse = (RegexParse VERSION_REGEX)\<rparr>,
      t_install = \<lparr>ir_brew = (Some ''cilium-cli''), ir_brew_cask = None, ir_dnf = None,
        ir_apt = None, ir_pacman = None,
        ir_winget = (Some ''Cilium.CiliumCLI''), ir_choco = (Some ''cilium-cli''),
        ir_windows_unsupported = False, ir_binary = (Some \<lparr>bd_url_template =
         ''https://github.com/cilium/cilium-cli/releases/download/v0.20.0/cilium-{os}-{arch}.tar.gz'',
       bd_windows_url_template =
         Some ''https://github.com/cilium/cilium-cli/releases/download/v0.20.0/cilium-{os}-{arch}.zip'',
       bd_members = [''cilium''], bd_windows_members = [''cilium.exe''],
       bd_sha256 =
        [(''linux-amd64'', ''94adc5c3be44d8240df91cec520536686f8a1eb29e5bc70c4c1c80137f00d764''),
         (''linux-arm64'', ''9a9281dc79bd10a61fa35078b8ab63eaf491ab2f47edc6b9a3541b2fe4ede3ff''),
         (''darwin-amd64'', ''cc338e326235e76e3924f032d8a6eb41bf751d94bb04fce70d5f80014fc179d9''),
         (''darwin-arm64'', ''2850449e321c21e9556c312d0b6885838523d294b7e0b58955697507463a57cc''),
         (''windows-amd64'', ''d96cf9811608cf945326196ccf4dd251ba91358ead3587f52023680e4460ba19'')]\<rparr>),
        ir_pkg_manager_only = False, ir_post_install = None\<rparr>\<rparr>"

definition tool_k9s :: tool where
  "tool_k9s =
     \<lparr>t_id = ToolK9s, t_display = ''k9s'',
      t_detect = \<lparr>ds_command = ''k9s'',
        ds_version_args = [''version'', ''--short''],
        ds_parse = (RegexParse VERSION_WORD_REGEX)\<rparr>,
      t_install = \<lparr>ir_brew = (Some ''k9s''), ir_brew_cask = None, ir_dnf = (Some ''k9s''),
        ir_apt = None, ir_pacman = (Some ''k9s''),
        ir_winget = (Some ''Derailed.k9s''), ir_choco = (Some ''k9s''),
        ir_windows_unsupported = False, ir_binary = (Some \<lparr>bd_url_template =
         ''https://github.com/derailed/k9s/releases/download/v0.51.0/k9s_{OS}_{arch}.tar.gz'',
       bd_windows_url_template =
         Some ''https://github.com/derailed/k9s/releases/download/v0.51.0/k9s_{OS}_{arch}.zip'',
       bd_members = [''k9s''], bd_windows_members = [''k9s.exe''],
       bd_sha256 =
        [(''linux-amd64'', ''c3752ad51a5a4015a113819c4eeb6e55a4d0e4b8e652494797532f6fc8161dd7''),
         (''linux-arm64'', ''3ee05c82e5f9198928a4e86133608ba6a2c10a2244d6a7789e820f78319d640c''),
         (''darwin-amd64'', ''7e8802c57c45a0cd389e8fc38472243fe4cf48d8ad5957e189ce370e19e5eda0''),
         (''darwin-arm64'', ''9b8c0e8f461e5d33aeee43a67f5ef4aff646a008a786887b8266cbb153c610cc''),
         (''windows-amd64'', ''bba299f1877913979831543a008f2e104995d2ea4ac8f23d7f49c0444857d973'')]\<rparr>),
        ir_pkg_manager_only = False, ir_post_install = None\<rparr>\<rparr>"

definition tool_kubectx :: tool where
  "tool_kubectx =
     \<lparr>t_id = ToolKubectx, t_display = ''kubectx'',
      t_detect = \<lparr>ds_command = ''kubectx'',
        ds_version_args = [''--version''],
        ds_parse = ShortLine\<rparr>,
      t_install = \<lparr>ir_brew = (Some ''kubectx''), ir_brew_cask = None, ir_dnf = None,
        ir_apt = None, ir_pacman = None,
        ir_winget = None, ir_choco = None,
        ir_windows_unsupported = True, ir_binary = (Some \<lparr>bd_url_template =
         ''https://github.com/ahmetb/kubectx/releases/download/v0.11.0/kubectx_v0.11.0_{os}_{x64}.tar.gz'',
       bd_windows_url_template = None,
       bd_members = [''kubectx''], bd_windows_members = [],
       bd_sha256 =
        [(''linux-amd64'', ''08e031c54fbffb3f100e904e4eae94bba2730fedf4869921fda79e4d7a8f5d4c''),
         (''linux-arm64'', ''1dac2072216689e773325cb7587b858ea7415706ebcf04e23bf80e7e70555340''),
         (''darwin-amd64'', ''80097893b478c55be51ffe826c172f0fd5095d23cca02adbcbcabc412700a689''),
         (''darwin-arm64'', ''b8c9b5150ca6d902474a115cf7e535831081b9ae10cbe561ea36c82bb3823d02'')]\<rparr>),
        ir_pkg_manager_only = False, ir_post_install = None\<rparr>\<rparr>"

definition tool_kustomize :: tool where
  "tool_kustomize =
     \<lparr>t_id = ToolKustomize, t_display = ''kustomize'',
      t_detect = \<lparr>ds_command = ''kustomize'',
        ds_version_args = [''version''],
        ds_parse = ShortLine\<rparr>,
      t_install = \<lparr>ir_brew = (Some ''kustomize''), ir_brew_cask = None, ir_dnf = (Some ''kustomize''),
        ir_apt = None, ir_pacman = (Some ''kustomize''),
        ir_winget = (Some ''Kubernetes.kustomize''), ir_choco = (Some ''kustomize''),
        ir_windows_unsupported = False, ir_binary = (Some \<lparr>bd_url_template =
         ''https://github.com/kubernetes-sigs/kustomize/releases/download/kustomize/v5.8.1/kustomize_v5.8.1_{os}_{arch}.tar.gz'',
       bd_windows_url_template =
         Some ''https://github.com/kubernetes-sigs/kustomize/releases/download/kustomize/v5.8.1/kustomize_v5.8.1_{os}_{arch}.zip'',
       bd_members = [''kustomize''], bd_windows_members = [''kustomize.exe''],
       bd_sha256 =
        [(''linux-amd64'', ''029a7f0f4e1932c52a0476cf02a0fd855c0bb85694b82c338fc648dcb53a819d''),
         (''linux-arm64'', ''0953ea3e476f66d6ddfcd911d750f5167b9365aa9491b2326398e289fef2c142''),
         (''darwin-amd64'', ''ee7cf0c1e3592aa7bb66ba82b359933a95e7f2e0b36e5f53ed0a4535b017f2f8''),
         (''darwin-arm64'', ''8886f8a78474e608cc81234f729fda188a9767da23e28925802f00ece2bab288''),
         (''windows-amd64'', ''8ec7f5e815e526d4622c06df0a7793d8cfb6eb1c74f816b46166097fef8b26c6'')]\<rparr>),
        ir_pkg_manager_only = False, ir_post_install = None\<rparr>\<rparr>"

definition registry :: "tool list" where
  "registry = [tool_docker, tool_kind, tool_kubectl, tool_helm, tool_cilium, tool_k9s, tool_kubectx,
     tool_kustomize]"

definition find_tool :: "tool_id \<Rightarrow> tool option" where
  "find_tool i = find (\<lambda>t. t_id t = i) registry"

lemmas tool_defs = tool_docker_def tool_kind_def tool_kubectl_def tool_helm_def tool_cilium_def
  tool_k9s_def tool_kubectx_def tool_kustomize_def

lemma tool_ids [simp]:
  "t_id tool_docker = ToolDocker" "t_id tool_kind = ToolKind" "t_id tool_kubectl = ToolKubectl"
  "t_id tool_helm = ToolHelm" "t_id tool_cilium = ToolCilium" "t_id tool_k9s = ToolK9s"
  "t_id tool_kubectx = ToolKubectx" "t_id tool_kustomize = ToolKustomize"
  by (simp_all only: tool_defs tool.select_convs)

lemma find_tool_simps [simp]:
  "find_tool ToolDocker = Some tool_docker" "find_tool ToolKind = Some tool_kind"
  "find_tool ToolKubectl = Some tool_kubectl" "find_tool ToolHelm = Some tool_helm"
  "find_tool ToolCilium = Some tool_cilium" "find_tool ToolK9s = Some tool_k9s"
  "find_tool ToolKubectx = Some tool_kubectx" "find_tool ToolKustomize = Some tool_kustomize"
  by (simp_all add: find_tool_def registry_def)

lemma find_tool_total: "\<exists>t. find_tool i = Some t \<and> t_id t = i \<and> t \<in> set registry"
  by (cases i) (simp_all add: registry_def)

end
