(* ===== verification/DepsPlan.thy ===== *)
theory DepsPlan
  imports DepsRegistry Manifests FsModel Curl
begin

text \<open>
  Install plans (\<open>kindboard-core/src/deps/mod.rs\<close>, \<open>OsKind\<close> to \<open>detect_platform\<close> and
  \<open>InstallStep\<close> to \<open>build_binary_steps_windows\<close>): the platform, the choice between a package
  manager and a pinned binary, and the steps of a binary install.  The architecture the program was
  compiled for (\<open>std::env::consts::ARCH\<close>) is an argument.
\<close>

section \<open>Platforms\<close>

datatype os_kind = OsLinux | OsMacos | OsWindows | OsOther

datatype pkg_manager = Brew | Dnf | Apt | Pacman | Winget | Choco

fun pkg_manager_debug :: "pkg_manager \<Rightarrow> string" where
  "pkg_manager_debug Brew = ''Brew''"
| "pkg_manager_debug Dnf = ''Dnf''"
| "pkg_manager_debug Apt = ''Apt''"
| "pkg_manager_debug Pacman = ''Pacman''"
| "pkg_manager_debug Winget = ''Winget''"
| "pkg_manager_debug Choco = ''Choco''"

record platform =
  pl_os :: os_kind
  pl_pkg_manager :: "pkg_manager option"
  pl_pkexec :: bool

fun os_kind_of :: "target_os \<Rightarrow> os_kind" where
  "os_kind_of TargetLinux = OsLinux"
| "os_kind_of TargetMacos = OsMacos"
| "os_kind_of TargetWindows = OsWindows"
| "os_kind_of TargetOther = OsOther"

definition detect_platform :: "os_env \<Rightarrow> platform" where
  "detect_platform e =
     (let dirs = effective_path_entries e;
          found = (\<lambda>c. find_in_path e dirs c \<noteq> None)
      in \<lparr>pl_os = os_kind_of (env_target e),
          pl_pkg_manager =
            (if found ''brew'' then Some Brew
             else if found ''dnf'' then Some Dnf
             else if found ''apt-get'' then Some Apt
             else if found ''pacman'' then Some Pacman
             else if found ''winget'' then Some Winget
             else if found ''choco'' then Some Choco
             else None),
          pl_pkexec = found ''pkexec''\<rparr>)"

section \<open>Plans\<close>

record install_step =
  is_description :: string
  is_program :: string
  is_args :: "string list"

record download_verify =
  dv_file :: string
  dv_expected_sha256 :: string
  dv_description :: string

record install_plan =
  ip_steps :: "install_step list"
  ip_post_install :: "string option"
  ip_verify :: "download_verify list"

definition dquote :: char where "dquote = CHR 0x22"

definition render_install :: "install_plan \<Rightarrow> string list" where
  "render_install p =
     map (\<lambda>s. is_program s @ concat (map (\<lambda>arg.
            '' '' @ (if has_sub '' '' arg then [dquote] @ arg @ [dquote] else arg)) (is_args s)))
       (ip_steps p)"

definition istep :: "string \<Rightarrow> string \<Rightarrow> string list \<Rightarrow> install_step" where
  "istep description program args =
     \<lparr>is_description = description, is_program = program, is_args = args\<rparr>"

section \<open>Rendering for a platform\<close>

definition render_platform :: "string \<Rightarrow> platform \<Rightarrow> string \<Rightarrow> string" where
  "render_platform template p arch =
     (let (os, os_caps) = (case pl_os p of
            OsMacos \<Rightarrow> (''darwin'', ''Darwin'')
          | OsWindows \<Rightarrow> (''windows'', ''Windows'')
          | _ \<Rightarrow> (''linux'', ''Linux''));
          (arch', x64) = (if arch = ''aarch64'' then (''arm64'', ''arm64'') else (''amd64'', ''x86_64''))
      in replace_all ''{x64}'' x64 (replace_all ''{arch}'' arch'
           (replace_all ''{OS}'' os_caps (replace_all ''{os}'' os template))))"

definition arch_name :: "string \<Rightarrow> string" where
  "arch_name target_arch = (if target_arch = ''aarch64'' then ''arm64'' else ''amd64'')"

definition platform_key :: "platform \<Rightarrow> string \<Rightarrow> string" where
  "platform_key p arch =
     (case pl_os p of OsMacos \<Rightarrow> ''darwin'' | OsWindows \<Rightarrow> ''windows'' | _ \<Rightarrow> ''linux'') @ ''-'' @ arch"

section \<open>Binary installs\<close>

definition expected_digest :: "tool \<Rightarrow> binary_download \<Rightarrow> string \<Rightarrow> core_error + string" where
  "expected_digest t binary k =
     ok_or (Deps (NoInstallRecipe (t_display t) (''no pinned sha256 for platform '' @ k)))
       (map_of (bd_sha256 binary) k)"

definition curl_download_args :: "curl_opts \<Rightarrow> string \<Rightarrow> string \<Rightarrow> string list" where
  "curl_download_args caps download_path url =
     [''-L'', ''--fail'', ''--silent'', ''--show-error''] @ secure_args caps
     @ [''--max-filesize'', ''268435456'', ''-o'', utf8_lossy download_path, url]"

definition download_verify_of :: "tool \<Rightarrow> string \<Rightarrow> string \<Rightarrow> download_verify" where
  "download_verify_of t download_path expected =
     \<lparr>dv_file = download_path, dv_expected_sha256 = expected,
      dv_description = ''verify '' @ t_display t @ '' (sha256)''\<rparr>"

definition download_path :: "tool \<Rightarrow> string \<Rightarrow> string" where
  "download_path t bin_dir = path_join bin_dir (''.kb-dl-'' @ ds_command (t_detect t))"

definition extract_dir :: "tool \<Rightarrow> string \<Rightarrow> string" where
  "extract_dir t bin_dir = path_join bin_dir (''.kb-extract-'' @ ds_command (t_detect t))"

definition single_file_steps :: "tool \<Rightarrow> string \<Rightarrow> install_step list" where
  "single_file_steps t bin_dir =
     [istep (''make '' @ t_display t @ '' executable'') ''chmod''
        [''+x'', utf8_lossy (download_path t bin_dir)],
      istep (''install '' @ t_display t @ '' to '' @ utf8_lossy bin_dir) ''mv''
        [utf8_lossy (download_path t bin_dir),
         utf8_lossy (path_join bin_dir (ds_command (t_detect t)))]]"

definition member_steps :: "platform \<Rightarrow> string \<Rightarrow> string \<Rightarrow> string \<Rightarrow> string \<Rightarrow> install_step list" where
  "member_steps p arch bin_dir ex_dir member =
     (let rendered = render_platform member p arch;
          file_name = utf8_lossy (path_file_name rendered);
          extracted = path_join ex_dir rendered
      in [istep (''make '' @ file_name @ '' executable'') ''chmod'' [''+x'', utf8_lossy extracted],
          istep (''install '' @ file_name @ '' to '' @ utf8_lossy bin_dir) ''mv''
            [utf8_lossy extracted, utf8_lossy (path_join bin_dir file_name)]])"

definition archive_steps ::
    "tool \<Rightarrow> binary_download \<Rightarrow> platform \<Rightarrow> string \<Rightarrow> string \<Rightarrow> install_step list" where
  "archive_steps t binary p arch bin_dir =
     (let dl = download_path t bin_dir; ex_dir = extract_dir t bin_dir in
      [istep (''create extract dir '' @ utf8_lossy ex_dir) ''mkdir'' [''-p'', utf8_lossy ex_dir],
       istep (''extract '' @ t_display t) ''tar''
         ([''-xzf'', utf8_lossy dl, ''-C'', utf8_lossy ex_dir]
          @ map (\<lambda>m. render_platform m p arch) (bd_members binary))]
      @ concat (map (member_steps p arch bin_dir ex_dir) (bd_members binary))
      @ [istep ''clean up download'' ''rm'' [''-rf'', utf8_lossy dl, utf8_lossy ex_dir]])"

definition ps_quote :: "string \<Rightarrow> string" where
  "ps_quote path = replace_all [CHR 0x27] [CHR 0x27, CHR 0x27] (utf8_lossy path)"

definition ps_lit :: "string \<Rightarrow> string" where
  "ps_lit path = [CHR 0x27] @ ps_quote path @ [CHR 0x27]"

definition powershell_args :: "string \<Rightarrow> string list" where
  "powershell_args script = [''-NoProfile'', ''-NonInteractive'', ''-Command'', script]"

definition ps_mkdir :: "string \<Rightarrow> string" where
  "ps_mkdir d = ''New-Item -ItemType Directory -Force -Path '' @ ps_lit d @ '' | Out-Null''"

definition ps_move :: "string \<Rightarrow> string \<Rightarrow> string" where
  "ps_move a b = ''Move-Item -Force '' @ ps_lit a @ '' '' @ ps_lit b"

definition windows_member_step ::
    "platform \<Rightarrow> string \<Rightarrow> string \<Rightarrow> string \<Rightarrow> string \<Rightarrow> install_step" where
  "windows_member_step p arch bin_dir ex_dir member =
     (let rendered = render_platform member p arch;
          file_name = utf8_lossy (path_file_name rendered);
          extracted = path_join ex_dir rendered
      in istep (''install '' @ file_name @ '' to '' @ utf8_lossy bin_dir) ''powershell''
           (powershell_args (ps_move extracted (path_join bin_dir file_name))))"

definition windows_archive_steps ::
    "tool \<Rightarrow> binary_download \<Rightarrow> platform \<Rightarrow> string \<Rightarrow> string \<Rightarrow> install_step list" where
  "windows_archive_steps t binary p arch bin_dir =
     (let dl = download_path t bin_dir; ex_dir = extract_dir t bin_dir in
      [istep (''create extract dir '' @ utf8_lossy ex_dir) ''powershell''
         (powershell_args (ps_mkdir ex_dir)),
       istep (''extract '' @ t_display t) ''tar.exe''
         ([''-xf'', utf8_lossy dl, ''-C'', utf8_lossy ex_dir]
          @ map (\<lambda>m. render_platform m p arch) (bd_windows_members binary))]
      @ map (windows_member_step p arch bin_dir ex_dir) (bd_windows_members binary)
      @ [istep ''clean up download'' ''powershell''
          (powershell_args (''Remove-Item -Recurse -Force '' @ ps_lit dl @ '','' @ ps_lit ex_dir))])"

definition build_binary_steps_windows ::
    "string \<Rightarrow> tool \<Rightarrow> binary_download \<Rightarrow> platform \<Rightarrow> string \<Rightarrow> curl_opts
       \<Rightarrow> core_error + install_step list \<times> download_verify list" where
  "build_binary_steps_windows target_arch t binary p bin_dir caps =
     (let arch = arch_name target_arch;
          url = (case bd_windows_url_template binary of
                   Some template \<Rightarrow> render_platform template p arch
                 | None \<Rightarrow> render_platform (bd_url_template binary) p arch);
          dl = download_path t bin_dir;
          first = [istep (''create install dir '' @ utf8_lossy bin_dir) ''powershell''
                     (powershell_args (ps_mkdir bin_dir)),
                   istep (''download '' @ t_display t) ''curl.exe'' (curl_download_args caps dl url)]
      in rbind (expected_digest t binary (platform_key p arch)) (\<lambda>expected.
           Ok (first @
               (if bd_windows_members binary = []
                then [istep (''install '' @ t_display t @ '' to '' @ utf8_lossy bin_dir) ''powershell''
                        (powershell_args
                          (ps_move dl (path_join bin_dir (ds_command (t_detect t) @ ''.exe''))))]
                else windows_archive_steps t binary p arch bin_dir),
               [download_verify_of t dl expected])))"

definition build_binary_steps ::
    "string \<Rightarrow> tool \<Rightarrow> binary_download \<Rightarrow> platform \<Rightarrow> string \<Rightarrow> curl_opts
       \<Rightarrow> core_error + install_step list \<times> download_verify list" where
  "build_binary_steps target_arch t binary p bin_dir caps =
     (if pl_os p = OsWindows
      then build_binary_steps_windows target_arch t binary p bin_dir caps
      else
        (let arch = arch_name target_arch;
             url = render_platform (bd_url_template binary) p arch;
             dl = download_path t bin_dir;
             first = [istep (''create install dir '' @ utf8_lossy bin_dir) ''mkdir''
                        [''-p'', utf8_lossy bin_dir],
                      istep (''download '' @ t_display t) ''curl'' (curl_download_args caps dl url)]
         in rbind (expected_digest t binary (platform_key p arch)) (\<lambda>expected.
              Ok (first @
                  (if bd_members binary = [] then single_file_steps t bin_dir
                   else archive_steps t binary p arch bin_dir),
                  [download_verify_of t dl expected]))))"

section \<open>The plan\<close>

definition sudo_pkg :: "bool \<Rightarrow> string \<Rightarrow> string list \<Rightarrow> string \<times> string list" where
  "sudo_pkg pkexec program args = (if pkexec then (''pkexec'', program # args) else (program, args))"

definition pkg_command :: "tool \<Rightarrow> platform \<Rightarrow> (string \<times> string list) option" where
  "pkg_command t p =
     (let r = t_install t in
      case (pl_os p, pl_pkg_manager p) of
        (OsMacos, Some Brew) \<Rightarrow>
          if t_id t = ToolDocker
          then map_option (\<lambda>cask. (''brew'', [''install'', ''--cask'', cask])) (ir_brew_cask r)
          else map_option (\<lambda>formula. (''brew'', [''install'', formula])) (ir_brew r)
      | (OsLinux, Some Brew) \<Rightarrow>
          if t_id t = ToolDocker
          then map_option (\<lambda>cask. (''brew'', [''install'', ''--cask'', cask])) (ir_brew_cask r)
          else map_option (\<lambda>formula. (''brew'', [''install'', formula])) (ir_brew r)
      | (OsLinux, Some Dnf) \<Rightarrow>
          map_option (\<lambda>pkg. sudo_pkg (pl_pkexec p) ''dnf'' [''install'', ''-y'', pkg]) (ir_dnf r)
      | (OsLinux, Some Apt) \<Rightarrow>
          map_option (\<lambda>pkg. sudo_pkg (pl_pkexec p) ''apt-get'' [''install'', ''-y'', pkg]) (ir_apt r)
      | (OsLinux, Some Pacman) \<Rightarrow>
          map_option (\<lambda>pkg. sudo_pkg (pl_pkexec p) ''pacman'' [''-S'', ''--noconfirm'', pkg]) (ir_pacman r)
      | (OsWindows, Some Winget) \<Rightarrow>
          map_option (\<lambda>i. (''winget'', [''install'', ''--id'', i, ''-e'', ''--silent'',
            ''--accept-source-agreements'', ''--accept-package-agreements''])) (ir_winget r)
      | (OsWindows, Some Choco) \<Rightarrow>
          map_option (\<lambda>pkg. (''choco'', [''install'', ''-y'', pkg])) (ir_choco r)
      | _ \<Rightarrow> None)"

definition plan_install_for_with ::
    "string \<Rightarrow> tool_id \<Rightarrow> platform \<Rightarrow> string \<Rightarrow> curl_opts \<Rightarrow> core_error + install_plan" where
  "plan_install_for_with target_arch i p bin_dir caps =
     rbind (ok_or (Deps (DepNotFound (tool_name i))) (find_tool i)) (\<lambda>t.
       if pl_os p = OsWindows \<and> ir_windows_unsupported (t_install t)
       then Err (Deps (NoInstallRecipe (t_display t) ''not supported on Windows (POSIX shell script)''))
       else
         rbind (case pkg_command t p of
                  Some (program, args) \<Rightarrow>
                    Ok ([istep (''install '' @ t_display t @ '' via package manager (''
                           @ (case pl_pkg_manager p of Some m \<Rightarrow> pkg_manager_debug m | None \<Rightarrow> [])
                           @ '')'') program args], [])
                | None \<Rightarrow>
                    (case ir_binary (t_install t) of
                       Some binary \<Rightarrow> build_binary_steps target_arch t binary p bin_dir caps
                     | None \<Rightarrow> Err (Deps (NoInstallRecipe (t_display t)
                                 ''no package manager and no binary fallback''))))
           (\<lambda>(steps, verify).
              Ok \<lparr>ip_steps = steps, ip_post_install = ir_post_install (t_install t),
                  ip_verify = verify\<rparr>))"

definition plan_install_for ::
    "string \<Rightarrow> curl_opts \<Rightarrow> tool_id \<Rightarrow> platform \<Rightarrow> string \<Rightarrow> core_error + install_plan" where
  "plan_install_for target_arch caps i p bin_dir = plan_install_for_with target_arch i p bin_dir caps"

definition plan_install :: "string \<Rightarrow> curl_opts \<Rightarrow> os_env \<Rightarrow> tool_id \<Rightarrow> core_error + install_plan" where
  "plan_install target_arch caps e i =
     plan_install_for target_arch caps i (detect_platform e) (local_bin_dir e)"

end
