(* ===== verification/DepsInstall.thy ===== *)
theory DepsInstall
  imports DepsPlan Host
begin

text \<open>
  Detecting and installing tools (\<open>kindboard-core/src/deps/mod.rs\<close>, \<open>detect\<close>, the docker daemon
  probe and \<open>install_with_progress\<close>) on the host of theory \<open>Host\<close>.
\<close>

definition DETECT_TIMEOUT :: nat where "DETECT_TIMEOUT = 30000"
definition DAEMON_PROBE_TIMEOUT :: nat where "DAEMON_PROBE_TIMEOUT = 15000"
definition DOWNLOAD_TIMEOUT :: nat where "DOWNLOAD_TIMEOUT = 300000"
definition PKG_INSTALL_TIMEOUT :: nat where "PKG_INSTALL_TIMEOUT = 600000"

section \<open>Detection\<close>

datatype tool_status =
    Installed version string
  | NotInstalled
  | Broken string

fun is_installed :: "tool_status \<Rightarrow> bool" where
  "is_installed (Installed v p) = True"
| "is_installed _ = False"

datatype install_event =
    IStepStarted nat nat string
  | IStepLine nat string
  | IStepFinished nat

type_synonym 'a irun = "(install_event, 'a) prov"

type_synonym iworld = "install_event world"

definition joined_path :: "os_env \<Rightarrow> string list \<Rightarrow> string" where
  "joined_path e dirs =
     (case join_paths (env_target e) dirs of Some p \<Rightarrow> utf8_lossy p | None \<Rightarrow> [])"

definition detect_cmd :: "os_env \<Rightarrow> tool \<Rightarrow> string list \<Rightarrow> cmd" where
  "detect_cmd e t dirs =
     with_env ''PATH'' (joined_path e dirs) (with_timeout DETECT_TIMEOUT
       (with_args (ds_version_args (t_detect t)) (cmd_new (ds_command (t_detect t)))))"

definition status_of_output ::
    "host_env \<Rightarrow> tool \<Rightarrow> string \<Rightarrow> exec_error + cmd_output \<Rightarrow> tool_status" where
  "status_of_output env t path r =
     (case r of
        Inl err \<Rightarrow>
          if t_id t = ToolKubectx then Installed VERSION_UNKNOWN path
          else Broken (exec_error_text (he_fmt env) err)
      | Inr output \<Rightarrow>
          (let stdout = out_stdout output;
               text = (if str_trim stdout = [] then out_stderr_tail output else stdout)
           in case parse_version (he_json env) (ds_parse (t_detect t)) text of
                Some v \<Rightarrow> Installed v path
              | None \<Rightarrow>
                  if t_id t = ToolKubectx then Installed VERSION_UNKNOWN path
                  else Broken (''unparseable version output: '' @ dbg_str (he_fmt env) text)))"

definition detect_with_path :: "host_env \<Rightarrow> tool_id \<Rightarrow> string list \<Rightarrow> ('e, tool_status) prov" where
  "detect_with_path env i dirs w =
     (case find_tool i of
        None \<Rightarrow> (Some (Err (Deps (DepNotFound (tool_name i)))), w)
      | Some t \<Rightarrow>
          (let e = os_at env (fs_nodes (w_fs w)) in
           case find_in_path e dirs (ds_command (t_detect t)) of
             None \<Rightarrow> (Some (Ok NotInstalled), w)
           | Some path \<Rightarrow>
               (case run_cmd env (detect_cmd e t dirs) w of
                  (r, w1) \<Rightarrow> (map_option (\<lambda>r. Ok (status_of_output env t path r)) r, w1))))"

definition detect :: "host_env \<Rightarrow> tool_id \<Rightarrow> ('e, tool_status) prov" where
  "detect env i w =
     detect_with_path env i (effective_path_entries (os_at env (fs_nodes (w_fs w)))) w"

datatype docker_daemon_state =
    DaemonReady "string option"
  | DaemonBinaryMissing
  | DaemonNotRunning string

definition check_docker_daemon_with_path ::
    "host_env \<Rightarrow> string list \<Rightarrow> 'e world \<Rightarrow> docker_daemon_state option \<times> 'e world" where
  "check_docker_daemon_with_path env dirs w =
     (let e = os_at env (fs_nodes (w_fs w)) in
      if find_in_path e dirs ''docker'' = None then (Some DaemonBinaryMissing, w)
      else (case run_cmd env (with_env ''PATH'' (joined_path e dirs)
                   (with_timeout DAEMON_PROBE_TIMEOUT
                     (with_args [''info'', ''--format'', ''{{.ServerVersion}}''] (cmd_new ''docker'')))) w of
              (r, w1) \<Rightarrow>
                (map_option (\<lambda>r. case r of
                     Inr output \<Rightarrow>
                       (let text = out_stdout output
                        in DaemonReady (if text = [] then None else Some text))
                   | Inl err \<Rightarrow> DaemonNotRunning (exec_error_text (he_fmt env) err)) r, w1)))"

definition check_docker_daemon ::
    "host_env \<Rightarrow> 'e world \<Rightarrow> docker_daemon_state option \<times> 'e world" where
  "check_docker_daemon env w =
     check_docker_daemon_with_path env (effective_path_entries (os_at env (fs_nodes (w_fs w)))) w"

section \<open>One step of an install\<close>

definition step_timeout :: "install_step \<Rightarrow> nat" where
  "step_timeout s =
     (if is_program s \<in> {''curl'', ''curl.exe''} then DOWNLOAD_TIMEOUT
      else if is_program s \<in> {''mkdir'', ''chmod'', ''mv'', ''rm'', ''tar'', ''tar.exe'', ''powershell''}
      then 60000
      else PKG_INSTALL_TIMEOUT)"

definition install_step_cmd :: "os_env \<Rightarrow> install_step \<Rightarrow> cmd" where
  "install_step_cmd e s =
     with_effective_path e
       (with_timeout (step_timeout s) (with_args (is_args s) (cmd_new (is_program s))))"

definition is_curl :: "install_step \<Rightarrow> bool" where
  "is_curl s \<longleftrightarrow>
     eq_ignore_ascii_case (is_program s) ''curl'' \<or> eq_ignore_ascii_case (is_program s) ''curl.exe''"

fun arg_after :: "string \<Rightarrow> string list \<Rightarrow> string option" where
  "arg_after flag [] = None"
| "arg_after flag (a # as) =
     (if a = flag then (case as of b # _ \<Rightarrow> Some b | [] \<Rightarrow> None) else arg_after flag as)"

text \<open>The check of a step: a path equals a string when their components do.\<close>

definition step_check :: "install_plan \<Rightarrow> install_step \<Rightarrow> (string \<times> download_verify) option" where
  "step_check plan s =
     (if is_curl s
      then Option.bind (arg_after ''-o'' (is_args s)) (\<lambda>path.
           Option.bind (find (\<lambda>c. path_key (dv_file c) = path_key path) (ip_verify plan)) (\<lambda>c.
             Some (path, c)))
      else None)"

definition verify_download_file ::
    "host_env \<Rightarrow> string \<Rightarrow> string \<Rightarrow> string \<Rightarrow> string \<Rightarrow> ('e, unit) prov" where
  "verify_download_file env t step_desc path expected w =
     (case sha256_file_hex (he_sha256 env) path (w_fs w) of
        (Done digest, f) \<Rightarrow>
          (Some (if eq_ignore_ascii_case digest expected then Ok ()
                 else Err (Deps (DepChecksumMismatch t path expected))), w\<lparr>w_fs := f\<rparr>)
      | (Failed e, f) \<Rightarrow>
          (Some (Err (Deps (InstallFailed t step_desc (io_text e)))), w\<lparr>w_fs := f\<rparr>)
      | (Crashed, f) \<Rightarrow> (None, w\<lparr>w_fs := f\<rparr>))"

definition emit_all :: "'e list \<Rightarrow> 'e world \<Rightarrow> 'e world" where
  "emit_all evs w = w\<lparr>w_events := w_events w @ evs\<rparr>"

text \<open>The gate of a step that exited with 0.\<close>

definition gate_step :: "host_env \<Rightarrow> tool_id \<Rightarrow> install_plan \<Rightarrow> nat \<Rightarrow> install_step \<Rightarrow> unit irun" where
  "gate_step env i plan k s w =
     (case step_check plan s of
        None \<Rightarrow> (Some (Ok ()), w)
      | Some (path, c) \<Rightarrow>
          (case verify_download_file env (tool_name i) (dv_description c) path (dv_expected_sha256 c) w of
             (Some (Inr _), w1) \<Rightarrow>
               (Some (Ok ()), emit (IStepLine k (dv_description c @ '': ok'')) w1)
           | r \<Rightarrow> r))"

definition reconcile_failure_recheck :: "core_error + tool_status \<Rightarrow> tool_status option" where
  "reconcile_failure_recheck r =
     (case r of Inr (Installed v p) \<Rightarrow> Some (Installed v p) | _ \<Rightarrow> None)"

definition exit_debug :: "int option \<Rightarrow> string" where
  "exit_debug code = (case code of Some c \<Rightarrow> ''Some('' @ dec_int c @ '')'' | None \<Rightarrow> ''None'')"

definition failure_reason :: "fmt_env \<Rightarrow> exec_error \<Rightarrow> string" where
  "failure_reason f err =
     (case err of
        ExecCommand _ code tail \<Rightarrow> ''exit '' @ exit_debug code @ '': '' @ tail
      | other \<Rightarrow> exec_error_text f other)"

definition INSTALLED_ANYWAY :: string where
  "INSTALLED_ANYWAY = ''install step failed, but the tool is present '' @ [CHR 0xE2, CHR 0x80, CHR 0x94]
     @ '' treating as installed''"

definition NOTHING_TO_DO :: string where
  "NOTHING_TO_DO = ''already installed '' @ [CHR 0xE2, CHR 0x80, CHR 0x94] @ '' nothing to do''"

section \<open>The install\<close>

text \<open>The loop over the steps, from index \<open>k\<close> of \<open>total\<close>.  \<open>Some (Ok (Some status))\<close> is the early
  return of a reconciled failure.\<close>

fun install_steps ::
    "host_env \<Rightarrow> nat option \<Rightarrow> tool_id \<Rightarrow> install_plan \<Rightarrow> nat \<Rightarrow> nat \<Rightarrow> install_step list
       \<Rightarrow> tool_status option irun" where
  "install_steps env cancel i plan tot k [] w = (Some (Ok None), w)"
| "install_steps env cancel i plan tot k (s # ss) w =
     (case is_cancelled env cancel w of
        (True, w1) \<Rightarrow>
          (Some (Err (Deps (InstallFailed (tool_name i) (is_description s) ''cancelled''))), w1)
      | (False, w1) \<Rightarrow>
          (case run_cmd env (attach cancel (install_step_cmd (os_at env (fs_nodes (w_fs w1))) s))
                  (emit (IStepStarted k tot (is_description s)) w1) of
             (None, w2) \<Rightarrow> (None, w2)
           | (Some (Inr output), w2) \<Rightarrow>
               (case gate_step env i plan k s
                       (emit_all (map (\<lambda>l. IStepLine k (redact_kubeconfig_secrets l))
                          (out_stdout_lines output)) w2) of
                  (Some (Inr _), w3) \<Rightarrow>
                    install_steps env cancel i plan tot (Suc k) ss (emit (IStepFinished k) w3)
                | (Some (Inl e), w3) \<Rightarrow> (Some (Err e), w3)
                | (None, w3) \<Rightarrow> (None, w3))
           | (Some (Inl err), w2) \<Rightarrow>
               (case detect env i w2 of
                  (None, w3) \<Rightarrow> (None, w3)
                | (Some recheck, w3) \<Rightarrow>
                    (case reconcile_failure_recheck recheck of
                       Some status \<Rightarrow> (Some (Ok (Some status)), emit (IStepLine k INSTALLED_ANYWAY) w3)
                     | None \<Rightarrow>
                         (Some (Err (Deps (InstallFailed (tool_name i) (is_description s)
                            (failure_reason (he_fmt env) err)))), w3)))))"

definition install_with_progress_preflighted ::
    "host_env \<Rightarrow> tool_id \<Rightarrow> nat option \<Rightarrow> tool_status \<Rightarrow> tool_status irun" where
  "install_with_progress_preflighted env i cancel preflight w =
     (if is_installed preflight then (Some (Ok preflight), emit (IStepLine 0 NOTHING_TO_DO) w)
      else
        (case plan_install (he_arch env) (he_curl env) (os_at env (fs_nodes (w_fs w))) i of
           Inl e \<Rightarrow> (Some (Err e), w)
         | Inr plan \<Rightarrow>
             (case install_steps env cancel i plan (length (ip_steps plan)) 0 (ip_steps plan) w of
                (Some (Inr None), w1) \<Rightarrow> detect env i w1
              | (Some (Inr (Some status)), w1) \<Rightarrow> (Some (Ok status), w1)
              | (Some (Inl e), w1) \<Rightarrow> (Some (Err e), w1)
              | (None, w1) \<Rightarrow> (None, w1))))"

definition install_with_progress :: "host_env \<Rightarrow> tool_id \<Rightarrow> nat option \<Rightarrow> tool_status irun" where
  "install_with_progress env i cancel w =
     (case detect env i w of
        (None, w1) \<Rightarrow> (None, w1)
      | (Some (Inr status), w1) \<Rightarrow> install_with_progress_preflighted env i cancel status w1
      | (Some (Inl _), w1) \<Rightarrow> install_with_progress_preflighted env i cancel NotInstalled w1)"

end
