(* ===== verification/DepsProps.thy ===== *)
theory DepsProps
  imports DepsInstall
begin

text \<open>
  What detecting and installing tools guarantees: the shape of a binary install, the checksum gate in
  front of the steps that use a download, where a reported status comes from, and which installs
  have a plan.
\<close>

section \<open>The shape of a binary install\<close>

lemma arg_after_curl: "arg_after ''-o'' (curl_download_args caps dl url) = Some (utf8_lossy dl)"
  by (simp add: curl_download_args_def secure_args_def)

lemma istep_sel [simp]:
  "is_program (istep d p a) = p" "is_args (istep d p a) = a" "is_description (istep d p a) = d"
  by (simp_all add: istep_def)

lemma is_curl_istep:
  "is_curl (istep d ''curl'' a)" "is_curl (istep d ''curl.exe'' a)"
  "\<not> is_curl (istep d ''mkdir'' a)" "\<not> is_curl (istep d ''powershell'' a)"
  by (simp_all add: is_curl_def) code_simp+

definition binary_shape ::
    "tool \<Rightarrow> string \<Rightarrow> string \<Rightarrow> install_plan \<Rightarrow> bool" where
  "binary_shape t bin_dir d plan \<longleftrightarrow>
     (case ip_steps plan of
        mk # dl # rest \<Rightarrow> step_check plan mk = None \<and> is_curl dl
          \<and> arg_after ''-o'' (is_args dl) = Some (utf8_lossy (download_path t bin_dir))
      | _ \<Rightarrow> False)
     \<and> ip_verify plan = [download_verify_of t (download_path t bin_dir) d]"

lemma binary_plan_shape:
  assumes "plan_install_for_with arch i p bin_dir caps = Ok plan" "find_tool i = Some t"
    "pkg_command t p = None"
  shows "\<exists>binary d. ir_binary (t_install t) = Some binary \<and>
    map_of (bd_sha256 binary) (platform_key p (arch_name arch)) = Some d \<and> binary_shape t bin_dir d plan"
  using assms
  by (cases "pl_os p = OsWindows")
    (auto simp: plan_install_for_with_def build_binary_steps_def build_binary_steps_windows_def
      expected_digest_def binary_shape_def step_check_def is_curl_istep arg_after_curl Let_def
      split: if_splits option.splits) 

section \<open>The gate\<close>

lemma verify_download_ok:
  "verify_download_file env t d path expected w = (Some (Inr u), w1) \<Longrightarrow>
     \<exists>f. lookup_node (fs_nodes (w_fs w1)) path = Some (NFile f)
       \<and> eq_ignore_ascii_case (he_sha256 env (f_bytes f)) expected"
  by (auto simp: verify_download_file_def sha256_file_hex_def io_bind_def io_return_def
      read_file_def io_prim_def Let_def split: prod.splits outcome.splits if_splits list.splits
      fault.splits sum.splits option.splits node.splits)

lemma gate_step_ok:
  assumes "gate_step env i plan k s w = (Some (Inr u), w1)" "step_check plan s = Some (path, c)"
  shows "\<exists>f. lookup_node (fs_nodes (w_fs w1)) path = Some (NFile f)
       \<and> eq_ignore_ascii_case (he_sha256 env (f_bytes f)) (dv_expected_sha256 c)"
  using assms
  by (auto simp: gate_step_def emit_def split: option.splits sum.splits prod.splits dest!: verify_download_ok)

definition of_step :: "nat \<Rightarrow> install_event \<Rightarrow> bool" where
  "of_step k ev \<longleftrightarrow> (case ev of IStepStarted j _ _ \<Rightarrow> j = k | IStepLine j _ \<Rightarrow> j = k | IStepFinished j \<Rightarrow> j = k)"

lemma detect_events: "w_events (snd (detect env i w)) = w_events w"
  by (auto simp: detect_def detect_with_path_def Let_def run_cmd_events
      split: option.split prod.split)

lemma verify_events: "w_events (snd (verify_download_file env t d p e w)) = w_events w"
  by (auto simp: verify_download_file_def split: prod.split outcome.split)

lemma sends_gate: "sends (of_step k) (gate_step env i plan k s)"
proof (rule sendsI)
  fix w r w' assume g: "gate_step env i plan k s w = (r, w')"
  show "\<exists>evs. w_events w' = w_events w @ evs \<and> list_all (of_step k) evs"
  proof (cases "step_check plan s")
    case (Some pc)
    obtain q w1 where q: "verify_download_file env (tool_name i) (dv_description (snd pc)) (fst pc)
        (dv_expected_sha256 (snd pc)) w = (q, w1)" by fastforce
    have "w_events w1 = w_events w" using verify_events q by (metis snd_conv)
    then show ?thesis using g Some q
      by (cases pc) (auto simp: gate_step_def emit_def of_step_def split: option.splits sum.splits)
  qed (use g in \<open>simp add: gate_step_def\<close>)
qed

text \<open>One turn of the loop: it ends there, with events of this step only, or it goes on from a world
  the gate accepted.\<close>

lemma install_steps_turn:
  assumes "install_steps env cancel i plan tot k (s # ss) w = (r, w')"
  shows "(\<exists>evs. w_events w' = w_events w @ evs \<and> list_all (of_step k) evs) \<or>
    (\<exists>w1 w2. gate_step env i plan k s w1 = (Some (Ok ()), w2) \<and>
       (\<exists>evs. w_events w2 = w_events w @ evs \<and> list_all (of_step k) evs) \<and>
       install_steps env cancel i plan tot (Suc k) ss (emit (IStepFinished k) w2) = (r, w'))"
proof -
  obtain b w1 where b: "is_cancelled env cancel w = (b, w1)" by fastforce
  note e1 = is_cancelled_events [OF b]
  show ?thesis
  proof (cases b)
    case True
    then show ?thesis using assms b e1 by auto
  next
    case False
    obtain q w2 where q: "run_cmd env (attach cancel (install_step_cmd (os_at env (fs_nodes (w_fs w1))) s))
        (emit (IStepStarted k tot (is_description s)) w1) = (q, w2)" by fastforce
    have e2: "\<exists>evs. w_events w2 = w_events w @ evs \<and> list_all (of_step k) evs"
      using run_cmd_events [OF q] e1 by (simp add: emit_def of_step_def)
    consider "q = None" | out where "q = Some (Inr out)" | err where "q = Some (Inl err)"
      by (metis option.exhaust sum.exhaust)
    then show ?thesis
    proof cases
      case 1
      then show ?thesis using assms b False q e2 by auto
    next
      case (2 out)
      define w3 where "w3 = emit_all (map (\<lambda>l. IStepLine k (redact_kubeconfig_secrets l)) (out_stdout_lines out)) w2"
      have e3: "\<exists>evs. w_events w3 = w_events w @ evs \<and> list_all (of_step k) evs"
        using e2 by (auto simp: w3_def emit_all_def list_all_iff of_step_def)
      obtain g w4 where g: "gate_step env i plan k s w3 = (g, w4)" by fastforce
      have e4: "\<exists>evs. w_events w4 = w_events w @ evs \<and> list_all (of_step k) evs"
        using sendsD [OF sends_gate g] e3 by auto
      show ?thesis
      proof (cases "g = Some (Inr ())")
        case True
        then show ?thesis using assms b False q 2 g e4 by (auto simp: w3_def [symmetric])
      next
        case F: False
        then show ?thesis using assms b False q 2 g e4
          by (auto simp: w3_def [symmetric] split: option.splits sum.splits)
      qed
    next
      case (3 err)
      obtain d w3 where d: "detect env i w2 = (d, w3)" by fastforce
      have "w_events w3 = w_events w2" using detect_events d by (metis snd_conv)
      then show ?thesis using assms b False q 3 d e2
        by (auto simp: emit_def of_step_def split: option.splits)
    qed
  qed
qed

section \<open>Where a status comes from\<close>

lemma status_of_output_path: "status_of_output env t path r = Installed v q \<Longrightarrow> q = path"
  by (auto simp: status_of_output_def Let_def split: sum.splits option.splits if_splits)

lemma detect_installed:
  assumes "detect env i w = (Some (Ok (Installed v path)), w')"
  shows "\<exists>t. find_tool i = Some t \<and>
    find_in_path (os_at env (fs_nodes (w_fs w))) (effective_path_entries (os_at env (fs_nodes (w_fs w))))
      (ds_command (t_detect t)) = Some path"
  using assms
  by (auto simp: detect_def detect_with_path_def Let_def dest: status_of_output_path
      split: option.splits prod.splits)

text \<open>The world \<open>w\<close> has the tool's program on the search path: a file, executable unless the host is Windows.\<close>

definition tool_present :: "host_env \<Rightarrow> tool_id \<Rightarrow> string \<Rightarrow> 'e world \<Rightarrow> bool" where
  "tool_present env i path w \<longleftrightarrow>
     (case find_tool i of
        None \<Rightarrow> False
      | Some t \<Rightarrow>
          (let e = os_at env (fs_nodes (w_fs w)) in
           (\<exists>d \<in> set (effective_path_entries e). path \<in> set (path_candidates e d (ds_command (t_detect t)))))
          \<and> (case lookup_node (fs_nodes (w_fs w)) path of
               Some (NFile f) \<Rightarrow> env_target (he_os env) = TargetWindows \<or> and (f_mode f) 73 \<noteq> 0
             | _ \<Rightarrow> False))"

lemma os_at_runnable:
  "runnable (os_at env n) p \<longleftrightarrow>
     (case lookup_node n p of
        Some (NFile f) \<Rightarrow> env_target (he_os env) = TargetWindows \<or> and (f_mode f) 73 \<noteq> 0 | _ \<Rightarrow> False)"
  by (auto simp: runnable_def os_at_def split: option.split node.split)

lemma detect_present:
  assumes "detect env i w = (Some (Ok (Installed v path)), w')"
  shows "tool_present env i path w"
proof -
  let ?e = "os_at env (fs_nodes (w_fs w))"
  obtain t where t: "find_tool i = Some t"
    "find_in_path ?e (effective_path_entries ?e) (ds_command (t_detect t)) = Some path"
    using detect_installed [OF assms] by blast
  from find_in_path_found [OF t(2)] show ?thesis
    unfolding tool_present_def t(1) option.case Let_def os_at_runnable by blast
qed

text \<open>The command a detection runs.\<close>

definition version_probe :: "tool_id \<Rightarrow> cmd \<Rightarrow> bool" where
  "version_probe i c \<longleftrightarrow> (\<exists>t e dirs. find_tool i = Some t \<and> c = detect_cmd e t dirs)"

text \<open>A documented behaviour of the tools: asking for the version changes no file.\<close>

definition probes_read_only :: "host_env \<Rightarrow> tool_id \<Rightarrow> bool" where
  "probes_read_only env i \<longleftrightarrow>
     (\<forall>tk c n ch. version_probe i c \<longrightarrow> he_spawn env tk c n = Inr ch \<longrightarrow> ch_effect ch n = n)"

lemma probe_keeps_files:
  "probes_read_only env i \<Longrightarrow> find_tool i = Some t \<Longrightarrow> he_spawn env tk (detect_cmd e t dirs) n = Inr ch
    \<Longrightarrow> ch_effect ch n = n"
  unfolding probes_read_only_def version_probe_def by blast

lemma detect_keeps_files:
  assumes "probes_read_only env i" "detect env i w = (r, w')"
  shows "fs_nodes (w_fs w') = fs_nodes (w_fs w)"
  using assms
  by (auto simp: detect_def detect_with_path_def run_cmd_def after_child_def Let_def
      dest: probe_keeps_files split: option.splits sum.splits prod.splits)

lemma tool_present_nodes:
  "fs_nodes (w_fs w') = fs_nodes (w_fs w) \<Longrightarrow> tool_present env i path w' = tool_present env i path w"
  unfolding tool_present_def by (simp only:)

lemma detect_leaves_present:
  assumes "probes_read_only env i" "detect env i w = (Some (Ok (Installed v path)), w')"
  shows "tool_present env i path w'"
  using detect_present [OF assms(2)] tool_present_nodes [OF detect_keeps_files [OF assms]] by simp

lemma tool_present_emit [simp]: "tool_present env i path (emit ev w) = tool_present env i path w"
  by (rule tool_present_nodes) (simp add: emit_def)

lemma install_steps_present:
  assumes "probes_read_only env i"
  shows "install_steps env cancel i plan tot k ss w = (Some (Ok (Some (Installed v path))), w')
    \<Longrightarrow> tool_present env i path w'"
proof (induction ss arbitrary: k w)
  case (Cons s ss)
  obtain b w1 where b: "is_cancelled env cancel w = (b, w1)" by fastforce
  obtain q w2 where q: "run_cmd env (attach cancel (install_step_cmd (os_at env (fs_nodes (w_fs w1))) s))
        (emit (IStepStarted k tot (is_description s)) w1) = (q, w2)" by fastforce
  show ?case
    using Cons b q
    by (auto simp: reconcile_failure_recheck_def dest: detect_leaves_present [OF assms]
        split: bool.splits option.splits sum.splits prod.splits tool_status.splits)
qed simp

lemma install_present:
  assumes "probes_read_only env i" "install_with_progress env i cancel w = (Some (Ok (Installed v path)), w')"
  shows "tool_present env i path w'"
  using assms(2)
  by (auto simp: install_with_progress_def install_with_progress_preflighted_def
      dest!: install_steps_present [OF assms(1)]
      dest: detect_leaves_present [OF assms(1)] split: option.splits sum.splits prod.splits if_splits)

section \<open>Which plans exist\<close>

lemma registry_unsupported:
  "ir_windows_unsupported (t_install tool_docker) = False"
  "ir_windows_unsupported (t_install tool_kind) = False"
  "ir_windows_unsupported (t_install tool_kubectl) = False"
  "ir_windows_unsupported (t_install tool_helm) = False"
  "ir_windows_unsupported (t_install tool_cilium) = False"
  "ir_windows_unsupported (t_install tool_k9s) = False"
  "ir_windows_unsupported (t_install tool_kubectx) = True"
  "ir_windows_unsupported (t_install tool_kustomize) = False"
  by (simp_all only: tool_defs tool.select_convs install_recipe.select_convs)

definition all_keys :: "string list" where
  "all_keys = [''linux-amd64'', ''linux-arm64'', ''darwin-amd64'', ''darwin-arm64'', ''windows-amd64'']"

definition unix_keys :: "string list" where
  "unix_keys = [''linux-amd64'', ''linux-arm64'', ''darwin-amd64'', ''darwin-arm64'']"

lemma registry_binaries:
  "ir_binary (t_install tool_docker) = None"
  "map_option (map fst \<circ> bd_sha256) (ir_binary (t_install tool_kind)) = Some all_keys"
  "map_option (map fst \<circ> bd_sha256) (ir_binary (t_install tool_kubectl)) = Some all_keys"
  "map_option (map fst \<circ> bd_sha256) (ir_binary (t_install tool_helm)) = Some all_keys"
  "map_option (map fst \<circ> bd_sha256) (ir_binary (t_install tool_cilium)) = Some all_keys"
  "map_option (map fst \<circ> bd_sha256) (ir_binary (t_install tool_k9s)) = Some all_keys"
  "map_option (map fst \<circ> bd_sha256) (ir_binary (t_install tool_kubectx)) = Some unix_keys"
  "map_option (map fst \<circ> bd_sha256) (ir_binary (t_install tool_kustomize)) = Some all_keys"
  by (simp_all only: tool_defs tool.select_convs install_recipe.select_convs binary_download.select_convs
      option.map comp_apply list.map fst_conv all_keys_def unix_keys_def)

lemma platform_key_in_all:
  "platform_key p (arch_name a) \<in> set all_keys \<longleftrightarrow> \<not> (pl_os p = OsWindows \<and> a = ''aarch64'')"
  "pl_os p \<noteq> OsWindows \<Longrightarrow> platform_key p (arch_name a) \<in> set unix_keys"
  by (cases "pl_os p"; simp add: platform_key_def arch_name_def all_keys_def unix_keys_def)+

definition linux_host :: platform where
  "linux_host = \<lparr>pl_os = OsLinux, pl_pkg_manager = None, pl_pkexec = False\<rparr>"

definition kind_binary :: binary_download where
  "kind_binary = the (ir_binary (t_install tool_kind))"

lemma kind_binary_facts:
  "ir_binary (t_install tool_kind) = Some kind_binary" "bd_members kind_binary = []"
  "bd_url_template kind_binary = ''https://kind.sigs.k8s.io/dl/v0.33.0/kind-{os}-{arch}''"
  "map_of (bd_sha256 kind_binary) ''linux-amd64''
     = Some ''aee6151561422756b764a4ae28e7f44cda5af5a9eead3cc9985112b1de8d8e0d''"
  "map_of (bd_sha256 kind_binary) ''linux-arm64''
     = Some ''20022bee6cfcd5086cb7234d218e3454e6090022f2a8f55d1fa7fcf42c3867a2''"
  unfolding kind_binary_def
  by (simp_all only: tool_kind_def tool.select_convs install_recipe.select_convs
      binary_download.select_convs option.sel) simp_all

lemma kind_plan_on_linux:
  assumes "platform_key linux_host (arch_name arch) = k" "map_of (bd_sha256 kind_binary) k = Some d"
  shows "plan_install_for_with arch ToolKind linux_host bin_dir caps = Ok
    \<lparr>ip_steps =
       [istep (''create install dir '' @ utf8_lossy bin_dir) ''mkdir'' [''-p'', utf8_lossy bin_dir],
        istep (''download '' @ t_display tool_kind) ''curl''
          (curl_download_args caps (download_path tool_kind bin_dir)
            (render_platform ''https://kind.sigs.k8s.io/dl/v0.33.0/kind-{os}-{arch}'' linux_host (arch_name arch)))]
       @ single_file_steps tool_kind bin_dir,
     ip_post_install = ir_post_install (t_install tool_kind),
     ip_verify = [download_verify_of tool_kind (download_path tool_kind bin_dir) d]\<rparr>"
  using assms kind_binary_facts
  by (simp add: plan_install_for_with_def pkg_command_def build_binary_steps_def expected_digest_def
      linux_host_def Let_def del: append.append_Cons append.append_Nil)

section \<open>Properties\<close>

text \<open>C3: The file of a binary install is never used unverified: either no step after the download
  is ever started, or the steps after it start in a world where the downloaded file has the digest
  pinned for this platform.\<close>

theorem unverified_download_never_used:
  assumes "plan_install_for_with arch i p bin_dir caps = Ok plan"
    and "find_tool i = Some t" and "pkg_command t p = None"
    and "utf8_valid (download_path t bin_dir)"
    and "install_steps env cancel i plan tot 0 (ip_steps plan) w = (r, w')"
  shows "(\<exists>evs. w_events w' = w_events w @ evs \<and> list_all (\<lambda>ev. of_step 0 ev \<or> of_step 1 ev) evs) \<or>
    (\<exists>wv f binary d. ir_binary (t_install t) = Some binary \<and>
       map_of (bd_sha256 binary) (platform_key p (arch_name arch)) = Some d \<and>
       install_steps env cancel i plan tot 2 (drop 2 (ip_steps plan)) (emit (IStepFinished 1) wv) = (r, w') \<and>
       lookup_node (fs_nodes (w_fs wv)) (download_path t bin_dir) = Some (NFile f) \<and>
       eq_ignore_ascii_case (he_sha256 env (f_bytes f)) d)"
proof -
  obtain binary d where b: "ir_binary (t_install t) = Some binary"
    "map_of (bd_sha256 binary) (platform_key p (arch_name arch)) = Some d" "binary_shape t bin_dir d plan"
    using binary_plan_shape [OF assms(1-3)] by blast
  then obtain mk dl rest where st: "ip_steps plan = mk # dl # rest" "is_curl dl"
    "arg_after ''-o'' (is_args dl) = Some (utf8_lossy (download_path t bin_dir))"
    by (auto simp: binary_shape_def split: list.splits)
  have check: "step_check plan dl = Some (download_path t bin_dir, download_verify_of t (download_path t bin_dir) d)"
    using st b(3) assms(4) by (simp add: step_check_def binary_shape_def utf8_valid_def download_verify_of_def)
  have w: "install_steps env cancel i plan tot 0 (mk # dl # rest) w = (r, w')" using assms(5) st by simp
  from install_steps_turn [OF w] show ?thesis
  proof (elim disjE exE conjE)
    fix evs assume "w_events w' = w_events w @ evs" "list_all (of_step 0) evs"
    then show ?thesis by (auto simp: list_all_iff)
  next
    fix w1 w2 e1
    assume e1: "w_events w2 = w_events w @ e1" "list_all (of_step 0) e1"
      and n: "install_steps env cancel i plan tot (Suc 0) (dl # rest) (emit (IStepFinished 0) w2) = (r, w')"
    from install_steps_turn [OF n] show ?thesis
    proof (elim disjE exE conjE)
      fix e2 assume "w_events w' = w_events (emit (IStepFinished 0) w2) @ e2" "list_all (of_step (Suc 0)) e2"
      then show ?thesis using e1
        by (intro disjI1 exI [of _ "e1 @ IStepFinished 0 # e2"]) (auto simp: emit_def list_all_iff of_step_def)
    next
      fix w3 w4
      assume g: "gate_step env i plan (Suc 0) dl w3 = (Some (Ok ()), w4)"
        and "install_steps env cancel i plan tot (Suc (Suc 0)) rest (emit (IStepFinished (Suc 0)) w4) = (r, w')"
      then show ?thesis using gate_step_ok [OF g check] b st
        by (intro disjI2) (auto simp: download_verify_of_def numeral_2_eq_2)
    qed
  qed
qed

lemma unverified_download_never_used_witness:
  "\<exists>plan r w'. plan_install_for_with ''x86_64'' ToolKind linux_host ''/b'' CURL_NONE = Ok plan \<and>
    install_steps (env_example 0) None ToolKind plan 4 0 (ip_steps plan) world_example = (r, w') \<and>
    ((\<exists>evs. w_events w' = evs \<and> list_all (\<lambda>ev. of_step 0 ev \<or> of_step 1 ev) evs) \<or>
     (\<exists>f d. eq_ignore_ascii_case (he_sha256 (env_example 0) (f_bytes (f :: reg_file))) d))"
proof -
  have k: "platform_key linux_host (arch_name ''x86_64'') = ''linux-amd64''" by code_simp
  obtain plan where p: "plan_install_for_with ''x86_64'' ToolKind linux_host ''/b'' CURL_NONE = Ok plan"
    using kind_plan_on_linux [OF k kind_binary_facts(4), of "''/b''" CURL_NONE] by blast
  obtain r w' where i: "install_steps (env_example 0) None ToolKind plan 4 0 (ip_steps plan)
      world_example = (r, w')" by fastforce
  have n: "pkg_command tool_kind linux_host = None" by (simp add: pkg_command_def linux_host_def)
  have d: "ds_command (t_detect tool_kind) = ''kind''"
    by (simp only: tool_kind_def tool.select_convs detect_spec.select_convs)
  have u: "utf8_valid (download_path tool_kind ''/b'')" unfolding download_path_def d by code_simp
  have e: "w_events world_example = []" by (simp add: world_example_def)
  from unverified_download_never_used [OF p find_tool_simps(2) n u i] p i show ?thesis
    unfolding e append_Nil by blast
qed

text \<open>C22: An install that reports a tool as installed leaves a world that has the tool's program at the reported path
  on its search path, provided that asking for a version changes no file; a tool found by the first detection is
  reported without a step.\<close>

theorem install_reports_what_is_there:
  assumes "install_with_progress env i cancel w = (Some (Ok (Installed v path)), w')"
    and "probes_read_only env i"
  shows "tool_present env i path w' \<and>
    (\<forall>w1. detect env i w = (Some (Ok (Installed v path)), w1) \<longrightarrow>
       w' = emit (IStepLine 0 NOTHING_TO_DO) w1)"
  using install_present [OF assms(2,1)] assms(1)
  by (auto simp: install_with_progress_def install_with_progress_preflighted_def)

text \<open>A host whose processes change no file.\<close>

definition reading_host :: host_env where
  "reading_host = (env_example 0)\<lparr>he_spawn := \<lambda>_ _ _. Inr ((child_example 0)\<lparr>ch_effect := \<lambda>n. n\<rparr>)\<rparr>"

definition kubectx_world :: iworld where
  "kubectx_world = world_example\<lparr>w_fs := fs_example\<lparr>fs_nodes :=
     [''.local/bin/kubectx'' \<mapsto> NFile \<lparr>f_bytes = [], f_mode = 493\<rparr>]\<rparr>\<rparr>"

lemma install_reports_what_is_there_witness:
  "\<exists>w'. install_with_progress reading_host ToolKubectx None kubectx_world
       = (Some (Ok (Installed VERSION_UNKNOWN ''.local/bin/kubectx'')), w') \<and>
     tool_present reading_host ToolKubectx ''.local/bin/kubectx'' w'"
proof -
  have d: "t_detect tool_kubectx = \<lparr>ds_command = ''kubectx'', ds_version_args = [''--version''], ds_parse = ShortLine\<rparr>"
    by (simp only: tool_kubectx_def tool.select_convs)
  have dirs: "effective_path_entries (os_at reading_host n) = [''.local/bin'']" for n
    by (simp add: effective_path_entries_def os_at_def reading_host_def env_example_def brew_dirs_def path_entries_def
        dedup_path_entries_def push_missing_def local_bin_dir_def LOCAL_BIN_DIR_NAME_def)
  have t: "env_target (os_at reading_host n) = TargetLinux" for n
    by (simp add: os_at_def reading_host_def env_example_def)
  have run: "run_cmd reading_host c w =
     (Some (Ok \<lparr>out_exit_code = Some 0, out_stdout_lines = [''token: x''], out_stderr_tail = []\<rparr>),
      after_child c ((child_example 0)\<lparr>ch_effect := \<lambda>n. n\<rparr>) w)" for c and w :: iworld
    by (simp add: run_cmd_def reading_host_def env_example_def child_example_def wait_handle_def wait_result_def
        forward_example [simplified] Let_def split: prod.split)
  have f: "find_in_path (os_at reading_host (fs_nodes (w_fs kubectx_world))) [''.local/bin''] ''kubectx''
      = Some ''.local/bin/kubectx''"
  proof -
    have j: "path_join ''.local/bin'' ''kubectx'' = ''.local/bin/kubectx''" by code_simp
    have "lookup_node (fs_nodes (w_fs kubectx_world)) ''.local/bin/kubectx''
        = Some (NFile \<lparr>f_bytes = [], f_mode = 493\<rparr>)"
      by (simp add: kubectx_world_def lookup_node_def eval_nat_numeral)
    then show ?thesis
      using os_at_runnable [of reading_host "fs_nodes (w_fs kubectx_world)" "''.local/bin/kubectx''"]
      by (simp add: j t)
  qed
  have p: "parse_version j ShortLine ''token: x'' = None" for j
  proof -
    have "parse_version3 ''token: x'' = None" "after_sub ''v'' ''token: x'' = None" by code_simp+
    then show ?thesis by simp
  qed
  have "status_of_output reading_host tool_kubectx ''.local/bin/kubectx'' (Inr
      \<lparr>out_exit_code = Some 0, out_stdout_lines = [''token: x''], out_stderr_tail = []\<rparr>)
    = Installed VERSION_UNKNOWN ''.local/bin/kubectx''"
  proof -
    have "str_trim ''token: x'' \<noteq> []" by code_simp
    then show ?thesis
      by (simp add: status_of_output_def out_stdout_def d p Let_def del: parse_version.simps after_sub.simps)
  qed
  then have det: "detect reading_host ToolKubectx kubectx_world
     = (Some (Ok (Installed VERSION_UNKNOWN ''.local/bin/kubectx'')),
        after_child (detect_cmd (os_at reading_host (fs_nodes (w_fs kubectx_world))) tool_kubectx [''.local/bin''])
          ((child_example 0)\<lparr>ch_effect := \<lambda>n. n\<rparr>) kubectx_world)"
    by (simp add: detect_def detect_with_path_def dirs f d run Let_def del: find_in_path.simps)
  obtain w' where w': "install_with_progress reading_host ToolKubectx None kubectx_world
       = (Some (Ok (Installed VERSION_UNKNOWN ''.local/bin/kubectx'')), w')"
    using det by (simp add: install_with_progress_def install_with_progress_preflighted_def)
  have "probes_read_only reading_host ToolKubectx" by (simp add: probes_read_only_def reading_host_def)
  from install_reports_what_is_there [OF w' this] w' show ?thesis by blast
qed

definition has_plan :: "string \<Rightarrow> tool_id \<Rightarrow> platform \<Rightarrow> bool" where
  "has_plan arch i p \<longleftrightarrow>
     (case find_tool i of
        None \<Rightarrow> False
      | Some t \<Rightarrow>
          \<not> (pl_os p = OsWindows \<and> i = ToolKubectx) \<and>
          (pkg_command t p \<noteq> None \<or>
           i \<noteq> ToolDocker \<and> \<not> (pl_os p = OsWindows \<and> arch = ''aarch64'')))"

text \<open>C37: A tool has an install plan on a platform exactly when it is known there, and has a package
  for the package manager found or else a pinned binary download.\<close>

theorem plan_exists_iff: "is_ok (plan_install_for_with arch i p bin_dir caps) \<longleftrightarrow> has_plan arch i p"
proof -
  obtain t where t: "find_tool i = Some t" "t_id t = i" using find_tool_total by blast
  have bin: "is_ok (build_binary_steps arch t b p bin_dir caps)
      \<longleftrightarrow> platform_key p (arch_name arch) \<in> set (map fst (bd_sha256 b))" for b
    using map_of_eq_None_iff [of "bd_sha256 b" "platform_key p (arch_name arch)"]
    by (cases "map_of (bd_sha256 b) (platform_key p (arch_name arch))")
      (simp_all add: build_binary_steps_def build_binary_steps_windows_def expected_digest_def
        is_ok_def Let_def)
  have plan: "is_ok (plan_install_for_with arch i p bin_dir caps) \<longleftrightarrow>
      \<not> (pl_os p = OsWindows \<and> ir_windows_unsupported (t_install t)) \<and>
      (pkg_command t p \<noteq> None \<or>
       (\<exists>b. ir_binary (t_install t) = Some b \<and> is_ok (build_binary_steps arch t b p bin_dir caps)))"
    using t
    by (auto simp: plan_install_for_with_def is_ok_iff split: option.split)
  have keys: "(\<exists>b. ir_binary (t_install t) = Some b \<and> is_ok (build_binary_steps arch t b p bin_dir caps)) \<longleftrightarrow>
      i \<noteq> ToolDocker \<and>
      platform_key p (arch_name arch) \<in> set (if i = ToolKubectx then unix_keys else all_keys)"
    unfolding bin using t registry_binaries by (cases i) (auto simp del: set_map)
  have uns: "ir_windows_unsupported (t_install t) \<longleftrightarrow> i = ToolKubectx"
    using t registry_unsupported by (cases i) auto
  show ?thesis
    unfolding plan keys uns has_plan_def using platform_key_in_all [of p arch] t by auto
qed


text \<open>On an ARM host the URL of a binary install is the one for amd64 while the pinned digest is
  the one for arm64: \<open>render_platform\<close> compares the name \<open>arm64\<close> it is given with \<open>aarch64\<close>.\<close>

theorem arm_host_downloads_amd64:
  "\<exists>plan dl. plan_install_for_with ''aarch64'' ToolKind linux_host ''/h'' CURL_ALL = Ok plan \<and>
     dl \<in> set (ip_steps plan) \<and> is_curl dl \<and>
     last (is_args dl) = ''https://kind.sigs.k8s.io/dl/v0.33.0/kind-linux-amd64'' \<and>
     map dv_expected_sha256 (ip_verify plan)
       = [''20022bee6cfcd5086cb7234d218e3454e6090022f2a8f55d1fa7fcf42c3867a2'']"
proof -
  have k: "platform_key linux_host (arch_name ''aarch64'') = ''linux-arm64''" by code_simp
  note p = kind_plan_on_linux [OF k kind_binary_facts(5), of "''/h''" CURL_ALL]
  have u: "render_platform ''https://kind.sigs.k8s.io/dl/v0.33.0/kind-{os}-{arch}'' linux_host (arch_name ''aarch64'')
      = ''https://kind.sigs.k8s.io/dl/v0.33.0/kind-linux-amd64''" by code_simp
  show ?thesis
    unfolding p u
    by (intro exI conjI, rule refl)
      (auto simp: is_curl_istep curl_download_args_def download_verify_of_def)
qed

text \<open>The gate matches the lossy text of the download path against the path itself, so in a home
  directory whose name is not UTF-8 it finds no check and the download is used unverified.\<close>

theorem gate_fails_open_on_odd_paths:
  "\<exists>plan dl. plan_install_for_with ''x86_64'' ToolKind linux_host [CHR 0xFF] CURL_ALL = Ok plan \<and>
     dl \<in> set (ip_steps plan) \<and> is_curl dl \<and> step_check plan dl = None"
proof -
  have k: "platform_key linux_host (arch_name ''x86_64'') = ''linux-amd64''" by code_simp
  note p = kind_plan_on_linux [OF k kind_binary_facts(4), of "[CHR 0xFF]" CURL_ALL]
  have d: "ds_command (t_detect tool_kind) = ''kind''"
    by (simp only: tool_kind_def tool.select_convs detect_spec.select_convs)
  have ne: "path_key (download_path tool_kind [CHR 0xFF]) \<noteq> path_key (utf8_lossy (download_path tool_kind [CHR 0xFF]))"
    unfolding download_path_def d by code_simp
  show ?thesis
    unfolding p
    by (intro exI conjI, rule refl)
      (auto simp: is_curl_istep step_check_def arg_after_curl download_verify_of_def ne)
qed

end
