(* ===== verification/TopologyModel.thy ===== *)
theory TopologyModel
  imports StoreLaws "HOL-Library.Multiset"
begin

text \<open>
  The typed view of a cluster and its layered layout (\<open>k8s/model.rs\<close>).  A \<open>BTreeMap\<close> of
  labels is its list of entries in key order.  Times are nanoseconds.  Positions are \<open>f32\<close> values: a
  non-negative value is the natural number of units of \<open>2 ^ -88\<close> it consists of, and every
  operation rounds to 24 significant bits, ties to even, as IEEE 754 does; the quotients and products formed
  here lie between \<open>2 ^ -64\<close> and \<open>2 ^ 72\<close>, or are 0, so neither the range nor the unit is left.
\<close>

section \<open>Objects\<close>

type_synonym labels = "(string \<times> string) list"

datatype workload_kind = Deployment | StatefulSet | DaemonSet | Job | CronJob

fun workload_kind_str :: "workload_kind \<Rightarrow> string" where
  "workload_kind_str Deployment = ''Deployment''"
| "workload_kind_str StatefulSet = ''StatefulSet''"
| "workload_kind_str DaemonSet = ''DaemonSet''"
| "workload_kind_str Job = ''Job''"
| "workload_kind_str CronJob = ''CronJob''"

record workload =
  wl_kind :: workload_kind
  wl_name :: string
  wl_ns :: string
  wl_selector :: labels
  wl_labels :: labels

record owner_ref =
  or_kind :: string
  or_name :: string

datatype pod_phase = PodRunning | PodPending | PodSucceeded | PodFailed | PodUnknown

definition pod_phase_from_str :: "string option \<Rightarrow> pod_phase" where
  "pod_phase_from_str phase =
     (case phase of
        Some s \<Rightarrow>
          if s = ''Running'' then PodRunning
          else if s = ''Pending'' then PodPending
          else if s = ''Succeeded'' then PodSucceeded
          else if s = ''Failed'' then PodFailed
          else PodUnknown
      | None \<Rightarrow> PodUnknown)"

record pod =
  kp_name :: string
  kp_ns :: string
  kp_owner :: "owner_ref option"
  kp_phase :: pod_phase
  kp_node :: "string option"
  kp_ready_containers :: "32 word"
  kp_total_containers :: "32 word"

record service_port =
  sp_name :: string
  sp_port :: int
  sp_target_port :: "string option"
  sp_node_port :: "int option"
  sp_protocol :: string

record service =
  sv_name :: string
  sv_ns :: string
  sv_selector :: labels
  sv_ports :: "service_port list"

record ingress =
  ig_name :: string
  ig_ns :: string
  ig_class :: string
  ig_backend_services :: "string list"
  ig_hosts :: "string list"

datatype node_role = ControlPlaneNode | WorkerNode

record cluster_node =
  cn_name :: string
  cn_role :: node_role
  cn_ready :: bool

record k8s_event =
  ke_ns :: string
  ke_kind :: string
  ke_name :: string
  ke_reason :: string
  ke_message :: string
  ke_timestamp :: int

section \<open>Positions\<close>

type_synonym f32 = nat

definition F32_ONE :: f32 where "F32_ONE = 2 ^ 88"

definition F32_MAX :: f32 where "F32_MAX = (2 ^ 24 - 1) * 2 ^ 104 * F32_ONE"

fun excess_bits :: "nat \<Rightarrow> nat" where
  "excess_bits n = (if n < 2 ^ 24 then 0 else Suc (excess_bits (n div 2)))"

declare excess_bits.simps [simp del]

definition f32_round :: "nat \<Rightarrow> nat \<Rightarrow> f32" where
  "f32_round p q =
     (let d = q * 2 ^ excess_bits (p div q);
          m = p div d;
          r = p mod d
      in (m + (if 2 * r > d \<or> (2 * r = d \<and> odd m) then 1 else 0)) * 2 ^ excess_bits (p div q))"

definition f32_of_nat :: "nat \<Rightarrow> f32" where
  "f32_of_nat n = f32_round (n * F32_ONE) 1"

definition f32_div :: "f32 \<Rightarrow> f32 \<Rightarrow> f32" where
  "f32_div a b = f32_round (a * F32_ONE) b"

definition f32_mul :: "f32 \<Rightarrow> f32 \<Rightarrow> f32" where
  "f32_mul a b = f32_round (a * b) F32_ONE"

definition LAYER_SPACING :: f32 where "LAYER_SPACING = f32_of_nat 140"
definition NODE_SPACING :: f32 where "NODE_SPACING = f32_of_nat 180"

section \<open>The graph and its layout\<close>

datatype layout_kind = LNamespace | LWorkload | LPod | LService | LIngress

record layout_node =
  ln_id :: string
  ln_kind :: layout_kind
  ln_name :: string
  ln_x :: f32
  ln_y :: f32

record topology_graph =
  tg_namespaces :: "string list"
  tg_workloads :: "workload list"
  tg_pods :: "pod list"
  tg_services :: "service list"
  tg_ingresses :: "ingress list"
  tg_nodes :: "cluster_node list"
  tg_events :: "k8s_event list"
  tg_layout :: "layout_node list"

fun layer_rank :: "layout_kind \<Rightarrow> nat" where
  "layer_rank LNamespace = 0"
| "layer_rank LWorkload = 1"
| "layer_rank LPod = 2"
| "layer_rank LService = 3"
| "layer_rank LIngress = 4"

fun layout_kind_str :: "layout_kind \<Rightarrow> string" where
  "layout_kind_str LNamespace = ''namespace''"
| "layout_kind_str LWorkload = ''workload''"
| "layout_kind_str LPod = ''pod''"
| "layout_kind_str LService = ''service''"
| "layout_kind_str LIngress = ''ingress''"

definition layout_id :: "layout_kind \<Rightarrow> string \<Rightarrow> string \<Rightarrow> string" where
  "layout_id k ns name =
     (if ns = [] then layout_kind_str k @ ''/'' @ name
      else layout_kind_str k @ ''/'' @ ns @ ''/'' @ name)"

definition lnode :: "layout_kind \<Rightarrow> string \<Rightarrow> string \<Rightarrow> layout_node" where
  "lnode k ns name = \<lparr>ln_id = layout_id k ns name, ln_kind = k, ln_name = name, ln_x = 0, ln_y = 0\<rparr>"

definition service_id :: "service \<Rightarrow> string" where
  "service_id s = layout_id LService (sv_ns s) (sv_name s)"

definition workload_id :: "workload \<Rightarrow> string" where
  "workload_id w = layout_id LWorkload (wl_ns w) (wl_name w)"

definition selector_matches :: "labels \<Rightarrow> labels \<Rightarrow> bool" where
  "selector_matches sel ls \<longleftrightarrow> sel \<noteq> [] \<and> list_all (\<lambda>(k, v). map_of ls k = Some v) sel"

text \<open>The objects of each layer, in the order of the graph.\<close>

definition namespace_nodes :: "topology_graph \<Rightarrow> layout_node list" where
  "namespace_nodes g = map (lnode LNamespace []) (tg_namespaces g)"

definition workload_nodes :: "topology_graph \<Rightarrow> layout_node list" where
  "workload_nodes g = map (\<lambda>w. lnode LWorkload (wl_ns w) (wl_name w)) (tg_workloads g)"

definition pod_nodes :: "topology_graph \<Rightarrow> layout_node list" where
  "pod_nodes g = map (\<lambda>p. lnode LPod (kp_ns p) (kp_name p)) (tg_pods g)"

definition service_nodes :: "topology_graph \<Rightarrow> layout_node list" where
  "service_nodes g = map (\<lambda>s. lnode LService (sv_ns s) (sv_name s)) (tg_services g)"

definition ingress_nodes :: "topology_graph \<Rightarrow> layout_node list" where
  "ingress_nodes g = map (\<lambda>i. lnode LIngress (ig_ns i) (ig_name i)) (tg_ingresses g)"

definition by_name :: "layout_node list \<Rightarrow> layout_node list" where
  "by_name ns = sort_key ln_name ns"

text \<open>The index of each workload id in its row; of equal ids the last one is kept.\<close>

definition row_position :: "layout_node list \<Rightarrow> string \<Rightarrow> nat option" where
  "row_position row i = map_of (rev (zip (map ln_id row) [0..<length row])) i"

definition service_positions :: "topology_graph \<Rightarrow> layout_node list \<Rightarrow> service \<Rightarrow> nat list" where
  "service_positions g row s =
     List.map_filter (\<lambda>w. row_position row (workload_id w))
       (filter (\<lambda>w. wl_ns w = sv_ns s \<and> selector_matches (sv_selector s) (wl_labels w)) (tg_workloads g))"

definition barycenter :: "topology_graph \<Rightarrow> layout_node list \<Rightarrow> service \<Rightarrow> f32" where
  "barycenter g row s =
     (let ps = service_positions g row s
      in if ps = [] then F32_MAX else f32_div (f32_of_nat (sum_list ps)) (f32_of_nat (length ps)))"

definition service_order :: "topology_graph \<Rightarrow> layout_node list \<Rightarrow> (f32 \<times> string) list" where
  "service_order g row = map (\<lambda>s. (barycenter g row s, service_id s)) (tg_services g)"

fun take_services :: "string list \<Rightarrow> layout_node list \<Rightarrow> layout_node list \<times> layout_node list" where
  "take_services [] m = ([], m)"
| "take_services (i # ids) m =
     (case named_get ln_id m i of
        Some n \<Rightarrow> (let (ordered, rest) = take_services ids (named_del ln_id i m) in (n # ordered, rest))
      | None \<Rightarrow> take_services ids m)"

definition order_services :: "topology_graph \<Rightarrow> layout_node list \<Rightarrow> layout_node list \<Rightarrow> layout_node list" where
  "order_services g row bucket =
     (let order = service_order g row in
      if order = [] then bucket
      else
        (let service_map = fold (named_put ln_id) bucket [];
             (ordered, rest) = take_services (map snd (sort_key fst order)) service_map
         in ordered @ by_name (sort_key ln_id rest)))"

definition place_row :: "nat \<Rightarrow> layout_node list \<Rightarrow> layout_node list" where
  "place_row rank row =
     map (\<lambda>(i, n). n\<lparr>ln_x := f32_mul (f32_of_nat i) NODE_SPACING,
                     ln_y := f32_mul (f32_of_nat rank) LAYER_SPACING\<rparr>) (enumerate 0 row)"

definition layout_rows :: "topology_graph \<Rightarrow> layout_node list list" where
  "layout_rows g =
     (let workloads = by_name (workload_nodes g)
      in [by_name (namespace_nodes g), workloads, by_name (pod_nodes g),
          order_services g workloads (by_name (service_nodes g)), by_name (ingress_nodes g)])"

definition layout :: "topology_graph \<Rightarrow> layout_node list" where
  "layout g = concat (map (\<lambda>(rank, row). place_row rank row) (enumerate 0 (layout_rows g)))"

section \<open>Rounding\<close>

lemma excess_bits_le: "n < 2 ^ (24 + j) \<Longrightarrow> excess_bits n \<le> j"
proof (induction n arbitrary: j rule: excess_bits.induct)
  case (1 n)
  show ?case
  proof (cases "n < 2 ^ 24")
    case True
    then show ?thesis by (subst excess_bits.simps) simp
  next
    case False
    then obtain i where j: "j = Suc i" using 1(2) by (cases j) auto
    then have "n < 2 ^ (24 + i) * 2" using 1(2) by (simp add: power_add mult.commute)
    then have "n div 2 < 2 ^ (24 + i)" by (rule less_mult_imp_div_less)
    then show ?thesis using 1(1) [OF False, of i] False j by (subst excess_bits.simps) simp
  qed
qed

lemma f32_round_exact:
  assumes "n < 2 ^ 24" "0 < q" shows "f32_round (q * (n * 2 ^ j)) q = n * 2 ^ j"
proof -
  let ?s = "n * 2 ^ j"
  have "?s < 2 ^ (24 + j)" using assms by (simp add: power_add)
  then have d: "2 ^ excess_bits ?s dvd ?s"
    by (meson dvd_mult dvd_refl excess_bits_le le_imp_power_dvd)
  then have "(q * ?s) mod (q * 2 ^ excess_bits ?s) = 0" by simp
  then show ?thesis using assms d by (simp add: f32_round_def Let_def)
qed

lemma f32_of_nat_exact: "n < 2 ^ 24 \<Longrightarrow> f32_of_nat n = n * F32_ONE"
  using f32_round_exact [of n 1 88] by (simp add: f32_of_nat_def F32_ONE_def)

lemma f32_mul_exact:
  assumes "a * b < 2 ^ 24" "a < 2 ^ 24" "b < 2 ^ 24"
  shows "f32_mul (f32_of_nat a) (f32_of_nat b) = a * b * F32_ONE"
  using f32_round_exact [OF assms(1), of F32_ONE 88] assms
  by (simp add: f32_mul_def f32_of_nat_exact F32_ONE_def mult.assoc mult.commute mult.left_commute)

lemma excess_bits_pow: "0 < excess_bits n \<Longrightarrow> 2 ^ excess_bits n \<le> n"
proof (induction n rule: excess_bits.induct)
  case (1 n)
  show ?case
  proof (cases "n < 2 ^ 24")
    case True
    then have "excess_bits n = 0" by (subst excess_bits.simps) simp
    then show ?thesis using 1(2) by simp
  next
    case False
    have "2 ^ excess_bits (n div 2) \<le> n div 2"
      using 1(1) [OF False] False by (cases "excess_bits (n div 2)") auto
    then show ?thesis using False by (subst excess_bits.simps) simp
  qed
qed

lemma f32_round_le: "f32_round p q \<le> 2 * (p div q) + 1"
proof -
  let ?k = "excess_bits (p div q)"
  have "p div (q * 2 ^ ?k) * 2 ^ ?k \<le> p div q"
    by (simp add: div_mult2_eq)
  moreover have "2 ^ ?k \<le> p div q + 1"
    using excess_bits_pow [of "p div q"] by (cases "?k = 0") auto
  ultimately show ?thesis by (auto simp: f32_round_def Let_def)
qed

lemma f32_round_pos: assumes "1 \<le> p div q" shows "1 \<le> f32_round p q"
proof -
  let ?k = "excess_bits (p div q)"
  have "2 ^ ?k \<le> p div q" using excess_bits_pow [of "p div q"] assms by (cases "?k = 0") auto
  then have "1 \<le> p div (q * 2 ^ ?k)" by (simp add: div_mult2_eq Suc_leI div_greater_zero_iff)
  then show ?thesis by (simp add: f32_round_def Let_def)
qed

section \<open>Rows\<close>

lemma mset_named_del:
  assumes "named_ok key m" "named_get key m k = Some e"
  shows "mset m = add_mset e (mset (named_del key k m))"
  using assms
proof (induction m)
  case Nil
  then show ?case by (simp add: named_get_def)
next
  case (Cons x m)
  have "filter (\<lambda>y. key y \<noteq> key x) m = m" using Cons.prems
    by (auto simp: named_ok_def filter_id_conv) (metis imageI)
  then show ?case using Cons
    by (cases "key x = k") (auto simp: named_get_def named_ok_def named_del_def)
qed

lemma take_services_mset:
  "named_ok ln_id m \<Longrightarrow> take_services ids m = (out, rest) \<Longrightarrow> mset out + mset rest = mset m"
proof (induction ids m arbitrary: out rest rule: take_services.induct)
  case (2 i ids m)
  then show ?case
    by (auto simp: named_ok_del Let_def mset_named_del split: option.splits prod.splits)
qed simp

lemma take_services_ids:
  assumes "named_ok ln_id m" "distinct ids" "set ids = ln_id ` set m"
  shows "map ln_id (fst (take_services ids m)) = ids \<and> snd (take_services ids m) = []"
  using assms
proof (induction ids m rule: take_services.induct)
  case (2 i ids m)
  then obtain n where n: "named_get ln_id m i = Some n" "ln_id n = i"
    using named_names [of i ln_id m] by (auto simp: named_get_def find_Some_iff)
  then have "set ids = ln_id ` set (named_del ln_id i m)"
    using 2(4,5) by (auto simp: named_del_def image_iff) (metis insert_iff image_iff)+
  then show ?case
    using 2(2) [OF n(1)] 2(3,4) n by (auto simp: named_ok_del Let_def split: prod.split)
qed simp

lemma named_put_fold: "distinct (map nm (m @ xs)) \<Longrightarrow> fold (named_put nm) xs m = m @ xs"
proof (induction xs arbitrary: m)
  case (Cons a xs)
  then have "filter (\<lambda>e. nm e \<noteq> nm a) m = m" by (auto simp: filter_id_conv image_iff)
  then have "named_put nm a m = m @ [a]" by (simp add: named_put_def named_upsert_def)
  then show ?case using Cons by simp
qed simp

lemma sort_key_map_pair: "sort_key fst (map (\<lambda>s. (f s, g s)) xs) = map (\<lambda>s. (f s, g s)) (sort_key f xs)"
proof -
  have "insort_key fst (f x, g x) (map (\<lambda>s. (f s, g s)) ys) = map (\<lambda>s. (f s, g s)) (insort_key f x ys)" for x ys
    by (induction ys) auto
  then show ?thesis by (induction xs) auto
qed

lemma order_services_spec:
  assumes "distinct (map service_id (tg_services g))" and "mset bucket = mset (service_nodes g)"
  shows "mset (order_services g row bucket) = mset (service_nodes g) \<and>
     map ln_id (order_services g row bucket)
       = map service_id (sort_key (barycenter g row) (tg_services g))"
proof (cases "tg_services g = []")
  case True
  then show ?thesis using assms(2) by (simp add: order_services_def service_order_def service_nodes_def)
next
  case False
  have nodes: "map ln_id (service_nodes g) = map service_id (tg_services g)"
    by (simp add: service_nodes_def lnode_def service_id_def)
  have eq: "mset (map ln_id bucket) = mset (map service_id (tg_services g))"
    using assms(2) nodes by (metis mset_map)
  then have d: "distinct (map ln_id bucket)" using assms(1) by (metis mset_eq_imp_distinct_iff)
  have ids: "map snd (sort_key fst (service_order g row))
      = map service_id (sort_key (barycenter g row) (tg_services g))" (is "_ = ?ids")
    by (simp add: service_order_def sort_key_map_pair)
  have "mset ?ids = mset (map ln_id bucket)" using eq by simp
  then have i: "distinct ?ids" "set ?ids = ln_id ` set bucket"
    using d by (metis mset_eq_imp_distinct_iff) (metis \<open>mset ?ids = _\<close> mset_eq_setD set_map)
  obtain out rest where t: "take_services ?ids bucket = (out, rest)" by fastforce
  have ok: "named_ok ln_id bucket" using d by (simp add: named_ok_def)
  from take_services_ids [OF ok i] t have "map ln_id out = ?ids" "rest = []" by auto
  moreover have "mset out = mset bucket" using take_services_mset [OF ok t] \<open>rest = []\<close> by simp
  moreover have "fold (named_put ln_id) bucket [] = bucket"
    using named_put_fold [of ln_id "[]" bucket] d by simp
  moreover have "service_order g row \<noteq> []" using False by (simp add: service_order_def)
  ultimately show ?thesis
    using assms(2) ids t by (simp add: order_services_def by_name_def)
qed

text \<open>A row is drawn as it is, at one height and at growing distances.\<close>

lemma place_row_nodes:
  "map (\<lambda>n. n\<lparr>ln_x := 0, ln_y := 0\<rparr>) (place_row rank row) = map (\<lambda>n. n\<lparr>ln_x := 0, ln_y := 0\<rparr>) row"
  by (rule nth_equalityI) (simp_all add: place_row_def nth_enumerate_eq)

lemma place_row_xs:
  assumes "length row \<le> 93000"
  shows "map ln_x (place_row rank row) = map (\<lambda>i. i * 180 * F32_ONE) [0..<length row]"
proof (rule nth_equalityI)
  fix i assume "i < length (map ln_x (place_row rank row))"
  then have i: "i < length row" by (simp add: place_row_def)
  then have "f32_mul (f32_of_nat i) NODE_SPACING = i * 180 * F32_ONE"
    unfolding NODE_SPACING_def using assms by (intro f32_mul_exact) auto
  then show "map ln_x (place_row rank row) ! i = map (\<lambda>i. i * 180 * F32_ONE) [0..<length row] ! i"
    using i by (simp add: place_row_def nth_enumerate_eq)
qed (simp add: place_row_def)

lemma place_row_ys:
  assumes "rank < 5" "n \<in> set (place_row rank row)"
  shows "ln_y n = rank * 140 * F32_ONE"
proof -
  have "f32_mul (f32_of_nat rank) LAYER_SPACING = rank * 140 * F32_ONE"
    unfolding LAYER_SPACING_def using assms(1) by (intro f32_mul_exact) auto
  then show ?thesis using assms(2) by (auto simp: place_row_def)
qed

lemma place_row_distinct:
  assumes "length row \<le> 93000"
  shows "distinct (map (\<lambda>n. (ln_x n, ln_y n)) (place_row rank row))"
proof -
  have "distinct (map fst (map (\<lambda>n. (ln_x n, ln_y n)) (place_row rank row)))"
    using place_row_xs [OF assms, of rank]
    by (simp add: comp_def distinct_map inj_on_def F32_ONE_def)
  then show ?thesis by (auto simp: distinct_map inj_on_def)
qed

lemma layout_eq:
  "layout g = place_row 0 (by_name (namespace_nodes g)) @ place_row 1 (by_name (workload_nodes g))
     @ place_row 2 (by_name (pod_nodes g)) @ place_row 3 (layout_rows g ! 3)
     @ place_row 4 (by_name (ingress_nodes g))"
  by (simp add: layout_def layout_rows_def Let_def eval_nat_numeral)

section \<open>Properties\<close>

definition graph_nodes :: "topology_graph \<Rightarrow> layout_node list" where
  "graph_nodes g = namespace_nodes g @ workload_nodes g @ pod_nodes g @ service_nodes g @ ingress_nodes g"

lemma service_row:
  assumes "distinct (map service_id (tg_services g))"
  shows "mset (layout_rows g ! 3) = mset (service_nodes g) \<and>
     map ln_id (layout_rows g ! 3)
       = map service_id (sort_key (barycenter g (by_name (workload_nodes g))) (tg_services g))"
  using order_services_spec [OF assms, of "by_name (service_nodes g)" "by_name (workload_nodes g)"]
  by (simp add: layout_rows_def Let_def by_name_def)

lemma place_rows_apart:
  assumes "length row \<le> 93000" "rank < 5" "\<And>n. n \<in> set ns \<Longrightarrow> ln_y n \<noteq> rank * 140 * F32_ONE"
    and "distinct (map (\<lambda>n. (ln_x n, ln_y n)) ns)"
  shows "distinct (map (\<lambda>n. (ln_x n, ln_y n)) (place_row rank row @ ns))"
  using assms(3,4) place_row_distinct [OF assms(1), of rank] place_row_ys [OF assms(2), of _ row]
  by (simp only: map_append distinct_append) fastforce

definition unplaced :: "layout_node \<Rightarrow> layout_node" where
  "unplaced n = n\<lparr>ln_x := 0, ln_y := 0\<rparr>"

lemma unplaced_graph_nodes: "n \<in> set (graph_nodes g) \<Longrightarrow> unplaced n = n"
  by (auto simp: unplaced_def graph_nodes_def namespace_nodes_def workload_nodes_def pod_nodes_def
      service_nodes_def ingress_nodes_def lnode_def)

lemma layout_unplaced:
  "map unplaced (layout g) = map unplaced (by_name (namespace_nodes g) @ by_name (workload_nodes g)
     @ by_name (pod_nodes g) @ layout_rows g ! 3 @ by_name (ingress_nodes g))"
  using place_row_nodes by (simp add: layout_eq unplaced_def [abs_def])

lemma row_kinds:
  "ln_kind ` set (namespace_nodes g) \<subseteq> {LNamespace}" "ln_kind ` set (workload_nodes g) \<subseteq> {LWorkload}"
  "ln_kind ` set (pod_nodes g) \<subseteq> {LPod}" "ln_kind ` set (service_nodes g) \<subseteq> {LService}"
  "ln_kind ` set (ingress_nodes g) \<subseteq> {LIngress}"
  by (auto simp: namespace_nodes_def workload_nodes_def pod_nodes_def
      service_nodes_def ingress_nodes_def lnode_def)

lemma place_row_kinds: "ln_kind ` set (place_row rank row) = ln_kind ` set row"
proof -
  have "map ln_kind (place_row rank row) = map ln_kind row"
    by (rule nth_equalityI) (simp_all add: place_row_def nth_enumerate_eq)
  then show ?thesis by (metis set_map)
qed

lemma place_row_layer:
  assumes "ln_kind ` set row \<subseteq> {k}" "layer_rank k = rank" "n \<in> set (place_row rank row)"
  shows "ln_y n = f32_of_nat (140 * layer_rank (ln_kind n))"
proof -
  have k: "ln_kind n = k" using assms place_row_kinds [of rank row] by blast
  have "rank < 5" using assms(2) by (cases k) auto
  then show ?thesis
    using place_row_ys [OF _ assms(3)] k assms(2) by (simp add: f32_of_nat_exact mult.commute)
qed

lemma layout_permutes:
  assumes "distinct (map service_id (tg_services g))"
  shows "mset (map unplaced (layout g)) = mset (graph_nodes g)"
proof -
  have s: "mset (layout_rows g ! 3) = mset (service_nodes g)" using service_row [OF assms] ..
  have m: "mset (by_name (namespace_nodes g) @ by_name (workload_nodes g) @ by_name (pod_nodes g)
      @ layout_rows g ! 3 @ by_name (ingress_nodes g)) = mset (graph_nodes g)" (is "mset ?ns = _")
    using s by (simp add: by_name_def graph_nodes_def)
  have e: "set ?ns = set (graph_nodes g)" using m by (rule mset_eq_setD)
  have "map unplaced ?ns = ?ns"
    by (rule map_idI, rule unplaced_graph_nodes, simp only: e)
  then show ?thesis by (simp only: layout_unplaced m)
qed

text \<open>C27: The layout draws every object of the graph exactly once, objects of a kind at the height of
  their layer, and no two at the same place, as long as no two services share an id and no layer has
  more than 93000 objects (beyond that the positions leave the exact range of \<open>f32\<close>).\<close>

theorem layout_complete:
  assumes "distinct (map service_id (tg_services g))"
    and "length (graph_nodes g) \<le> 93000"
  shows "mset (map unplaced (layout g)) = mset (graph_nodes g)
     \<and> distinct (map (\<lambda>n. (ln_x n, ln_y n)) (layout g))
     \<and> list_all (\<lambda>n. ln_y n = f32_of_nat (140 * layer_rank (ln_kind n))) (layout g)"
proof (intro conjI)
  have s: "mset (layout_rows g ! 3) = mset (service_nodes g)" using service_row [OF assms(1)] ..
  show "mset (map unplaced (layout g)) = mset (graph_nodes g)" using assms(1) by (rule layout_permutes)
  have s3: "set (layout_rows g ! 3) = set (service_nodes g)" using s by (rule mset_eq_setD)
  have k: "ln_kind ` set (by_name (namespace_nodes g)) \<subseteq> {LNamespace}"
    "ln_kind ` set (by_name (workload_nodes g)) \<subseteq> {LWorkload}"
    "ln_kind ` set (by_name (pod_nodes g)) \<subseteq> {LPod}" "ln_kind ` set (layout_rows g ! 3) \<subseteq> {LService}"
    "ln_kind ` set (by_name (ingress_nodes g)) \<subseteq> {LIngress}"
    using row_kinds [of g] s3 by (simp_all add: by_name_def)
  show "list_all (\<lambda>n. ln_y n = f32_of_nat (140 * layer_rank (ln_kind n))) (layout g)"
    using k(1) [THEN place_row_layer, OF layer_rank.simps(1)] k(2) [THEN place_row_layer, OF layer_rank.simps(2)]
      k(3) [THEN place_row_layer, OF layer_rank.simps(3)] k(4) [THEN place_row_layer, OF layer_rank.simps(4)]
      k(5) [THEN place_row_layer, OF layer_rank.simps(5)]
    unfolding layout_eq list_all_append by (simp add: list_all_iff)
  have l: "length (by_name (namespace_nodes g)) \<le> 93000" "length (by_name (workload_nodes g)) \<le> 93000"
    "length (by_name (pod_nodes g)) \<le> 93000" "length (layout_rows g ! 3) \<le> 93000"
    "length (by_name (ingress_nodes g)) \<le> 93000"
    using assms(2) mset_eq_length [OF s] by (simp_all add: by_name_def graph_nodes_def)
  show "distinct (map (\<lambda>n. (ln_x n, ln_y n)) (layout g))"
    unfolding layout_eq
    by (intro place_rows_apart place_row_distinct l) (auto dest!: place_row_ys [rotated] simp: F32_ONE_def)
qed

definition graph_example :: topology_graph where
  "graph_example =
     \<lparr>tg_namespaces = [''default''],
      tg_workloads = [\<lparr>wl_kind = Deployment, wl_name = ''api'', wl_ns = ''default'', wl_selector = [],
                        wl_labels = [(''app'', ''api'')]\<rparr>],
      tg_pods = [],
      tg_services = [\<lparr>sv_name = ''a'', sv_ns = ''default'', sv_selector = [], sv_ports = []\<rparr>,
                     \<lparr>sv_name = ''b'', sv_ns = ''default'', sv_selector = [(''app'', ''api'')], sv_ports = []\<rparr>],
      tg_ingresses = [], tg_nodes = [], tg_events = [], tg_layout = []\<rparr>"

lemma graph_example_ids: "distinct (map service_id (tg_services graph_example))"
  by (simp add: graph_example_def service_id_def layout_id_def)

lemma layout_complete_witness: "length (layout graph_example) = 4"
proof -
  have "length (graph_nodes graph_example) = 4"
    by (simp add: graph_nodes_def graph_example_def namespace_nodes_def workload_nodes_def pod_nodes_def
        service_nodes_def ingress_nodes_def)
  then have "mset (map unplaced (layout graph_example)) = mset (graph_nodes graph_example)"
    using layout_complete [OF graph_example_ids] by simp
  from mset_eq_length [OF this] \<open>length (graph_nodes graph_example) = 4\<close> show ?thesis by simp
qed

definition connected :: "topology_graph \<Rightarrow> service \<Rightarrow> bool" where
  "connected g s \<longleftrightarrow>
     list_ex (\<lambda>w. wl_ns w = sv_ns s \<and> selector_matches (sv_selector s) (wl_labels w)) (tg_workloads g)"

lemma selector_matches_iff:
  "selector_matches sel ls \<longleftrightarrow> sel \<noteq> [] \<and> (\<forall>(k, v) \<in> set sel. map_of ls k = Some v)"
  by (simp add: selector_matches_def list_all_iff)

lemma row_position_Some: "i \<in> ln_id ` set row \<Longrightarrow> row_position row i \<noteq> None"
proof -
  have "fst ` set (zip (map ln_id row) [0..<length row]) = ln_id ` set row"
    by (metis length_map length_upt map_fst_zip minus_nat.diff_0 set_map)
  then show "i \<in> ln_id ` set row \<Longrightarrow> row_position row i \<noteq> None"
    by (simp add: row_position_def map_of_eq_None_iff)
qed

lemma row_position_less: "row_position row i = Some j \<Longrightarrow> j < length row"
  by (auto simp: row_position_def dest!: map_of_SomeD set_zip_rightD)

lemma service_positions_connected:
  "service_positions g (by_name (workload_nodes g)) s \<noteq> [] \<longleftrightarrow> connected g s"
proof -
  have "row_position (by_name (workload_nodes g)) (workload_id w) \<noteq> None" if "w \<in> set (tg_workloads g)" for w
    using that by (intro row_position_Some)
      (force simp: by_name_def workload_nodes_def lnode_def workload_id_def)
  then show ?thesis
    by (auto simp: service_positions_def connected_def List.map_filter_def filter_empty_conv list_ex_iff)
qed

lemma barycenter_connected:
  assumes "length (tg_workloads g) \<le> 93000" and "connected g s"
  shows "barycenter g (by_name (workload_nodes g)) s < F32_MAX"
proof -
  let ?row = "by_name (workload_nodes g)"
  let ?ps = "service_positions g ?row s"
  have row: "length ?row \<le> 93000" using assms(1) by (simp add: by_name_def workload_nodes_def)
  have "length ?ps \<le> length (tg_workloads g)"
    by (simp add: service_positions_def List.map_filter_def le_trans [OF length_filter_le])
  moreover have "j \<le> 93000" if j: "j \<in> set ?ps" for j
  proof -
    obtain i where "row_position ?row i = Some j"
      using j by (auto simp: service_positions_def List.map_filter_def)
    from row_position_less [OF this] row show ?thesis by simp
  qed
  ultimately have "sum_list ?ps \<le> length ?ps * 93000"
    using sum_list_mono [of ?ps "\<lambda>j. j" "\<lambda>_. 93000"] by (simp add: sum_list_triv)
  then have s: "sum_list ?ps \<le> 93000 * 93000"
    using \<open>length ?ps \<le> _\<close> assms(1) by (meson le_trans mult_le_mono1)
  have "f32_of_nat (sum_list ?ps) \<le> 2 * (sum_list ?ps * F32_ONE) + 1"
    using f32_round_le [of "sum_list ?ps * F32_ONE" 1] by (simp add: f32_of_nat_def)
  also have "\<dots> \<le> 2 * (93000 * 93000 * F32_ONE) + 1" using s by simp
  finally have a: "f32_of_nat (sum_list ?ps) \<le> 2 * (93000 * 93000 * F32_ONE) + 1" .
  have "barycenter g ?row s = f32_div (f32_of_nat (sum_list ?ps)) (f32_of_nat (length ?ps))"
    using assms(2) service_positions_connected [of g s] by (simp add: barycenter_def Let_def)
  also have "\<dots> \<le> 2 * (f32_of_nat (sum_list ?ps) * F32_ONE) + 1"
    unfolding f32_div_def
    by (rule le_trans [OF f32_round_le]) (simp add: div_le_dividend)
  also have "\<dots> \<le> 2 * ((2 * (93000 * 93000 * F32_ONE) + 1) * F32_ONE) + 1"
    by (intro add_mono mult_le_mono order_refl a)
  also have "\<dots> < F32_MAX" by (simp add: F32_MAX_def F32_ONE_def)
  finally show ?thesis .
qed

text \<open>The services are drawn in the order of the average index of the workloads their selector
  matches in their namespace, and those that match none come after all others.\<close>

theorem services_by_barycenter:
  assumes "distinct (map service_id (tg_services g))" and "length (tg_workloads g) \<le> 93000"
  shows "\<exists>ss k. mset ss = mset (tg_services g)
     \<and> map ln_id (layout_rows g ! 3) = map service_id ss
     \<and> sorted (map (barycenter g (by_name (workload_nodes g))) ss)
     \<and> list_all (connected g) (take k ss) \<and> list_all (\<lambda>s. \<not> connected g s) (drop k ss)"
proof (intro exI conjI)
  let ?f = "barycenter g (by_name (workload_nodes g))"
  let ?ss = "sort_key ?f (tg_services g)"
  let ?k = "length (takeWhile (connected g) ?ss)"
  show "mset ?ss = mset (tg_services g)" by simp
  show "map ln_id (layout_rows g ! 3) = map service_id ?ss" using service_row [OF assms(1)] ..
  show s: "sorted (map ?f ?ss)" by simp
  show "list_all (connected g) (take ?k ?ss)"
    by (simp add: takeWhile_eq_take [symmetric] list_all_iff) (metis set_takeWhileD)
  show "list_all (\<lambda>s. \<not> connected g s) (drop ?k ?ss)"
  proof (cases "dropWhile (connected g) ?ss")
    case Nil
    then show ?thesis by (simp only: dropWhile_eq_drop [symmetric] list.pred_inject)
  next
    case (Cons t ts)
    have t: "\<not> connected g t" using Cons by (metis dropWhile_eq_Cons_conv)
    then have "?f t = F32_MAX" using service_positions_connected [of g t] by (simp add: barycenter_def)
    moreover have "sorted (map ?f (t # ts))"
      using s Cons by (metis dropWhile_eq_drop drop_map sorted_wrt_drop)
    ultimately have "\<forall>u \<in> set (t # ts). F32_MAX \<le> ?f u" by auto
    then show ?thesis
      using barycenter_connected [OF assms(2)] Cons
      by (auto simp: dropWhile_eq_drop [symmetric] list_all_iff simp flip: not_less)
  qed
qed

lemma services_by_barycenter_witness:
  "map ln_id (layout_rows graph_example ! 3) = [''service/default/b'', ''service/default/a'']"
proof -
  let ?a = "tg_services graph_example ! 0" and ?b = "tg_services graph_example ! 1"
  have svs: "tg_services graph_example = [?a, ?b]" by (simp add: graph_example_def)
  have c: "\<not> connected graph_example ?a" "connected graph_example ?b"
    by (simp_all add: connected_def graph_example_def selector_matches_def)
  have "length (tg_workloads graph_example) \<le> 93000" by (simp add: graph_example_def)
  from services_by_barycenter [OF graph_example_ids this]
  obtain ss k where ss: "mset ss = mset [?a, ?b]"
      "map ln_id (layout_rows graph_example ! 3) = map service_id ss"
      "list_all (connected graph_example) (take k ss)" "list_all (\<lambda>s. \<not> connected graph_example s) (drop k ss)"
    using svs by metis
  have l: "length ss = 2" using mset_eq_length [OF ss(1)] by simp
  then obtain x y where xy: "ss = [x, y]" by (auto simp: numeral_2_eq_2 length_Suc_conv)
  then have "(x = ?a \<and> y = ?b) \<or> (x = ?b \<and> y = ?a)" using ss(1) by (auto simp: add_eq_conv_ex)
  moreover have "\<not> (x = ?a \<and> y = ?b)"
  proof
    assume "x = ?a \<and> y = ?b"
    then show False using ss(3,4) xy c by (cases k) auto
  qed
  ultimately have "x = ?b \<and> y = ?a" by blast
  then have "ss = [?b, ?a]" using xy by simp
  then show ?thesis using ss(2) by (simp add: graph_example_def service_id_def layout_id_def)
qed

end
