(* ===== verification/ClientModel.thy ===== *)
theory ClientModel
  imports TopologyModel Kubeconfig
begin

text \<open>
  The live topology reads (\<open>k8s/client.rs\<close>).  The API objects of \<open>k8s-openapi\<close> are records of the
  fields the mapping reads; what the API server answers to each listing, and how a kubeconfig becomes a
  client, are parameters.  \<open>om_name_any\<close> is the value of \<open>ResourceExt::name_any\<close>.
\<close>

section \<open>API objects\<close>

record object_meta =
  om_name_any :: string
  om_namespace :: "string option"
  om_labels :: "labels option"
  om_owner_references :: "owner_ref list option"

text \<open>The selector (its \<open>match_labels\<close>) and the template metadata (its \<open>labels\<close>).\<close>

record controller_spec =
  cs_match_labels :: "labels option"
  cs_template_labels :: "labels option option"

record job_spec =
  js_match_labels :: "labels option option"
  js_template_labels :: "labels option option"

record 's api_object =
  ao_meta :: object_meta
  ao_spec :: "'s option"

record api_cron_job =
  cj_meta :: object_meta
  cj_job_spec :: "job_spec option"
  cj_template_labels :: "labels option option"

record api_pod_spec =
  ps_containers :: "string list"
  ps_node_name :: "string option"

record api_pod =
  ap_meta :: object_meta
  ap_spec :: "api_pod_spec option"
  ap_phase :: "string option"
  ap_container_ready :: "bool list option"

datatype int_or_string = IntPort int | NamedPort string

record api_port =
  apt_name :: "string option"
  apt_port :: int
  apt_target :: "int_or_string option"
  apt_node_port :: "int option"
  apt_protocol :: "string option"

record api_service_spec =
  ss_selector :: "labels option"
  ss_ports :: "api_port list option"

text \<open>A rule has a host and the backends of its paths, each with the name of a service or none.\<close>

record api_rule =
  ir_host :: "string option"
  ir_http :: "string option list option"

record api_ingress_spec =
  is_rules :: "api_rule list option"
  is_default_backend :: "string option option"
  is_class_name :: "string option"

record api_node =
  an_meta :: object_meta
  an_conditions :: "(string \<times> string) list option option"

record api_event =
  ae_namespace :: "string option"
  ae_kind :: "string option"
  ae_name :: "string option"
  ae_reason :: "string option"
  ae_message :: "string option"
  ae_first_timestamp :: "(int \<times> int) option"
  ae_event_time :: "(int \<times> int) option"
  ae_last_timestamp :: "(int \<times> int) option"

record k8s_api =
  api_namespaces :: "string + object_meta list"
  api_deployments :: "string + controller_spec api_object list"
  api_stateful_sets :: "string + controller_spec api_object list"
  api_daemon_sets :: "string + controller_spec api_object list"
  api_jobs :: "string + job_spec api_object list"
  api_cron_jobs :: "string + api_cron_job list"
  api_pods :: "string + api_pod list"
  api_services :: "string + api_service_spec api_object list"
  api_ingresses :: "string + api_ingress_spec api_object list"
  api_nodes :: "string + api_node list"
  api_events :: "string + api_event list"

section \<open>Mapping one object\<close>

definition or_default :: "'a list option \<Rightarrow> 'a list" where
  "or_default x = (case x of Some v \<Rightarrow> v | None \<Rightarrow> [])"

lemma or_default_simps [simp]: "or_default None = []" "or_default (Some v) = v"
  by (simp_all add: or_default_def)

definition selector_and_labels :: "controller_spec option \<Rightarrow> labels \<times> labels" where
  "selector_and_labels spec =
     (or_default (Option.bind spec cs_match_labels),
      or_default (Option.bind (Option.bind spec cs_template_labels) id))"

definition job_selector_and_labels :: "job_spec option \<Rightarrow> labels \<times> labels" where
  "job_selector_and_labels spec =
     (or_default (Option.bind (Option.bind spec js_match_labels) id),
      or_default (Option.bind (Option.bind spec js_template_labels) id))"

definition workload_view ::
    "('s option \<Rightarrow> labels \<times> labels) \<Rightarrow> workload_kind \<Rightarrow> 's api_object \<Rightarrow> workload" where
  "workload_view selector_labels k item =
     (let (sel, ls) = selector_labels (ao_spec item)
      in \<lparr>wl_kind = k, wl_name = om_name_any (ao_meta item),
          wl_ns = or_default (om_namespace (ao_meta item)), wl_selector = sel, wl_labels = ls\<rparr>)"

definition cron_job_view :: "api_cron_job \<Rightarrow> workload" where
  "cron_job_view item =
     \<lparr>wl_kind = CronJob, wl_name = om_name_any (cj_meta item),
      wl_ns = or_default (om_namespace (cj_meta item)),
      wl_selector = or_default (Option.bind (Option.bind (cj_job_spec item) js_match_labels) id),
      wl_labels = or_default (Option.bind (cj_template_labels item) id)\<rparr>"

definition pod_view :: "api_pod \<Rightarrow> pod" where
  "pod_view p =
     \<lparr>kp_name = om_name_any (ap_meta p), kp_ns = or_default (om_namespace (ap_meta p)),
      kp_owner = (case om_owner_references (ap_meta p) of Some (r # _) \<Rightarrow> Some r | _ \<Rightarrow> None),
      kp_phase = pod_phase_from_str (ap_phase p),
      kp_node = Option.bind (ap_spec p) ps_node_name,
      kp_ready_containers = of_nat (length (filter id (or_default (ap_container_ready p)))),
      kp_total_containers = of_nat (length (or_default (map_option ps_containers (ap_spec p))))\<rparr>"

fun target_port_text :: "int_or_string \<Rightarrow> string" where
  "target_port_text (IntPort v) = dec_int v"
| "target_port_text (NamedPort s) = s"

definition port_view :: "api_port \<Rightarrow> service_port" where
  "port_view p =
     \<lparr>sp_name = or_default (apt_name p), sp_port = apt_port p,
      sp_target_port = map_option target_port_text (apt_target p), sp_node_port = apt_node_port p,
      sp_protocol = (case apt_protocol p of Some s \<Rightarrow> s | None \<Rightarrow> ''TCP'')\<rparr>"

definition service_view :: "api_service_spec api_object \<Rightarrow> service" where
  "service_view s =
     \<lparr>sv_name = om_name_any (ao_meta s), sv_ns = or_default (om_namespace (ao_meta s)),
      sv_selector = or_default (Option.bind (ao_spec s) ss_selector),
      sv_ports = map port_view (or_default (Option.bind (ao_spec s) ss_ports))\<rparr>"

definition push_new :: "'a option \<Rightarrow> 'a list \<Rightarrow> 'a list" where
  "push_new x xs = (case x of Some v \<Rightarrow> if v \<in> set xs then xs else xs @ [v] | None \<Rightarrow> xs)"

fun ingress_rules :: "api_rule list \<Rightarrow> string list \<Rightarrow> string list \<Rightarrow> string list \<times> string list" where
  "ingress_rules [] hosts backends = (hosts, backends)"
| "ingress_rules (r # rs) hosts backends =
     ingress_rules rs (push_new (ir_host r) hosts) (fold push_new (or_default (ir_http r)) backends)"

definition ingress_view :: "api_ingress_spec api_object \<Rightarrow> ingress" where
  "ingress_view i =
     (let spec = ao_spec i;
          (hosts, backends) = ingress_rules (or_default (Option.bind spec is_rules)) [] []
      in \<lparr>ig_name = om_name_any (ao_meta i), ig_ns = or_default (om_namespace (ao_meta i)),
          ig_class = or_default (Option.bind spec is_class_name),
          ig_backend_services = push_new (Option.bind (Option.bind spec is_default_backend) id) backends,
          ig_hosts = hosts\<rparr>)"

definition node_view :: "api_node \<Rightarrow> cluster_node" where
  "node_view n =
     \<lparr>cn_name = om_name_any (an_meta n),
      cn_role = (case om_labels (an_meta n) of
         Some ls \<Rightarrow>
           if map_of ls ''node-role.kubernetes.io/control-plane'' \<noteq> None then ControlPlaneNode
           else if map_of ls ''node-role.kubernetes.io/master'' \<noteq> None then ControlPlaneNode
           else WorkerNode
       | None \<Rightarrow> WorkerNode),
      cn_ready = (case Option.bind (an_conditions n) id of
         Some cs \<Rightarrow> list_ex (\<lambda>(t, st). t = ''Ready'' \<and> st = ''True'') cs
       | None \<Rightarrow> False)\<rparr>"

text \<open>A time is its seconds and the nanoseconds within the second, which have the sign of the seconds; a
  negative number of them becomes one above \<open>2 ^ 31\<close> as a \<open>u32\<close>, which chrono refuses.\<close>

definition jiff_ts_to_chrono :: "int \<times> int \<Rightarrow> int" where
  "jiff_ts_to_chrono t = (if snd t < 0 then 0 else fst t * 10 ^ 9 + snd t)"

definition event_timestamp :: "api_event \<Rightarrow> int" where
  "event_timestamp e =
     (case ae_first_timestamp e of
        Some t \<Rightarrow> jiff_ts_to_chrono t
      | None \<Rightarrow>
          (case ae_event_time e of
             Some t \<Rightarrow> jiff_ts_to_chrono t
           | None \<Rightarrow>
               (case ae_last_timestamp e of Some t \<Rightarrow> jiff_ts_to_chrono t | None \<Rightarrow> 0)))"

definition event_view :: "api_event \<Rightarrow> k8s_event" where
  "event_view e =
     \<lparr>ke_ns = or_default (ae_namespace e), ke_kind = or_default (ae_kind e), ke_name = or_default (ae_name e),
      ke_reason = or_default (ae_reason e), ke_message = or_default (ae_message e),
      ke_timestamp = event_timestamp e\<rparr>"

section \<open>The snapshot\<close>

definition MAX_EVENTS :: nat where "MAX_EVENTS = 100"

definition kube_result :: "string + 'a \<Rightarrow> core_error + 'a" where
  "kube_result r = map_err (\<lambda>e. K8s (K8sKube e)) r"

definition list_as :: "('r \<Rightarrow> 'v) \<Rightarrow> string + 'r list \<Rightarrow> core_error + 'v list" where
  "list_as view r = rbind (kube_result r) (\<lambda>items. Ok (map view items))"

definition list_all_workloads :: "k8s_api \<Rightarrow> core_error + workload list" where
  "list_all_workloads api =
     rbind (list_as (workload_view selector_and_labels Deployment) (api_deployments api)) (\<lambda>a.
     rbind (list_as (workload_view selector_and_labels StatefulSet) (api_stateful_sets api)) (\<lambda>b.
     rbind (list_as (workload_view selector_and_labels DaemonSet) (api_daemon_sets api)) (\<lambda>c.
     rbind (list_as (workload_view job_selector_and_labels Job) (api_jobs api)) (\<lambda>d.
     rbind (list_as cron_job_view (api_cron_jobs api)) (\<lambda>e. Ok (a @ b @ c @ d @ e))))))"

definition recent_events :: "k8s_event list \<Rightarrow> k8s_event list" where
  "recent_events evs = take MAX_EVENTS (sort_key (\<lambda>e. - ke_timestamp e) evs)"

definition poll_topology :: "k8s_api \<Rightarrow> core_error + topology_graph" where
  "poll_topology api =
     rbind (list_as om_name_any (api_namespaces api)) (\<lambda>namespaces.
     rbind (list_all_workloads api) (\<lambda>workloads.
     rbind (list_as pod_view (api_pods api)) (\<lambda>pods.
     rbind (list_as service_view (api_services api)) (\<lambda>services.
     rbind (list_as ingress_view (api_ingresses api)) (\<lambda>ingresses.
     rbind (list_as node_view (api_nodes api)) (\<lambda>nodes.
     rbind (list_as event_view (api_events api)) (\<lambda>events.
       (let g = \<lparr>tg_namespaces = namespaces, tg_workloads = workloads, tg_pods = pods,
                 tg_services = services, tg_ingresses = ingresses, tg_nodes = nodes, tg_events = [],
                 tg_layout = []\<rparr>
        in Ok (g\<lparr>tg_events := recent_events events, tg_layout := layout g\<rparr>)))))))))"

section \<open>Clients\<close>

record k8s_client =
  k8_context :: string
  k8_api :: k8s_api

definition for_context ::
    "(kubeconfig \<Rightarrow> string \<Rightarrow> string + string + k8s_api) \<Rightarrow> kubeconfig \<Rightarrow> string \<Rightarrow> core_error + k8s_client" where
  "for_context connect kc ctx =
     (if \<not> list_ex (\<lambda>c. nx_name c = ctx) (kc_contexts kc)
      then Err (K8s (K8sContext ctx ''context not found in kubeconfig''))
      else
        rbind (map_err (\<lambda>e. K8s (K8sContext ctx e)) (connect kc ctx)) (\<lambda>config.
        rbind (kube_result config) (\<lambda>api. Ok \<lparr>k8_context = ctx, k8_api = api\<rparr>)))"

definition from_kubeconfig ::
    "(kubeconfig \<Rightarrow> string \<Rightarrow> string + string + k8s_api) \<Rightarrow> kubeconfig \<Rightarrow> core_error + k8s_client" where
  "from_kubeconfig connect kc =
     (case kc_current_context kc of
        None \<Rightarrow> Err (K8s (K8sContext [] ''no current context''))
      | Some ctx \<Rightarrow> for_context connect kc ctx)"

section \<open>Properties\<close>

lemma list_as_Inr: "list_as view r = Inr vs \<longleftrightarrow> (\<exists>items. r = Inr items \<and> vs = map view items)"
  by (auto simp: list_as_def kube_result_def)

lemma list_as_ok: "is_ok (list_as view r) \<longleftrightarrow> is_ok r"
  by (cases r) (simp_all add: list_as_def kube_result_def)

lemma push_new_distinct: "distinct xs \<Longrightarrow> distinct (push_new x xs)"
  by (simp add: push_new_def split: option.split)

lemma push_new_set: "set (push_new x xs) = set_option x \<union> set xs"
  by (auto simp: push_new_def split: option.split)

lemma fold_push_new:
  "distinct xs \<Longrightarrow> distinct (fold push_new vs xs)
     \<and> set (fold push_new vs xs) = set xs \<union> (\<Union>v \<in> set vs. set_option v)"
  by (induction vs arbitrary: xs) (auto simp: push_new_distinct push_new_set)

lemma ingress_rules_sets:
  "distinct hosts \<Longrightarrow> distinct backends \<Longrightarrow> ingress_rules rs hosts backends = (hs, bs)
     \<Longrightarrow> distinct hs \<and> distinct bs
       \<and> set hs = set hosts \<union> (\<Union>r \<in> set rs. set_option (ir_host r))
       \<and> set bs = set backends \<union> (\<Union>r \<in> set rs. \<Union>v \<in> set (or_default (ir_http r)). set_option v)"
proof (induction rs hosts backends rule: ingress_rules.induct)
  case (2 r rs hosts backends)
  have "distinct (push_new (ir_host r) hosts)"
    "distinct (fold push_new (or_default (ir_http r)) backends)"
    using 2(2,3) by (simp_all add: push_new_distinct fold_push_new)
  from 2(1) [OF this] 2(2,3,4) show ?case
    by (auto simp: push_new_set fold_push_new)
qed simp

text \<open>An ingress lists each host and each backend service of its rules once, and the default backend.\<close>

lemma ingress_view_complete:
  "distinct (ig_hosts (ingress_view i)) \<and> distinct (ig_backend_services (ingress_view i))
   \<and> set (ig_backend_services (ingress_view i)) =
       set_option (Option.bind (Option.bind (ao_spec i) is_default_backend) id)
       \<union> (\<Union>r \<in> set (or_default (Option.bind (ao_spec i) is_rules)).
            \<Union>v \<in> set (or_default (ir_http r)). set_option v)"
proof -
  obtain hs bs where r: "ingress_rules (or_default (Option.bind (ao_spec i) is_rules)) [] [] = (hs, bs)"
    by fastforce
  from ingress_rules_sets [OF _ _ this] show ?thesis
    by (simp add: ingress_view_def r push_new_distinct push_new_set Let_def)
qed

lemma recent_events_newest:
  assumes "i < length (recent_events evs)" "e \<in># mset evs - mset (recent_events evs)"
  shows "ke_timestamp e \<le> ke_timestamp (recent_events evs ! i)"
proof -
  let ?s = "sort_key (\<lambda>e. - ke_timestamp e) evs"
  have "mset evs = mset (take MAX_EVENTS ?s) + mset (drop MAX_EVENTS ?s)"
    by (metis append_take_drop_id mset_append mset_sort)
  then have "e \<in> set (drop MAX_EVENTS ?s)" using assms(2) by (simp add: recent_events_def)
  then obtain j where j: "j < length ?s - MAX_EVENTS" "e = ?s ! (MAX_EVENTS + j)"
    by (auto simp: in_set_conv_nth)
  have "i < MAX_EVENTS" "recent_events evs ! i = ?s ! i"
    using assms(1) by (simp_all add: recent_events_def)
  moreover have "sorted (map (\<lambda>e. - ke_timestamp e) ?s)" by simp
  ultimately show ?thesis
    using j sorted_nth_mono [of "map (\<lambda>e. - ke_timestamp e) ?s" i "MAX_EVENTS + j"]
    by (simp add: less_diff_conv add.commute)
qed

text \<open>C34: A snapshot has the pods, services and ingresses listed, mapped one for one, at most 100
  events, newest first and none left out that is newer than one shown, and the layout of these objects.\<close>

theorem poll_topology_faithful:
  assumes "poll_topology api = Ok g"
  shows "tg_pods g = map pod_view (projr (api_pods api))
     \<and> tg_services g = map service_view (projr (api_services api))
     \<and> tg_ingresses g = map ingress_view (projr (api_ingresses api))
     \<and> length (tg_events g) = min MAX_EVENTS (length (projr (api_events api)))
     \<and> sorted (rev (map ke_timestamp (tg_events g)))
     \<and> (\<forall>e \<in># mset (map event_view (projr (api_events api))) - mset (tg_events g).
           \<forall>s \<in> set (tg_events g). ke_timestamp e \<le> ke_timestamp s)
     \<and> tg_layout g = layout (g\<lparr>tg_events := [], tg_layout := []\<rparr>)"
proof -
  let ?evs = "map event_view (projr (api_events api))"
  have e: "tg_events g = recent_events ?evs" "tg_layout g = layout (g\<lparr>tg_events := [], tg_layout := []\<rparr>)"
    "tg_pods g = map pod_view (projr (api_pods api))"
    "tg_services g = map service_view (projr (api_services api))"
    "tg_ingresses g = map ingress_view (projr (api_ingresses api))"
    using assms by (auto simp: poll_topology_def list_as_Inr Let_def)
  have "sorted (map (\<lambda>e. - ke_timestamp e) (recent_events ?evs))"
    by (simp add: recent_events_def take_map [symmetric] sorted_wrt_take)
  then have "sorted (rev (map ke_timestamp (recent_events ?evs)))"
    by (simp add: sorted_wrt_rev sorted_wrt_map)
  moreover have "length (recent_events ?evs) = min MAX_EVENTS (length (projr (api_events api)))"
    by (simp add: recent_events_def min.commute)
  moreover have "ke_timestamp x \<le> ke_timestamp s"
    if "x \<in># mset ?evs - mset (recent_events ?evs)" "s \<in> set (recent_events ?evs)" for x s
    using that recent_events_newest by (metis in_set_conv_nth)
  ultimately show ?thesis
    unfolding e by blast
qed

definition api_example :: k8s_api where
  "api_example =
     \<lparr>api_namespaces = Inr [], api_deployments = Inr [], api_stateful_sets = Inr [],
      api_daemon_sets = Inr [], api_jobs = Inr [], api_cron_jobs = Inr [],
      api_pods = Inr [\<lparr>ap_meta = \<lparr>om_name_any = ''p'', om_namespace = None, om_labels = None,
          om_owner_references = None\<rparr>, ap_spec = None, ap_phase = Some ''Running'',
          ap_container_ready = None\<rparr>],
      api_services = Inr [], api_ingresses = Inr [], api_nodes = Inr [], api_events = Inr []\<rparr>"

lemma poll_topology_faithful_witness:
  "\<exists>g. poll_topology api_example = Ok g \<and> map kp_name (tg_pods g) = [''p'']"
proof -
  obtain g where g: "poll_topology api_example = Ok g"
    by (simp add: poll_topology_def api_example_def list_as_def kube_result_def list_all_workloads_def Let_def)
  from poll_topology_faithful [OF g] have "tg_pods g = map pod_view (projr (api_pods api_example))" by simp
  then show ?thesis using g by (simp add: api_example_def pod_view_def)
qed

end
