(* ===== verification/LogRing.thy ===== *)
theory LogRing
  imports Host KindCtl
begin

text \<open>
  Bounded logs (\<open>k8s/logs.rs\<close>): the ring buffer of log lines, the two log sources and the stream that
  fills a ring.  The contract of a bounded log, keeping the last lines up to its capacity, is the locale
  \<open>bounded_log\<close>; the output tail of the operation panel and the install log provide it too.
\<close>

section \<open>The contract\<close>

text \<open>The content of the log is its lines, oldest first; a push appends one line and evicts from the
  front.\<close>

locale bounded_log =
  fixes content :: "'l \<Rightarrow> string list"
    and put :: "string \<Rightarrow> 'l \<Rightarrow> 'l"
    and bound :: "'l \<Rightarrow> nat"
  assumes bound_put: "bound (put x l) = bound l"
    and put_law: "length (content l) \<le> bound l \<Longrightarrow> 0 < bound l
                  \<Longrightarrow> content (put x l) = take_last (bound l) (content l @ [x])"
begin

definition sound :: "'l \<Rightarrow> bool" where
  "sound l \<longleftrightarrow> 0 < bound l \<and> length (content l) \<le> bound l"

lemma sound_put: "sound l \<Longrightarrow> sound (put x l)"
  by (simp add: sound_def bound_put put_law)

lemma bound_fold: "bound (fold put xs l) = bound l"
  by (induction xs arbitrary: l) (simp_all add: bound_put)

lemma sound_fold: "sound l \<Longrightarrow> sound (fold put xs l)"
  by (induction xs arbitrary: l) (simp_all add: sound_put)

lemma content_fold:
  "sound l \<Longrightarrow> content (fold put xs l) = take_last (bound l) (content l @ xs)"
proof (induction xs arbitrary: l)
  case Nil
  then show ?case by (simp add: sound_def)
next
  case (Cons x xs)
  then show ?case
    using take_last_append [of "bound l" "content l @ [x]" xs]
    by (simp add: sound_put bound_put) (simp add: sound_def put_law)
qed

lemma newest_kept: "sound l \<Longrightarrow> xs \<noteq> [] \<Longrightarrow> last (content (fold put xs l)) = last xs"
  using last_drop [of "length (content l @ xs) - bound l" "content l @ xs"]
  by (simp add: content_fold take_last_def sound_def)

end

section \<open>The ring\<close>

definition DEFAULT_LOG_RING_CAP :: nat where "DEFAULT_LOG_RING_CAP = 2000"

record log_ring =
  lr_lines :: "string list"
  lr_cap :: nat

definition ring_new :: "nat \<Rightarrow> log_ring" where
  "ring_new cap = \<lparr>lr_lines = [], lr_cap = max cap 1\<rparr>"

definition ring_default :: log_ring where
  "ring_default = ring_new DEFAULT_LOG_RING_CAP"

definition ring_len :: "log_ring \<Rightarrow> nat" where
  "ring_len r = length (lr_lines r)"

definition ring_is_empty :: "log_ring \<Rightarrow> bool" where
  "ring_is_empty r \<longleftrightarrow> lr_lines r = []"

text \<open>The eviction loop.\<close>

function evict :: "nat \<Rightarrow> string list \<Rightarrow> string list" where
  "evict cap ls = (if cap < length ls then evict cap (tl ls) else ls)"
  by auto
termination by (relation "measure (\<lambda>(cap, ls). length ls)") auto

declare evict.simps [simp del]

definition ring_push :: "string \<Rightarrow> log_ring \<Rightarrow> log_ring" where
  "ring_push line r = r\<lparr>lr_lines := evict (lr_cap r) (lr_lines r @ [line])\<rparr>"

definition ring_extend :: "string list \<Rightarrow> log_ring \<Rightarrow> log_ring" where
  "ring_extend lines r = fold ring_push lines r"

definition ring_snapshot :: "log_ring \<Rightarrow> string list" where
  "ring_snapshot r = lr_lines r"

definition ring_clear :: "log_ring \<Rightarrow> log_ring" where
  "ring_clear r = r\<lparr>lr_lines := []\<rparr>"

lemma evict_take_last: "evict cap ls = take_last cap ls"
proof (induction cap ls rule: evict.induct)
  case (1 cap ls)
  show ?case
  proof (cases "cap < length ls")
    case True
    then have "length ls - cap = Suc (length (tl ls) - cap)" by simp
    with True 1 show ?thesis by (subst evict.simps) (simp add: take_last_def drop_Suc)
  next
    case False
    then show ?thesis by (subst evict.simps) simp
  qed
qed

interpretation ring: bounded_log ring_snapshot ring_push lr_cap
  by unfold_locales (simp_all add: ring_push_def ring_snapshot_def evict_take_last)

lemma ring_new_sound: "ring.sound (ring_new cap)"
  by (simp add: ring.sound_def ring_new_def ring_snapshot_def)

section \<open>Capped lists\<close>

text \<open>The panels of the user interface evict before they append.\<close>

definition push_capped :: "nat \<Rightarrow> string \<Rightarrow> string list \<Rightarrow> string list" where
  "push_capped cap line ls = (if cap \<le> length ls then tl ls else ls) @ [line]"

lemma push_capped_take_last:
  "length ls \<le> cap \<Longrightarrow> 0 < cap \<Longrightarrow> push_capped cap line ls = take_last cap (ls @ [line])"
  by (cases "length ls = cap") (auto simp: push_capped_def take_last_def drop_Suc Suc_diff_le)

section \<open>Sources\<close>

datatype log_source =
    LogDocker string
  | LogKubectl string string string "string option"

fun follow_command :: "log_source \<Rightarrow> kind_command" where
  "follow_command (LogDocker c) = DockerLogs c True None"
| "follow_command (LogKubectl ctx pod ns c) = KubectlLogs ctx pod ns c True None"

fun tail_command :: "log_source \<Rightarrow> nat option \<Rightarrow> kind_command" where
  "tail_command (LogDocker c) t = DockerLogs c False t"
| "tail_command (LogKubectl ctx pod ns c) t = KubectlLogs ctx pod ns c False t"

section \<open>Streams\<close>

definition DEFAULT_ONE_SHOT_TAIL :: nat where "DEFAULT_ONE_SHOT_TAIL = 2000"

definition FOLLOW_TIMEOUT :: nat where "FOLLOW_TIMEOUT = 86400000"

definition read_logs :: "host_env \<Rightarrow> log_source \<Rightarrow> nat option \<Rightarrow> ('e, string list) prov" where
  "read_logs env source tail =
     prov_bind (prov_run env (to_cmd (he_os env) (tail_command source
         (Some (case tail of Some t \<Rightarrow> t | None \<Rightarrow> DEFAULT_ONE_SHOT_TAIL)))))
       (\<lambda>output. prov_return (out_stdout_lines output))"

text \<open>The select loop over the lines of the child.  \<open>stop\<close> is the number of lines after which the
  branch of the token is taken, if it ever is; the flag says that it was.\<close>

fun watch_loop :: "nat option \<Rightarrow> string list \<Rightarrow> log_ring \<Rightarrow> log_ring \<times> bool" where
  "watch_loop (Some 0) lines r = (r, True)"
| "watch_loop stop [] r = (r, False)"
| "watch_loop (Some (Suc k)) (line # lines) r = watch_loop (Some k) lines (ring_push line r)"
| "watch_loop None (line # lines) r = watch_loop None lines (ring_push line r)"

definition watch_logs ::
    "host_env \<Rightarrow> log_source \<Rightarrow> nat \<Rightarrow> nat option \<Rightarrow> log_ring \<Rightarrow> 'e world
       \<Rightarrow> ((core_error + unit) option \<times> log_ring) \<times> 'e world" where
  "watch_logs env source token stop r w =
     (let c = with_timeout FOLLOW_TIMEOUT
                (with_cancel token (to_cmd (he_os env) (follow_command source)))
      in case he_spawn env (w_tick w) c (fs_nodes (w_fs w)) of
           Inl e \<Rightarrow> ((Some (Err (Exec (ExecSpawn (cmd_program c) e))), r), w\<lparr>w_tick := w_tick w + 1\<rparr>)
         | Inr ch \<Rightarrow>
             (case watch_loop stop (forward_lines (ps_stdout_reads (ch_script ch))) r of
                (r1, True) \<Rightarrow>
                  ((map_option (\<lambda>_. Ok ()) (fst (await_outcome (ps_observations (ch_script ch))
                      (signal_group SigTerm fresh_handle))), r1), after_child c ch w)
              | (r1, False) \<Rightarrow>
                  ((map_option (\<lambda>x. rbind (map_err Exec x) (\<lambda>_. Ok ()))
                      (fst (wait_handle (cmd_program c) (ch_script ch))), r1), after_child c ch w)))"

lemma watch_loop_push:
  "watch_loop stop lines r =
     (fold ring_push (case stop of Some k \<Rightarrow> take k lines | None \<Rightarrow> lines) r,
      case stop of Some k \<Rightarrow> k \<le> length lines | None \<Rightarrow> False)"
  by (induction stop lines r rule: watch_loop.induct) auto

section \<open>Properties\<close>

definition watched_lines :: "host_env \<Rightarrow> log_source \<Rightarrow> nat \<Rightarrow> 'e world \<Rightarrow> string list" where
  "watched_lines env source token w =
     (case he_spawn env (w_tick w) (with_timeout FOLLOW_TIMEOUT
             (with_cancel token (to_cmd (he_os env) (follow_command source)))) (fs_nodes (w_fs w)) of
        Inl _ \<Rightarrow> []
      | Inr ch \<Rightarrow> forward_lines (ps_stdout_reads (ch_script ch)))"

text \<open>Whatever the followed process writes, however it is cut into reads and whenever the token
  fires, the ring ends with the last lines of its old content and of a prefix of the stream, up to its
  capacity, which is kept; the prefix is the whole stream when the branch of the token is not taken, and
  when it is taken a stream that ends is reported as a success.\<close>

theorem watch_logs_fills_ring:
  assumes "lr_cap r = cap" and "0 < cap" and "length (lr_lines r) \<le> cap"
    and "watch_logs env source token stop r w = ((res, r'), w')"
  shows "\<exists>pre. prefix pre (watched_lines env source token w)
           \<and> lr_cap r' = cap \<and> lr_lines r' = take_last cap (lr_lines r @ pre)
           \<and> (stop = None \<longrightarrow> pre = watched_lines env source token w)
           \<and> (\<forall>k x. stop = Some k \<and> k \<le> length (watched_lines env source token w) \<and> res = Some x
                \<and> w_ran w' \<noteq> w_ran w \<longrightarrow> length pre = k \<and> x = Ok ())"
proof -
  let ?ls = "watched_lines env source token w"
  let ?pre = "case stop of Some k \<Rightarrow> take k ?ls | None \<Rightarrow> ?ls"
  have s: "ring.sound r" using assms by (simp add: ring.sound_def ring_snapshot_def)
  have r': "r' = fold ring_push ?pre r"
    using assms(4) by (auto simp: watch_logs_def watched_lines_def watch_loop_push Let_def
      split: sum.splits option.splits prod.splits bool.splits)
  have x: "x = Ok ()" if "stop = Some k" "k \<le> length ?ls" "res = Some x" "w_ran w' \<noteq> w_ran w" for k x
    using that assms(4) by (auto simp: watch_logs_def watched_lines_def watch_loop_push Let_def
      split: sum.splits option.splits prod.splits bool.splits)
  show ?thesis
  proof (intro exI conjI)
    show "prefix ?pre ?ls" by (simp add: take_is_prefix split: option.split)
    show "lr_cap r' = cap" using assms(1) by (simp add: r' ring.bound_fold)
    show "lr_lines r' = take_last cap (lr_lines r @ ?pre)"
      using ring.content_fold [OF s, of ?pre] assms(1) by (simp add: r' ring_snapshot_def)
    show "stop = None \<longrightarrow> ?pre = ?ls" by simp
    show "\<forall>k x. stop = Some k \<and> k \<le> length ?ls \<and> res = Some x \<and> w_ran w' \<noteq> w_ran w
            \<longrightarrow> length ?pre = k \<and> x = Ok ()"
      using x by simp
  qed
qed

lemma watch_logs_fills_ring_witness:
  "lr_lines (snd (fst (watch_logs (env_example 0) (LogDocker ''demo'') 7 None
      (ring_push ''old'' (ring_new 1)) (world_example :: unit world)))) = [''token: x'']"
proof -
  let ?r = "ring_push ''old'' (ring_new 1)"
  obtain res r' w' where e: "watch_logs (env_example 0) (LogDocker ''demo'') 7 None ?r
      (world_example :: unit world) = ((res, r'), w')"
    by (metis surj_pair)
  have l: "watched_lines (env_example 0) (LogDocker ''demo'') 7 (world_example :: unit world) = [''token: x'']"
    by (simp add: watched_lines_def env_example_def child_example_def forward_example [simplified])
  have "lr_cap ?r = 1" "length (lr_lines ?r) \<le> 1"
    by (simp_all add: ring_push_def ring_new_def evict_take_last)
  from watch_logs_fills_ring [OF this(1) _ this(2) e] l
  have "lr_lines r' = take_last 1 (lr_lines ?r @ [''token: x''])" by auto
  then show ?thesis unfolding e by (simp add: take_last_def ring_push_def ring_new_def evict_take_last)
qed

end
