(* ===== verification/Bus.thy ===== *)
theory Bus
  imports RunProps DepsInstall LogRing TopologyModel StateStore
begin

text \<open>
  The two buses between the user interface and the worker (\<open>bus.rs\<close>): the commands, the events, and
  the bounded queues they travel through.  \<open>try_send\<close> never waits: a full or disconnected queue gives
  the message back.
\<close>

definition CMD_BUS_CAP :: nat where "CMD_BUS_CAP = 64"
definition EVENT_BUS_CAP :: nat where "EVENT_BUS_CAP = 256"

type_synonym op_gen = "64 word"

datatype cluster_live_status = LiveRunning nat | LiveCreating | LiveAbsent

datatype context_status = CtxCurrent | CtxPresent | CtxAbsent

datatype core_command =
    CmdReconcile
  | CmdDetectTools "64 word"
  | CmdCheckDockerDaemon
  | CmdSetTheme string
  | CmdInstallTool tool_id
  | CmdCreateCluster cluster_spec op_gen
  | CmdDestroyCluster string op_gen
  | CmdRecreateCluster string cluster_spec op_gen
  | CmdCancelOp string
  | CmdCheckContext string
  | CmdEnsureContext string
  | CmdExportLogs string string
  | CmdFetchTopology string op_gen
  | CmdSetAutoRefresh string "64 word" bool op_gen
  | CmdStartLogs string log_source bool "nat option" op_gen
  | CmdStopLogs string
  | CmdOpenK9s string
  | CmdShutdown

datatype core_event =
    EvReconcileDone "string + reconcile_report"
  | EvLiveClusters "string list"
  | EvClusterStatus string cluster_live_status
  | EvDetectedTool tool_id "64 word" "string + tool_status"
  | EvToolsDetectDone "64 word"
  | EvDockerDaemon docker_daemon_state
  | EvInstallEvent tool_id install_event
  | EvInstallDone tool_id "string + tool_status"
  | EvProvision string op_gen provision_event
  | EvProvisionDone string op_gen "string + unit"
  | EvContextState string context_status
  | EvContextEnsured string "string + unit"
  | EvLogsExported string string "string + unit"
  | EvTopology string op_gen "string + topology_graph"
  | EvLogLine string op_gen string
  | EvLogEnded string op_gen "string + unit"
  | EvBusFull
  | EvError string string
  | EvNotice string

section \<open>Bounded queues\<close>

datatype 'a send_error = QueueFull 'a | QueueDisconnected 'a

record 'a queue =
  q_items :: "'a list"
  q_cap :: nat
  q_connected :: bool

definition queue_new :: "nat \<Rightarrow> 'a queue" where
  "queue_new cap = \<lparr>q_items = [], q_cap = cap, q_connected = True\<rparr>"

definition try_send :: "'a \<Rightarrow> 'a queue \<Rightarrow> ('a send_error + unit) \<times> 'a queue" where
  "try_send x q =
     (if \<not> q_connected q then (Err (QueueDisconnected x), q)
      else if q_cap q \<le> length (q_items q) then (Err (QueueFull x), q)
      else (Ok (), q\<lparr>q_items := q_items q @ [x]\<rparr>))"

definition try_recv :: "'a queue \<Rightarrow> 'a option \<times> 'a queue" where
  "try_recv q = (case q_items q of [] \<Rightarrow> (None, q) | x # xs \<Rightarrow> (Some x, q\<lparr>q_items := xs\<rparr>))"

record buses =
  bus_cmd :: "core_command queue"
  bus_event :: "core_event queue"

definition buses_new :: buses where
  "buses_new = \<lparr>bus_cmd = queue_new CMD_BUS_CAP, bus_event = queue_new EVENT_BUS_CAP\<rparr>"

lemma try_send_bounded:
  "length (q_items q) \<le> q_cap q \<Longrightarrow> length (q_items (snd (try_send x q))) \<le> q_cap (snd (try_send x q))"
  by (auto simp: try_send_def)

lemma try_send_order:
  "q_items (snd (try_send x q)) = (if is_ok (fst (try_send x q)) then q_items q @ [x] else q_items q)"
  by (simp add: try_send_def)

end
