(* ===== verification/DiagramModel.thy ===== *)
theory DiagramModel
  imports TopologyModel
begin

text \<open>
  What the diagram of a cluster shows (\<open>views/diagram.rs\<close>): which laid-out nodes are visible and in
  which state, which edges join them, and when the view is fitted again.  Pan, zoom, the fit and hit-testing
  are in theory \<open>DiagramView\<close>, what is painted for a node in \<open>DiagramPaint\<close>; a canvas is its width and height as \<open>f32\<close> values of theory \<open>TopologyModel\<close>.
\<close>

section \<open>Fitting\<close>

record diagram_state =
  dg_fit_next :: bool
  dg_user_taken_over :: bool
  dg_last_canvas :: "f32 \<times> f32"

definition diagram_new :: diagram_state where
  "diagram_new = \<lparr>dg_fit_next = True, dg_user_taken_over = False, dg_last_canvas = (0, 0)\<rparr>"

definition request_fit :: "diagram_state \<Rightarrow> diagram_state" where
  "request_fit d = d\<lparr>dg_fit_next := True, dg_user_taken_over := False\<rparr>"

definition should_auto_fit :: "diagram_state \<Rightarrow> f32 \<times> f32 \<Rightarrow> bool \<Rightarrow> bool" where
  "should_auto_fit d canvas has_nodes =
     (if \<not> has_nodes then False
      else if fst canvas \<le> f32_of_nat 4 \<or> snd canvas \<le> f32_of_nat 4 then False
      else if dg_fit_next d then True
      else if dg_user_taken_over d then False
      else dg_last_canvas d = (0, 0) \<or> dg_last_canvas d \<noteq> canvas)"

section \<open>Nodes\<close>

datatype node_status = NodeReady | NodePending | NodeFailed | NodeSucceeded | NodeNeutral

record view_node =
  vn_layout :: layout_node
  vn_ns :: string
  vn_status :: node_status
  vn_glyph :: "string option"

fun workload_glyph :: "workload_kind \<Rightarrow> string" where
  "workload_glyph Deployment = ''D''"
| "workload_glyph StatefulSet = ''SS''"
| "workload_glyph DaemonSet = ''DS''"
| "workload_glyph Job = ''J''"
| "workload_glyph CronJob = ''CJ''"

text \<open>\<open>splitn(3, '/')\<close>: the first part tells the kind, the second one is the namespace.\<close>

definition ns_of :: "string \<Rightarrow> string" where
  "ns_of i =
     (case split_on (CHR ''/'') i of
        k # rest \<Rightarrow> if k = ''namespace'' then [] else (case rest of ns # _ \<Rightarrow> ns | [] \<Rightarrow> [])
      | [] \<Rightarrow> [])"

definition pod_owned_by :: "pod \<Rightarrow> workload \<Rightarrow> bool" where
  "pod_owned_by p w \<longleftrightarrow>
     kp_ns p = wl_ns w \<and>
     (case kp_owner p of
        Some r \<Rightarrow> or_name r = wl_name w \<or> starts_with (wl_name w @ ''-'') (or_name r)
      | None \<Rightarrow> False)"

definition workload_status :: "workload \<Rightarrow> pod list \<Rightarrow> node_status" where
  "workload_status w pods =
     (let owned = filter (\<lambda>p. pod_owned_by p w) pods in
      if owned = [] then NodeNeutral
      else if list_ex (\<lambda>p. kp_phase p = PodFailed) owned then NodeFailed
      else if list_all (\<lambda>p. kp_phase p = PodRunning \<and> 0 < kp_total_containers p
                 \<and> kp_ready_containers p = kp_total_containers p) owned then NodeReady
      else NodePending)"

fun pod_status :: "pod_phase \<Rightarrow> node_status" where
  "pod_status PodRunning = NodeReady"
| "pod_status PodPending = NodePending"
| "pod_status PodSucceeded = NodeSucceeded"
| "pod_status PodFailed = NodeFailed"
| "pod_status PodUnknown = NodeNeutral"

definition find_workload :: "topology_graph \<Rightarrow> string \<Rightarrow> string \<Rightarrow> workload option" where
  "find_workload g ns name = find (\<lambda>w. wl_ns w = ns \<and> wl_name w = name) (tg_workloads g)"

definition find_pod :: "topology_graph \<Rightarrow> string \<Rightarrow> string \<Rightarrow> pod option" where
  "find_pod g ns name = find (\<lambda>p. kp_ns p = ns \<and> kp_name p = name) (tg_pods g)"

definition resolve_node :: "topology_graph \<Rightarrow> layout_node \<Rightarrow> view_node" where
  "resolve_node g n =
     (let ns = ns_of (ln_id n) in
      case ln_kind n of
        LWorkload \<Rightarrow>
          (case find_workload g ns (ln_name n) of
             Some w \<Rightarrow> \<lparr>vn_layout = n, vn_ns = ns, vn_status = workload_status w (tg_pods g),
                        vn_glyph = Some (workload_glyph (wl_kind w))\<rparr>
           | None \<Rightarrow> \<lparr>vn_layout = n, vn_ns = ns, vn_status = NodeNeutral, vn_glyph = None\<rparr>)
      | LPod \<Rightarrow>
          \<lparr>vn_layout = n, vn_ns = ns,
           vn_status = (case find_pod g ns (ln_name n) of
              Some p \<Rightarrow> pod_status (kp_phase p) | None \<Rightarrow> NodeNeutral), vn_glyph = None\<rparr>
      | _ \<Rightarrow> \<lparr>vn_layout = n, vn_ns = ns, vn_status = NodeNeutral, vn_glyph = None\<rparr>)"

definition resolve_nodes :: "topology_graph \<Rightarrow> string set \<Rightarrow> view_node list" where
  "resolve_nodes g collapsed =
     map (resolve_node g)
       (filter (\<lambda>n. ln_kind n = LNamespace \<or> ns_of (ln_id n) \<notin> collapsed) (tg_layout g))"

section \<open>Edges\<close>

text \<open>The pairs of ids joined by a line; a line is drawn when both ends are.\<close>

definition slash_id :: "string \<Rightarrow> string \<Rightarrow> string \<Rightarrow> string" where
  "slash_id k ns name = k @ ''/'' @ ns @ ''/'' @ name"

definition service_edges :: "topology_graph \<Rightarrow> (string \<times> string) list" where
  "service_edges g =
     concat (map (\<lambda>s. map (\<lambda>w. (slash_id ''service'' (sv_ns s) (sv_name s),
                                  slash_id ''workload'' (wl_ns w) (wl_name w)))
         (filter (\<lambda>w. wl_ns w = sv_ns s \<and> selector_matches (sv_selector s) (wl_labels w))
            (tg_workloads g))) (tg_services g))"

definition owner_edges :: "topology_graph \<Rightarrow> (string \<times> string) list" where
  "owner_edges g =
     concat (map (\<lambda>w. map (\<lambda>p. (slash_id ''workload'' (wl_ns w) (wl_name w),
                                  slash_id ''pod'' (kp_ns p) (kp_name p)))
         (filter (\<lambda>p. pod_owned_by p w) (tg_pods g))) (tg_workloads g))"

definition ingress_edges :: "topology_graph \<Rightarrow> (string \<times> string) list" where
  "ingress_edges g =
     concat (map (\<lambda>i. map (\<lambda>b. (slash_id ''ingress'' (ig_ns i) (ig_name i), slash_id ''service'' (ig_ns i) b))
         (ig_backend_services i)) (tg_ingresses g))"

definition drawn_edges :: "topology_graph \<Rightarrow> view_node list \<Rightarrow> (string \<times> string) list" where
  "drawn_edges g nodes =
     (let ids = map (\<lambda>n. ln_id (vn_layout n)) nodes
      in filter (\<lambda>(a, b). a \<in> set ids \<and> b \<in> set ids) (service_edges g @ owner_edges g @ ingress_edges g))"

section \<open>Tooltips\<close>

fun pod_phase_debug :: "pod_phase \<Rightarrow> string" where
  "pod_phase_debug PodRunning = ''Running''"
| "pod_phase_debug PodPending = ''Pending''"
| "pod_phase_debug PodSucceeded = ''Succeeded''"
| "pod_phase_debug PodFailed = ''Failed''"
| "pod_phase_debug PodUnknown = ''Unknown''"

definition dash_text :: string where "dash_text = '' '' @ [CHR 0xE2, CHR 0x80, CHR 0x94] @ '' ''"

definition tooltip_text :: "topology_graph \<Rightarrow> string \<Rightarrow> string" where
  "tooltip_text g i =
     (let ns = ns_of i; name = last (split_on (CHR ''/'') i); k = hd (split_on (CHR ''/'') i) in
      if k = ''workload'' then
        (case find_workload g ns name of
           Some w \<Rightarrow> workload_kind_str (wl_kind w) @ '' in '' @ ns @ dash_text
                       @ dec (length (wl_labels w)) @ '' labels''
         | None \<Rightarrow> name)
      else if k = ''pod'' then
        (case find_pod g ns name of
           Some p \<Rightarrow> ''pod '' @ kp_name p @ dash_text @ pod_phase_debug (kp_phase p)
         | None \<Rightarrow> name)
      else if k = ''service'' then
        (case find (\<lambda>s. sv_ns s = ns \<and> sv_name s = name) (tg_services g) of
           Some s \<Rightarrow> ''service '' @ sv_name s @ dash_text @ dec (length (sv_ports s)) @ '' ports''
         | None \<Rightarrow> name)
      else name)"

section \<open>Properties\<close>

lemma layout_kind_no_slash: "CHR ''/'' \<notin> set (layout_kind_str k)"
  by (cases k) simp_all

lemma ns_of_layout_id:
  assumes "CHR ''/'' \<notin> set ns" "ns \<noteq> []"
  shows "ns_of (layout_id k ns name) = (if k = LNamespace then [] else ns)"
proof -
  have "split_on (CHR ''/'') (layout_id k ns name)
      = layout_kind_str k # ns # split_on (CHR ''/'') name"
    using assms layout_kind_no_slash [of k]
    by (simp add: layout_id_def split_on_append_sep)
  then show ?thesis by (cases k) (simp_all add: ns_of_def)
qed

text \<open>The laid-out nodes of a graph whose objects have a namespace, as the API server gives them.\<close>

definition namespaced :: "topology_graph \<Rightarrow> bool" where
  "namespaced g \<longleftrightarrow>
     list_all (\<lambda>n. n \<noteq> [] \<and> CHR ''/'' \<notin> set n)
       (map wl_ns (tg_workloads g) @ map kp_ns (tg_pods g) @ map sv_ns (tg_services g)
        @ map ig_ns (tg_ingresses g))"

definition layout_origin :: "topology_graph \<Rightarrow> (layout_kind \<times> string \<times> string) list" where
  "layout_origin g =
     map (\<lambda>n. (LNamespace, [], n)) (tg_namespaces g)
     @ map (\<lambda>w. (LWorkload, wl_ns w, wl_name w)) (tg_workloads g)
     @ map (\<lambda>p. (LPod, kp_ns p, kp_name p)) (tg_pods g)
     @ map (\<lambda>s. (LService, sv_ns s, sv_name s)) (tg_services g)
     @ map (\<lambda>i. (LIngress, ig_ns i, ig_name i)) (tg_ingresses g)"

definition origin_id :: "layout_kind \<times> string \<times> string \<Rightarrow> string" where
  "origin_id x = layout_id (fst x) (fst (snd x)) (snd (snd x))"

lemma graph_nodes_origin: "graph_nodes g = map (\<lambda>(k, ns, name). lnode k ns name) (layout_origin g)"
  by (simp add: graph_nodes_def namespace_nodes_def workload_nodes_def pod_nodes_def service_nodes_def
      ingress_nodes_def layout_origin_def)

definition visible_origin :: "string set \<Rightarrow> layout_kind \<times> string \<times> string \<Rightarrow> bool" where
  "visible_origin collapsed origin \<longleftrightarrow> fst origin = LNamespace \<or> fst (snd origin) \<notin> collapsed"

text \<open>C33: With some namespaces collapsed, the diagram of a graph shows its namespaces and exactly the objects
  of the other ones, each once, and draws only edges whose two ends are shown.\<close>

theorem diagram_shows_expanded:
  assumes "distinct (map service_id (tg_services g))" and "length (graph_nodes g) \<le> 93000"
    and "namespaced g" and "tg_layout g = layout g"
  shows "mset (map (\<lambda>v. ln_id (vn_layout v)) (resolve_nodes g collapsed))
       = mset (map origin_id (filter (visible_origin collapsed) (layout_origin g)))
     \<and> list_all (\<lambda>(a, b). {a, b} \<subseteq> (\<lambda>v. ln_id (vn_layout v)) ` set (resolve_nodes g collapsed))
         (drawn_edges g (resolve_nodes g collapsed))"
proof
  let ?keep = "\<lambda>n. ln_kind n = LNamespace \<or> ns_of (ln_id n) \<notin> collapsed"
  have lay: "mset (map unplaced (layout g)) = mset (graph_nodes g)"
    using assms(1) by (rule layout_permutes)
  have id: "ln_id (vn_layout (resolve_node g n)) = ln_id n" for n
    by (simp add: resolve_node_def Let_def split: layout_kind.split option.split)
  have ok: "?keep (lnode (fst x) (fst (snd x)) (snd (snd x))) \<longleftrightarrow> visible_origin collapsed x"
    if "x \<in> set (layout_origin g)" for x
  proof -
    have "fst x = LNamespace \<or> (fst (snd x) \<noteq> [] \<and> CHR ''/'' \<notin> set (fst (snd x)))"
      using that assms(3) by (auto simp: layout_origin_def namespaced_def list_all_iff)
    then show ?thesis by (auto simp: lnode_def visible_origin_def ns_of_layout_id)
  qed
  have "mset (map (\<lambda>v. ln_id (vn_layout v)) (resolve_nodes g collapsed))
      = image_mset ln_id (filter_mset ?keep (mset (layout g)))"
    by (simp add: resolve_nodes_def assms(4) comp_def id flip: mset_filter)
  also have "\<dots> = image_mset ln_id (filter_mset ?keep (image_mset unplaced (mset (layout g))))"
    by (simp add: filter_mset_image_mset image_mset.compositionality comp_def unplaced_def)
  also have "\<dots> = image_mset ln_id (filter_mset ?keep (mset (graph_nodes g)))"
    using lay by simp
  also have "\<dots> = mset (map ln_id (filter ?keep (graph_nodes g)))" by simp
  also have "filter ?keep (graph_nodes g)
      = map (\<lambda>(k, ns, name). lnode k ns name) (filter (visible_origin collapsed) (layout_origin g))"
    unfolding graph_nodes_origin filter_map
    by (intro arg_cong [where f = "map _"] filter_cong refl) (simp add: case_prod_beta comp_def ok)
  finally show "mset (map (\<lambda>v. ln_id (vn_layout v)) (resolve_nodes g collapsed))
       = mset (map origin_id (filter (visible_origin collapsed) (layout_origin g)))"
    by (simp add: lnode_def case_prod_beta comp_def origin_id_def [abs_def])
  show "list_all (\<lambda>(a, b). {a, b} \<subseteq> (\<lambda>v. ln_id (vn_layout v)) ` set (resolve_nodes g collapsed))
         (drawn_edges g (resolve_nodes g collapsed))"
    by (auto simp: drawn_edges_def list_all_iff Let_def)
qed

lemma layout_ignores_layout: "layout (g\<lparr>tg_layout := l\<rparr>) = layout g"
  by (simp add: layout_def layout_rows_def namespace_nodes_def workload_nodes_def pod_nodes_def
      service_nodes_def ingress_nodes_def order_services_def service_order_def barycenter_def
      service_positions_def)

lemma diagram_shows_expanded_witness:
  "mset (map (\<lambda>v. ln_id (vn_layout v))
      (resolve_nodes (graph_example\<lparr>tg_layout := layout graph_example\<rparr>) {''default''}))
     = {#''namespace/default''#}"
proof -
  let ?g = "graph_example\<lparr>tg_layout := layout graph_example\<rparr>"
  have "distinct (map service_id (tg_services ?g))" using graph_example_ids by simp
  moreover have "length (graph_nodes ?g) \<le> 93000"
    by (simp add: graph_nodes_def graph_example_def namespace_nodes_def workload_nodes_def pod_nodes_def
        service_nodes_def ingress_nodes_def)
  moreover have "namespaced ?g" by (simp add: namespaced_def graph_example_def)
  moreover have "tg_layout ?g = layout ?g" by (simp add: layout_ignores_layout)
  ultimately have "mset (map (\<lambda>v. ln_id (vn_layout v)) (resolve_nodes ?g {''default''}))
      = mset (map origin_id
          (filter (visible_origin {''default''}) (layout_origin ?g)))"
    by (rule diagram_shows_expanded [THEN conjunct1])
  then show ?thesis
    by (simp add: layout_origin_def visible_origin_def graph_example_def layout_id_def origin_id_def)
qed

text \<open>The owner of a pod is matched by prefix, so the pods of a workload whose name extends another one's
  are counted as the other one's too: a failed pod of \<open>api-gateway\<close> makes \<open>api\<close> fail.\<close>

theorem owner_prefix_confuses:
  assumes "kp_ns p = wl_ns w" and "kp_owner p = Some r" and "or_name r = wl_name w @ ''-'' @ rest"
  shows "pod_owned_by p w"
  using assms by (simp add: pod_owned_by_def starts_with_iff)

end
