(* ===== verification/ClusterTab.thy ===== *)
theory ClusterTab
  imports Bus DiagramModel
begin

text \<open>
  The state of a cluster's tab (\<open>views/cluster.rs\<close>) and what each control of its view does to it.  The view
  is drawn anew in every frame and reports what the user did; what it shows is in theory \<open>ClusterView\<close>, and what a frame
  reports is the datatype \<open>tab_input\<close>, one constructor per control, with the reaction the view's code
  has.
\<close>

section \<open>State\<close>

record auto_refresh =
  ar_op_gen :: op_gen
  ar_interval_secs :: "64 word"

datatype tab_confirm =
    ConfirmDestroy string
  | ConfirmRecreate string
  | ConfirmDeleteNode string string

datatype log_source_kind = DockerSource string | PodSource string string

record logs_ui =
  lu_ring :: log_ring
  lu_op_gen :: op_gen
  lu_running :: bool
  lu_follow :: bool
  lu_tail :: nat
  lu_source :: log_source_kind
  lu_ended :: "(string + unit) option"

record cluster_tab =
  ct_name :: string
  ct_record :: "cluster_record option"
  ct_topo :: "topology_graph option"
  ct_topo_error :: "string option"
  ct_topo_loading :: bool
  ct_manual_gen :: op_gen
  ct_auto :: "auto_refresh option"
  ct_diagram :: diagram_state
  ct_collapsed :: "string set"
  ct_selected :: "string option"
  ct_context_state :: "context_status option"
  ct_context_result :: "(string + unit) option"
  ct_logs :: logs_ui
  ct_confirm :: "tab_confirm option"
  ct_workers :: "32 word"
  ct_picker :: bool
  ct_last_export :: "(string \<times> (string + unit)) option"

definition logs_ui_new :: "string \<Rightarrow> logs_ui" where
  "logs_ui_new cluster =
     \<lparr>lu_ring = ring_new DEFAULT_LOG_RING_CAP, lu_op_gen = 0, lu_running = False, lu_follow = True,
      lu_tail = 100, lu_source = DockerSource (cluster @ ''-control-plane''), lu_ended = None\<rparr>"

definition to_core_source :: "logs_ui \<Rightarrow> string \<Rightarrow> log_source" where
  "to_core_source u cluster =
     (case lu_source u of
        DockerSource c \<Rightarrow> LogDocker c
      | PodSource ns p \<Rightarrow> LogKubectl (kind_context_name cluster) p ns None)"

definition tab_new :: "string \<Rightarrow> cluster_record option \<Rightarrow> cluster_tab" where
  "tab_new name r =
     \<lparr>ct_name = name, ct_record = r, ct_topo = None, ct_topo_error = None, ct_topo_loading = False,
      ct_manual_gen = 0, ct_auto = None, ct_diagram = diagram_new, ct_collapsed = {}, ct_selected = None,
      ct_context_state = None, ct_context_result = None, ct_logs = logs_ui_new name, ct_confirm = None,
      ct_workers = (case r of Some x \<Rightarrow> cs_worker_count (cr_spec x) | None \<Rightarrow> 0), ct_picker = False,
      ct_last_export = None\<rparr>"

section \<open>Events\<close>

definition accept_topology :: "op_gen \<Rightarrow> cluster_tab \<Rightarrow> bool" where
  "accept_topology g t \<longleftrightarrow>
     g = ct_manual_gen t \<or> (case ct_auto t of Some a \<Rightarrow> ar_op_gen a = g | None \<Rightarrow> False)"

definition apply_topology :: "string + topology_graph \<Rightarrow> cluster_tab \<Rightarrow> cluster_tab" where
  "apply_topology result t =
     (case result of
        Inr g \<Rightarrow>
          t\<lparr>ct_collapsed := {n \<in> ct_collapsed t. n \<in> set (tg_namespaces g)}, ct_topo_error := None,
            ct_diagram := (if ct_topo t = None then (ct_diagram t)\<lparr>dg_fit_next := True\<rparr> else ct_diagram t),
            ct_topo := Some g\<rparr>
      | Inl e \<Rightarrow> t\<lparr>ct_topo_error := Some e\<rparr>)\<lparr>ct_topo_loading := False\<rparr>"

definition accept_log :: "op_gen \<Rightarrow> cluster_tab \<Rightarrow> bool" where
  "accept_log g t \<longleftrightarrow> g = lu_op_gen (ct_logs t)"

definition has_record :: "cluster_tab \<Rightarrow> bool" where
  "has_record t \<longleftrightarrow> ct_record t \<noteq> None"

definition spec_with_workers :: "cluster_tab \<Rightarrow> cluster_spec option" where
  "spec_with_workers t =
     map_option (\<lambda>r. (cr_spec r)\<lparr>cs_worker_count := ct_workers t\<rparr>) (ct_record t)"

section \<open>Controls\<close>

datatype tab_cmd =
    TabCommand core_command
  | TabDestroy string
  | TabRecreate cluster_spec
  | TabClose
  | TabRefreshOverview

text \<open>The picker of the export directory: still open, closed with or without a directory, or gone.\<close>

datatype picked = PickedDir string | PickedNone | PickerEmpty | PickerGone

datatype tab_input =
    InClose
  | InExportKubeconfig
  | InOpenK9s
  | InExportLogs
  | InPickerPolled picked
  | InWorkers "32 word"
  | InApplyScale
  | InDestroy
  | InSelect string
  | InDeleteNode string
  | InRefreshNow
  | InAutoToggled
  | InAutoInterval "64 word"
  | InCollapseAll
  | InExpandAll
  | InFit
  | InSourceKind bool
  | InSource log_source_kind
  | InFollowToggled
  | InTail nat
  | InLogsStop
  | InLogsStart
  | InConfirmTyped string
  | InConfirmOk
  | InConfirmCancel

definition refresh_now :: "cluster_tab \<Rightarrow> cluster_tab \<times> tab_cmd list" where
  "refresh_now t =
     (let g = ct_manual_gen t + 1
      in (t\<lparr>ct_manual_gen := g, ct_topo_loading := True\<rparr>, [TabCommand (CmdFetchTopology (ct_name t) g)]))"

definition toggle_auto :: "cluster_tab \<Rightarrow> cluster_tab \<times> tab_cmd list" where
  "toggle_auto t =
     (case ct_auto t of
        Some a \<Rightarrow>
          (t\<lparr>ct_auto := None\<rparr>, [TabCommand (CmdSetAutoRefresh (ct_name t) 5 False (ar_op_gen a + 1))])
      | None \<Rightarrow>
          (t\<lparr>ct_auto := Some \<lparr>ar_op_gen = 1, ar_interval_secs = 5\<rparr>\<rparr>,
           [TabCommand (CmdSetAutoRefresh (ct_name t) 5 True 1)]))"

definition set_interval :: "64 word \<Rightarrow> cluster_tab \<Rightarrow> cluster_tab \<times> tab_cmd list" where
  "set_interval secs t =
     (case ct_auto t of
        Some a \<Rightarrow>
          if secs \<noteq> ar_interval_secs a
          then (t\<lparr>ct_auto := Some \<lparr>ar_op_gen = ar_op_gen a + 1, ar_interval_secs = secs\<rparr>\<rparr>,
                [TabCommand (CmdSetAutoRefresh (ct_name t) secs True (ar_op_gen a + 1))])
          else (t, [])
      | None \<Rightarrow> (t, []))"

definition start_stream :: "cluster_tab \<Rightarrow> cluster_tab \<times> tab_cmd list" where
  "start_stream t =
     (let u = (ct_logs t)\<lparr>lu_op_gen := lu_op_gen (ct_logs t) + 1\<rparr>
      in (t\<lparr>ct_logs := u\<rparr>,
          [TabCommand (CmdStartLogs (ct_name t) (to_core_source u (ct_name t)) (lu_follow u)
             (Some (lu_tail u)) (lu_op_gen u))]))"

definition restart_if_running :: "cluster_tab \<Rightarrow> cluster_tab \<times> tab_cmd list" where
  "restart_if_running t = (if lu_running (ct_logs t) then start_stream t else (t, []))"

definition set_source :: "log_source_kind \<Rightarrow> cluster_tab \<Rightarrow> cluster_tab" where
  "set_source s t = t\<lparr>ct_logs := (ct_logs t)\<lparr>lu_source := s\<rparr>\<rparr>"

text \<open>Switching between node containers and pods; with no pod known the source stays, yet a running
  stream is restarted.\<close>

definition switch_source :: "bool \<Rightarrow> cluster_tab \<Rightarrow> cluster_tab \<times> tab_cmd list" where
  "switch_source docker t =
     (let is_docker = (case lu_source (ct_logs t) of DockerSource _ \<Rightarrow> True | PodSource _ _ \<Rightarrow> False)
      in if docker = is_docker then (t, [])
         else restart_if_running
           (if docker
            then set_source (DockerSource (case ct_topo t of
                     Some g \<Rightarrow> (case tg_nodes g of n # _ \<Rightarrow> cn_name n | [] \<Rightarrow> ct_name t @ ''-control-plane'')
                   | None \<Rightarrow> ct_name t @ ''-control-plane'')) t
            else (case ct_topo t of
                    Some g \<Rightarrow> (case tg_pods g of p # _ \<Rightarrow> set_source (PodSource (kp_ns p) (kp_name p)) t | [] \<Rightarrow> t)
                  | None \<Rightarrow> t)))"

definition logs_start :: "cluster_tab \<Rightarrow> cluster_tab \<times> tab_cmd list" where
  "logs_start t =
     (if \<not> lu_running (ct_logs t) \<and> ct_topo t \<noteq> None
      then start_stream (t\<lparr>ct_logs := (ct_logs t)\<lparr>lu_ring := ring_clear (lu_ring (ct_logs t)),
                             lu_ended := None, lu_running := True\<rparr>\<rparr>)
      else (t, []))"

definition logs_stop :: "cluster_tab \<Rightarrow> cluster_tab \<times> tab_cmd list" where
  "logs_stop t =
     (if lu_running (ct_logs t)
      then (t\<lparr>ct_logs := (ct_logs t)\<lparr>lu_running := False\<rparr>\<rparr>, [TabCommand (CmdStopLogs (ct_name t))])
      else (t, []))"

definition confirm_typed :: "tab_confirm \<Rightarrow> string" where
  "confirm_typed c =
     (case c of ConfirmDestroy s \<Rightarrow> s | ConfirmRecreate s \<Rightarrow> s | ConfirmDeleteNode _ s \<Rightarrow> s)"

definition retype :: "string \<Rightarrow> tab_confirm \<Rightarrow> tab_confirm" where
  "retype s c =
     (case c of ConfirmDestroy _ \<Rightarrow> ConfirmDestroy s | ConfirmRecreate _ \<Rightarrow> ConfirmRecreate s
      | ConfirmDeleteNode n _ \<Rightarrow> ConfirmDeleteNode n s)"

definition recreate_cmds :: "cluster_tab \<Rightarrow> tab_cmd list" where
  "recreate_cmds t = (case spec_with_workers t of Some s \<Rightarrow> [TabRecreate s] | None \<Rightarrow> [])"

text \<open>The button of the confirmation is enabled when the trimmed text is the name of the cluster.\<close>

definition confirm_ok :: "cluster_tab \<Rightarrow> cluster_tab \<times> tab_cmd list" where
  "confirm_ok t =
     (case ct_confirm t of
        None \<Rightarrow> (t, [])
      | Some c \<Rightarrow>
          if str_trim (confirm_typed c) \<noteq> ct_name t then (t, [])
          else
            (let t1 = t\<lparr>ct_confirm := None\<rparr> in
             case c of
               ConfirmDestroy _ \<Rightarrow> (t1, [TabDestroy (ct_name t)])
             | ConfirmRecreate _ \<Rightarrow> (t1, recreate_cmds t1)
             | ConfirmDeleteNode _ _ \<Rightarrow>
                 (let t2 = t1\<lparr>ct_workers := (if ct_workers t1 = 0 then 0 else ct_workers t1 - 1)\<rparr>
                  in (t2, recreate_cmds t2))))"

definition poll_picker :: "picked \<Rightarrow> cluster_tab \<Rightarrow> cluster_tab \<times> tab_cmd list" where
  "poll_picker x t =
     (if \<not> ct_picker t then (t, [])
      else (case x of
        PickedDir d \<Rightarrow> (t\<lparr>ct_picker := False\<rparr>, [TabCommand (CmdExportLogs (ct_name t) d)])
      | PickedNone \<Rightarrow> (t\<lparr>ct_picker := False\<rparr>, [])
      | PickerEmpty \<Rightarrow> (t, [])
      | PickerGone \<Rightarrow> (t\<lparr>ct_picker := False\<rparr>, [])))"

fun tab_react :: "tab_input \<Rightarrow> cluster_tab \<Rightarrow> cluster_tab \<times> tab_cmd list" where
  "tab_react InClose t = (t, [TabClose])"
| "tab_react InExportKubeconfig t = (t, [TabCommand (CmdEnsureContext (ct_name t))])"
| "tab_react InOpenK9s t = (t, [TabCommand (CmdOpenK9s (ct_name t))])"
| "tab_react InExportLogs t = (t\<lparr>ct_picker := True\<rparr>, [])"
| "tab_react (InPickerPolled x) t = poll_picker x t"
| "tab_react (InWorkers n) t = (if has_record t then (t\<lparr>ct_workers := n\<rparr>, []) else (t, []))"
| "tab_react InApplyScale t =
     (case ct_record t of
        Some r \<Rightarrow> if cs_worker_count (cr_spec r) \<noteq> ct_workers t
                  then (t\<lparr>ct_confirm := Some (ConfirmRecreate [])\<rparr>, []) else (t, [])
      | None \<Rightarrow> (t, []))"
| "tab_react InDestroy t = (t\<lparr>ct_confirm := Some (ConfirmDestroy [])\<rparr>, [])"
| "tab_react (InSelect i) t = (t\<lparr>ct_selected := (if ct_selected t = Some i then None else Some i)\<rparr>, [])"
| "tab_react (InDeleteNode n) t =
     (if ct_topo t \<noteq> None then (t\<lparr>ct_confirm := Some (ConfirmDeleteNode n [])\<rparr>, []) else (t, []))"
| "tab_react InRefreshNow t = refresh_now t"
| "tab_react InAutoToggled t = toggle_auto t"
| "tab_react (InAutoInterval n) t = set_interval n t"
| "tab_react InCollapseAll t =
     (case ct_topo t of
        Some g \<Rightarrow> (t\<lparr>ct_collapsed := ct_collapsed t \<union> set (tg_namespaces g)\<rparr>, [])
      | None \<Rightarrow> (t, []))"
| "tab_react InExpandAll t = (t\<lparr>ct_collapsed := {}\<rparr>, [])"
| "tab_react InFit t = (t\<lparr>ct_diagram := request_fit (ct_diagram t)\<rparr>, [])"
| "tab_react (InSourceKind docker) t = switch_source docker t"
| "tab_react (InSource s) t =
     (if lu_source (ct_logs t) = s then (t, []) else restart_if_running (set_source s t))"
| "tab_react InFollowToggled t =
     restart_if_running (t\<lparr>ct_logs := (ct_logs t)\<lparr>lu_follow := \<not> lu_follow (ct_logs t)\<rparr>\<rparr>)"
| "tab_react (InTail n) t =
     (if lu_follow (ct_logs t) then (t, [])
      else (t\<lparr>ct_logs := (ct_logs t)\<lparr>lu_tail := n, lu_ended := None\<rparr>\<rparr>, []))"
| "tab_react InLogsStop t = logs_stop t"
| "tab_react InLogsStart t = logs_start t"
| "tab_react (InConfirmTyped s) t = (t\<lparr>ct_confirm := map_option (retype s) (ct_confirm t)\<rparr>, [])"
| "tab_react InConfirmOk t = confirm_ok t"
| "tab_react InConfirmCancel t = (t\<lparr>ct_confirm := None\<rparr>, [])"

fun tab_react_all :: "tab_input list \<Rightarrow> cluster_tab \<Rightarrow> cluster_tab \<times> tab_cmd list" where
  "tab_react_all [] t = (t, [])"
| "tab_react_all (i # ins) t =
     (let (t1, c1) = tab_react i t; (t2, c2) = tab_react_all ins t1 in (t2, c1 @ c2))"

section \<open>Properties\<close>

lemma destructive_cmds:
  assumes "tab_react i t = (t', cmds)"
  shows "(\<forall>n. TabDestroy n \<in> set cmds \<longrightarrow>
       n = ct_name t \<and> i = InConfirmOk \<and> (\<exists>c. ct_confirm t = Some c \<and> str_trim (confirm_typed c) = ct_name t))
     \<and> (\<forall>s. TabRecreate s \<in> set cmds \<longrightarrow>
       i = InConfirmOk \<and> (\<exists>c. ct_confirm t = Some c \<and> str_trim (confirm_typed c) = ct_name t)
       \<and> (\<exists>r k. ct_record t = Some r \<and> s = (cr_spec r)\<lparr>cs_worker_count := k\<rparr>))"
  using assms
  by (cases "(i, t)" rule: tab_react.cases)
    (auto simp: refresh_now_def toggle_auto_def set_interval_def start_stream_def restart_if_running_def
      switch_source_def logs_start_def logs_stop_def confirm_ok_def poll_picker_def recreate_cmds_def
      spec_with_workers_def Let_def
      split: option.splits if_splits tab_confirm.splits picked.splits list.splits log_source_kind.splits)

lemma tab_commands_plain:
  "TabCommand c \<in> set (snd (tab_react i t)) \<Longrightarrow>
   c \<noteq> CmdDestroyCluster n g \<and> c \<noteq> CmdRecreateCluster n spec g \<and> c \<noteq> CmdShutdown"
  by (cases "(i, t)" rule: tab_react.cases)
    (auto simp: refresh_now_def toggle_auto_def set_interval_def start_stream_def restart_if_running_def
      switch_source_def logs_start_def logs_stop_def confirm_ok_def poll_picker_def recreate_cmds_def Let_def
      split: option.splits if_splits tab_confirm.splits picked.splits list.splits log_source_kind.splits)

text \<open>A tab asks to destroy or recreate its cluster only when the confirmation is accepted with the name
  of the cluster typed, destroys only its own cluster, and recreates it from the stored
  specification with nothing but the number of workers changed.\<close>

theorem destructive_needs_name:
  assumes "tab_react i t = (t', cmds)"
  shows "(\<forall>n. TabDestroy n \<in> set cmds \<longrightarrow>
       n = ct_name t \<and> i = InConfirmOk \<and> (\<exists>c. ct_confirm t = Some c \<and> str_trim (confirm_typed c) = ct_name t))
     \<and> (\<forall>s. TabRecreate s \<in> set cmds \<longrightarrow>
       i = InConfirmOk \<and> (\<exists>c. ct_confirm t = Some c \<and> str_trim (confirm_typed c) = ct_name t)
       \<and> (\<exists>r k. ct_record t = Some r \<and> s = (cr_spec r)\<lparr>cs_worker_count := k\<rparr>))"
  using assms by (rule destructive_cmds)

lemma destructive_needs_name_witness:
  "\<exists>t'. tab_react InConfirmOk ((tab_new ''dev'' None)\<lparr>ct_confirm := Some (ConfirmDestroy ''dev '')\<rparr>)
          = (t', [TabDestroy ''dev'']) \<and> ''dev'' = ct_name (tab_new ''dev'' None)"
proof -
  let ?t = "(tab_new ''dev'' None)\<lparr>ct_confirm := Some (ConfirmDestroy ''dev '')\<rparr>"
  have e: "tab_react InConfirmOk ?t = (?t\<lparr>ct_confirm := None\<rparr>, [TabDestroy ''dev''])"
    by (simp add: confirm_ok_def confirm_typed_def tab_new_def str_trim_def trim_end_def is_ws1_def
        is_ws2_def is_ws3_def less_eq_char_def)
  from destructive_needs_name [OF e] have "''dev'' = ct_name ?t" by auto
  then show ?thesis using e by simp
qed

definition log_gens :: "tab_cmd list \<Rightarrow> op_gen list" where
  "log_gens cmds =
     List.map_filter (\<lambda>c. case c of TabCommand (CmdStartLogs _ _ _ _ g) \<Rightarrow> Some g | _ \<Rightarrow> None) cmds"

fun next_gens :: "op_gen \<Rightarrow> nat \<Rightarrow> op_gen list" where
  "next_gens g 0 = []"
| "next_gens g (Suc n) = (g + 1) # next_gens (g + 1) n"

lemma log_gens_append: "log_gens (a @ b) = log_gens a @ log_gens b"
  by (simp add: log_gens_def List.map_filter_def)

lemma log_gens_simps [simp]:
  "log_gens [] = []"
  "log_gens [TabCommand (CmdStartLogs n s f k g)] = [g]"
  "log_gens [TabDestroy n] = []" "log_gens [TabRecreate sp] = []" "log_gens [TabClose] = []"
  "log_gens [TabCommand (CmdFetchTopology n g)] = []"
  "log_gens [TabCommand (CmdSetAutoRefresh n v b g)] = []"
  "log_gens [TabCommand (CmdStopLogs n)] = []" "log_gens [TabCommand (CmdExportLogs n d)] = []"
  "log_gens [TabCommand (CmdEnsureContext n)] = []" "log_gens [TabCommand (CmdOpenK9s n)] = []"
  by (simp_all add: log_gens_def List.map_filter_def)

lemma set_source_gen [simp]:
  "lu_op_gen (ct_logs (set_source s t)) = lu_op_gen (ct_logs t)"
  by (simp add: set_source_def)

lemma react_log_gen:
  assumes "tab_react i t = (t', cmds)"
  shows "log_gens cmds = [] \<and> lu_op_gen (ct_logs t') = lu_op_gen (ct_logs t)
     \<or> log_gens cmds = [lu_op_gen (ct_logs t) + 1] \<and> lu_op_gen (ct_logs t') = lu_op_gen (ct_logs t) + 1"
  using assms
  by (cases "(i, t)" rule: tab_react.cases)
    (auto simp: refresh_now_def toggle_auto_def set_interval_def start_stream_def restart_if_running_def
      switch_source_def logs_start_def logs_stop_def confirm_ok_def poll_picker_def recreate_cmds_def
      Let_def
      split: option.splits if_splits tab_confirm.splits picked.splits list.splits log_source_kind.splits)

text \<open>The log streams a tab starts carry consecutive generations, and the tab accepts lines of the
  last one only: the lines of a stream that was replaced are never shown.\<close>

theorem log_generations_consecutive:
  assumes "tab_react_all ins t = (t', cmds)"
  shows "log_gens cmds = next_gens (lu_op_gen (ct_logs t)) (length (log_gens cmds))
     \<and> (\<forall>g. accept_log g t' \<longleftrightarrow> g = lu_op_gen (ct_logs t) + of_nat (length (log_gens cmds)))"
proof -
  have "log_gens cmds = next_gens (lu_op_gen (ct_logs t)) (length (log_gens cmds))
     \<and> lu_op_gen (ct_logs t') = lu_op_gen (ct_logs t) + of_nat (length (log_gens cmds))"
    using assms
  proof (induction ins arbitrary: t t' cmds)
    case (Cons i ins)
    obtain t1 c1 t2 c2 where s: "tab_react i t = (t1, c1)" "tab_react_all ins t1 = (t2, c2)"
      by fastforce
    then have e: "t' = t2" "log_gens cmds = log_gens c1 @ log_gens c2"
      using Cons.prems by (auto simp: log_gens_append)
    from react_log_gen [OF s(1)] Cons.IH [OF s(2)] show ?case
      unfolding e by (elim disjE conjE) (simp_all add: algebra_simps)
  qed simp
  then show ?thesis by (simp add: accept_log_def)
qed

lemma log_generations_consecutive_witness:
  "\<exists>t'. tab_react_all [InApplyScale, InRefreshNow] (tab_new ''dev'' None)
          = (t', [TabCommand (CmdFetchTopology ''dev'' 1)]) \<and> (\<forall>g. accept_log g t' \<longleftrightarrow> g = 0)"
proof -
  let ?t = "tab_new ''dev'' None"
  have e: "tab_react_all [InApplyScale, InRefreshNow] ?t
      = (fst (refresh_now ?t), [TabCommand (CmdFetchTopology ''dev'' 1)])"
    by (simp add: refresh_now_def tab_new_def Let_def)
  from log_generations_consecutive [OF e] e show ?thesis
    by (auto simp: tab_new_def logs_ui_new_def)
qed

text \<open>The generations of the automatic refresh start again at 1 whenever it is switched on, so a
  snapshot of a refresh that was switched off is accepted by the next one.\<close>

theorem auto_generation_reused:
  assumes "ct_auto t = None"
  shows "\<exists>t1 t2 t3. toggle_auto t = (t1, [TabCommand (CmdSetAutoRefresh (ct_name t) 5 True 1)])
     \<and> toggle_auto t1 = (t2, [TabCommand (CmdSetAutoRefresh (ct_name t) 5 False 2)])
     \<and> toggle_auto t2 = (t3, [TabCommand (CmdSetAutoRefresh (ct_name t) 5 True 1)])
     \<and> accept_topology 1 t3"
  using assms by (simp add: toggle_auto_def accept_topology_def)

end
