(* ===== verification/OpPanel.thy ===== *)
theory OpPanel
  imports LogRing RunProps
begin

text \<open>
  The panel of a create, recreate or destroy operation (\<open>views/ops.rs\<close>): a timeline of steps and a
  capped output tail, driven by the events of theory \<open>ProvisionRun\<close>.  Its window is in theory \<open>AppFrame\<close>.
\<close>

section \<open>State\<close>

definition OP_OUTPUT_CAP :: nat where "OP_OUTPUT_CAP = 400"

datatype op_kind = OpCreate | OpRecreate | OpDestroy

fun op_kind_label :: "op_kind \<Rightarrow> string" where
  "op_kind_label OpCreate = ''Create''"
| "op_kind_label OpRecreate = ''Recreate''"
| "op_kind_label OpDestroy = ''Destroy''"

datatype step_status = StepRunning | StepDone | StepFail

record step_ui =
  su_id :: string
  su_status :: step_status

record op_panel =
  op_kind :: op_kind
  op_name :: string
  op_gen :: "64 word"
  op_steps :: "step_ui list"
  op_output :: "string list"
  op_finished :: "(string + unit) option"
  op_create_style :: bool
  op_header_printed :: bool
  op_pending_step :: "nat option"

definition op_start :: "op_kind \<Rightarrow> string \<Rightarrow> 64 word \<Rightarrow> op_panel" where
  "op_start k name g =
     \<lparr>op_kind = k, op_name = name, op_gen = g, op_steps = [], op_output = [], op_finished = None,
      op_create_style = (k = OpCreate \<or> k = OpRecreate), op_header_printed = False,
      op_pending_step = None\<rparr>"

definition op_running :: "op_panel \<Rightarrow> bool" where
  "op_running p \<longleftrightarrow> op_finished p = None"

section \<open>Operations\<close>

definition op_push_line :: "string \<Rightarrow> op_panel \<Rightarrow> op_panel" where
  "op_push_line line p = p\<lparr>op_output := push_capped OP_OUTPUT_CAP line (op_output p)\<rparr>"

text \<open>\<open>step_mut\<close> followed by the assignment of the status.\<close>

fun set_status :: "string \<Rightarrow> step_status \<Rightarrow> step_ui list \<Rightarrow> step_ui list" where
  "set_status i st [] = [\<lparr>su_id = i, su_status = st\<rparr>]"
| "set_status i st (s # ss) =
     (if su_id s = i then s\<lparr>su_status := st\<rparr> # ss else s # set_status i st ss)"

definition op_set_step :: "string \<Rightarrow> step_status \<Rightarrow> op_panel \<Rightarrow> op_panel" where
  "op_set_step i st p = p\<lparr>op_steps := set_status i st (op_steps p)\<rparr>"

definition friendly_step :: "string \<Rightarrow> string" where
  "friendly_step i =
     (if i = ''kind-create'' then ''Create cluster''
      else if i = ''merge-kubeconfig'' then ''Merge kubeconfig''
      else if i = ''write-kind-config'' then ''Write kind config''
      else if i = ''destroy-kind'' then ''Delete cluster''
      else if i = ''remove-kubeconfig'' then ''Remove kubeconfig context''
      else if i = ''remove-record'' then ''Remove stored record''
      else
        (case strip_prefix ''cni-'' i of
           Some r \<Rightarrow> ''CNI: '' @ r
         | None \<Rightarrow>
        (case strip_prefix ''ingress-'' i of
           Some r \<Rightarrow> ''Ingress: '' @ r
         | None \<Rightarrow>
        (case strip_prefix ''cilium-'' i of
           Some r \<Rightarrow> ''Cilium extras: '' @ r
         | None \<Rightarrow>
        (case strip_prefix ''verify-'' i of
           Some r \<Rightarrow> ''Verify: '' @ r
         | None \<Rightarrow> i)))))"

definition quoted :: "string \<Rightarrow> string" where
  "quoted s = [CHR 0x22] @ s @ [CHR 0x22]"

definition CHECK_MARK :: string where "CHECK_MARK = [CHR 0xE2, CHR 0x9C, CHR 0x93]"
definition CROSS_MARK :: string where "CROSS_MARK = [CHR 0xE2, CHR 0x9C, CHR 0x97]"

text \<open>\<open>OpKind::Destroy\<close> is unreachable here: its panels are not in create style.\<close>

definition op_header :: "op_panel \<Rightarrow> op_panel" where
  "op_header p =
     (if op_header_printed p then p
      else (op_push_line ((case op_kind p of OpRecreate \<Rightarrow> ''Recreating'' | _ \<Rightarrow> ''Creating'')
              @ '' cluster '' @ quoted (op_name p) @ '' ...'') p)\<lparr>op_header_printed := True\<rparr>)"

definition op_close_line :: "string \<Rightarrow> op_panel \<Rightarrow> op_panel" where
  "op_close_line line p =
     (case op_pending_step p of
        Some i \<Rightarrow>
          if i < length (op_output p) then p\<lparr>op_pending_step := None, op_output := (op_output p)[i := line]\<rparr>
          else op_push_line line (p\<lparr>op_pending_step := None\<rparr>)
      | None \<Rightarrow> op_push_line line p)"

fun apply_event :: "provision_event \<Rightarrow> op_panel \<Rightarrow> op_panel" where
  "apply_event (EvStepStarted i) p =
     (let p1 = op_set_step i StepRunning p
      in if op_create_style p1
         then let p2 = op_header p1
              in (op_push_line (''   '' @ friendly_step i @ '' ...'') p2)
                   \<lparr>op_pending_step := Some (length (op_output p2))\<rparr>
         else op_push_line (''['' @ friendly_step i @ ''] started'') p1)"
| "apply_event (EvStepOutput i line) p = op_push_line (''['' @ friendly_step i @ ''] '' @ line) p"
| "apply_event (EvStepFinished i) p =
     (let p1 = op_set_step i StepDone p
      in if op_create_style p1 then op_close_line ('' '' @ CHECK_MARK @ '' '' @ friendly_step i) p1
         else op_push_line (''['' @ friendly_step i @ ''] finished'') p1)"
| "apply_event (EvStepFailed i err) p =
     (let p1 = op_set_step i StepFail p
      in if op_create_style p1
         then op_push_line (''  '' @ err)
                (op_close_line ('' '' @ CROSS_MARK @ '' '' @ friendly_step i) p1)
         else op_push_line (''['' @ friendly_step i @ ''] FAILED: '' @ err) p1)"
| "apply_event (EvPlanFinished success) p =
     (if op_create_style p
      then if success
           then op_push_line (''kubectl cluster-info --context kind-'' @ op_name p)
                  (op_push_line []
                    (op_push_line ''You can now use your cluster with:''
                      (op_push_line (''Set kubectl context to '' @ quoted (''kind-'' @ op_name p)) p)))
           else op_push_line ('' '' @ CROSS_MARK @ '' plan aborted'') p
      else op_push_line (if success then ''plan finished successfully'' else ''plan aborted'') p)"

section \<open>The output is bounded\<close>

interpretation op_log: bounded_log op_output op_push_line "\<lambda>_. OP_OUTPUT_CAP"
  by unfold_locales (simp_all add: op_push_line_def push_capped_take_last)

lemma op_log_bound: "op_log.sound p \<longleftrightarrow> length (op_output p) \<le> OP_OUTPUT_CAP"
  unfolding op_log.sound_def by (simp add: OP_OUTPUT_CAP_def)

lemma op_push_bound:
  "length (op_output p) \<le> OP_OUTPUT_CAP \<Longrightarrow> length (op_output (op_push_line line p)) \<le> OP_OUTPUT_CAP"
  using op_log.sound_put [of p line] by (simp add: op_log_bound)

lemma op_close_bound:
  "length (op_output p) \<le> OP_OUTPUT_CAP \<Longrightarrow> length (op_output (op_close_line line p)) \<le> OP_OUTPUT_CAP"
  by (simp add: op_close_line_def op_push_bound split: option.split)

lemma op_header_bound:
  "length (op_output p) \<le> OP_OUTPUT_CAP \<Longrightarrow> length (op_output (op_header p)) \<le> OP_OUTPUT_CAP"
  using op_push_bound by (simp add: op_header_def)

lemma apply_event_bound:
  "length (op_output p) \<le> OP_OUTPUT_CAP \<Longrightarrow> length (op_output (apply_event e p)) \<le> OP_OUTPUT_CAP"
  by (cases "(e, p)" rule: apply_event.cases)
    (simp_all add: Let_def op_set_step_def op_push_bound op_close_bound op_header_bound)

section \<open>The timeline\<close>

fun steps_after :: "provision_event \<Rightarrow> step_ui list \<Rightarrow> step_ui list" where
  "steps_after (EvStepStarted i) ss = set_status i StepRunning ss"
| "steps_after (EvStepOutput i line) ss = ss"
| "steps_after (EvStepFinished i) ss = set_status i StepDone ss"
| "steps_after (EvStepFailed i err) ss = set_status i StepFail ss"
| "steps_after (EvPlanFinished success) ss = ss"

lemma op_steps_push [simp]: "op_steps (op_push_line line p) = op_steps p"
  by (simp add: op_push_line_def)

lemma op_steps_close [simp]: "op_steps (op_close_line line p) = op_steps p"
  by (simp add: op_close_line_def split: option.split)

lemma op_steps_header [simp]: "op_steps (op_header p) = op_steps p"
  by (simp add: op_header_def)

lemma op_steps_apply: "op_steps (apply_event e p) = steps_after e (op_steps p)"
  by (cases "(e, p)" rule: apply_event.cases) (simp_all add: Let_def op_set_step_def)

lemma op_steps_fold: "op_steps (fold apply_event evs p) = fold steps_after evs (op_steps p)"
  by (induction evs arbitrary: p) (simp_all add: op_steps_apply)

lemma set_status_new: "i \<notin> su_id ` set ss \<Longrightarrow> set_status i st ss = ss @ [\<lparr>su_id = i, su_status = st\<rparr>]"
  by (induction ss) auto

lemma set_status_last:
  "i \<notin> su_id ` set ss
     \<Longrightarrow> set_status i st (ss @ [\<lparr>su_id = i, su_status = st'\<rparr>]) = ss @ [\<lparr>su_id = i, su_status = st\<rparr>]"
  by (induction ss) auto

lemma set_status_ids: "distinct (map su_id ss) \<Longrightarrow> distinct (map su_id (set_status i st ss))"
proof -
  have "su_id ` set (set_status i st ss) = insert i (su_id ` set ss)" for ss
    by (induction ss) auto
  then show "distinct (map su_id ss) \<Longrightarrow> distinct (map su_id (set_status i st ss))"
    by (induction ss) auto
qed

lemma output_of_simps [simp]:
  "output_of i (EvStepOutput j line) \<longleftrightarrow> j = i" "\<not> output_of i (EvStepStarted j)"
  "\<not> output_of i (EvStepFinished j)" "\<not> output_of i (EvStepFailed j err)"
  "\<not> output_of i (EvPlanFinished b)"
  by (simp_all add: output_of_def)

lemma steps_after_outputs: "list_all (output_of i) es \<Longrightarrow> fold steps_after es ss = ss"
proof (induction es arbitrary: ss)
  case (Cons e es)
  then show ?case by (cases e) auto
qed simp

text \<open>What the events of a run say: the steps reported as finished, and those reported as failed, in their order.\<close>

definition finished_ids :: "provision_event list \<Rightarrow> string list" where
  "finished_ids evs = List.map_filter (\<lambda>e. case e of EvStepFinished i \<Rightarrow> Some i | _ \<Rightarrow> None) evs"

definition failed_ids :: "provision_event list \<Rightarrow> string list" where
  "failed_ids evs = List.map_filter (\<lambda>e. case e of EvStepFailed i _ \<Rightarrow> Some i | _ \<Rightarrow> None) evs"

definition reported_steps :: "provision_event list \<Rightarrow> step_ui list" where
  "reported_steps evs =
     map (\<lambda>i. \<lparr>su_id = i, su_status = StepDone\<rparr>) (finished_ids evs)
     @ map (\<lambda>i. \<lparr>su_id = i, su_status = StepFail\<rparr>) (failed_ids evs)"

lemma reported_ids_simps [simp]:
  "finished_ids [] = []" "failed_ids [] = []"
  "finished_ids (EvStepStarted i # es) = finished_ids es" "failed_ids (EvStepStarted i # es) = failed_ids es"
  "finished_ids (EvStepOutput i l # es) = finished_ids es" "failed_ids (EvStepOutput i l # es) = failed_ids es"
  "finished_ids (EvStepFinished i # es) = i # finished_ids es" "failed_ids (EvStepFinished i # es) = failed_ids es"
  "finished_ids (EvStepFailed i m # es) = finished_ids es" "failed_ids (EvStepFailed i m # es) = i # failed_ids es"
  "finished_ids (EvPlanFinished b # es) = finished_ids es" "failed_ids (EvPlanFinished b # es) = failed_ids es"
  by (simp_all add: finished_ids_def failed_ids_def List.map_filter_def)

lemma reported_ids_append [simp]:
  "finished_ids (a @ b) = finished_ids a @ finished_ids b" "failed_ids (a @ b) = failed_ids a @ failed_ids b"
  by (simp_all add: finished_ids_def failed_ids_def List.map_filter_def)

lemma reported_ids_outputs: "list_all (output_of i) es \<Longrightarrow> finished_ids es = [] \<and> failed_ids es = []"
proof (induction es)
  case (Cons e es)
  then show ?case by (cases e) auto
qed simp

text \<open>The shape of a run: a step of it that has started, with what follows its output.\<close>

lemma run_cases:
  assumes "run_protocol (i # ids) success evs"
  obtains "evs = [EvPlanFinished False]" "\<not> success"
    | outs m where "list_all (output_of i) outs" "\<not> success"
        "evs = EvStepStarted i # outs @ [EvStepFailed i m, EvPlanFinished False]"
    | outs rest where "list_all (output_of i) outs" "evs = EvStepStarted i # outs @ EvStepFinished i # rest"
        "run_protocol ids success rest"
proof -
  consider "evs = [EvPlanFinished False]" "\<not> success" | rest where "evs = EvStepStarted i # rest"
  proof -
    obtain e rest where e: "evs = e # rest" using assms by (cases evs) auto
    show thesis using assms that unfolding e by (cases e; cases rest) auto
  qed
  then show thesis
  proof cases
    case 1
    then show ?thesis by (rule that(1))
  next
    case (2 rest)
    let ?outs = "takeWhile (output_of i) rest" and ?tail = "dropWhile (output_of i) rest"
    have outs: "list_all (output_of i) ?outs" by (auto simp: list_all_iff dest: set_takeWhileD)
    have e: "evs = EvStepStarted i # ?outs @ ?tail" using 2 by simp
    obtain x rest' where x: "?tail = x # rest'" using assms 2 by (cases ?tail) auto
    have "case ?tail of
           EvStepFinished k # rest' \<Rightarrow> k = i \<and> run_protocol ids success rest'
         | [EvStepFailed k m, EvPlanFinished b] \<Rightarrow> k = i \<and> \<not> b \<and> \<not> success
         | _ \<Rightarrow> False"
      using assms 2 by simp
    then have "(\<exists>m. ?tail = [EvStepFailed i m, EvPlanFinished False] \<and> \<not> success)
        \<or> (\<exists>r. ?tail = EvStepFinished i # r \<and> run_protocol ids success r)"
      unfolding x by (cases x; cases "tl rest'") (auto simp: neq_Nil_conv split: list.splits provision_event.splits)
    then show ?thesis using that(2,3) outs e by metis
  qed
qed

lemma steps_of_run:
  assumes "run_protocol ids success evs" "distinct ids" "set ids \<inter> su_id ` set prev = {}"
  shows "fold steps_after evs prev = prev @ reported_steps evs"
  using assms
proof (induction ids arbitrary: evs prev)
  case Nil
  then show ?case by (auto simp: reported_steps_def)
next
  case (Cons i ids)
  have new: "i \<notin> su_id ` set prev" using Cons.prems(3) by auto
  from Cons.prems(1) show ?case
  proof (cases rule: run_cases)
    case 1
    then show ?thesis by (simp add: reported_steps_def)
  next
    case (2 outs m)
    then show ?thesis using new reported_ids_outputs [OF 2(1)] steps_after_outputs [OF 2(1)]
      by (simp add: reported_steps_def set_status_new set_status_last)
  next
    case (3 outs rest)
    let ?done = "\<lparr>su_id = i, su_status = StepDone\<rparr>"
    have "fold steps_after rest (prev @ [?done]) = (prev @ [?done]) @ reported_steps rest"
      using Cons.prems 3(3) by (intro Cons.IH) auto
    then show ?thesis using new reported_ids_outputs [OF 3(1)] steps_after_outputs [OF 3(1)]
      by (simp add: 3(2) reported_steps_def set_status_new set_status_last)
  qed
qed

text \<open>What a run reports, against its plan.\<close>

lemma run_reports:
  assumes "run_protocol ids success evs"
  shows "if success then finished_ids evs = ids \<and> failed_ids evs = []
    else (\<exists>k < length ids. finished_ids evs = take k ids \<and> (failed_ids evs = [] \<or> failed_ids evs = [ids ! k]))"
  using assms
proof (induction ids arbitrary: evs)
  case Nil
  then show ?case by (auto split: if_splits)
next
  case (Cons i ids)
  from Cons.prems show ?case
  proof (cases rule: run_cases)
    case 1
    then show ?thesis by (auto intro!: exI [of _ 0])
  next
    case (2 outs m)
    then show ?thesis using reported_ids_outputs [OF 2(1)] by (auto intro!: exI [of _ 0])
  next
    case (3 outs rest)
    show ?thesis
    proof (cases success)
      case True
      then show ?thesis using Cons.IH [OF 3(3)] reported_ids_outputs [OF 3(1)] 3(2) by simp
    next
      case False
      then obtain k where "k < length ids" "finished_ids rest = take k ids"
        "failed_ids rest = [] \<or> failed_ids rest = [ids ! k]" using Cons.IH [OF 3(3)] by auto
      then show ?thesis using False reported_ids_outputs [OF 3(1)] 3(2) by (auto intro!: exI [of _ "Suc k"])
    qed
  qed
qed

section \<open>Properties\<close>

text \<open>C23: After the events of a run over distinct steps the timeline shows exactly the steps these events report as
  finished, in their order, and then the one they report as failed, if any; after a success these are all the steps of
  the plan, else a proper initial part of it and at most the next step.  The output never exceeds its cap.\<close>

theorem panel_shows_run:
  assumes "run_protocol ids success evs" and "distinct ids"
  shows "op_steps (fold apply_event evs (op_start k n g)) = reported_steps evs
     \<and> (if success then finished_ids evs = ids \<and> failed_ids evs = []
        else (\<exists>j < length ids. finished_ids evs = take j ids \<and> (failed_ids evs = [] \<or> failed_ids evs = [ids ! j])))
     \<and> length (op_output (fold apply_event evs (op_start k n g))) \<le> OP_OUTPUT_CAP"
proof (intro conjI)
  show "op_steps (fold apply_event evs (op_start k n g)) = reported_steps evs"
    using steps_of_run [OF assms, of "[]"] by (simp add: op_steps_fold op_start_def)
  show "if success then finished_ids evs = ids \<and> failed_ids evs = []
        else (\<exists>j < length ids. finished_ids evs = take j ids \<and> (failed_ids evs = [] \<or> failed_ids evs = [ids ! j]))"
    using assms(1) by (rule run_reports)
  have "length (op_output (fold apply_event evs p)) \<le> OP_OUTPUT_CAP"
    if "length (op_output p) \<le> OP_OUTPUT_CAP" for p
    using that by (induction evs arbitrary: p) (simp_all add: apply_event_bound)
  then show "length (op_output (fold apply_event evs (op_start k n g))) \<le> OP_OUTPUT_CAP"
    by (simp add: op_start_def)
qed

lemma panel_shows_run_witness:
  "op_steps (fold apply_event
     [EvStepStarted ''a'', EvStepOutput ''a'' ''x'', EvStepFinished ''a'', EvStepStarted ''b'',
      EvStepFailed ''b'' ''err'', EvPlanFinished False] (op_start OpCreate ''dev'' 1))
   = [\<lparr>su_id = ''a'', su_status = StepDone\<rparr>, \<lparr>su_id = ''b'', su_status = StepFail\<rparr>]"
  using panel_shows_run [of "[''a'', ''b'']" False "[EvStepStarted ''a'', EvStepOutput ''a'' ''x'', EvStepFinished ''a'',
      EvStepStarted ''b'', EvStepFailed ''b'' ''err'', EvPlanFinished False]" OpCreate "''dev''" 1]
  by (simp add: reported_steps_def)

text \<open>The index of the line in progress is not moved when the tail evicts its first line: the end of a step
  then overwrites the line after it, and the line in progress stays.\<close>

theorem pending_line_lost:
  assumes "op_create_style p" and "length (op_output p) = OP_OUTPUT_CAP"
    and "op_pending_step p = Some j" and "0 < j" and "j < OP_OUTPUT_CAP"
  shows "op_output (apply_event (EvStepFinished i) (apply_event (EvStepOutput i line) p)) ! (j - 1)
           = op_output p ! j
     \<and> op_output (apply_event (EvStepFinished i) (apply_event (EvStepOutput i line) p)) ! j
           = '' '' @ CHECK_MARK @ '' '' @ friendly_step i"
proof -
  have "j - 1 < OP_OUTPUT_CAP - 1" using assms by simp
  then show ?thesis
    using assms by (simp add: Let_def op_set_step_def op_push_line_def push_capped_def op_close_line_def
        nth_append nth_tl)
qed

end
