(* ===== verification/Texts.thy ===== *)
theory Texts
  imports Prelude
begin

text \<open>
  The cut of long texts for display (\<open>util.rs\<close>).
\<close>

text \<open>The characters of a text, each with its continuation bytes.\<close>

definition is_continuation :: "char \<Rightarrow> bool" where
  "is_continuation c \<longleftrightarrow> CHR 0x80 \<le> c \<and> c < CHR 0xC0"

function utf8_chars :: "string \<Rightarrow> string list" where
  "utf8_chars [] = []"
| "utf8_chars (c # cs) = (c # takeWhile is_continuation cs) # utf8_chars (dropWhile is_continuation cs)"
  by pat_completeness auto
termination by (relation "measure length") (simp_all add: length_dropWhile_le le_imp_less_Suc)

definition truncate_text :: "string \<Rightarrow> nat \<Rightarrow> string" where
  "truncate_text txt k =
     (if length (utf8_chars txt) \<le> k then txt else concat (take (k - 3) (utf8_chars txt)) @ ''...'')"

section \<open>Properties\<close>

lemma utf8_chars_concat: "concat (utf8_chars t) = t"
  by (induction t rule: utf8_chars.induct) simp_all

lemma utf8_chars_one:
  assumes "list_all is_continuation cs" "ys \<noteq> [] \<longrightarrow> \<not> is_continuation (hd ys)"
  shows "utf8_chars (c # cs @ ys) = (c # cs) # utf8_chars ys"
proof -
  have "takeWhile is_continuation (cs @ ys) = cs \<and> dropWhile is_continuation (cs @ ys) = ys"
    using assms by (induction cs) (cases ys, auto)+
  then show ?thesis by simp
qed

lemma utf8_chars_take:
  assumes "ys \<noteq> []" "\<not> is_continuation (hd ys)" "t = [] \<or> \<not> is_continuation (hd t)"
  shows "utf8_chars (concat (take n (utf8_chars t)) @ ys) = take n (utf8_chars t) @ utf8_chars ys
     \<and> \<not> is_continuation (hd (concat (take n (utf8_chars t)) @ ys))"
  using assms(3)
proof (induction t arbitrary: n rule: utf8_chars.induct)
  case (2 c cs)
  show ?case
  proof (cases n)
    case (Suc m)
    let ?rest = "concat (take m (utf8_chars (dropWhile is_continuation cs))) @ ys"
    have "dropWhile is_continuation cs = [] \<or> \<not> is_continuation (hd (dropWhile is_continuation cs))"
      using hd_dropWhile by blast
    then have "utf8_chars ?rest = take m (utf8_chars (dropWhile is_continuation cs)) @ utf8_chars ys
        \<and> \<not> is_continuation (hd ?rest)" by (rule 2(1))
    moreover have "list_all is_continuation (takeWhile is_continuation cs)"
      by (auto simp: list_all_iff dest: set_takeWhileD)
    ultimately show ?thesis
      using 2(2) utf8_chars_one [of "takeWhile is_continuation cs" ?rest c] Suc by simp
  qed (use assms in simp)
qed (use assms in simp)

text \<open>A text that is cut has as many characters as asked for, or the three of the ellipsis.\<close>

lemma truncate_length:
  assumes "txt = [] \<or> \<not> is_continuation (hd txt)"
  shows "length (utf8_chars (truncate_text txt k)) \<le> max k 3"
proof (cases "length (utf8_chars txt) \<le> k")
  case False
  have d: "\<not> is_continuation (CHR ''.'')" by (simp add: is_continuation_def less_eq_char_def)
  have "utf8_chars (concat (take (k - 3) (utf8_chars txt)) @ ''...'') = take (k - 3) (utf8_chars txt) @ utf8_chars ''...''"
    using d by (intro utf8_chars_take [THEN conjunct1] assms) simp_all
  then show ?thesis using False d by (simp add: truncate_text_def)
qed (simp add: truncate_text_def)

end
