(* ===== verification/DepsPanel.thy ===== *)
theory DepsPanel
  imports Bus Texts
begin

text \<open>
  The dependency panel (\<open>views/deps.rs\<close>) and the watchdog of its detection runs (\<open>app.rs\<close>,
  \<open>watch_detect\<close>): what each event of a detection or an install does to the panel's state, and what a frame
  of the panel shows and asks for.  Painting is not modelled; instants are milliseconds of a monotonic clock, and the plan shown before an install is
  computed from the environment as the core computes it.
\<close>

section \<open>State\<close>

definition INSTALL_LOG_CAP :: nat where "INSTALL_LOG_CAP = 400"

record install_ui =
  iu_id :: tool_id
  iu_lines :: "string list"
  iu_total :: nat
  iu_done :: "(string + tool_status) option"

record deps_state =
  dp_detecting :: bool
  dp_detect_started :: "nat option"
  dp_detect_retries :: "32 word"
  dp_results :: "tool_id \<Rightarrow> (string + tool_status) option"
  dp_docker :: "docker_daemon_state option"
  dp_install :: "install_ui option"
  dp_run :: "64 word"

definition deps_default :: deps_state where
  "deps_default = \<lparr>dp_detecting = False, dp_detect_started = None, dp_detect_retries = 0,
     dp_results = (\<lambda>_. None), dp_docker = None, dp_install = None, dp_run = 0\<rparr>"

definition install_ui_new :: "tool_id \<Rightarrow> install_ui" where
  "install_ui_new i = \<lparr>iu_id = i, iu_lines = [], iu_total = 0, iu_done = None\<rparr>"

definition iu_push_line :: "string \<Rightarrow> install_ui \<Rightarrow> install_ui" where
  "iu_push_line line u = u\<lparr>iu_lines := push_capped INSTALL_LOG_CAP line (iu_lines u)\<rparr>"

section \<open>Operations\<close>

definition version_line :: "tool_status \<Rightarrow> string" where
  "version_line st =
     (case st of
        Installed v path \<Rightarrow>
          if is_known v
          then ''v'' @ dec (unat (v_major v)) @ ''.'' @ dec (unat (v_minor v)) @ ''.''
                 @ dec (unat (v_patch v)) @ '' ('' @ utf8_lossy path @ '')''
          else ''installed ('' @ utf8_lossy path @ '')''
      | NotInstalled \<Rightarrow> ''not installed''
      | Broken reason \<Rightarrow> ''broken: '' @ reason)"

fun install_line :: "install_event \<Rightarrow> install_ui \<Rightarrow> install_ui" where
  "install_line (IStepStarted k tot d) u =
     iu_push_line (''['' @ dec (k + 1) @ ''/'' @ dec tot @ ''] '' @ d) (u\<lparr>iu_total := tot\<rparr>)"
| "install_line (IStepLine k line) u = iu_push_line (''  '' @ line) u"
| "install_line (IStepFinished k) u = iu_push_line (''['' @ dec (k + 1) @ ''] done'') u"

definition for_install :: "tool_id \<Rightarrow> (install_ui \<Rightarrow> install_ui) \<Rightarrow> deps_state \<Rightarrow> deps_state" where
  "for_install i f d =
     (case dp_install d of
        Some u \<Rightarrow> if iu_id u = i then d\<lparr>dp_install := Some (f u)\<rparr> else d
      | None \<Rightarrow> d)"

fun deps_handle_event :: "core_event \<Rightarrow> deps_state \<Rightarrow> deps_state" where
  "deps_handle_event (EvDetectedTool i run result) d =
     (if run \<noteq> dp_run d then d else d\<lparr>dp_results := (dp_results d)(i \<mapsto> result)\<rparr>)"
| "deps_handle_event (EvToolsDetectDone run) d =
     (if run \<noteq> dp_run d then d
      else d\<lparr>dp_detecting := False, dp_detect_started := None, dp_detect_retries := 0\<rparr>)"
| "deps_handle_event (EvDockerDaemon st) d = d\<lparr>dp_docker := Some st\<rparr>"
| "deps_handle_event (EvInstallEvent i ev) d = for_install i (install_line ev) d"
| "deps_handle_event (EvInstallDone i result) d =
     (let d1 = for_install i (\<lambda>u.
            (iu_push_line (case result of
                Inr st \<Rightarrow> ''install finished: '' @ version_line st
              | Inl err \<Rightarrow> ''install failed: '' @ err) u)\<lparr>iu_done := Some result\<rparr>) d
      in d1\<lparr>dp_results := (dp_results d1)(i \<mapsto> result)\<rparr>)"
| "deps_handle_event _ d = d"

definition begin_detect :: "nat \<Rightarrow> deps_state \<Rightarrow> deps_state \<times> 64 word" where
  "begin_detect now d =
     (d\<lparr>dp_run := dp_run d + 1, dp_detecting := True, dp_detect_started := Some now,
        dp_detect_retries := 0, dp_results := (\<lambda>_. None)\<rparr>, dp_run d + 1)"

definition detect_stalled :: "nat \<Rightarrow> nat \<Rightarrow> deps_state \<Rightarrow> bool" where
  "detect_stalled now threshold d \<longleftrightarrow>
     dp_detecting d \<and> (case dp_detect_started d of Some t \<Rightarrow> threshold \<le> now - t | None \<Rightarrow> False)"

definition ELEVATION_NOTICE :: string where
  "ELEVATION_NOTICE = ''notice: if elevation is required, a sudo/pkexec prompt may appear outside this window''"

definition plan_preview :: "core_error + install_plan \<Rightarrow> install_ui \<Rightarrow> install_ui" where
  "plan_preview plan u =
     (case plan of
        Inr p \<Rightarrow> fold iu_push_line (map (\<lambda>ln. ''plan: '' @ ln) (render_install p))
                  (u\<lparr>iu_total := length (ip_steps p)\<rparr>)
      | Inl _ \<Rightarrow> u)"

definition tool_notices :: "tool_id \<Rightarrow> string list" where
  "tool_notices i =
     (case find_tool i of
        Some t \<Rightarrow>
          (if ir_pkg_manager_only (t_install t)
           then [''notice: no binary fallback for this tool; the system package manager is used''] else [])
          @ (case ir_post_install (t_install t) of Some note \<Rightarrow> [''notice: '' @ note] | None \<Rightarrow> [])
      | None \<Rightarrow> [])"

definition begin_install :: "host_env \<Rightarrow> os_env \<Rightarrow> tool_id \<Rightarrow> deps_state \<Rightarrow> deps_state" where
  "begin_install env e i d =
     d\<lparr>dp_install := Some (fold iu_push_line (tool_notices i @ [ELEVATION_NOTICE])
         (plan_preview (plan_install (he_arch env) (he_curl env) e i) (install_ui_new i)))\<rparr>"

interpretation install_log: bounded_log iu_lines iu_push_line "\<lambda>_. INSTALL_LOG_CAP"
  by unfold_locales (simp_all add: iu_push_line_def push_capped_take_last)

section \<open>A frame\<close>

definition ELLIPSIS :: string where "ELLIPSIS = [CHR 0xE2, CHR 0x80, CHR 0xA6]"

fun daemon_state_text :: "docker_daemon_state \<Rightarrow> string" where
  "daemon_state_text (DaemonReady sv) = ''up''"
| "daemon_state_text DaemonBinaryMissing = ''docker binary missing''"
| "daemon_state_text (DaemonNotRunning reason) = ''not running ('' @ truncate_text reason 80 @ '')''"

definition daemon_line :: "docker_daemon_state option \<Rightarrow> string" where
  "daemon_line st =
     (case st of
        Some (DaemonReady sv) \<Rightarrow>
          ''docker daemon: up (server '' @ (case sv of Some v \<Rightarrow> v | None \<Rightarrow> ''unknown'') @ '')''
      | Some other \<Rightarrow> ''docker daemon: '' @ daemon_state_text other
      | None \<Rightarrow> ''docker daemon: not probed yet'')"

text \<open>The line under the name of a tool, and its hover text.\<close>

definition tool_line :: "deps_state \<Rightarrow> tool_id \<Rightarrow> string \<times> string option" where
  "tool_line d i =
     (case dp_results d i of
        Some (Inr (Installed v path)) \<Rightarrow>
          ((if is_known v
            then ''v'' @ dec (unat (v_major v)) @ ''.'' @ dec (unat (v_minor v)) @ ''.'' @ dec (unat (v_patch v))
            else ''installed''), Some (utf8_lossy path))
      | Some (Inr NotInstalled) \<Rightarrow> (''Not installed'', None)
      | Some (Inr (Broken reason)) \<Rightarrow> (''Broken'', Some (truncate_text reason 120))
      | Some (Inl err) \<Rightarrow> (''detect failed'', Some (truncate_text err 120))
      | None \<Rightarrow> (if dp_detecting d then ''checking'' @ ELLIPSIS else ''unknown'', None))"

text \<open>The button of a tool that is installed is a badge; that of one being installed is disabled.\<close>

definition install_enabled :: "deps_state \<Rightarrow> tool_id \<Rightarrow> bool" where
  "install_enabled d i \<longleftrightarrow>
     (case dp_results d i of
        Some (Inr (Installed v path)) \<Rightarrow> False
      | _ \<Rightarrow> \<not> (case dp_install d of Some u \<Rightarrow> iu_id u = i \<and> iu_done u = None | None \<Rightarrow> False))"

record deps_input =
  di_refresh :: bool
  di_install :: "tool_id \<Rightarrow> bool"
  di_close :: "tool_id \<Rightarrow> bool"

definition deps_input_none :: deps_input where
  "deps_input_none = \<lparr>di_refresh = False, di_install = (\<lambda>_. False), di_close = (\<lambda>_. False)\<rparr>"

definition deps_refresh :: "nat \<Rightarrow> bool \<Rightarrow> deps_state \<Rightarrow> deps_state \<times> core_command list" where
  "deps_refresh now clicked d =
     (if clicked \<and> \<not> dp_detecting d
      then (let (d1, run) = begin_detect now d in (d1, [CmdDetectTools run, CmdCheckDockerDaemon]))
      else (d, []))"

definition deps_row ::
    "host_env \<Rightarrow> os_env \<Rightarrow> deps_input \<Rightarrow> tool \<Rightarrow> deps_state \<times> core_command list
       \<Rightarrow> deps_state \<times> core_command list" where
  "deps_row env e inp t x =
     (case x of (d, cmds) \<Rightarrow>
        let i = t_id t;
            (d1, cmds1) = (if di_install inp i \<and> install_enabled d i
                           then (begin_install env e i d, cmds @ [CmdInstallTool i]) else (d, cmds))
        in (case dp_install d1 of
              Some u \<Rightarrow> if iu_id u = i \<and> iu_done u \<noteq> None \<and> di_close inp i
                        then (d1\<lparr>dp_install := None\<rparr>, cmds1) else (d1, cmds1)
            | None \<Rightarrow> (d1, cmds1)))"

definition deps_show ::
    "host_env \<Rightarrow> os_env \<Rightarrow> nat \<Rightarrow> deps_input \<Rightarrow> deps_state \<Rightarrow> deps_state \<times> core_command list" where
  "deps_show env e now inp d = fold (deps_row env e inp) registry (deps_refresh now (di_refresh inp) d)"

section \<open>The watchdog\<close>

definition DETECT_WATCHDOG :: nat where "DETECT_WATCHDOG = 60000"
definition DETECT_MAX_RETRIES :: "32 word" where "DETECT_MAX_RETRIES = 3"

text \<open>The run to re-issue, if any.\<close>

definition watch_detect :: "nat \<Rightarrow> deps_state \<Rightarrow> deps_state \<times> 64 word option" where
  "watch_detect now d =
     (if dp_detecting d \<and> detect_stalled now DETECT_WATCHDOG d
      then
        (if dp_detect_retries d < DETECT_MAX_RETRIES
         then (let (d1, run) = begin_detect now (d\<lparr>dp_detect_retries := dp_detect_retries d + 1\<rparr>)
               in (d1, Some run))
         else (d\<lparr>dp_detecting := False, dp_detect_started := None, dp_detect_retries := 0\<rparr>, None))
      else (d, None))"

text \<open>The ticks of the watchdog at the given times, with no event between them.\<close>

definition watch_ticks :: "nat list \<Rightarrow> deps_state \<Rightarrow> deps_state" where
  "watch_ticks ts d = fold (\<lambda>t s. fst (watch_detect t s)) ts d"

section \<open>Properties\<close>

lemma for_install_frame [simp]:
  "dp_results (for_install i f d) = dp_results d" "dp_run (for_install i f d) = dp_run d"
  "dp_detecting (for_install i f d) = dp_detecting d"
  "dp_detect_started (for_install i f d) = dp_detect_started d"
  "dp_detect_retries (for_install i f d) = dp_detect_retries d"
  by (simp_all add: for_install_def split: option.split)

text \<open>The outcome an event reports for a tool, if the event belongs to the run or ends an install.\<close>

definition outcome_for :: "64 word \<Rightarrow> tool_id \<Rightarrow> core_event \<Rightarrow> (string + tool_status) option" where
  "outcome_for run i ev =
     (case ev of
        EvDetectedTool j r result \<Rightarrow> if j = i \<and> r = run then Some result else None
      | EvInstallDone j result \<Rightarrow> if j = i then Some result else None
      | _ \<Rightarrow> None)"

lemma handle_event_run: "dp_run (deps_handle_event ev d) = dp_run d"
  by (cases "(ev, d)" rule: deps_handle_event.cases) (simp_all add: Let_def)

lemma handle_event_result:
  "dp_results (deps_handle_event ev d) i =
     (case outcome_for (dp_run d) i ev of Some r \<Rightarrow> Some r | None \<Rightarrow> dp_results d i)"
  by (cases "(ev, d)" rule: deps_handle_event.cases) (simp_all add: Let_def outcome_for_def)

lemma handle_event_detecting:
  "dp_detecting (deps_handle_event ev d) \<longleftrightarrow> dp_detecting d \<and> ev \<noteq> EvToolsDetectDone (dp_run d)"
  by (cases "(ev, d)" rule: deps_handle_event.cases) (auto simp: Let_def)

definition last_outcome :: "64 word \<Rightarrow> tool_id \<Rightarrow> core_event list \<Rightarrow> (string + tool_status) option" where
  "last_outcome run i evs =
     (let rs = List.map_filter (outcome_for run i) evs in if rs = [] then None else Some (last rs))"

text \<open>C36: After a detection has begun, whatever events arrive and in whatever order, a tool shows the last
  outcome of this very run, or of an install of it, and nothing else; and the panel keeps saying that
  it detects until this very run is done.\<close>

theorem detection_shows_own_run:
  "dp_results (fold deps_handle_event evs (fst (begin_detect now d))) i
       = last_outcome (snd (begin_detect now d)) i evs
     \<and> (dp_detecting (fold deps_handle_event evs (fst (begin_detect now d)))
          \<longleftrightarrow> EvToolsDetectDone (snd (begin_detect now d)) \<notin> set evs)"
proof -
  have run: "dp_run (fold deps_handle_event es s) = dp_run s" for es s
    by (induction es arbitrary: s) (simp_all add: handle_event_run)
  have res: "dp_results (fold deps_handle_event evs s) i
      = (case last_outcome (dp_run s) i evs of Some r \<Rightarrow> Some r | None \<Rightarrow> dp_results s i)" for s
    by (induction evs rule: rev_induct)
      (auto simp: last_outcome_def handle_event_result run List.map_filter_def Let_def
        split: option.split)
  have det: "dp_detecting (fold deps_handle_event evs s)
      \<longleftrightarrow> dp_detecting s \<and> EvToolsDetectDone (dp_run s) \<notin> set evs" for s
    by (induction evs arbitrary: s) (auto simp: handle_event_detecting handle_event_run)
  show ?thesis
    by (simp add: res det begin_detect_def split: option.split)
qed

text \<open>The counter of the watchdog is reset by the run it starts, so it is 0 in every state the panel gets
  into, the bound on the retries is never met, and a worker that never answers is asked again for ever.\<close>

lemma retries_always_zero:
  "dp_detect_retries deps_default = 0"
  "dp_detect_retries d = 0 \<Longrightarrow> dp_detect_retries (deps_handle_event ev d) = 0"
  "dp_detect_retries (fst (begin_detect now d)) = 0"
  "dp_detect_retries d = 0 \<Longrightarrow> dp_detect_retries (begin_install env e i d) = 0"
  "dp_detect_retries d = 0 \<Longrightarrow> dp_detect_retries (fst (watch_detect now d)) = 0"
  by (simp_all add: deps_default_def begin_detect_def begin_install_def watch_detect_def Let_def
      deps_handle_event.elims)
    (cases "(ev, d)" rule: deps_handle_event.cases, simp_all add: Let_def)

lemma watch_step:
  assumes "dp_detecting s" "dp_detect_started s = Some u" "dp_detect_retries s = 0" "u + DETECT_WATCHDOG \<le> now"
  shows "fst (watch_detect now s) = fst (begin_detect now s)"
  using assms by (simp add: watch_detect_def detect_stalled_def begin_detect_def DETECT_MAX_RETRIES_def)

theorem watchdog_never_gives_up:
  "dp_detecting (watch_ticks (map (\<lambda>k. t + k * DETECT_WATCHDOG) [1..<Suc n]) (fst (begin_detect t d)))
     \<and> dp_run (watch_ticks (map (\<lambda>k. t + k * DETECT_WATCHDOG) [1..<Suc n]) (fst (begin_detect t d)))
         = dp_run d + 1 + of_nat n"
proof -
  let ?s = "\<lambda>n. watch_ticks (map (\<lambda>k. t + k * DETECT_WATCHDOG) [1..<Suc n]) (fst (begin_detect t d))"
  have "dp_detecting (?s n) \<and> dp_detect_started (?s n) = Some (t + n * DETECT_WATCHDOG)
      \<and> dp_detect_retries (?s n) = 0 \<and> dp_run (?s n) = dp_run d + 1 + of_nat n" for n
  proof (induction n)
    case 0
    show ?case by (simp add: watch_ticks_def begin_detect_def)
  next
    case (Suc n)
    have "?s (Suc n) = fst (watch_detect (t + Suc n * DETECT_WATCHDOG) (?s n))"
      by (simp add: watch_ticks_def)
    also have "\<dots> = fst (begin_detect (t + Suc n * DETECT_WATCHDOG) (?s n))"
      using Suc by (intro watch_step [of _ "t + n * DETECT_WATCHDOG"]) auto
    finally show ?case using Suc by (simp only: begin_detect_def) simp
  qed
  then show ?thesis by blast
qed

end
