(* ===== verification/Overview.thy ===== *)
theory Overview
  imports DepsPanel ClusterSpecModel
begin

text \<open>
  The overview (\<open>views/overview.rs\<close>): its state, the rows of the cluster cards, the summary of the
  dependencies, and a frame of it, from the clicks of the user to the commands for the application.
  Painting is not modelled; a click on a disabled button is no click.
\<close>

section \<open>State\<close>

record destroy_confirm =
  dc_name :: string
  dc_typed :: string
  dc_record_only :: bool
  dc_scale_to :: "32 word option"

record overview_state =
  ov_loading :: bool
  ov_live :: "string list"
  ov_statuses :: "string \<Rightarrow> cluster_live_status option"
  ov_report :: "reconcile_report option"
  ov_error :: "string option"
  ov_deps :: deps_state
  ov_destroy :: "destroy_confirm option"

definition overview_default :: overview_state where
  "overview_default = \<lparr>ov_loading = False, ov_live = [], ov_statuses = (\<lambda>_. None), ov_report = None,
     ov_error = None, ov_deps = deps_default, ov_destroy = None\<rparr>"

datatype overview_cmd =
    OvCommand core_command
  | OvDestroy string bool
  | OvRecreate string
  | OvScale string "32 word"
  | OvOpenCluster string

section \<open>Rows\<close>

record overview_row =
  row_name :: string
  row_record :: "cluster_record option"
  row_source :: string
  row_status :: "cluster_live_status option"

definition from_entry :: "(string \<Rightarrow> cluster_live_status option) \<Rightarrow> cluster_row \<Rightarrow> overview_row" where
  "from_entry statuses e =
     (case ce_state e of
        Managed r \<Rightarrow> \<lparr>row_name = ce_name e, row_record = Some r, row_source = ''Managed'',
                       row_status = statuses (ce_name e)\<rparr>
      | Adopted \<Rightarrow> \<lparr>row_name = ce_name e, row_record = None, row_source = ''Adopted'',
                    row_status = statuses (ce_name e)\<rparr>
      | Missing r \<Rightarrow> \<lparr>row_name = ce_name e, row_record = Some r, row_source = ''Missing'', row_status = None\<rparr>)"

definition overview_rows :: "overview_state \<Rightarrow> overview_row list" where
  "overview_rows ov =
     (case ov_report ov of
        Some r \<Rightarrow> map (from_entry (ov_statuses ov)) (rr_clusters r)
      | None \<Rightarrow> [])"

definition version_unwrap :: "string option \<Rightarrow> string" where
  "version_unwrap v = (case v of Some x \<Rightarrow> x | None \<Rightarrow> ''?'')"

fun cni_debug :: "cni \<Rightarrow> string" where
  "cni_debug KindnetDefault = ''KindnetDefault''"
| "cni_debug Flannel = ''Flannel''"
| "cni_debug Calico = ''Calico''"
| "cni_debug CiliumCni = ''Cilium''"

definition spec_line :: "overview_row \<Rightarrow> string" where
  "spec_line row =
     (let version = map_option (\<lambda>r. version_str (cs_k8s_version (cr_spec r))) (row_record row);
          cni = (case row_record row of Some r \<Rightarrow> cni_debug (cs_cni (cr_spec r)) | None \<Rightarrow> ''unknown'')
      in case (row_record row, row_status row) of
           (Some r, _) \<Rightarrow> ''k8s '' @ version_unwrap version @ '' | '' @ cni @ '' | ''
                           @ dec (unat (cs_worker_count (cr_spec r))) @ '' workers''
         | (None, Some (LiveRunning k)) \<Rightarrow> ''k8s ? | '' @ cni @ '' | '' @ dec k @ '' nodes''
         | (None, _) \<Rightarrow> ''k8s ? | '' @ cni)"

datatype pill_hue = PillGreen | PillAmber | PillGrey | PillRed

fun status_pill :: "string \<Rightarrow> cluster_live_status option \<Rightarrow> string \<times> pill_hue" where
  "status_pill source (Some (LiveRunning k)) = (''running ('' @ dec k @ '' nodes)'', PillGreen)"
| "status_pill source (Some LiveCreating) = (''creating'', PillAmber)"
| "status_pill source (Some LiveAbsent) = (''absent'', PillGrey)"
| "status_pill source None =
     (if source = ''Managed'' then (''managed (down?)'', PillAmber)
      else if source = ''Adopted'' then (''adopted'', PillGrey)
      else if source = ''Missing'' then (''missing'', PillRed)
      else (source, PillGrey))"

section \<open>The dependencies at a glance\<close>

record deps_ready =
  dr_total :: nat
  dr_installed :: nat
  dr_unchecked :: nat
  dr_detecting :: bool
  dr_problems :: "(tool_id \<times> string) list"
  dr_critical_missing :: "(tool_id \<times> string) list"

definition count_tool :: "deps_state \<Rightarrow> tool \<Rightarrow> deps_ready \<Rightarrow> deps_ready" where
  "count_tool d t sm =
     (case dp_results d (t_id t) of
        Some (Inr (Installed v path)) \<Rightarrow> sm\<lparr>dr_installed := dr_installed sm + 1\<rparr>
      | Some _ \<Rightarrow> sm\<lparr>dr_problems := dr_problems sm @ [(t_id t, t_display t)]\<rparr>
      | None \<Rightarrow> sm\<lparr>dr_unchecked := dr_unchecked sm + 1\<rparr>)"

definition deps_summary :: "deps_state \<Rightarrow> deps_ready" where
  "deps_summary d =
     (let sm = fold (count_tool d) registry
                 \<lparr>dr_total = length registry, dr_installed = 0, dr_unchecked = 0,
                  dr_detecting = dp_detecting d, dr_problems = [], dr_critical_missing = []\<rparr>
      in sm\<lparr>dr_critical_missing := filter (\<lambda>(i, n). i = ToolDocker \<or> i = ToolKind) (dr_problems sm)\<rparr>)"

definition deps_chip :: "deps_ready \<Rightarrow> string \<times> pill_hue option" where
  "deps_chip sm =
     (let of_total = dec (dr_installed sm) @ ''/'' @ dec (dr_total sm) in
      if dr_detecting sm \<and> dr_installed sm = 0 \<and> dr_problems sm = []
      then (''Tools: checking'' @ ELLIPSIS, None)
      else if dr_problems sm = [] \<and> dr_unchecked sm = 0
      then (''Tools: '' @ of_total @ '' ready'', Some PillGreen)
      else if dr_problems sm = [] then (''Tools: '' @ of_total @ '' checked'', None)
      else (''Tools: '' @ of_total @ '' ready'', Some PillAmber))"

definition deps_chip_hover :: "deps_ready \<Rightarrow> string" where
  "deps_chip_hover sm =
     (if dr_detecting sm then ''Dependency check in progress''
      else if dr_problems sm = [] then dec (dr_total sm) @ '' tools checked''
      else ''missing/broken: '' @ join_with '', '' (map snd (dr_problems sm)))"

section \<open>A card\<close>

definition CARD_NAME_CHARS :: nat where "CARD_NAME_CHARS = 24"

definition card_title :: "overview_row \<Rightarrow> string" where
  "card_title row = truncate_text (row_name row) CARD_NAME_CHARS"

record card_input =
  ci_first :: bool
  ci_k9s :: bool
  ci_export :: bool
  ci_destroy :: bool
  ci_drag :: "32 word option"
  ci_apply :: bool

definition card_input_none :: card_input where
  "card_input_none = \<lparr>ci_first = False, ci_k9s = False, ci_export = False, ci_destroy = False,
     ci_drag = None, ci_apply = False\<rparr>"

definition row_missing :: "overview_row \<Rightarrow> bool" where
  "row_missing row \<longleftrightarrow> row_source row = ''Missing''"

definition row_interactive :: "overview_row \<Rightarrow> bool" where
  "row_interactive row \<longleftrightarrow> row_record row \<noteq> None \<or> row_status row \<noteq> None"

text \<open>The stepper starts each frame from the stored number of workers; its control takes a value of its
  range, and the apply button is enabled while the two differ.\<close>

definition stepper :: "overview_row \<Rightarrow> card_input \<Rightarrow> destroy_confirm option" where
  "stepper row inp =
     (case row_record row of
        Some r \<Rightarrow>
          if row_missing row then None
          else (let workers = (case ci_drag inp of Some v \<Rightarrow> min v MAX_WORKERS | None \<Rightarrow> cs_worker_count (cr_spec r))
                in if workers \<noteq> cs_worker_count (cr_spec r) \<and> ci_apply inp
                   then Some \<lparr>dc_name = row_name row, dc_typed = [], dc_record_only = False,
                              dc_scale_to = Some workers\<rparr>
                   else None)
      | None \<Rightarrow> None)"

record card_frame =
  cf_cmds :: "overview_cmd list"
  cf_open :: "string option"
  cf_destroy :: "destroy_confirm option"

definition render_card :: "overview_row \<Rightarrow> card_input \<Rightarrow> card_frame \<Rightarrow> card_frame" where
  "render_card row inp x =
     (let n = row_name row; interactive = row_interactive row;
          cmds = cf_cmds x
            @ (if row_missing row \<and> ci_first inp then [OvRecreate n] else [])
            @ (if interactive \<and> ci_k9s inp then [OvCommand (CmdOpenK9s n)] else [])
            @ (if ci_export inp then [OvCommand (CmdEnsureContext n)] else []);
          scaled = (case stepper row inp of Some c \<Rightarrow> Some c | None \<Rightarrow> cf_destroy x)
      in \<lparr>cf_cmds = cmds,
          cf_open = (if \<not> row_missing row \<and> interactive \<and> ci_first inp then Some n else cf_open x),
          cf_destroy = (if ci_destroy inp
                        then Some \<lparr>dc_name = n, dc_typed = [], dc_record_only = row_missing row,
                                   dc_scale_to = None\<rparr>
                        else scaled)\<rparr>)"

section \<open>The confirmation\<close>

record confirm_input =
  co_typed :: "string option"
  co_ok :: bool
  co_cancel :: bool

definition confirm_input_none :: confirm_input where
  "confirm_input_none = \<lparr>co_typed = None, co_ok = False, co_cancel = False\<rparr>"

definition confirm_frame :: "confirm_input \<Rightarrow> destroy_confirm option \<Rightarrow> destroy_confirm option \<times> overview_cmd list" where
  "confirm_frame inp confirm =
     (case confirm of
        None \<Rightarrow> (None, [])
      | Some c0 \<Rightarrow>
          (let c = (case co_typed inp of Some txt \<Rightarrow> c0\<lparr>dc_typed := txt\<rparr> | None \<Rightarrow> c0);
               matches = (str_trim (dc_typed c) = dc_name c)
           in if matches \<and> co_ok inp
              then (None, [case dc_scale_to c of
                             Some k \<Rightarrow> OvScale (dc_name c) k
                           | None \<Rightarrow> OvDestroy (dc_name c) (dc_record_only c)])
              else if co_cancel inp then (None, [])
              else (Some c, [])))"

section \<open>A frame\<close>

text \<open>\<open>oi_cards k\<close> is the input of the \<open>k\<close>-th card.\<close>

record overview_input =
  oi_create :: bool
  oi_refresh :: bool
  oi_install :: bool
  oi_check :: bool
  oi_retry :: bool
  oi_first :: bool
  oi_cards :: "nat \<Rightarrow> card_input"
  oi_confirm :: confirm_input

definition overview_input_none :: overview_input where
  "overview_input_none = \<lparr>oi_create = False, oi_refresh = False, oi_install = False, oi_check = False,
     oi_retry = False, oi_first = False, oi_cards = (\<lambda>_. card_input_none), oi_confirm = confirm_input_none\<rparr>"

definition critical_notice :: "nat \<Rightarrow> overview_input \<Rightarrow> deps_state \<Rightarrow> deps_state \<times> overview_cmd list" where
  "critical_notice now inp d =
     (case dr_critical_missing (deps_summary d) of
        [] \<Rightarrow> (d, [])
      | (i, _) # _ \<Rightarrow>
          (let install = (if oi_install inp then [OvCommand (CmdInstallTool i)] else [])
           in if oi_check inp
              then (let (d1, run) = begin_detect now d
                    in (d1, install @ [OvCommand (CmdDetectTools run), OvCommand CmdCheckDockerDaemon]))
              else (d, install)))"

definition render_cards :: "overview_row list \<Rightarrow> (nat \<Rightarrow> card_input) \<Rightarrow> card_frame \<Rightarrow> card_frame" where
  "render_cards rows inputs x = fold (\<lambda>(k, row). render_card row (inputs k)) (enumerate 0 rows) x"

definition overview_show ::
    "nat \<Rightarrow> overview_input \<Rightarrow> overview_state \<Rightarrow> bool \<Rightarrow> overview_state \<times> overview_cmd list \<times> bool" where
  "overview_show now inp ov wizard_open =
     (let refresh = (if oi_refresh inp \<and> \<not> ov_loading ov then [OvCommand CmdReconcile] else []);
          (d, critical) = critical_notice now inp (ov_deps ov);
          retry = (if ov_error ov \<noteq> None \<and> oi_retry inp then [OvCommand CmdReconcile] else []);
          rows = overview_rows ov;
          cards = render_cards rows (oi_cards inp)
                    \<lparr>cf_cmds = refresh @ critical @ retry, cf_open = None, cf_destroy = ov_destroy ov\<rparr>;
          (confirm, confirmed) = confirm_frame (oi_confirm inp) (cf_destroy cards)
      in (ov\<lparr>ov_deps := d, ov_destroy := confirm\<rparr>,
          cf_cmds cards @ map OvOpenCluster (case cf_open cards of Some n \<Rightarrow> [n] | None \<Rightarrow> []) @ confirmed,
          wizard_open \<or> oi_create inp \<or> (rows = [] \<and> \<not> ov_loading ov \<and> oi_first inp)))"

section \<open>Properties\<close>

text \<open>Every tool of the registry is counted once: installed, a problem, or not checked yet.\<close>

lemma count_tool_sum:
  "dr_installed (fold (count_tool d) ts sm) + length (dr_problems (fold (count_tool d) ts sm))
     + dr_unchecked (fold (count_tool d) ts sm)
   = dr_installed sm + length (dr_problems sm) + dr_unchecked sm + length ts
   \<and> dr_total (fold (count_tool d) ts sm) = dr_total sm"
  by (induction ts arbitrary: sm)
    (auto simp: count_tool_def split: option.split sum.split tool_status.split)

lemma deps_summary_partitions:
  "dr_installed (deps_summary d) + length (dr_problems (deps_summary d)) + dr_unchecked (deps_summary d)
     = dr_total (deps_summary d)
   \<and> dr_total (deps_summary d) = length registry"
  using count_tool_sum [of d registry] by (simp add: deps_summary_def Let_def)

text \<open>The first button of a missing cluster's card, which says \<open>Recreate\<close>, is clicked.\<close>

definition recreate_clicked :: "overview_input \<Rightarrow> overview_state \<Rightarrow> string \<Rightarrow> bool" where
  "recreate_clicked inp ov n \<longleftrightarrow>
     (\<exists>k < length (overview_rows ov). row_name (overview_rows ov ! k) = n
        \<and> row_missing (overview_rows ov ! k) \<and> ci_first (oi_cards inp k))"

text \<open>What a card can ask for by itself.\<close>

definition card_cmd :: "overview_input \<Rightarrow> overview_state \<Rightarrow> overview_cmd \<Rightarrow> bool" where
  "card_cmd inp ov c \<longleftrightarrow>
     (\<exists>n. c = OvCommand (CmdOpenK9s n) \<or> c = OvCommand (CmdEnsureContext n) \<or> c = OvRecreate n \<and> recreate_clicked inp ov n)"

lemma render_cards_cmds:
  "c \<in> set (cf_cmds (render_cards (overview_rows ov) (oi_cards inp) x)) \<Longrightarrow> c \<in> set (cf_cmds x) \<or> card_cmd inp ov c"
proof -
  let ?rows = "overview_rows ov"
  have "c \<in> set (cf_cmds (fold (\<lambda>(k, row). render_card row (oi_cards inp k)) xs x)) \<Longrightarrow>
      set xs \<subseteq> set (enumerate 0 ?rows) \<Longrightarrow> c \<in> set (cf_cmds x) \<or> card_cmd inp ov c" for xs
  proof (induction xs arbitrary: x)
    case (Cons a xs)
    then have c: "c \<in> set (cf_cmds (render_card (snd a) (oi_cards inp (fst a)) x)) \<or> card_cmd inp ov c"
      by (auto simp: case_prod_beta)
    have "a \<in> set (enumerate 0 ?rows)" using Cons.prems(2) by (simp only: list.set(2) insert_subset)
    then have a: "fst a < length ?rows" "?rows ! fst a = snd a"
      unfolding in_set_enumerate_eq by (simp_all only: add_0_right diff_zero)
    have "recreate_clicked inp ov (row_name (snd a))" if "row_missing (snd a)" "ci_first (oi_cards inp (fst a))"
      unfolding recreate_clicked_def
      by (rule exI [of _ "fst a"]) (simp only: a that simp_thms)
    then have "card_cmd inp ov c"
      if "c \<in> set (cf_cmds (render_card (snd a) (oi_cards inp (fst a)) x))" "c \<notin> set (cf_cmds x)"
      using that unfolding card_cmd_def by (simp add: render_card_def Let_def split: if_splits) blast
    then show ?case using c by blast
  qed simp
  from this [of "enumerate 0 ?rows"]
  show "c \<in> set (cf_cmds (render_cards ?rows (oi_cards inp) x)) \<Longrightarrow> ?thesis"
    by (simp add: render_cards_def)
qed

text \<open>A dialog opened by a card starts with nothing typed.\<close>

lemma render_card_destroy:
  "cf_destroy (render_card row inp x) = Some c \<Longrightarrow> cf_destroy x = Some c \<or> dc_typed c = []"
  by (auto simp: render_card_def Let_def stepper_def split: option.splits if_splits)

lemma render_cards_destroy:
  "cf_destroy (render_cards rows inputs x) = Some c \<Longrightarrow> cf_destroy x = Some c \<or> dc_typed c = []"
proof -
  have "cf_destroy (fold (\<lambda>(k, row). render_card row (inputs k)) xs x) = Some c \<Longrightarrow>
      cf_destroy x = Some c \<or> dc_typed c = []" for xs
  proof (induction xs arbitrary: x)
    case (Cons a xs)
    then show ?case
      using render_card_destroy [of "snd a" "inputs (fst a)" x c] by (auto simp: case_prod_beta)
  qed simp
  then show "cf_destroy (render_cards rows inputs x) = Some c \<Longrightarrow> ?thesis" by (simp add: render_cards_def)
qed

text \<open>The cards of a frame, after what the header asks for.\<close>

definition frame_cards :: "nat \<Rightarrow> overview_input \<Rightarrow> overview_state \<Rightarrow> card_frame" where
  "frame_cards now inp ov =
     render_cards (overview_rows ov) (oi_cards inp)
       \<lparr>cf_cmds = (if oi_refresh inp \<and> \<not> ov_loading ov then [OvCommand CmdReconcile] else [])
            @ snd (critical_notice now inp (ov_deps ov))
            @ (if ov_error ov \<noteq> None \<and> oi_retry inp then [OvCommand CmdReconcile] else []),
        cf_open = None, cf_destroy = ov_destroy ov\<rparr>"

lemma overview_show_eq:
  "overview_show now inp ov wz =
     (ov\<lparr>ov_deps := fst (critical_notice now inp (ov_deps ov)),
         ov_destroy := fst (confirm_frame (oi_confirm inp) (cf_destroy (frame_cards now inp ov)))\<rparr>,
      cf_cmds (frame_cards now inp ov)
        @ map OvOpenCluster (case cf_open (frame_cards now inp ov) of Some n \<Rightarrow> [n] | None \<Rightarrow> [])
        @ snd (confirm_frame (oi_confirm inp) (cf_destroy (frame_cards now inp ov))),
      wz \<or> oi_create inp \<or> (overview_rows ov = [] \<and> \<not> ov_loading ov \<and> oi_first inp))"
  by (simp only: overview_show_def frame_cards_def Let_def case_prod_beta)

definition typed_name :: "confirm_input \<Rightarrow> overview_state \<Rightarrow> string \<Rightarrow> bool" where
  "typed_name inp ov n \<longleftrightarrow>
     co_ok inp \<and>
     (case co_typed inp of
        Some txt \<Rightarrow> str_trim txt = n
      | None \<Rightarrow> n = [] \<or> (\<exists>c. ov_destroy ov = Some c \<and> dc_name c = n \<and> str_trim (dc_typed c) = n))"

lemma critical_cmds:
  "c \<in> set (snd (critical_notice now inp d)) \<Longrightarrow>
   (\<exists>i. c = OvCommand (CmdInstallTool i)) \<or> (\<exists>r. c = OvCommand (CmdDetectTools r)) \<or> c = OvCommand CmdCheckDockerDaemon"
  by (auto simp: critical_notice_def Let_def split: list.splits prod.splits if_splits)

lemma confirm_frame_cmds:
  assumes "c \<in> set (snd (confirm_frame inp d))"
  obtains c0 where "d = Some c0" "co_ok inp"
    "str_trim (case co_typed inp of Some txt \<Rightarrow> txt | None \<Rightarrow> dc_typed c0) = dc_name c0"
    "(\<exists>r. c = OvDestroy (dc_name c0) r) \<or> (\<exists>k. c = OvScale (dc_name c0) k)"
proof -
  obtain c0 where d: "d = Some c0" using assms by (cases d) (simp_all add: confirm_frame_def)
  then show ?thesis using assms that [OF d]
    by (cases "co_typed inp"; cases "dc_scale_to c0") (auto simp: confirm_frame_def Let_def split: if_splits)
qed

lemma overview_cmds:
  assumes "overview_show now inp ov wz = (ov', cmds, wz')" and "c \<in> set cmds"
  shows "card_cmd inp ov c \<or> (\<exists>n. c = OvOpenCluster n) \<or> c = OvCommand CmdReconcile
    \<or> (\<exists>i. c = OvCommand (CmdInstallTool i)) \<or> (\<exists>r. c = OvCommand (CmdDetectTools r)) \<or> c = OvCommand CmdCheckDockerDaemon
    \<or> (\<exists>n. typed_name (oi_confirm inp) ov n \<and> ((\<exists>r. c = OvDestroy n r) \<or> (\<exists>k. c = OvScale n k)))"
proof -
  let ?x = "frame_cards now inp ov"
  consider "c \<in> set (cf_cmds ?x)" | n where "c = OvOpenCluster n"
    | "c \<in> set (snd (confirm_frame (oi_confirm inp) (cf_destroy ?x)))"
    using assms by (auto simp: overview_show_eq)
  then show ?thesis
  proof cases
    case 1
    then show ?thesis
      using critical_cmds [of c now inp "ov_deps ov"]
      by (auto simp: frame_cards_def dest!: render_cards_cmds split: if_splits)
  next
    case 3
    obtain c0 where c0: "cf_destroy ?x = Some c0" "co_ok (oi_confirm inp)"
      "str_trim (case co_typed (oi_confirm inp) of Some txt \<Rightarrow> txt | None \<Rightarrow> dc_typed c0) = dc_name c0"
      "(\<exists>r. c = OvDestroy (dc_name c0) r) \<or> (\<exists>k. c = OvScale (dc_name c0) k)"
      using confirm_frame_cmds [OF 3] .
    have "ov_destroy ov = Some c0 \<or> dc_typed c0 = []"
      using c0(1) by (auto simp: frame_cards_def dest: render_cards_destroy)
    then have "typed_name (oi_confirm inp) ov (dc_name c0)"
      using c0(2,3) by (auto simp: typed_name_def split: option.split)
    then show ?thesis using c0(4) by blast
  qed blast
qed

text \<open>The overview asks to destroy or to scale a cluster only on an accepted confirmation with its name typed, and to
  recreate one without it only on a click on the card of a missing cluster.\<close>

lemma overview_needs_name:
  assumes "overview_show now inp ov wz = (ov', cmds, wz')"
  shows "OvDestroy n r \<in> set cmds \<Longrightarrow> typed_name (oi_confirm inp) ov n"
    and "OvScale n k \<in> set cmds \<Longrightarrow> typed_name (oi_confirm inp) ov n"
    and "OvRecreate n \<in> set cmds \<Longrightarrow> recreate_clicked inp ov n"
  using overview_cmds [OF assms] by (auto simp: card_cmd_def)

section \<open>A finding\<close>

text \<open>The value of the stepper lives for one frame only, so the confirmation to scale opens only in a frame in which
  the control itself delivers a value: a value chosen before the click on the apply button is
  forgotten.\<close>

theorem scale_needs_drag:
  assumes "overview_show now inp ov wz = (ov', cmds, wz')" and "\<forall>k. ci_drag (oi_cards inp k) = None"
    and "\<forall>c. ov_destroy ov = Some c \<longrightarrow> dc_scale_to c = None"
  shows "\<forall>c. ov_destroy ov' = Some c \<longrightarrow> dc_scale_to c = None"
proof -
  have s: "stepper row (oi_cards inp k) = None" for row k
    using assms(2) by (simp add: stepper_def Let_def split: option.split)
  have f: "(\<forall>c. cf_destroy x = Some c \<longrightarrow> dc_scale_to c = None) \<Longrightarrow>
      cf_destroy (fold (\<lambda>(k, row). render_card row (oi_cards inp k)) xs x) = Some c \<Longrightarrow> dc_scale_to c = None"
    for xs x c
  proof (induction xs arbitrary: x)
    case (Cons a xs)
    have "\<forall>c. cf_destroy (render_card (snd a) (oi_cards inp (fst a)) x) = Some c \<longrightarrow> dc_scale_to c = None"
      using Cons.prems(1) by (auto simp: render_card_def s Let_def split: if_splits)
    then show ?case using Cons.IH Cons.prems(2) by (simp add: case_prod_beta)
  qed auto
  have "dc_scale_to c = None" if "cf_destroy (frame_cards now inp ov) = Some c" for c
    using f [OF _ that [unfolded frame_cards_def render_cards_def]] assms(3) by simp
  then show ?thesis using assms(1)
    by (auto simp: overview_show_eq confirm_frame_def Let_def split: option.splits if_splits)
qed

end
