(* ===== verification/Wizard.thy ===== *)
theory Wizard
  imports PlanChecks
begin

text \<open>
  The create wizard (\<open>views/wizard.rs\<close>): the form, the specification it stands for, and what its buttons
  do.  Its controls and the frame around them are in theory \<open>WizardForm\<close>.
\<close>

section \<open>The form\<close>

record wizard_state =
  wz_name :: string
  wz_k8s_version :: string
  wz_cni :: cni
  wz_pod_cidr :: string
  wz_service_cidr :: string
  wz_worker_count :: "32 word"
  wz_ingress :: "ingress_controller option"
  wz_cilium :: cilium_options
  wz_touched :: bool

definition wizard_fresh :: wizard_state where
  "wizard_fresh =
     \<lparr>wz_name = [], wz_k8s_version = DEFAULT_K8S_VERSION, wz_cni = KindnetDefault,
      wz_pod_cidr = DEFAULT_POD_CIDR, wz_service_cidr = DEFAULT_SERVICE_CIDR, wz_worker_count = 0,
      wz_ingress = None, wz_cilium = cilium_options_default, wz_touched = False\<rparr>"

definition from_spec :: "cluster_spec \<Rightarrow> wizard_state" where
  "from_spec s =
     \<lparr>wz_name = cs_name s, wz_k8s_version = version_str (cs_k8s_version s), wz_cni = cs_cni s,
      wz_pod_cidr = cs_pod_cidr s, wz_service_cidr = cs_service_cidr s,
      wz_worker_count = cs_worker_count s, wz_ingress = cs_ingress s,
      wz_cilium = (case cs_cilium s of Some co \<Rightarrow> co | None \<Rightarrow> cilium_options_default),
      wz_touched = True\<rparr>"

definition local_port :: "16 word \<Rightarrow> port_mapping" where
  "local_port p = \<lparr>pm_container_port = p, pm_host_port = p, pm_listen_address = ''127.0.0.1'',
     pm_protocol = Tcp\<rparr>"

definition auto_mappings :: "ingress_controller option \<Rightarrow> port_mapping list" where
  "auto_mappings i =
     (case i of
        Some Nginx \<Rightarrow> [local_port 80, local_port 443]
      | Some Traefik \<Rightarrow> [local_port 80, local_port 443]
      | _ \<Rightarrow> [])"

definition to_spec :: "wizard_state \<Rightarrow> cluster_spec" where
  "to_spec w =
     \<lparr>cs_name = str_trim (wz_name w),
      cs_k8s_version = (case kubernetes_version_new (str_trim (wz_k8s_version w)) of
         Inr v \<Rightarrow> v | Inl _ \<Rightarrow> kubernetes_version_default),
      cs_cni = wz_cni w, cs_pod_cidr = str_trim (wz_pod_cidr w),
      cs_service_cidr = str_trim (wz_service_cidr w), cs_worker_count = wz_worker_count w,
      cs_extra_port_mappings = auto_mappings (wz_ingress w), cs_feature_gates = [],
      cs_ingress = wz_ingress w,
      cs_cilium = (if wz_cni w = CiliumCni then Some (wz_cilium w) else None)\<rparr>"

section \<open>Validation and buttons\<close>

datatype wizard_validation = ShowHint | ShowOk | ShowError string

definition validation_status :: "fmt_env \<Rightarrow> core_error + unit \<Rightarrow> bool \<Rightarrow> wizard_validation" where
  "validation_status f result touched =
     (if \<not> touched then ShowHint
      else (case result of Inr _ \<Rightarrow> ShowOk | Inl e \<Rightarrow> ShowError (core_error_text f e)))"

datatype wizard_action = WizardStay | WizardCreate cluster_spec | WizardCancel

datatype wizard_click = ClickNone | ClickCreate | ClickCancel

text \<open>One frame: the create button is enabled for a valid specification with a name.\<close>

definition wizard_frame :: "wizard_click \<Rightarrow> wizard_state \<Rightarrow> wizard_action" where
  "wizard_frame click w =
     (case click of
        ClickNone \<Rightarrow> WizardStay
      | ClickCancel \<Rightarrow> WizardCancel
      | ClickCreate \<Rightarrow>
          if is_ok (validate (to_spec w)) \<and> wz_name w \<noteq> [] then WizardCreate (to_spec w) else WizardStay)"

section \<open>Trimming leaves names alone\<close>

definition plain_ascii :: "char \<Rightarrow> bool" where
  "plain_ascii c \<longleftrightarrow> CHR '' '' < c \<and> c < CHR 0x7F"

lemma plain_not_ws:
  "plain_ascii c \<Longrightarrow> \<not> is_ws1 c" "plain_ascii a \<Longrightarrow> \<not> is_ws2 a b" "plain_ascii b \<Longrightarrow> \<not> is_ws2 a b"
  "plain_ascii a \<Longrightarrow> \<not> is_ws3 a b c" "plain_ascii c \<Longrightarrow> \<not> is_ws3 a b c"
  by (auto simp: plain_ascii_def is_ws1_def is_ws2_def is_ws3_def less_char_def less_eq_char_def)

lemma str_trim_plain:
  assumes "list_all plain_ascii s" shows "str_trim s = s"
proof -
  have "trim_start s = s"
    using assms by (cases s rule: trim_start.cases) (auto simp: plain_not_ws)
  moreover have "trim_end_rev r = r" if "list_all plain_ascii r" for r
    using that by (cases r rule: trim_end_rev.cases) (auto simp: plain_not_ws)
  then have "trim_end s = s" using assms by (simp add: trim_end_def)
  ultimately show ?thesis by (simp add: str_trim_def)
qed

lemma digits_plain: "list_all is_ascii_digit s \<Longrightarrow> list_all plain_ascii s"
  by (auto simp: list_all_iff is_ascii_digit_def plain_ascii_def less_char_def less_eq_char_def)

lemma label_plain: "label_ok n \<Longrightarrow> list_all plain_ascii n"
  by (auto simp: label_ok_def list_all_iff name_char_def is_ascii_lower_def is_ascii_digit_def
      plain_ascii_def less_char_def less_eq_char_def)

lemma join_plain:
  "list_all plain_ascii sep \<Longrightarrow> list_all (list_all plain_ascii) ws \<Longrightarrow> list_all plain_ascii (join_with sep ws)"
  by (induction sep ws rule: join_with.induct) auto

lemma semver_plain:
  assumes "is_semver_3 v" shows "list_all plain_ascii v"
proof -
  have "list_all (list_all plain_ascii) (split_on (CHR ''.'') v)"
    using assms digits_plain by (fastforce simp: is_semver_3_def Let_def list_all_iff split: if_splits)
  then have "list_all plain_ascii (join_with [CHR ''.''] (split_on (CHR ''.'') v))"
    by (intro join_plain) (simp_all add: plain_ascii_def)
  then show ?thesis by simp
qed

lemma parse_uint_plain:
  assumes "parse_uint m s = Some n" shows "list_all plain_ascii s"
proof -
  have plus: "plain_ascii (CHR ''+'')" by (simp add: plain_ascii_def)
  show ?thesis
  proof (cases "s \<noteq> [] \<and> hd s = CHR ''+''")
    case True
    then obtain d where "s = CHR ''+'' # d" by (cases s) auto
    then show ?thesis using assms plus digits_plain [of d]
      by (auto simp: parse_uint_def Let_def split: if_splits)
  next
    case False
    then show ?thesis using assms digits_plain [of s]
      by (auto simp: parse_uint_def Let_def split: if_splits)
  qed
qed

lemma cidr_octets_plain:
  "cidr_octets os v = Some w \<Longrightarrow> list_all (list_all plain_ascii) os"
  by (induction os v rule: cidr_octets.induct)
    (auto split: if_splits option.splits dest: parse_uint_plain)

lemma cidr_plain:
  assumes "cidr_parse s = Some c" shows "list_all plain_ascii s"
proof -
  obtain addr pfx p v where s: "split_once (CHR ''/'') s = Some (addr, pfx)"
    "parse_uint 255 pfx = Some p" "cidr_octets (split_on (CHR ''.'') addr) 0 = Some v"
    using assms by (auto simp: cidr_parse_def Let_def split: option.splits prod.splits if_splits)
  have "list_all plain_ascii (join_with [CHR ''.''] (split_on (CHR ''.'') addr))"
    using cidr_octets_plain [OF s(3)] by (intro join_plain) (simp_all add: plain_ascii_def)
  moreover have "s = addr @ CHR ''/'' # pfx" using s(1) by (auto dest: split_once_Some)
  ultimately show ?thesis using parse_uint_plain [OF s(2)] by (simp add: plain_ascii_def)
qed

lemma to_spec_from_spec:
  assumes "validate s = Ok ()" and "cs_feature_gates s = []"
    and "cs_extra_port_mappings s = auto_mappings (cs_ingress s)"
    and "cs_cni s = CiliumCni \<Longrightarrow> cs_cilium s \<noteq> None"
  shows "to_spec (from_spec s) = s"
proof -
  note ok = assms(1) [unfolded validate_Ok spec_ok_def]
  obtain p q where n: "cidr_parse (cs_pod_cidr s) = Some p" "cidr_parse (cs_service_cidr s) = Some q"
    using ok by (auto simp: networks_ok_def)
  have name: "list_all plain_ascii (cs_name s)" using ok by (simp add: label_plain)
  obtain v where v: "cs_k8s_version s = KubernetesVersion v" by (cases "cs_k8s_version s")
  have sem: "is_semver_3 v" using ok v by (simp add: is_well_formed_def)
  show ?thesis
    using ok assms(2-4) v sem str_trim_plain [OF name] str_trim_plain [OF cidr_plain [OF n(1)]]
      str_trim_plain [OF cidr_plain [OF n(2)]] str_trim_plain [OF semver_plain [OF sem]]
    by (cases s) (auto simp: to_spec_def from_spec_def kubernetes_version_new_def split: option.splits)
qed

lemma wizard_frame_from_spec:
  "validate s = Ok () \<Longrightarrow> to_spec (from_spec s) = s \<Longrightarrow> wizard_frame ClickCreate (from_spec s) = WizardCreate s"
  by (auto simp: wizard_frame_def from_spec_def dest: validated_name_start)

lemma mesh_spec_form:
  "cs_feature_gates mesh_spec = []" "cs_extra_port_mappings mesh_spec = auto_mappings (cs_ingress mesh_spec)"
  "cs_cni mesh_spec = CiliumCni \<Longrightarrow> cs_cilium mesh_spec \<noteq> None"
  by (simp_all add: mesh_spec_def cluster_spec_default_def auto_mappings_def)

section \<open>Properties\<close>

text \<open>Opening the wizard on a valid specification that it can express (no feature gates, the automatic
  port mappings, Cilium options exactly with Cilium) and confirming gives that specification.\<close>

theorem wizard_roundtrip:
  assumes "validate s = Ok ()" and "cs_feature_gates s = []"
    and "cs_extra_port_mappings s = auto_mappings (cs_ingress s)"
    and "cs_cni s = CiliumCni \<Longrightarrow> cs_cilium s \<noteq> None"
  shows "to_spec (from_spec s) = s \<and> wizard_frame ClickCreate (from_spec s) = WizardCreate s"
  using to_spec_from_spec [OF assms] wizard_frame_from_spec [OF assms(1)] by simp

lemma wizard_roundtrip_witness:
  "wizard_frame ClickCreate (from_spec mesh_spec) = WizardCreate mesh_spec"
  using wizard_roundtrip [OF mesh_spec_valid mesh_spec_form] by simp

text \<open>C20: Whatever the form holds, the wizard hands out only valid specifications, namely the form's, and
  their port mappings are the automatic ones.\<close>

theorem wizard_creates_valid:
  assumes "wizard_frame click w = WizardCreate s"
  shows "validate s = Ok () \<and> spec_ok s \<and> s = to_spec w
     \<and> cs_extra_port_mappings s = auto_mappings (cs_ingress s) \<and> cs_feature_gates s = []"
proof -
  have "is_ok (validate (to_spec w))" "s = to_spec w"
    using assms by (auto simp: wizard_frame_def split: wizard_click.splits if_splits)
  then have "validate s = Ok ()" by (simp add: is_ok_iff)
  then show ?thesis using \<open>s = to_spec w\<close> by (simp add: validate_Ok to_spec_def)
qed

lemma wizard_creates_valid_witness:
  "\<exists>s. wizard_frame ClickCreate (from_spec mesh_spec) = WizardCreate s \<and> spec_ok s"
  using wizard_creates_valid [OF wizard_frame_from_spec
      [OF mesh_spec_valid to_spec_from_spec [OF mesh_spec_valid mesh_spec_form]]]
    wizard_frame_from_spec [OF mesh_spec_valid to_spec_from_spec [OF mesh_spec_valid mesh_spec_form]]
  by blast

text \<open>A version that is none is replaced by the default before the validation sees it, so it does
  not keep the form from being confirmed.\<close>

theorem bad_version_becomes_default:
  assumes "\<not> is_semver_3 (str_trim (wz_k8s_version w))"
  shows "to_spec w = to_spec (w\<lparr>wz_k8s_version := DEFAULT_K8S_VERSION\<rparr>)"
proof -
  have d: "is_semver_3 DEFAULT_K8S_VERSION"
    by (simp add: is_semver_3_def DEFAULT_K8S_VERSION_def char_class_defs Let_def)
  show ?thesis using assms d str_trim_plain [OF semver_plain [OF d]]
    by (simp add: to_spec_def kubernetes_version_new_def kubernetes_version_default_def)
qed

end
