(* ===== verification/ThemeIds.thy ===== *)
theory ThemeIds
  imports Prelude
begin

text \<open>
  The three themes (\<open>theme.rs\<close>, \<open>ThemeId\<close>) and the index of the active one, which the top bar of the
  application reads and writes.  The palettes are in theory \<open>ThemeModel\<close>.
\<close>

datatype theme_id = ThemeDark | ThemeLight | ThemeHighContrast

definition THEMES :: "theme_id list" where "THEMES = [ThemeDark, ThemeLight, ThemeHighContrast]"

definition THEME_DEFAULT :: theme_id where "THEME_DEFAULT = ThemeDark"

fun theme_id_str :: "theme_id \<Rightarrow> string" where
  "theme_id_str ThemeDark = ''dark''"
| "theme_id_str ThemeLight = ''light''"
| "theme_id_str ThemeHighContrast = ''high-contrast''"

fun theme_label :: "theme_id \<Rightarrow> string" where
  "theme_label ThemeDark = ''Dark''"
| "theme_label ThemeLight = ''Light''"
| "theme_label ThemeHighContrast = ''High Contrast''"

text \<open>The active theme is an index of eight bits; the discriminant of a theme is its place in the list.\<close>

fun theme_index :: "theme_id \<Rightarrow> 8 word" where
  "theme_index ThemeDark = 0"
| "theme_index ThemeLight = 1"
| "theme_index ThemeHighContrast = 2"

definition current_theme :: "8 word \<Rightarrow> theme_id" where
  "current_theme i = (if i = 1 then ThemeLight else if i = 2 then ThemeHighContrast else ThemeDark)"

definition set_index :: "theme_id \<Rightarrow> 8 word \<Rightarrow> 8 word" where
  "set_index t i = theme_index t"

lemma current_theme_index [simp]: "current_theme (theme_index t) = t"
  by (cases t) (simp_all add: current_theme_def)

end
