(* ===== verification/App.thy ===== *)
theory App
  imports ClusterTab OpPanel Overview Wizard ThemeIds
begin

text \<open>
  The application (\<open>app.rs\<close>): its state, the routing of the worker's events, and its reactions to what
  the views report, one input of the datatype \<open>app_input\<close> at a time.  A whole frame is in theory
  \<open>AppFrame\<close>, screenshots in theory \<open>Screenshot\<close>.
\<close>

section \<open>State\<close>

datatype active_tab = ActiveOverview | ActiveCluster string

record banner =
  bn_text :: string
  bn_is_error :: bool

record app_state =
  app_cmd :: "core_command queue"
  app_overview :: overview_state
  app_tabs :: "cluster_tab list"
  app_active :: active_tab
  app_ops :: "string \<Rightarrow> op_panel option"
  app_op_gens :: "string \<Rightarrow> op_gen option"
  app_wizard :: "wizard_state option"
  app_wizard_open :: bool
  app_about_open :: bool
  app_banners :: "banner list"
  app_bus_warning :: bool
  app_auto_open :: "string option"
  app_theme :: "8 word"

text \<open>The environment of a frame: the clock, the environment variables read, the host, and the persisted theme
  the application is started with.  The index of the active theme is a static of the source.\<close>

record app_env =
  av_now :: nat
  av_select_node :: "string option"
  av_open_wizard :: bool
  av_open_cluster :: "string option"
  av_auto_install :: "string option"
  av_host :: host_env
  av_os :: os_env
  av_theme :: theme_id

section \<open>Helpers\<close>

definition push_banner :: "string \<Rightarrow> bool \<Rightarrow> app_state \<Rightarrow> app_state" where
  "push_banner txt err s = s\<lparr>app_banners := app_banners s @ [\<lparr>bn_text = txt, bn_is_error = err\<rparr>]\<rparr>"

definition issue :: "core_command \<Rightarrow> app_state \<Rightarrow> app_state" where
  "issue c s =
     (case try_send c (app_cmd s) of
        (Inr _, q) \<Rightarrow> s\<lparr>app_cmd := q, app_bus_warning := False\<rparr>
      | (Inl (QueueFull _), q) \<Rightarrow> s\<lparr>app_cmd := q, app_bus_warning := True\<rparr>
      | (Inl (QueueDisconnected _), q) \<Rightarrow>
          push_banner ''the core worker has stopped; restart the app'' True (s\<lparr>app_cmd := q\<rparr>))"

definition next_op_gen :: "string \<Rightarrow> app_state \<Rightarrow> op_gen \<times> app_state" where
  "next_op_gen n s =
     (let g = (case app_op_gens s n of Some g \<Rightarrow> g | None \<Rightarrow> 0) + 1
      in (g, s\<lparr>app_op_gens := (app_op_gens s)(n \<mapsto> g)\<rparr>))"

definition find_tab :: "string \<Rightarrow> app_state \<Rightarrow> cluster_tab option" where
  "find_tab n s = find (\<lambda>t. ct_name t = n) (app_tabs s)"

fun update_first :: "string \<Rightarrow> (cluster_tab \<Rightarrow> cluster_tab) \<Rightarrow> cluster_tab list \<Rightarrow> cluster_tab list" where
  "update_first n f [] = []"
| "update_first n f (t # ts) = (if ct_name t = n then f t # ts else t # update_first n f ts)"

definition with_tab :: "string \<Rightarrow> (cluster_tab \<Rightarrow> cluster_tab) \<Rightarrow> app_state \<Rightarrow> app_state" where
  "with_tab n f s = s\<lparr>app_tabs := update_first n f (app_tabs s)\<rparr>"

definition report_row :: "string \<Rightarrow> app_state \<Rightarrow> cluster_state option" where
  "report_row n s =
     Option.bind (ov_report (app_overview s)) (\<lambda>r.
       map_option ce_state (find (\<lambda>e. ce_name e = n) (rr_clusters r)))"

definition open_tab :: "string \<Rightarrow> app_state \<Rightarrow> app_state" where
  "open_tab n s =
     (if list_ex (\<lambda>t. ct_name t = n) (app_tabs s) then s
      else
        (let r = (case report_row n s of
                    Some (Managed r) \<Rightarrow> Some r | Some (Missing r) \<Rightarrow> Some r | _ \<Rightarrow> None);
             t = (tab_new n r)\<lparr>ct_manual_gen := 1, ct_topo_loading := True\<rparr>;
             s1 = issue (CmdFetchTopology n 1) (issue (CmdCheckContext n) s)
         in s1\<lparr>app_tabs := app_tabs s1 @ [t]\<rparr>))\<lparr>app_active := ActiveCluster n\<rparr>"

definition drop_tab :: "string \<Rightarrow> app_state \<Rightarrow> app_state" where
  "drop_tab n s =
     s\<lparr>app_tabs := filter (\<lambda>t. ct_name t \<noteq> n) (app_tabs s),
       app_active := (if app_active s = ActiveCluster n then ActiveOverview else app_active s)\<rparr>"

definition close_tab :: "string \<Rightarrow> app_state \<Rightarrow> app_state" where
  "close_tab n s = drop_tab n (issue (CmdSetAutoRefresh n 5 False 0) (issue (CmdStopLogs n) s))"

section \<open>Events\<close>

definition with_overview :: "(overview_state \<Rightarrow> overview_state) \<Rightarrow> app_state \<Rightarrow> app_state" where
  "with_overview f s = s\<lparr>app_overview := f (app_overview s)\<rparr>"

definition with_deps :: "(deps_state \<Rightarrow> deps_state) \<Rightarrow> app_state \<Rightarrow> app_state" where
  "with_deps f s = with_overview (\<lambda>ov. ov\<lparr>ov_deps := f (ov_deps ov)\<rparr>) s"

text \<open>Records of open tabs are refreshed from the rows of managed clusters.\<close>

definition refresh_record :: "reconcile_report \<Rightarrow> cluster_tab \<Rightarrow> cluster_tab" where
  "refresh_record r t =
     (case find (\<lambda>e. ce_name e = ct_name t) (rr_clusters r) of
        Some e \<Rightarrow> (case ce_state e of Managed x \<Rightarrow> t\<lparr>ct_record := Some x\<rparr> | _ \<Rightarrow> t)
      | None \<Rightarrow> t)"

definition reconcile_done :: "string + reconcile_report \<Rightarrow> app_state \<Rightarrow> app_state" where
  "reconcile_done result s =
     (let s1 = with_overview (\<lambda>ov. ov\<lparr>ov_loading := False\<rparr>) s in
      case result of
        Inl err \<Rightarrow> with_overview (\<lambda>ov. ov\<lparr>ov_error := Some err\<rparr>) s1
      | Inr r \<Rightarrow>
          (let s2 = (with_overview (\<lambda>ov. ov\<lparr>ov_report := Some r, ov_error := None\<rparr>) s1)
                      \<lparr>app_tabs := map (refresh_record r) (app_tabs s1)\<rparr>
           in case app_auto_open s2 of
                Some n \<Rightarrow> open_tab n (s2\<lparr>app_auto_open := None\<rparr>)
              | None \<Rightarrow> s2))"

definition with_panel :: "string \<Rightarrow> op_gen \<Rightarrow> (op_panel \<Rightarrow> op_panel) \<Rightarrow> app_state \<Rightarrow> app_state" where
  "with_panel n g f s =
     (case app_ops s n of
        Some p \<Rightarrow> if OpPanel.op_gen p = g then s\<lparr>app_ops := (app_ops s)(n \<mapsto> f p)\<rparr> else s
      | None \<Rightarrow> s)"

definition provision_done :: "string \<Rightarrow> op_gen \<Rightarrow> string + unit \<Rightarrow> app_state \<Rightarrow> app_state" where
  "provision_done n g result s =
     (let s1 = with_panel n g (\<lambda>p. p\<lparr>op_finished := Some result\<rparr>) s in
      if \<not> is_ok result then s1
      else (case map_option op_kind (app_ops s1 n) of
              Some OpDestroy \<Rightarrow> drop_tab n (issue CmdReconcile s1)
            | Some _ \<Rightarrow> open_tab n (issue CmdReconcile s1)
            | None \<Rightarrow> s1))"

definition topology_event :: "string option \<Rightarrow> op_gen \<Rightarrow> string + topology_graph \<Rightarrow> cluster_tab \<Rightarrow> cluster_tab" where
  "topology_event want g result t =
     (if \<not> accept_topology g t then t
      else
        (let t1 = apply_topology result t in
         case (want, ct_topo t1) of
           (Some w, Some graph) \<Rightarrow>
             if list_ex (\<lambda>n. cn_name n = w) (tg_nodes graph) then t1\<lparr>ct_selected := Some (''node/'' @ w)\<rparr> else t1
         | _ \<Rightarrow> t1))"

definition log_line :: "op_gen \<Rightarrow> string \<Rightarrow> cluster_tab \<Rightarrow> cluster_tab" where
  "log_line g line t =
     (if accept_log g t then t\<lparr>ct_logs := (ct_logs t)\<lparr>lu_ring := ring_push line (lu_ring (ct_logs t))\<rparr>\<rparr> else t)"

definition log_ended :: "op_gen \<Rightarrow> string + unit \<Rightarrow> cluster_tab \<Rightarrow> cluster_tab" where
  "log_ended g result t =
     (if accept_log g t then t\<lparr>ct_logs := (ct_logs t)\<lparr>lu_running := False, lu_ended := Some result\<rparr>\<rparr> else t)"

fun route_event :: "app_env \<Rightarrow> core_event \<Rightarrow> app_state \<Rightarrow> app_state" where
  "route_event env (EvReconcileDone result) s = reconcile_done result s"
| "route_event env (EvLiveClusters names) s = with_overview (\<lambda>ov. ov\<lparr>ov_live := names\<rparr>) s"
| "route_event env (EvClusterStatus n st) s =
     with_overview (\<lambda>ov. ov\<lparr>ov_statuses := (ov_statuses ov)(n \<mapsto> st)\<rparr>) s"
| "route_event env (EvDetectedTool i run r) s = s"
| "route_event env (EvToolsDetectDone run) s = s"
| "route_event env (EvDockerDaemon st) s = s"
| "route_event env (EvInstallEvent i ev) s = s"
| "route_event env (EvInstallDone i r) s =
     (let (d, run) = begin_detect (av_now env) (ov_deps (app_overview s))
      in issue (CmdDetectTools run) (with_deps (\<lambda>_. d) s))"
| "route_event env (EvProvision n g ev) s = with_panel n g (apply_event ev) s"
| "route_event env (EvProvisionDone n g result) s = provision_done n g result s"
| "route_event env (EvContextState n st) s = with_tab n (\<lambda>t. t\<lparr>ct_context_state := Some st\<rparr>) s"
| "route_event env (EvContextEnsured n result) s =
     (let s1 = with_tab n (\<lambda>t. t\<lparr>ct_context_result := Some result\<rparr>) s in
      case result of
        Inr _ \<Rightarrow> push_banner (''kubeconfig context kind-'' @ n @ '' exported and set as current'') False s1
      | Inl err \<Rightarrow> push_banner (''kubeconfig export failed for '' @ n @ '': '' @ err) True s1)"
| "route_event env (EvLogsExported n dest result) s =
     (let s1 = with_tab n (\<lambda>t. t\<lparr>ct_last_export := Some (dest, result)\<rparr>) s in
      case result of
        Inr _ \<Rightarrow> push_banner (''logs of '' @ n @ '' exported to '' @ utf8_lossy dest) False s1
      | Inl err \<Rightarrow> push_banner (''log export failed for '' @ n @ '': '' @ err) True s1)"
| "route_event env (EvTopology n g result) s = with_tab n (topology_event (av_select_node env) g result) s"
| "route_event env (EvLogLine n g line) s = with_tab n (log_line g line) s"
| "route_event env (EvLogEnded n g result) s = with_tab n (log_ended g result) s"
| "route_event env EvBusFull s =
     push_banner ''event bus overflow: some progress lines were dropped'' True s"
| "route_event env (EvError ctx msg) s = push_banner (ctx @ '': '' @ msg) True s"
| "route_event env (EvNotice msg) s = push_banner msg False s"

definition handle_event :: "app_env \<Rightarrow> core_event \<Rightarrow> app_state \<Rightarrow> app_state" where
  "handle_event env ev s = route_event env ev (with_deps (deps_handle_event ev) s)"

section \<open>Commands of the views\<close>

text \<open>A panel of the next generation is opened and the command sent.\<close>

definition start_op :: "op_kind \<Rightarrow> string \<Rightarrow> (op_gen \<Rightarrow> core_command) \<Rightarrow> app_state \<Rightarrow> app_state" where
  "start_op k n c s =
     (let (g, s1) = next_op_gen n s
      in issue (c g) (s1\<lparr>app_ops := (app_ops s1)(n \<mapsto> op_start k n g)\<rparr>))"

fun overview_react :: "overview_cmd \<Rightarrow> app_state \<Rightarrow> app_state" where
  "overview_react (OvCommand c) s = issue c s"
| "overview_react (OvDestroy n record_only) s = start_op OpDestroy n (CmdDestroyCluster n) s"
| "overview_react (OvRecreate n) s =
     (case report_row n s of
        Some (Missing r) \<Rightarrow> start_op OpRecreate n (CmdRecreateCluster n (cr_spec r)) s
      | _ \<Rightarrow> s)"
| "overview_react (OvScale n workers) s =
     (case report_row n s of
        Some (Managed r) \<Rightarrow>
          start_op OpRecreate n (CmdRecreateCluster n ((cr_spec r)\<lparr>cs_worker_count := workers\<rparr>)) s
      | _ \<Rightarrow> s)"
| "overview_react (OvOpenCluster n) s = open_tab n s"

fun tab_cmd_react :: "tab_cmd \<Rightarrow> app_state \<Rightarrow> app_state" where
  "tab_cmd_react (TabCommand c) s = issue c s"
| "tab_cmd_react (TabDestroy n) s = start_op OpDestroy n (CmdDestroyCluster n) s"
| "tab_cmd_react (TabRecreate spec) s =
     start_op OpRecreate (cs_name spec) (CmdRecreateCluster (cs_name spec) spec) s"
| "tab_cmd_react TabClose s =
     (case app_active s of ActiveCluster n \<Rightarrow> close_tab n s | ActiveOverview \<Rightarrow> s)"
| "tab_cmd_react TabRefreshOverview s = issue CmdReconcile s"

section \<open>Inputs\<close>

datatype app_input =
    AppEvent core_event
  | AppPickTheme theme_id
  | AppTab tab_input
  | AppOverview deps_input overview_input
  | AppSelectOverview
  | AppSelectTab string
  | AppCloseTab string
  | AppEscape
  | AppRefreshKey
  | AppWizard wizard_click wizard_state
  | AppClosePanel string
  | AppCancelOp string
  | AppDismiss nat
  | AppWatch

text \<open>A frame of the overview: the panel of the dependencies, the clusters, then the commands of both; the
  wizard it opens gets a fresh form.\<close>

definition overview_frame :: "app_env \<Rightarrow> deps_input \<Rightarrow> overview_input \<Rightarrow> app_state \<Rightarrow> app_state" where
  "overview_frame env di oi s =
     (if app_active s \<noteq> ActiveOverview then s
      else
        (let (d, actions) = deps_show (av_host env) (av_os env) (av_now env) di (ov_deps (app_overview s));
             (ov, cmds, wz) = overview_show (av_now env) oi ((app_overview s)\<lparr>ov_deps := d\<rparr>) (app_wizard_open s);
             s1 = s\<lparr>app_overview := ov, app_wizard_open := wz,
                    app_wizard := (if wz then Some (case app_wizard s of Some w \<Rightarrow> w | None \<Rightarrow> wizard_fresh)
                                   else app_wizard s)\<rparr>
         in fold overview_react (map OvCommand actions @ cmds) s1))"

definition escape :: "app_state \<Rightarrow> app_state" where
  "escape s =
     (if app_wizard_open s then s\<lparr>app_wizard_open := False, app_wizard := None\<rparr>
      else if app_about_open s then s\<lparr>app_about_open := False\<rparr>
      else if ov_destroy (app_overview s) \<noteq> None then with_overview (\<lambda>ov. ov\<lparr>ov_destroy := None\<rparr>) s
      else (case app_active s of
              ActiveCluster n \<Rightarrow> with_tab n (\<lambda>t. t\<lparr>ct_confirm := None\<rparr>) s
            | ActiveOverview \<Rightarrow> s))"

definition refresh_key :: "app_state \<Rightarrow> app_state" where
  "refresh_key s =
     (case app_active s of
        ActiveOverview \<Rightarrow> s
      | ActiveCluster n \<Rightarrow>
          (case find_tab n s of
             None \<Rightarrow> s
           | Some t \<Rightarrow>
               (let g = ct_manual_gen t + 1;
                    s1 = with_tab n (\<lambda>t. t\<lparr>ct_manual_gen := g, ct_topo_loading := True\<rparr>) s
                in if 0 < g then issue (CmdFetchTopology n g) s1 else s1)))"

definition wizard_react :: "wizard_click \<Rightarrow> wizard_state \<Rightarrow> app_state \<Rightarrow> app_state" where
  "wizard_react click form s =
     (if \<not> app_wizard_open s then s\<lparr>app_wizard := None\<rparr>
      else (case wizard_frame click form of
              WizardStay \<Rightarrow> s\<lparr>app_wizard := Some form\<rparr>
            | WizardCancel \<Rightarrow> s\<lparr>app_wizard_open := False, app_wizard := None\<rparr>
            | WizardCreate spec \<Rightarrow>
                (start_op OpCreate (cs_name spec) (CmdCreateCluster spec) s)
                  \<lparr>app_wizard_open := False, app_wizard := None\<rparr>))"

text \<open>The X of a finished panel closes it, that of a running one cancels the operation.\<close>

definition close_panel :: "string \<Rightarrow> app_state \<Rightarrow> app_state" where
  "close_panel n s =
     (case app_ops s n of
        Some p \<Rightarrow> if op_running p then issue (CmdCancelOp (op_name p)) s
                  else s\<lparr>app_ops := (app_ops s)(n := None)\<rparr>
      | None \<Rightarrow> s)"

text \<open>The picker of the top bar: another theme is applied at once and sent to be saved.\<close>

definition pick_theme :: "theme_id \<Rightarrow> app_state \<Rightarrow> app_state" where
  "pick_theme t s =
     (if t \<noteq> current_theme (app_theme s)
      then issue (CmdSetTheme (theme_id_str t)) (s\<lparr>app_theme := set_index t (app_theme s)\<rparr>)
      else s)"

definition watch :: "app_env \<Rightarrow> app_state \<Rightarrow> app_state" where
  "watch env s =
     (case watch_detect (av_now env) (ov_deps (app_overview s)) of
        (d, Some run) \<Rightarrow> issue (CmdDetectTools run) (with_deps (\<lambda>_. d) s)
      | (d, None) \<Rightarrow> with_deps (\<lambda>_. d) s)"

fun app_react :: "app_env \<Rightarrow> app_input \<Rightarrow> app_state \<Rightarrow> app_state" where
  "app_react env (AppEvent ev) s = handle_event env ev s"
| "app_react env (AppPickTheme t) s = pick_theme t s"
| "app_react env (AppTab i) s =
     (case app_active s of
        ActiveOverview \<Rightarrow> s
      | ActiveCluster n \<Rightarrow>
          (case find_tab n s of
             None \<Rightarrow> s
           | Some t \<Rightarrow>
               (let (t1, cmds) = tab_react i t in fold tab_cmd_react cmds (with_tab n (\<lambda>_. t1) s))))"
| "app_react env (AppOverview di oi) s = overview_frame env di oi s"
| "app_react env AppSelectOverview s = s\<lparr>app_active := ActiveOverview\<rparr>"
| "app_react env (AppSelectTab n) s =
     (if list_ex (\<lambda>t. ct_name t = n) (app_tabs s) then s\<lparr>app_active := ActiveCluster n\<rparr> else s)"
| "app_react env (AppCloseTab n) s =
     (if list_ex (\<lambda>t. ct_name t = n) (app_tabs s) then close_tab n s else s)"
| "app_react env AppEscape s = escape s"
| "app_react env AppRefreshKey s = refresh_key s"
| "app_react env (AppWizard click form) s = wizard_react click form s"
| "app_react env (AppClosePanel n) s = close_panel n s"
| "app_react env (AppCancelOp n) s =
     (case app_ops s n of Some p \<Rightarrow> if op_running p then issue (CmdCancelOp (op_name p)) s else s | None \<Rightarrow> s)"
| "app_react env (AppDismiss i) s = s\<lparr>app_banners := take i (app_banners s) @ drop (Suc i) (app_banners s)\<rparr>"
| "app_react env AppWatch s = watch env s"

text \<open>The start: the first probes, and an install when the environment asks for one.\<close>

definition app_new :: "app_env \<Rightarrow> core_command queue \<Rightarrow> app_state" where
  "app_new env q =
     (let (d, run) = begin_detect (av_now env) deps_default;
          s = \<lparr>app_cmd = q, app_overview = overview_default\<lparr>ov_loading := True, ov_deps := d\<rparr>,
               app_tabs = [], app_active = ActiveOverview, app_ops = (\<lambda>_. None), app_op_gens = (\<lambda>_. None),
               app_wizard = (if av_open_wizard env then Some wizard_fresh else None),
               app_wizard_open = av_open_wizard env, app_about_open = False, app_banners = [],
               app_bus_warning = False,
               app_auto_open = (case av_open_cluster env of
                 Some n \<Rightarrow> if n = [] then None else Some n | None \<Rightarrow> None),
               app_theme = set_index (av_theme env) (theme_index THEME_DEFAULT)\<rparr>;
          s1 = issue CmdCheckDockerDaemon (issue (CmdDetectTools run) (issue CmdReconcile s))
      in case Option.bind (av_auto_install env) (\<lambda>want. find (\<lambda>t. tool_name (t_id t) = want) registry) of
           Some t \<Rightarrow> issue (CmdInstallTool (t_id t))
                        (with_deps (begin_install (av_host env) (av_os env) (t_id t)) s1)
         | None \<Rightarrow> s1)"

definition needs_tick :: "string list \<Rightarrow> app_state \<Rightarrow> bool" where
  "needs_tick names s \<longleftrightarrow>
     list_ex (\<lambda>n. case app_ops s n of Some p \<Rightarrow> op_running p | None \<Rightarrow> False) names
     \<or> list_ex (\<lambda>t. lu_running (ct_logs t) \<or> ct_auto t \<noteq> None \<or> ct_picker t) (app_tabs s)
     \<or> (case dp_install (ov_deps (app_overview s)) of Some u \<Rightarrow> iu_done u = None | None \<Rightarrow> False)"

end
