(* ===== verification/AppProps.thy ===== *)
theory AppProps
  imports App
begin

text \<open>
  What holds of the application in every state it can reach, whatever events arrive and whatever the
  user does; and what becomes of the events of an operation that was replaced.
\<close>

section \<open>Reachable states\<close>

text \<open>The worker takes commands from the queue between the inputs.\<close>

inductive app_reachable :: "app_state \<Rightarrow> bool" where
  start: "app_reachable (app_new env q)"
| input: "app_reachable s \<Longrightarrow> app_reachable (app_react env i s)"
| drained: "app_reachable s \<Longrightarrow> app_reachable (s\<lparr>app_cmd := q\<rparr>)"

definition tab_names :: "app_state \<Rightarrow> string list" where
  "tab_names s = map ct_name (app_tabs s)"

definition tabs_ok :: "app_state \<Rightarrow> bool" where
  "tabs_ok s \<longleftrightarrow> distinct (tab_names s) \<and> (\<forall>n. app_active s = ActiveCluster n \<longrightarrow> n \<in> set (tab_names s))"

definition ops_ok :: "app_state \<Rightarrow> bool" where
  "ops_ok s \<longleftrightarrow>
     (\<forall>n p. app_ops s n = Some p \<longrightarrow> op_name p = n \<and> app_op_gens s n = Some (OpPanel.op_gen p))"

definition wizard_ok :: "app_state \<Rightarrow> bool" where
  "wizard_ok s \<longleftrightarrow> (app_wizard_open s \<longleftrightarrow> app_wizard s \<noteq> None)"

definition app_ok :: "app_state \<Rightarrow> bool" where
  "app_ok s \<longleftrightarrow> tabs_ok s \<and> ops_ok s \<and> wizard_ok s"

section \<open>What an operation leaves alone\<close>

lemma push_banner_fields [simp]:
  "app_tabs (push_banner m e s) = app_tabs s"
  "app_active (push_banner m e s) = app_active s"
  "app_ops (push_banner m e s) = app_ops s"
  "app_op_gens (push_banner m e s) = app_op_gens s"
  "app_wizard (push_banner m e s) = app_wizard s"
  "app_wizard_open (push_banner m e s) = app_wizard_open s"
  by (simp_all add: push_banner_def)

lemma issue_fields [simp]:
  "app_tabs (issue c s) = app_tabs s"
  "app_active (issue c s) = app_active s"
  "app_ops (issue c s) = app_ops s"
  "app_op_gens (issue c s) = app_op_gens s"
  "app_wizard (issue c s) = app_wizard s"
  "app_wizard_open (issue c s) = app_wizard_open s"
  by (simp_all add: issue_def split: prod.split sum.split send_error.split)

lemma with_overview_fields [simp]:
  "app_tabs (with_overview f s) = app_tabs s"
  "app_active (with_overview f s) = app_active s"
  "app_ops (with_overview f s) = app_ops s"
  "app_op_gens (with_overview f s) = app_op_gens s"
  "app_wizard (with_overview f s) = app_wizard s"
  "app_wizard_open (with_overview f s) = app_wizard_open s"
  by (simp_all add: with_overview_def)

lemma app_ok_same:
  assumes "app_ok s" "tab_names s' = tab_names s" "app_active s' = app_active s"
    "app_ops s' = app_ops s" "app_op_gens s' = app_op_gens s"
    "app_wizard s' = app_wizard s" "app_wizard_open s' = app_wizard_open s"
  shows "app_ok s'"
  using assms by (simp add: app_ok_def tabs_ok_def ops_ok_def wizard_ok_def)

lemma app_ok_issue [simp]: "app_ok s \<Longrightarrow> app_ok (issue c s)"
  by (erule app_ok_same) (simp_all add: tab_names_def)

lemma app_ok_banner [simp]: "app_ok s \<Longrightarrow> app_ok (push_banner m e s)"
  by (erule app_ok_same) (simp_all add: tab_names_def)

lemma app_ok_with_overview [simp]: "app_ok s \<Longrightarrow> app_ok (with_overview f s)"
  by (erule app_ok_same) (simp_all add: tab_names_def)

lemma app_ok_with_deps [simp]: "app_ok s \<Longrightarrow> app_ok (with_deps f s)"
  by (simp add: with_deps_def)

lemma update_first_names:
  assumes "\<And>t. ct_name t = n \<Longrightarrow> ct_name (f t) = n"
  shows "map ct_name (update_first n f ts) = map ct_name ts"
  using assms by (induction ts) auto

lemma app_ok_with_tab:
  assumes "app_ok s" "\<And>t. ct_name t = n \<Longrightarrow> ct_name (f t) = n"
  shows "app_ok (with_tab n f s)"
  by (rule app_ok_same [OF assms(1)]) (simp_all add: tab_names_def with_tab_def update_first_names assms(2))

section \<open>Tabs\<close>

lemma app_ok_open_tab [simp]:
  assumes "app_ok s" shows "app_ok (open_tab n s)"
  using assms
  by (auto simp: open_tab_def app_ok_def tabs_ok_def ops_ok_def wizard_ok_def tab_names_def Let_def
      tab_new_def list_ex_iff)

lemma app_ok_drop_tab [simp]:
  assumes "app_ok s" shows "app_ok (drop_tab n s)"
  using assms
  by (auto simp: drop_tab_def app_ok_def tabs_ok_def ops_ok_def wizard_ok_def tab_names_def distinct_map
      intro: inj_on_subset)

lemma app_ok_close_tab [simp]: "app_ok s \<Longrightarrow> app_ok (close_tab n s)"
  by (simp add: close_tab_def)

lemma tab_react_name: "ct_name (fst (tab_react i t)) = ct_name t"
  by (cases "(i, t)" rule: tab_react.cases)
    (auto simp: refresh_now_def toggle_auto_def set_interval_def start_stream_def restart_if_running_def
      switch_source_def set_source_def logs_start_def logs_stop_def confirm_ok_def poll_picker_def Let_def
      split: option.splits if_splits tab_confirm.splits picked.splits list.splits log_source_kind.splits)

lemma topology_event_name: "ct_name (topology_event w g r t) = ct_name t"
  by (simp add: topology_event_def apply_topology_def Let_def split: option.split sum.split)

lemma log_event_names:
  "ct_name (log_line g l t) = ct_name t" "ct_name (log_ended g r t) = ct_name t"
  by (simp_all add: log_line_def log_ended_def)

lemma refresh_record_name: "ct_name (refresh_record r t) = ct_name t"
  by (simp add: refresh_record_def split: option.split cluster_state.split)

section \<open>Operations\<close>

lemma app_ok_start_op [simp]:
  assumes "app_ok s" shows "app_ok (start_op k n c s)"
  using assms
  by (auto simp: start_op_def next_op_gen_def Let_def app_ok_def tabs_ok_def ops_ok_def wizard_ok_def
      tab_names_def op_start_def)

lemma apply_event_keys: "op_name (apply_event ev p) = op_name p \<and> OpPanel.op_gen (apply_event ev p) = OpPanel.op_gen p"
  by (cases "(ev, p)" rule: apply_event.cases)
    (auto simp: op_set_step_def op_push_line_def op_header_def op_close_line_def Let_def split: option.split)

lemma app_ok_with_panel:
  assumes "app_ok s"
    "\<And>p. op_name (f p) = op_name p \<and> OpPanel.op_gen (f p) = OpPanel.op_gen p"
  shows "app_ok (with_panel n g f s)"
  using assms
  by (auto simp: with_panel_def app_ok_def tabs_ok_def ops_ok_def wizard_ok_def tab_names_def
      split: option.split)

lemma app_ok_reconcile_done [simp]:
  assumes "app_ok s" shows "app_ok (reconcile_done r s)"
proof (cases r)
  case (Inl e)
  then show ?thesis using assms by (simp add: reconcile_done_def)
next
  case (Inr x)
  let ?s2 = "(with_overview (\<lambda>ov. ov\<lparr>ov_report := Some x, ov_error := None\<rparr>)
      (with_overview (\<lambda>ov. ov\<lparr>ov_loading := False\<rparr>) s))\<lparr>app_tabs := map (refresh_record x) (app_tabs s)\<rparr>"
  have 1: "app_ok ?s2"
    by (rule app_ok_same [OF assms]) (simp_all add: tab_names_def refresh_record_name)
  have 2: "app_ok (?s2\<lparr>app_auto_open := None\<rparr>)"
    by (rule app_ok_same [OF 1]) (simp_all add: tab_names_def)
  show ?thesis using 1 2 Inr by (simp add: reconcile_done_def Let_def split: option.split)
qed

lemma app_ok_provision_done [simp]:
  assumes "app_ok s" shows "app_ok (provision_done n g r s)"
  using app_ok_with_panel [OF assms, of "\<lambda>p. p\<lparr>op_finished := Some r\<rparr>" n g]
  by (simp add: provision_done_def Let_def split: option.split op_kind.split)

lemma app_ok_event: "app_ok s \<Longrightarrow> app_ok (handle_event env ev s)"
  by (cases "(env, ev, s)" rule: route_event.cases)
    (auto simp: handle_event_def app_ok_with_panel apply_event_keys app_ok_with_tab topology_event_name
      log_event_names Let_def split: sum.split prod.split)

lemma app_ok_overview: "app_ok s \<Longrightarrow> app_ok (overview_react c s)"
  by (cases "(c, s)" rule: overview_react.cases) (auto split: option.split cluster_state.split)

lemma app_ok_overviews: "app_ok s \<Longrightarrow> app_ok (fold overview_react cs s)"
  by (induction cs arbitrary: s) (simp_all add: app_ok_overview)

lemma app_ok_overview_frame:
  assumes "app_ok s" shows "app_ok (overview_frame env di oi s)"
proof -
  have "app_ok (s\<lparr>app_overview := ov, app_wizard_open := wz,
      app_wizard := (if wz then Some (case app_wizard s of Some w \<Rightarrow> w | None \<Rightarrow> wizard_fresh) else app_wizard s)\<rparr>)"
    if "app_wizard_open s \<longrightarrow> wz" for ov wz
    using that assms by (auto simp: app_ok_def tabs_ok_def ops_ok_def wizard_ok_def tab_names_def)
  then show ?thesis using assms
    by (auto simp: overview_frame_def overview_show_eq Let_def app_ok_overviews simp del: fold_append split: prod.split)
qed

lemma app_ok_tab_cmd: "app_ok s \<Longrightarrow> app_ok (tab_cmd_react c s)"
  by (cases "(c, s)" rule: tab_cmd_react.cases) (auto split: active_tab.split)

lemma app_ok_tab_cmds: "app_ok s \<Longrightarrow> app_ok (fold tab_cmd_react cs s)"
  by (induction cs arbitrary: s) (simp_all add: app_ok_tab_cmd)

lemma app_ok_tab:
  assumes "app_ok s" shows "app_ok (app_react env (AppTab i) s)"
proof -
  have "app_ok (fold tab_cmd_react cmds (with_tab n (\<lambda>_. t1) s))"
    if f: "find_tab n s = Some t" and r: "tab_react i t = (t1, cmds)" for n t t1 cmds
  proof -
    have "ct_name t = n" using f by (auto simp: find_tab_def find_Some_iff)
    then have "ct_name t1 = n" using tab_react_name [of i t] r by simp
    then show ?thesis by (intro app_ok_tab_cmds app_ok_with_tab assms) simp
  qed
  then show ?thesis using assms by (auto split: active_tab.split option.split prod.split)
qed

lemma app_ok_wizard_react: "app_ok s \<Longrightarrow> app_ok (wizard_react c f s)"
proof -
  assume ok: "app_ok s"
  have "app_ok (s'\<lparr>app_wizard_open := False, app_wizard := None\<rparr>)" if "app_ok s'" for s'
    using that by (simp add: app_ok_def tabs_ok_def ops_ok_def wizard_ok_def tab_names_def)
  moreover have "app_ok (s\<lparr>app_wizard := (if app_wizard_open s then Some f else None)\<rparr>)"
    using ok by (simp add: app_ok_def tabs_ok_def ops_ok_def wizard_ok_def tab_names_def)
  ultimately show ?thesis using ok
    by (cases "app_wizard_open s") (simp_all add: wizard_react_def split: wizard_action.split)
qed

lemma app_ok_upd_overview_only:
  "app_ok s \<Longrightarrow> app_ok (s\<lparr>app_banners := b\<rparr>)"
  "app_ok s \<Longrightarrow> app_ok (s\<lparr>app_about_open := a\<rparr>)"
  "app_ok s \<Longrightarrow> app_ok (s\<lparr>app_cmd := q\<rparr>)"
  "app_ok s \<Longrightarrow> app_ok (s\<lparr>app_wizard_open := False, app_wizard := None\<rparr>)"
  "app_ok s \<Longrightarrow> app_ok (s\<lparr>app_wizard_open := True, app_wizard := Some w\<rparr>)"
  "app_ok s \<Longrightarrow> app_ok (s\<lparr>app_active := ActiveOverview\<rparr>)"
  "app_ok s \<Longrightarrow> app_ok (s\<lparr>app_ops := (app_ops s)(n := None)\<rparr>)"
  "app_ok s \<Longrightarrow> app_ok (s\<lparr>app_theme := x\<rparr>)"
  by (simp_all add: app_ok_def tabs_ok_def ops_ok_def wizard_ok_def tab_names_def)

lemma app_ok_react: "app_ok s \<Longrightarrow> app_ok (app_react env i s)"
proof (cases i)
  case (AppTab j)
  then show "app_ok s \<Longrightarrow> ?thesis" using app_ok_tab by blast
next
  case (AppSelectTab n)
  then show "app_ok s \<Longrightarrow> ?thesis"
    by (auto simp: app_ok_def tabs_ok_def ops_ok_def wizard_ok_def tab_names_def list_ex_iff)
qed (auto simp: app_ok_event app_ok_overview_frame escape_def refresh_key_def pick_theme_def
    app_ok_wizard_react close_panel_def watch_def app_ok_upd_overview_only app_ok_with_tab Let_def
    split: option.split active_tab.split prod.split)

lemma app_ok_new: "app_ok (app_new env q)"
  by (simp add: app_new_def Let_def begin_detect_def app_ok_def tabs_ok_def ops_ok_def wizard_ok_def
      tab_names_def with_deps_def split: option.split)

lemma reachable_ok: "app_reachable s \<Longrightarrow> app_ok s"
  by (induction rule: app_reachable.induct) (simp_all only: app_ok_new app_ok_react app_ok_upd_overview_only)

text \<open>C12: In every state the application can reach the open tabs carry distinct names, the selected tab is
  open, a panel shown under a name belongs to the operation of that name that was issued last, and
  the wizard holds a form exactly while it is open.\<close>

theorem app_invariant:
  assumes "app_reachable s"
  shows "distinct (map ct_name (app_tabs s))
       \<and> (\<forall>n. app_active s = ActiveCluster n \<longrightarrow> n \<in> ct_name ` set (app_tabs s))
       \<and> (\<forall>n p. app_ops s n = Some p \<longrightarrow> op_name p = n \<and> app_op_gens s n = Some (OpPanel.op_gen p))
       \<and> (app_wizard_open s \<longleftrightarrow> app_wizard s \<noteq> None)"
  using reachable_ok [OF assms] by (simp add: app_ok_def tabs_ok_def ops_ok_def wizard_ok_def tab_names_def)

text \<open>An environment that opens the tab of a cluster with the first report, and that report.\<close>

definition env_opening :: app_env where
  "env_opening = \<lparr>av_now = 0, av_select_node = None, av_open_wizard = False, av_open_cluster = Some ''dev'',
     av_auto_install = None, av_host = undefined, av_os = undefined, av_theme = ThemeDark\<rparr>"

definition app_opened :: app_state where
  "app_opened = app_react env_opening (AppEvent (EvReconcileDone (Inr \<lparr>rr_clusters = []\<rparr>))) (app_new env_opening (queue_new 64))"

lemma app_opened_reachable: "app_reachable app_opened"
  unfolding app_opened_def by (intro app_reachable.intros)

lemma auto_open_fields [simp]:
  "app_auto_open (issue c s) = app_auto_open s" "app_auto_open (with_overview f s) = app_auto_open s"
  by (simp_all add: issue_def push_banner_def with_overview_def split: prod.split sum.split send_error.split)

lemma app_opened_fields:
  "app_active app_opened = ActiveCluster ''dev''" "app_op_gens app_opened = (\<lambda>_. None)" "app_ops app_opened = (\<lambda>_. None)"
  "map ct_name (app_tabs app_opened) = [''dev'']" "map ct_confirm (app_tabs app_opened) = [None]"
  by (simp_all add: app_opened_def app_new_def env_opening_def handle_event_def reconcile_done_def open_tab_def
      begin_detect_def Let_def tab_new_def with_deps_def)

lemma app_invariant_witness:
  "\<exists>s. app_reachable s \<and> app_active s = ActiveCluster ''dev'' \<and> ''dev'' \<in> ct_name ` set (app_tabs s)"
  using app_invariant [OF app_opened_reachable] app_opened_reachable app_opened_fields(1) by blast

section \<open>Replaced operations\<close>

text \<open>An event of an operation that is not the last one issued for its cluster changes nothing.\<close>

lemma provision_event_current:
  assumes "app_reachable s" "app_op_gens s n \<noteq> Some g"
  shows "handle_event env (EvProvision n g ev) s = s"
proof -
  have "with_panel n g (apply_event ev) s = s"
    using reachable_ok [OF assms(1)] assms(2)
    by (auto simp: with_panel_def app_ok_def ops_ok_def split: option.split)
  then show ?thesis by (simp add: handle_event_def with_deps_def with_overview_def)
qed

lemma destroy_end_closes:
  assumes "app_ops s n = Some (op_start OpDestroy n g)" "g \<noteq> h" "map ct_name (app_tabs s) = [n]"
  shows "app_tabs (handle_event env (EvProvisionDone n h (Inr ())) s) = []
       \<and> app_ops (handle_event env (EvProvisionDone n h (Inr ())) s) n = app_ops s n"
proof -
  have "\<forall>t \<in> set (app_tabs s). ct_name t = n" using assms(3) by force
  then show ?thesis using assms(1,2)
    by (simp add: handle_event_def provision_done_def with_panel_def with_deps_def op_start_def drop_tab_def
        Let_def)
qed

text \<open>Its end is the exception: it acts on the tabs although its generation is not the one
  shown.  Here the end of a first destroy, arriving while a second operation of the same name
  runs, closes the tab.\<close>

theorem stale_end_acts:
  "\<exists>s s'. app_reachable s
     \<and> s' = handle_event env (EvProvisionDone ''dev'' 1 (Inr ())) s
     \<and> app_op_gens s ''dev'' = Some 2
     \<and> app_ops s' ''dev'' = app_ops s ''dev'' \<and> map_option op_running (app_ops s ''dev'') = Some True
     \<and> app_tabs s \<noteq> [] \<and> app_tabs s' = []"
proof -
  let ?react = "\<lambda>i. app_react env_opening (AppTab i)"
  let ?destroy = "\<lambda>s. ?react InConfirmOk (?react (InConfirmTyped ''dev'') (?react InDestroy s))"
  obtain t where t: "app_tabs app_opened = [t]" "ct_name t = ''dev''"
    using app_opened_fields(4) by (auto simp: map_eq_Cons_conv)
  have trim: "str_trim ''dev'' = ''dev''"
    by (simp add: str_trim_def trim_end_def is_ws1_def is_ws2_def is_ws3_def less_eq_char_def)
  have d: "app_tabs (?destroy s) = [u\<lparr>ct_confirm := None\<rparr>] \<and> app_active (?destroy s) = ActiveCluster ''dev''
      \<and> app_op_gens (?destroy s) = (app_op_gens s)(''dev'' \<mapsto> (case app_op_gens s ''dev'' of Some g \<Rightarrow> g | None \<Rightarrow> 0) + 1)
      \<and> app_ops (?destroy s) ''dev'' = Some (op_start OpDestroy ''dev'' ((case app_op_gens s ''dev'' of Some g \<Rightarrow> g | None \<Rightarrow> 0) + 1))"
    if "app_active s = ActiveCluster ''dev''" "app_tabs s = [u]" "ct_name u = ''dev''" for s u
    using that by (simp add: find_tab_def with_tab_def retype_def confirm_ok_def start_op_def next_op_gen_def Let_def
        confirm_typed_def trim)
  let ?s = "?destroy (?destroy app_opened)"
  have r: "app_reachable ?s" by (intro app_reachable.intros app_opened_reachable)
  note d1 = d [OF app_opened_fields(1) t]
  note d2 = d [of "?destroy app_opened" "t\<lparr>ct_confirm := None\<rparr>"]
  have s: "app_op_gens ?s ''dev'' = Some 2" "map ct_name (app_tabs ?s) = [''dev'']"
    "app_ops ?s ''dev'' = Some (op_start OpDestroy ''dev'' 2)"
    using d1 d2 t(2) app_opened_fields(2) by simp_all
  let ?s' = "handle_event env (EvProvisionDone ''dev'' 1 (Inr ())) ?s"
  have "app_tabs ?s' = []" "app_ops ?s' ''dev'' = app_ops ?s ''dev''"
    using destroy_end_closes [OF s(3) _ s(2), of 1 env] by simp_all
  moreover have "map_option op_running (app_ops ?s ''dev'') = Some True"
    using s(3) by (simp add: op_running_def op_start_def)
  moreover have "app_tabs ?s \<noteq> []" using s(2) by force
  ultimately show ?thesis using r s(1) by blast
qed

end
