(* ===== verification/AppSafety.thy ===== *)
theory AppSafety
  imports AppProps
begin

text \<open>
  The one danger of the application: which inputs make it send a command that destroys a cluster.  The
  shutdown of the worker, which only \<open>main\<close> sends, is counted among them, so that the same proof shows that no
  input sends it.
\<close>

definition destructive :: "core_command \<Rightarrow> bool" where
  "destructive c \<longleftrightarrow>
     (\<exists>n g. c = CmdDestroyCluster n g) \<or> (\<exists>n spec g. c = CmdRecreateCluster n spec g) \<or> c = CmdShutdown"

lemma destructive_simps [simp]:
  "destructive (CmdDestroyCluster n g)" "destructive (CmdRecreateCluster n spec g)" "destructive CmdShutdown"
  "\<not> destructive CmdReconcile" "\<not> destructive (CmdDetectTools r)" "\<not> destructive CmdCheckDockerDaemon"
  "\<not> destructive (CmdSetTheme x)" "\<not> destructive (CmdInstallTool i)" "\<not> destructive (CmdCreateCluster spec g)"
  "\<not> destructive (CmdCancelOp n)" "\<not> destructive (CmdCheckContext n)" "\<not> destructive (CmdEnsureContext n)"
  "\<not> destructive (CmdExportLogs n d)" "\<not> destructive (CmdFetchTopology n g)"
  "\<not> destructive (CmdSetAutoRefresh n secs on g)" "\<not> destructive (CmdStartLogs n src fol tl' g)"
  "\<not> destructive (CmdStopLogs n)" "\<not> destructive (CmdOpenK9s n)"
  by (simp_all add: destructive_def)

text \<open>The destructive commands waiting in the queue to the worker.\<close>

definition harm :: "app_state \<Rightarrow> core_command set" where
  "harm s = {c \<in> set (q_items (app_cmd s)). destructive c}"

lemma harm_same_queue: "app_cmd s' = app_cmd s \<Longrightarrow> harm s' = harm s"
  by (simp add: harm_def)

lemma harm_updates [simp]:
  "harm (s\<lparr>app_overview := ov\<rparr>) = harm s" "harm (s\<lparr>app_tabs := ts\<rparr>) = harm s" "harm (s\<lparr>app_active := a\<rparr>) = harm s"
  "harm (s\<lparr>app_ops := os\<rparr>) = harm s" "harm (s\<lparr>app_op_gens := gs\<rparr>) = harm s" "harm (s\<lparr>app_wizard := w\<rparr>) = harm s"
  "harm (s\<lparr>app_wizard_open := b\<rparr>) = harm s" "harm (s\<lparr>app_about_open := b\<rparr>) = harm s"
  "harm (s\<lparr>app_banners := bs\<rparr>) = harm s" "harm (s\<lparr>app_bus_warning := b\<rparr>) = harm s"
  "harm (s\<lparr>app_auto_open := x\<rparr>) = harm s" "harm (s\<lparr>app_theme := y\<rparr>) = harm s"
  by (simp_all add: harm_def)

lemma harm_helpers [simp]:
  "harm (push_banner m e s) = harm s" "harm (with_overview f s) = harm s" "harm (with_deps u s) = harm s"
  "harm (with_tab n v s) = harm s" "harm (with_panel n g h s) = harm s" "harm (drop_tab n s) = harm s"
  by (simp_all add: push_banner_def with_overview_def with_deps_def with_tab_def with_panel_def drop_tab_def
      split: option.split)

lemma harm_issue: "harm (issue c s) \<subseteq> (if destructive c then insert c (harm s) else harm s)"
  by (auto simp: issue_def harm_def try_send_def push_banner_def split: if_splits)

lemma harm_issue_grows: "harm s \<subseteq> harm (issue c s)"
  by (auto simp: issue_def harm_def try_send_def push_banner_def)

lemma harm_issue_plain [simp]: "\<not> destructive c \<Longrightarrow> harm (issue c s) = harm s"
  using harm_issue [of c s] harm_issue_grows [of s c] by auto

lemma harm_tabs [simp]: "harm (open_tab n s) = harm s" "harm (close_tab n s) = harm s"
  by (simp_all add: open_tab_def close_tab_def Let_def)

lemma harm_start_op: "harm (start_op k n c s) \<subseteq> (if destructive (c (fst (next_op_gen n s))) then insert (c (fst (next_op_gen n s))) (harm s) else harm s)"
  using harm_issue [of "c (fst (next_op_gen n s))"]
  by (fastforce simp: start_op_def next_op_gen_def Let_def)

lemma harm_event [simp]: "harm (handle_event env ev s) = harm s"
  by (cases "(env, ev, s)" rule: route_event.cases)
    (auto simp: handle_event_def reconcile_done_def provision_done_def Let_def
      split: sum.split option.split prod.split op_kind.split)

section \<open>The overview\<close>

lemma overview_unchanged [simp]:
  "app_overview (issue c s) = app_overview s" "app_overview (start_op k n f s) = app_overview s"
  "app_overview (open_tab n s) = app_overview s"
  by (simp_all add: issue_def push_banner_def start_op_def next_op_gen_def open_tab_def Let_def
      split: prod.split sum.split send_error.split)

lemma overview_react_overview [simp]: "app_overview (overview_react c s) = app_overview s"
  by (cases "(c, s)" rule: overview_react.cases) (simp_all split: option.split cluster_state.split)

lemma report_row_overview: "app_overview s' = app_overview s \<Longrightarrow> report_row n s' = report_row n s"
  by (simp add: report_row_def)

text \<open>The destructive command an overview command stands for.\<close>

definition overview_harm :: "app_state \<Rightarrow> overview_cmd \<Rightarrow> core_command \<Rightarrow> bool" where
  "overview_harm s oc c \<longleftrightarrow>
     (\<exists>n r g. oc = OvDestroy n r \<and> c = CmdDestroyCluster n g)
     \<or> (\<exists>n k r g. oc = OvScale n k \<and> report_row n s = Some (Managed r)
          \<and> c = CmdRecreateCluster n ((cr_spec r)\<lparr>cs_worker_count := k\<rparr>) g)
     \<or> (\<exists>n r g. oc = OvRecreate n \<and> report_row n s = Some (Missing r) \<and> c = CmdRecreateCluster n (cr_spec r) g)
     \<or> (oc = OvCommand c \<and> destructive c)"

lemma harm_overview: "c \<in> harm (overview_react oc s) \<Longrightarrow> c \<in> harm s \<or> overview_harm s oc c"
  by (cases "(oc, s)" rule: overview_react.cases)
    (auto simp: overview_harm_def dest!: subsetD [OF harm_issue] subsetD [OF harm_start_op]
      split: option.splits cluster_state.splits if_splits)

lemma harm_overviews:
  "c \<in> harm (fold overview_react ocs s) \<Longrightarrow> c \<in> harm s \<or> (\<exists>oc \<in> set ocs. overview_harm s oc c)"
proof (induction ocs arbitrary: s)
  case (Cons oc ocs)
  have same: "overview_harm (overview_react oc s) = overview_harm s"
    by (simp add: overview_harm_def fun_eq_iff report_row_overview [of "overview_react oc s" s])
  show ?case using Cons.IH [of "overview_react oc s"] Cons.prems harm_overview [of c oc s] by (auto simp: same)
qed simp

lemma deps_row_actions:
  "snd (deps_row h os di t x) =
     snd x @ (if di_install di (t_id t) \<and> install_enabled (fst x) (t_id t) then [CmdInstallTool (t_id t)] else [])"
  by (cases x) (simp add: deps_row_def Let_def split: option.split)

lemma deps_actions:
  assumes "c \<in> set (snd (deps_show h os now di d))"
  shows "\<not> destructive c"
proof -
  have rows: "c \<in> set (snd (fold (deps_row h os di) ts x)) \<Longrightarrow> c \<in> set (snd x) \<or> \<not> destructive c" for ts x
  proof (induction ts arbitrary: x)
    case (Cons t ts)
    then have "c \<in> set (snd (deps_row h os di t x)) \<or> \<not> destructive c" by simp
    then show ?case by (auto simp: deps_row_actions split: if_splits)
  qed simp
  have "c \<in> set (snd (deps_refresh now (di_refresh di) d)) \<Longrightarrow> \<not> destructive c"
    by (auto simp: deps_refresh_def begin_detect_def split: if_splits)
  then show ?thesis using rows assms unfolding deps_show_def by blast
qed

section \<open>The tabs\<close>

definition tab_harm :: "tab_cmd \<Rightarrow> core_command \<Rightarrow> bool" where
  "tab_harm tc c \<longleftrightarrow>
     (\<exists>n g. tc = TabDestroy n \<and> c = CmdDestroyCluster n g)
     \<or> (\<exists>spec g. tc = TabRecreate spec \<and> c = CmdRecreateCluster (cs_name spec) spec g)
     \<or> (tc = TabCommand c \<and> destructive c)"

lemma harm_tab_cmd: "c \<in> harm (tab_cmd_react tc s) \<Longrightarrow> c \<in> harm s \<or> tab_harm tc c"
  by (cases "(tc, s)" rule: tab_cmd_react.cases)
    (auto simp: tab_harm_def dest!: subsetD [OF harm_issue] subsetD [OF harm_start_op]
      split: active_tab.splits if_splits)

lemma harm_tab_cmds: "c \<in> harm (fold tab_cmd_react tcs s) \<Longrightarrow> c \<in> harm s \<or> (\<exists>tc \<in> set tcs. tab_harm tc c)"
proof (induction tcs arbitrary: s)
  case (Cons tc tcs)
  then show ?case using harm_tab_cmd [of c tc s] by fastforce
qed simp

section \<open>The property\<close>

text \<open>An input that accepts a confirmation in which the name \<open>n\<close> has been typed.\<close>

definition app_typed :: "app_input \<Rightarrow> app_state \<Rightarrow> string \<Rightarrow> bool" where
  "app_typed i s n \<longleftrightarrow>
     (\<exists>di oi. i = AppOverview di oi \<and> app_active s = ActiveOverview
        \<and> typed_name (oi_confirm oi) (app_overview s) n)
     \<or> (i = AppTab InConfirmOk \<and> app_active s = ActiveCluster n
        \<and> (\<exists>t c. find_tab n s = Some t \<and> ct_confirm t = Some c \<and> str_trim (confirm_typed c) = n))"

text \<open>A click on \<open>Recreate\<close> in the card of the cluster \<open>n\<close>, which the report says is missing.\<close>

definition app_clicked :: "app_input \<Rightarrow> app_state \<Rightarrow> string \<Rightarrow> bool" where
  "app_clicked i s n \<longleftrightarrow>
     (\<exists>di oi. i = AppOverview di oi \<and> app_active s = ActiveOverview \<and> recreate_clicked oi (app_overview s) n)"

lemma overview_commands_plain:
  assumes "overview_show now inp ov wz = (ov', cmds, wz')" and "OvCommand x \<in> set cmds"
  shows "\<not> destructive x"
  using overview_cmds [OF assms] unfolding card_cmd_def
  by (elim disjE exE bexE conjE) simp_all

lemma recreate_clicked_deps: "recreate_clicked oi (ov\<lparr>ov_deps := d\<rparr>) n = recreate_clicked oi ov n"
proof -
  have "overview_rows (ov\<lparr>ov_deps := d\<rparr>) = overview_rows ov" by (simp add: overview_rows_def split: option.split)
  then show ?thesis by (simp only: recreate_clicked_def)
qed

lemma overview_frame_harm:
  assumes "c \<in> harm (overview_frame env di oi s)" "c \<notin> harm s"
  shows "(\<exists>n g. c = CmdDestroyCluster n g \<and> app_typed (AppOverview di oi) s n)
    \<or> (\<exists>n k r g. c = CmdRecreateCluster n ((cr_spec r)\<lparr>cs_worker_count := k\<rparr>) g
         \<and> app_typed (AppOverview di oi) s n \<and> report_row n s = Some (Managed r))
    \<or> (\<exists>n r g. c = CmdRecreateCluster n (cr_spec r) g \<and> app_clicked (AppOverview di oi) s n
         \<and> report_row n s = Some (Missing r))"
proof -
  obtain d acts where d: "deps_show (av_host env) (av_os env) (av_now env) di (ov_deps (app_overview s)) = (d, acts)"
    by fastforce
  let ?ov = "(app_overview s)\<lparr>ov_deps := d\<rparr>"
  obtain ov cmds wz where o: "overview_show (av_now env) oi ?ov (app_wizard_open s) = (ov, cmds, wz)"
    by (metis prod_cases3)
  define s1 where "s1 = s\<lparr>app_overview := ov, app_wizard_open := wz,
      app_wizard := (if wz then Some (case app_wizard s of Some w \<Rightarrow> w | None \<Rightarrow> wizard_fresh) else app_wizard s)\<rparr>"
  have a: "app_active s = ActiveOverview" and f: "overview_frame env di oi s = fold overview_react (map OvCommand acts @ cmds) s1"
    using assms d o by (auto simp: overview_frame_def s1_def split: if_splits)
  have h: "harm s1 = harm s" by (simp add: s1_def)
  have "ov_report ov = ov_report (app_overview s)" using o by (auto simp: overview_show_eq)
  then have row: "report_row n s1 = report_row n s" for n by (simp add: report_row_def s1_def)
  have "c \<in> harm (fold overview_react (map OvCommand acts @ cmds) s1)" using assms(1) f by simp
  from harm_overviews [OF this] obtain oc where oc: "oc \<in> set (map OvCommand acts @ cmds)" "overview_harm s1 oc c"
    unfolding h using assms(2) by (elim disjE bexE) simp_all
  have typed: "typed_name (oi_confirm oi) ?ov n = typed_name (oi_confirm oi) (app_overview s) n" for n
    by (simp add: typed_name_def split: option.split)
  have acts: "oc \<noteq> OvCommand x" if "destructive x" for x
  proof
    assume "oc = OvCommand x"
    then consider "x \<in> set acts" | "OvCommand x \<in> set cmds" using oc(1) by auto
    then show False
    proof cases
      case 1
      then show False
        using that deps_actions [of x "av_host env" "av_os env" "av_now env" di "ov_deps (app_overview s)"] d by simp
    next
      case 2
      then show False using overview_commands_plain [OF o] that by blast
    qed
  qed
  have name: "app_typed (AppOverview di oi) s n" if "oc = OvDestroy n r \<or> oc = OvScale n k" for n r k
  proof -
    have "oc \<in> set cmds" using that oc(1) by auto
    then have "typed_name (oi_confirm oi) (app_overview s) n"
      using that overview_needs_name(1,2) [OF o] typed by blast
    then show ?thesis using a by (simp add: app_typed_def)
  qed
  show ?thesis using oc(2) unfolding overview_harm_def
  proof (elim disjE exE conjE)
    fix n r g assume "oc = OvDestroy n r" "c = CmdDestroyCluster n g"
    then show ?thesis using name by blast
  next
    fix n k r g assume "oc = OvScale n k" "report_row n s1 = Some (Managed r)"
      "c = CmdRecreateCluster n ((cr_spec r)\<lparr>cs_worker_count := k\<rparr>) g"
    then show ?thesis using name row by metis
  next
    fix n r g assume r: "oc = OvRecreate n" "report_row n s1 = Some (Missing r)" "c = CmdRecreateCluster n (cr_spec r) g"
    then have "OvRecreate n \<in> set cmds" using oc(1) by auto
    then have "recreate_clicked oi (app_overview s) n"
      using overview_needs_name(3) [OF o] by (simp only: recreate_clicked_deps)
    then show ?thesis using r row a by (simp add: app_clicked_def)
  next
    assume "oc = OvCommand c" "destructive c"
    then show ?thesis using acts by blast
  qed
qed

lemma tab_harm_typed:
  assumes "c \<in> harm (app_react env (AppTab j) s)" "c \<notin> harm s"
  shows "\<exists>m. app_typed (AppTab j) s m
    \<and> ((\<exists>g. c = CmdDestroyCluster m g)
       \<or> (\<exists>t r k g. find_tab m s = Some t \<and> ct_record t = Some r
            \<and> c = CmdRecreateCluster (cs_name (cr_spec r)) ((cr_spec r)\<lparr>cs_worker_count := k\<rparr>) g))"
proof -
  obtain m t where m: "app_active s = ActiveCluster m" "find_tab m s = Some t"
    using assms by (auto split: active_tab.splits option.splits)
  obtain t1 cmds where r: "tab_react j t = (t1, cmds)" by fastforce
  have "c \<in> harm (fold tab_cmd_react cmds (with_tab m (\<lambda>_. t1) s))" using assms(1) m r by simp
  then obtain tc where tc: "tc \<in> set cmds" "tab_harm tc c"
    using harm_tab_cmds assms(2) by fastforce
  have n: "ct_name t = m" using m(2) by (auto simp: find_tab_def find_Some_iff)
  have plain: "tc \<noteq> TabCommand x" if "destructive x" for x
    using tc(1) that tab_commands_plain [of x j t] r by (auto simp: destructive_def)
  note cmds = destructive_cmds [OF r]
  show ?thesis
  proof (rule exI [of _ m], rule conjI)
    have "j = InConfirmOk \<and> (\<exists>c. ct_confirm t = Some c \<and> str_trim (confirm_typed c) = m)"
      using tc cmds plain n unfolding tab_harm_def by metis
    then show "app_typed (AppTab j) s m" using m by (simp add: app_typed_def)
    show "(\<exists>g. c = CmdDestroyCluster m g)
       \<or> (\<exists>t r k g. find_tab m s = Some t \<and> ct_record t = Some r
            \<and> c = CmdRecreateCluster (cs_name (cr_spec r)) ((cr_spec r)\<lparr>cs_worker_count := k\<rparr>) g)"
      using tc(2)
    proof (unfold tab_harm_def, elim disjE exE conjE)
      fix spec g assume "tc = TabRecreate spec" and c: "c = CmdRecreateCluster (cs_name spec) spec g"
      then obtain r k where "ct_record t = Some r" "spec = (cr_spec r)\<lparr>cs_worker_count := k\<rparr>"
        using cmds tc(1) by blast
      then show ?thesis using c m(2) by auto
    qed (use cmds tc(1) plain n in auto)
  qed
qed

lemma harm_start_create: "harm (start_op k n (CmdCreateCluster spec) s) \<subseteq> harm s"
  using harm_start_op [of k n "CmdCreateCluster spec" s] by simp

lemma harm_other_inputs:
  assumes "\<forall>j. i \<noteq> AppTab j" "\<forall>di oi. i \<noteq> AppOverview di oi"
  shows "harm (app_react env i s) \<subseteq> harm s"
proof (cases i)
  case (AppWizard click form)
  then show ?thesis using harm_start_create
    by (auto simp: wizard_react_def split: wizard_action.split)
next
  case (AppPickTheme t)
  then show ?thesis by (simp add: pick_theme_def)
next
  case AppEscape
  then show ?thesis by (simp add: escape_def split: active_tab.split)
next
  case AppRefreshKey
  then show ?thesis by (simp add: refresh_key_def Let_def split: active_tab.split option.split)
next
  case (AppClosePanel n)
  then show ?thesis by (simp add: close_panel_def split: option.split)
next
  case AppWatch
  then show ?thesis by (simp add: watch_def split: prod.split option.split)
qed (use assms in \<open>simp_all split: option.split\<close>)

text \<open>The only ways to a command that destroys a cluster: a destroy takes a confirmation with the name of this cluster
  typed in the view that shows it; a recreate takes the same, with the stored specification up to the number of
  workers, or a click on \<open>Recreate\<close> in the card of this cluster, which the report says is missing.\<close>

definition asked :: "app_input \<Rightarrow> app_state \<Rightarrow> core_command \<Rightarrow> bool" where
  "asked i s c \<longleftrightarrow>
     (\<exists>n g. c = CmdDestroyCluster n g \<and> app_typed i s n)
     \<or> (\<exists>n r k g. c = CmdRecreateCluster n ((cr_spec r)\<lparr>cs_worker_count := k\<rparr>) g \<and> app_typed i s n
          \<and> (report_row n s = Some (Managed r)
             \<or> (\<exists>t. find_tab n s = Some t \<and> ct_record t = Some r \<and> cs_name (cr_spec r) = n)))
     \<or> (\<exists>n r g. c = CmdRecreateCluster n (cr_spec r) g \<and> app_clicked i s n \<and> report_row n s = Some (Missing r))"

text \<open>The one exception.  A tab recreates the cluster named in its record, and nothing checks that the record of a
  file carries the name of the file: when it names another cluster, the name typed is that of the tab.\<close>

definition misnamed :: "app_input \<Rightarrow> app_state \<Rightarrow> core_command \<Rightarrow> bool" where
  "misnamed i s c \<longleftrightarrow>
     (\<exists>m t r k g. app_typed i s m \<and> find_tab m s = Some t \<and> ct_record t = Some r \<and> cs_name (cr_spec r) \<noteq> m
        \<and> c = CmdRecreateCluster (cs_name (cr_spec r)) ((cr_spec r)\<lparr>cs_worker_count := k\<rparr>) g)"

theorem destroy_needs_typed_name:
  assumes "c \<in> harm (app_react env i s)" and "c \<notin> harm s"
  shows "asked i s c \<or> misnamed i s c"
proof (cases i)
  case (AppTab j)
  then obtain m where m: "app_typed i s m"
    and c: "(\<exists>g. c = CmdDestroyCluster m g)
       \<or> (\<exists>t r k g. find_tab m s = Some t \<and> ct_record t = Some r
            \<and> c = CmdRecreateCluster (cs_name (cr_spec r)) ((cr_spec r)\<lparr>cs_worker_count := k\<rparr>) g)"
    using tab_harm_typed [of c env j s] assms by blast
  from c show ?thesis
  proof (elim disjE exE conjE)
    fix t r k g
    assume t: "find_tab m s = Some t" "ct_record t = Some r"
      and c: "c = CmdRecreateCluster (cs_name (cr_spec r)) ((cr_spec r)\<lparr>cs_worker_count := k\<rparr>) g"
    show ?thesis
    proof (cases "cs_name (cr_spec r) = m")
      case True
      then have "asked i s c" unfolding asked_def using m t c by blast
      then show ?thesis ..
    next
      case False
      then have "misnamed i s c" unfolding misnamed_def using m t c by blast
      then show ?thesis ..
    qed
  qed (use m in \<open>auto simp: asked_def\<close>)
next
  case (AppOverview di oi)
  then have "c \<in> harm (overview_frame env di oi s)" using assms(1) by simp
  from overview_frame_harm [OF this assms(2)] show ?thesis unfolding asked_def AppOverview by blast
qed (use harm_other_inputs [of i env s] assms in auto)

lemma destroy_needs_typed_name_witness:
  "\<exists>s. CmdDestroyCluster ''dev'' 1 \<in> harm (app_react env_opening (AppTab InConfirmOk) s) - harm s
     \<and> app_typed (AppTab InConfirmOk) s ''dev''"
proof -
  define t where "t = (tab_new ''dev'' None)\<lparr>ct_confirm := Some (ConfirmDestroy ''dev '')\<rparr>"
  define s where "s = (app_new env_opening (queue_new 64))\<lparr>app_tabs := [t], app_active := ActiveCluster ''dev''\<rparr>"
  have trim: "str_trim ''dev '' = ''dev''"
    by (simp add: str_trim_def trim_end_def is_ws1_def is_ws2_def is_ws3_def less_eq_char_def)
  have r: "tab_react InConfirmOk t = (t\<lparr>ct_confirm := None\<rparr>, [TabDestroy ''dev''])"
    by (simp add: t_def confirm_ok_def confirm_typed_def tab_new_def trim)
  have find: "find_tab ''dev'' s = Some t" by (simp add: s_def find_tab_def t_def tab_new_def)
  have app: "app_react env_opening (AppTab InConfirmOk) s
      = start_op OpDestroy ''dev'' (CmdDestroyCluster ''dev'') (with_tab ''dev'' (\<lambda>_. t\<lparr>ct_confirm := None\<rparr>) s)"
    using find r by (simp add: s_def)
  have c: "CmdDestroyCluster ''dev'' 1 \<in> harm (app_react env_opening (AppTab InConfirmOk) s)"
    "CmdDestroyCluster ''dev'' 1 \<notin> harm s"
    unfolding app
    by (simp_all add: harm_def s_def app_new_def env_opening_def with_tab_def start_op_def
        next_op_gen_def issue_def try_send_def queue_new_def begin_detect_def)
  from destroy_needs_typed_name [OF c] have "app_typed (AppTab InConfirmOk) s ''dev''"
    by (auto simp: asked_def misnamed_def)
  then show ?thesis using c by blast
qed

section \<open>A finding\<close>

text \<open>The exception is reached: the report has a cluster \<open>dev\<close> whose record names another cluster, its tab is opened,
  the number of workers changed and applied, and \<open>dev\<close> typed.  What is recreated, and so destroyed first, is the
  cluster the record names.\<close>

definition misnamed_report :: "cluster_record \<Rightarrow> reconcile_report" where
  "misnamed_report r = \<lparr>rr_clusters = [\<lparr>ce_name = ''dev'', ce_state = Managed r\<rparr>]\<rparr>"

definition misnamed_tab :: "cluster_record \<Rightarrow> app_state" where
  "misnamed_tab r =
     fold (app_react env_opening)
       [AppEvent (EvReconcileDone (Inr (misnamed_report r))), AppTab (InWorkers (cs_worker_count (cr_spec r) + 1)),
        AppTab InApplyScale, AppTab (InConfirmTyped ''dev'')]
       (app_new env_opening (queue_new 64))"

lemma misnamed_reachable: "app_reachable (misnamed_tab r)"
  unfolding misnamed_tab_def by (simp del: app_react.simps add: app_reachable.intros)

lemma misnamed_tab_fields:
  "\<exists>t. app_tabs (misnamed_tab r) = [t] \<and> ct_name t = ''dev'' \<and> ct_record t = Some r
     \<and> ct_workers t = cs_worker_count (cr_spec r) + 1 \<and> ct_confirm t = Some (ConfirmRecreate ''dev'')"
  "app_active (misnamed_tab r) = ActiveCluster ''dev''" "app_op_gens (misnamed_tab r) = (\<lambda>_. None)"
  "q_connected (app_cmd (misnamed_tab r))" "length (q_items (app_cmd (misnamed_tab r))) < q_cap (app_cmd (misnamed_tab r))"
  "harm (misnamed_tab r) = {}"
  by (simp_all add: misnamed_tab_def misnamed_report_def app_new_def env_opening_def handle_event_def
      reconcile_done_def open_tab_def begin_detect_def Let_def tab_new_def with_deps_def report_row_def
      with_overview_def issue_def try_send_def queue_new_def with_tab_def find_tab_def has_record_def retype_def
      harm_def) auto

lemma misnamed_recreate_happens:
  assumes "cs_name (cr_spec r) \<noteq> ''dev''"
  shows "\<exists>c. c \<in> harm (app_react env_opening (AppTab InConfirmOk) (misnamed_tab r)) - harm (misnamed_tab r)
     \<and> app_typed (AppTab InConfirmOk) (misnamed_tab r) ''dev''
     \<and> c = CmdRecreateCluster (cs_name (cr_spec r)) ((cr_spec r)\<lparr>cs_worker_count := cs_worker_count (cr_spec r) + 1\<rparr>) 1"
proof -
  let ?s = "misnamed_tab r"
  obtain t where t: "app_tabs ?s = [t]" "ct_name t = ''dev''" "ct_record t = Some r"
    "ct_workers t = cs_worker_count (cr_spec r) + 1" "ct_confirm t = Some (ConfirmRecreate ''dev'')"
    using misnamed_tab_fields(1) by blast
  have trim: "str_trim ''dev'' = ''dev''"
    by (simp add: str_trim_def trim_end_def is_ws1_def is_ws2_def is_ws3_def less_eq_char_def)
  have "tab_react InConfirmOk t
      = (t\<lparr>ct_confirm := None\<rparr>, [TabRecreate ((cr_spec r)\<lparr>cs_worker_count := cs_worker_count (cr_spec r) + 1\<rparr>)])"
    using t trim by (simp add: confirm_ok_def confirm_typed_def recreate_cmds_def spec_with_workers_def)
  moreover have f: "find_tab ''dev'' ?s = Some t" using t by (simp add: find_tab_def)
  ultimately have "CmdRecreateCluster (cs_name (cr_spec r)) ((cr_spec r)\<lparr>cs_worker_count := cs_worker_count (cr_spec r) + 1\<rparr>) 1
      \<in> harm (app_react env_opening (AppTab InConfirmOk) ?s)"
    using misnamed_tab_fields(2-5) [of r]
    by (simp add: start_op_def next_op_gen_def with_tab_def issue_def try_send_def harm_def)
  moreover have "app_typed (AppTab InConfirmOk) ?s ''dev''"
    using t f trim misnamed_tab_fields(2) [of r] by (simp add: app_typed_def confirm_typed_def)
  ultimately show ?thesis using misnamed_tab_fields(6) [of r] by blast
qed

end
