(* ===== verification/AppQueue.thy ===== *)
theory AppQueue
  imports AppSafety
begin

text \<open>
  What the application does to the queue of its commands and to the operations it shows as running: the
  queue only grows, an event never starts an operation, and an operation that is started has its command
  queued unless the queue is full.
\<close>

section \<open>Operations\<close>

text \<open>The operation, by name and generation, that a command starts.\<close>

fun op_of :: "core_command \<Rightarrow> (string \<times> op_gen) option" where
  "op_of (CmdCreateCluster spec g) = Some (cs_name spec, g)"
| "op_of (CmdDestroyCluster n g) = Some (n, g)"
| "op_of (CmdRecreateCluster n spec g) = Some (n, g)"
| "op_of c = None"

definition running_op :: "app_state \<Rightarrow> string \<Rightarrow> op_gen \<Rightarrow> bool" where
  "running_op s n g \<longleftrightarrow> (\<exists>p. app_ops s n = Some p \<and> op_running p \<and> OpPanel.op_gen p = g)"

definition queued_op :: "app_state \<Rightarrow> string \<Rightarrow> op_gen \<Rightarrow> bool" where
  "queued_op s n g \<longleftrightarrow> (\<exists>c \<in> set (q_items (app_cmd s)). op_of c = Some (n, g))"

definition cmd_full :: "app_state \<Rightarrow> bool" where
  "cmd_full s \<longleftrightarrow> q_cap (app_cmd s) \<le> length (q_items (app_cmd s))"

section \<open>Growth\<close>

definition queue_grows :: "app_state \<Rightarrow> app_state \<Rightarrow> bool" where
  "queue_grows s s' \<longleftrightarrow> prefix (q_items (app_cmd s)) (q_items (app_cmd s'))
     \<and> q_cap (app_cmd s') = q_cap (app_cmd s) \<and> q_connected (app_cmd s') = q_connected (app_cmd s)"

definition extends :: "app_state \<Rightarrow> app_state \<Rightarrow> bool" where
  "extends s s' \<longleftrightarrow> queue_grows s s'
     \<and> (\<forall>n g. running_op s' n g \<longrightarrow> running_op s n g \<or> queued_op s' n g \<or> cmd_full s')"

lemma queue_grows_trans: "queue_grows s s' \<Longrightarrow> queue_grows s' s'' \<Longrightarrow> queue_grows s s''"
  by (auto simp: queue_grows_def intro: prefix_order.trans)

lemma queue_grows_queued: "queue_grows s s' \<Longrightarrow> queued_op s n g \<Longrightarrow> queued_op s' n g"
  by (auto simp: queue_grows_def queued_op_def dest: set_mono_prefix)

lemma queue_grows_full: "queue_grows s s' \<Longrightarrow> cmd_full s \<Longrightarrow> cmd_full s'"
  by (auto simp: queue_grows_def cmd_full_def dest: prefix_length_le)

lemma extends_grows: "extends s s' \<Longrightarrow> queue_grows s s'"
  by (simp add: extends_def)

lemma extends_trans:
  assumes "extends s s'" "extends s' s''" shows "extends s s''"
  using assms queue_grows_trans [of s s' s''] queue_grows_queued [of s' s''] queue_grows_full [of s' s'']
  unfolding extends_def by blast

text \<open>An update that touches neither queue nor panels.\<close>

lemma extends_same: "app_cmd s' = app_cmd s \<Longrightarrow> app_ops s' = app_ops s \<Longrightarrow> extends s s'"
  by (simp add: extends_def queue_grows_def running_op_def)

lemma extends_refl: "extends s s" by (rule extends_same) simp_all

lemma grows_issue: "queue_grows s (issue c s)"
  by (auto simp: issue_def try_send_def queue_grows_def push_banner_def)

lemma extends_issue: "extends s (issue c s)"
  by (simp add: extends_def grows_issue running_op_def)

lemma extends_then_issue: "extends s s' \<Longrightarrow> extends s (issue c s')"
  using extends_trans extends_issue by blast

lemma issue_queued:
  "q_connected (app_cmd s) \<Longrightarrow> op_of c = Some (n, g) \<Longrightarrow> queued_op (issue c s) n g \<or> cmd_full (issue c s)"
  by (auto simp: issue_def try_send_def queued_op_def cmd_full_def)

lemma extends_start_op:
  assumes "q_connected (app_cmd s)" "\<And>g. op_of (c g) = Some (n, g)"
  shows "extends s (start_op k n c s)"
proof -
  obtain g s1 where g: "next_op_gen n s = (g, s1)" by fastforce
  define s2 where "s2 = s1\<lparr>app_ops := (app_ops s1)(n \<mapsto> op_start k n g)\<rparr>"
  have s: "start_op k n c s = issue (c g) s2" by (simp add: start_op_def g s2_def)
  have f: "app_cmd s2 = app_cmd s" "app_ops s2 = (app_ops s)(n \<mapsto> op_start k n g)"
    using g by (auto simp: next_op_gen_def Let_def s2_def)
  have "queue_grows s (issue (c g) s2)"
    using grows_issue [of s2 "c g"] f(1) by (simp add: queue_grows_def)
  moreover have "queued_op (issue (c g) s2) n g \<or> cmd_full (issue (c g) s2)"
    using issue_queued [of s2 "c g" n g] assms f(1) by simp
  ultimately show ?thesis unfolding s extends_def
    by (auto simp: running_op_def f(2) op_start_def split: if_splits)
qed

section \<open>The reactions\<close>

lemma extends_updates:
  "extends s (s\<lparr>app_tabs := ts\<rparr>)" "extends s (s\<lparr>app_active := a\<rparr>)" "extends s (s\<lparr>app_overview := ov\<rparr>)"
  "extends s (s\<lparr>app_wizard_open := b, app_wizard := w\<rparr>)" "extends s (s\<lparr>app_wizard := w\<rparr>)"
  "extends s (s\<lparr>app_about_open := b\<rparr>)" "extends s (s\<lparr>app_banners := bs\<rparr>)"
  "extends s (with_overview f s)" "extends s (with_deps u s)" "extends s (with_tab n v s)" "extends s (drop_tab n s)"
  "extends s (push_banner m e s)"
  by (rule extends_same; simp add: with_overview_def with_deps_def with_tab_def drop_tab_def push_banner_def)+

lemma extends_then_updates:
  "extends s s' \<Longrightarrow> extends s (s'\<lparr>app_tabs := ts\<rparr>)" "extends s s' \<Longrightarrow> extends s (s'\<lparr>app_active := a\<rparr>)"
  "extends s s' \<Longrightarrow> extends s (drop_tab n s')" "extends s s' \<Longrightarrow> extends s (s'\<lparr>app_wizard_open := b, app_wizard := w\<rparr>)"
  by (rule extends_trans, assumption, rule extends_updates)+

lemma extends_open_tab: "extends s (open_tab n s)"
  unfolding open_tab_def Let_def
  by (auto intro!: extends_then_updates extends_then_issue extends_refl)

lemma extends_close_tab: "extends s (close_tab n s)"
  unfolding close_tab_def by (intro extends_then_updates extends_then_issue extends_refl)

lemma extends_connected: "extends s s' \<Longrightarrow> q_connected (app_cmd s') = q_connected (app_cmd s)"
  by (simp add: extends_def queue_grows_def)

lemma extends_overview_react: "q_connected (app_cmd s) \<Longrightarrow> extends s (overview_react c s)"
  by (cases "(c, s)" rule: overview_react.cases)
    (auto intro!: extends_issue extends_start_op extends_refl extends_open_tab split: option.split cluster_state.split)

lemma extends_tab_cmd: "q_connected (app_cmd s) \<Longrightarrow> extends s (tab_cmd_react c s)"
  by (cases "(c, s)" rule: tab_cmd_react.cases)
    (auto intro!: extends_issue extends_start_op extends_refl extends_close_tab split: active_tab.split)

lemma extends_fold:
  assumes "q_connected (app_cmd s)" "\<And>c s. q_connected (app_cmd s) \<Longrightarrow> extends s (r c s)"
  shows "extends s (fold r cs s)"
  using assms(1)
proof (induction cs arbitrary: s)
  case (Cons c cs)
  have 1: "extends s (r c s)" using assms(2) Cons.prems by simp
  then have "q_connected (app_cmd (r c s))" using extends_connected Cons.prems by simp
  then show ?case using extends_trans [OF 1] Cons.IH by simp
qed (simp add: extends_refl)

lemma extends_overview_frame:
  assumes c: "q_connected (app_cmd s)" shows "extends s (overview_frame env di oi s)"
proof -
  have "extends s (fold overview_react cs (s\<lparr>app_overview := ov, app_wizard_open := wz, app_wizard := w\<rparr>))"
    for cs ov wz w
  proof (rule extends_trans)
    show 1: "extends s (s\<lparr>app_overview := ov, app_wizard_open := wz, app_wizard := w\<rparr>)"
      by (rule extends_same) simp_all
    show "extends (s\<lparr>app_overview := ov, app_wizard_open := wz, app_wizard := w\<rparr>)
        (fold overview_react cs (s\<lparr>app_overview := ov, app_wizard_open := wz, app_wizard := w\<rparr>))"
      using c by (intro extends_fold extends_overview_react) simp_all
  qed
  then show ?thesis
    by (auto simp: overview_frame_def extends_refl Let_def simp del: fold_append split: prod.split)
qed

lemma extends_tab:
  assumes c: "q_connected (app_cmd s)" shows "extends s (app_react env (AppTab i) s)"
proof -
  have "extends s (fold tab_cmd_react cs (with_tab n f s))" for cs n f
  proof (rule extends_trans [OF extends_updates(10)])
    show "extends (with_tab n f s) (fold tab_cmd_react cs (with_tab n f s))"
      using c by (intro extends_fold extends_tab_cmd) (simp_all add: with_tab_def)
  qed
  then show ?thesis by (auto simp: extends_refl split: active_tab.split option.split prod.split)
qed

text \<open>No input of the user loses a queued command, and every operation it starts is queued unless the queue is
  full.\<close>

lemma extends_react:
  assumes "q_connected (app_cmd s)" "\<forall>ev. i \<noteq> AppEvent ev"
  shows "extends s (app_react env i s)"
proof (cases i)
  case (AppTab j)
  then show ?thesis using extends_tab assms(1) by simp
next
  case (AppWizard click form)
  then show ?thesis using assms(1)
    by (auto simp: wizard_react_def intro!: extends_then_updates extends_start_op extends_updates extends_refl
        split: wizard_action.split)
next
  case (AppClosePanel n)
  have "extends s (s\<lparr>app_ops := (app_ops s)(n := None)\<rparr>)"
    by (auto simp: extends_def queue_grows_def running_op_def)
  then show ?thesis using AppClosePanel
    by (auto simp: close_panel_def intro!: extends_issue extends_refl split: option.split)
next
  case AppWatch
  have "extends s (issue c (with_deps f s))" for c f by (intro extends_then_issue extends_updates)
  then show ?thesis using AppWatch
    by (auto simp: watch_def intro!: extends_updates split: prod.split option.split)
next
  case (AppPickTheme t)
  have "extends s (s\<lparr>app_theme := x\<rparr>)" for x by (rule extends_same) simp_all
  then show ?thesis using AppPickTheme
    by (auto simp: pick_theme_def intro: extends_then_issue extends_refl)
next
  case AppEscape
  then show ?thesis
    by (auto simp: escape_def intro!: extends_updates extends_refl split: active_tab.split)
next
  case AppRefreshKey
  have "extends s (issue c (with_tab n f s))" for c n f by (intro extends_then_issue extends_updates)
  then show ?thesis using AppRefreshKey
    by (auto simp: refresh_key_def Let_def intro!: extends_updates extends_refl split: active_tab.split option.split)
qed (use assms in \<open>auto intro!: extends_overview_frame extends_updates extends_refl extends_close_tab extends_issue
       split: option.split\<close>)

section \<open>Events\<close>

text \<open>An event starts no operation, and the end of an operation is the end of its panel.\<close>

definition quiets :: "core_event \<Rightarrow> app_state \<Rightarrow> app_state \<Rightarrow> bool" where
  "quiets ev s s' \<longleftrightarrow> queue_grows s s'
     \<and> (\<forall>n g. running_op s' n g \<longrightarrow> running_op s n g \<and> (\<forall>r. ev \<noteq> EvProvisionDone n g r))
     \<and> (\<forall>n p. app_ops s n = Some p \<longrightarrow> (\<exists>p'. app_ops s' n = Some p' \<and> OpPanel.op_gen p' = OpPanel.op_gen p))"

lemma ops_unchanged [simp]:
  "app_ops (issue c s) = app_ops s" "app_ops (open_tab n s) = app_ops s" "app_ops (drop_tab n s) = app_ops s"
  "app_ops (with_overview f s) = app_ops s" "app_ops (with_deps u s) = app_ops s" "app_ops (with_tab n v s) = app_ops s"
  "app_ops (push_banner m e s) = app_ops s"
  by (simp_all add: open_tab_def drop_tab_def with_overview_def with_deps_def with_tab_def push_banner_def Let_def)

lemma quiets_same:
  assumes "extends s s'" "app_ops s' = app_ops s" "\<forall>n g r. ev \<noteq> EvProvisionDone n g r"
  shows "quiets ev s s'"
  using assms by (auto simp: quiets_def extends_def running_op_def)

lemma extends_reconcile: "extends s (reconcile_done r s)"
proof (cases r)
  case (Inl e)
  have "extends s (with_overview f (with_overview v s))" for f v
    by (rule extends_same) (simp_all add: with_overview_def)
  then show ?thesis using Inl by (simp add: reconcile_done_def)
next
  case (Inr x)
  define s2 where "s2 = (with_overview (\<lambda>ov. ov\<lparr>ov_report := Some x, ov_error := None\<rparr>)
      (with_overview (\<lambda>ov. ov\<lparr>ov_loading := False\<rparr>) s))
        \<lparr>app_tabs := map (refresh_record x) (app_tabs (with_overview (\<lambda>ov. ov\<lparr>ov_loading := False\<rparr>) s))\<rparr>"
  have 2: "extends s s2" "extends s (s2\<lparr>app_auto_open := None\<rparr>)"
    by (rule extends_same; simp add: s2_def with_overview_def)+
  have "reconcile_done r s = s2 \<or> (\<exists>n. reconcile_done r s = open_tab n (s2\<lparr>app_auto_open := None\<rparr>))"
    unfolding reconcile_done_def Inr Let_def sum.case s2_def [symmetric] by (cases "app_auto_open s2") auto
  then show ?thesis using 2 extends_trans [OF 2(2) extends_open_tab] by auto
qed

lemma reconcile_ops: "app_ops (reconcile_done r s) = app_ops s"
  by (cases r) (simp_all add: reconcile_done_def Let_def split: option.split)


lemma quiets_before:
  assumes "quiets ev s1 s'" "app_cmd s1 = app_cmd s" "app_ops s1 = app_ops s" shows "quiets ev s s'"
  using assms by (simp add: quiets_def queue_grows_def running_op_def)

lemma quiets_after:
  assumes "quiets ev s s1" "extends s1 s'" "app_ops s' = app_ops s1" shows "quiets ev s s'"
  using assms queue_grows_trans [of s s1 s'] by (simp add: quiets_def extends_def running_op_def)

lemma apply_event_finished: "op_finished (apply_event ev p) = op_finished p"
  by (cases "(ev, p)" rule: apply_event.cases)
    (auto simp: op_set_step_def op_push_line_def op_header_def op_close_line_def Let_def split: option.split)

lemma quiets_with_panel:
  assumes "\<And>p. OpPanel.op_gen (f p) = OpPanel.op_gen p" "\<And>p. op_running (f p) \<Longrightarrow> op_running p"
    and "\<And>m h r. ev = EvProvisionDone m h r \<Longrightarrow> m = n \<and> h = g \<and> (\<forall>p. \<not> op_running (f p))"
  shows "quiets ev s (with_panel n g f s)"
proof -
  have "app_cmd (with_panel n g f s) = app_cmd s" by (simp add: with_panel_def split: option.split)
  then have "queue_grows s (with_panel n g f s)" by (simp add: queue_grows_def)
  moreover have "running_op s m h \<and> (\<forall>r. ev \<noteq> EvProvisionDone m h r)" if "running_op (with_panel n g f s) m h" for m h
    using that assms by (fastforce simp: running_op_def with_panel_def split: option.splits if_splits)
  moreover have "\<exists>p'. app_ops (with_panel n g f s) m = Some p' \<and> OpPanel.op_gen p' = OpPanel.op_gen p"
    if "app_ops s m = Some p" for m p
    using that assms(1) by (auto simp: with_panel_def split: option.split)
  ultimately show ?thesis by (simp add: quiets_def)
qed

lemma quiets_done: "quiets (EvProvisionDone n g r) s (provision_done n g r s)"
proof -
  define s1 where "s1 = with_panel n g (\<lambda>p. p\<lparr>op_finished := Some r\<rparr>) s"
  have 1: "quiets (EvProvisionDone n g r) s s1"
    unfolding s1_def by (rule quiets_with_panel) (simp_all add: op_running_def)
  have e: "extends s1 (drop_tab n (issue c s1))" "extends s1 (open_tab n (issue c s1))" for c
    by (intro extends_then_updates extends_issue, rule extends_trans [OF extends_issue extends_open_tab])
  have "provision_done n g r s \<in> {s1, drop_tab n (issue CmdReconcile s1), open_tab n (issue CmdReconcile s1)}"
    unfolding provision_done_def s1_def [symmetric] Let_def by (auto split: option.split op_kind.split)
  then show ?thesis using 1 quiets_after [OF 1 e(1)] quiets_after [OF 1 e(2)] by auto
qed

lemma quiets_route: "quiets ev s (route_event env ev s)"
proof -
  have i: "extends s (push_banner m b (with_tab n f s))" "extends s (issue c (with_deps u s))" for m b n f c u
    using extends_trans [OF extends_updates(10) extends_updates(12)] by (auto intro: extends_then_issue extends_updates)
  show ?thesis
  proof (cases "(env, ev, s)" rule: route_event.cases)
    case (9 env' n g ev' s')
    then show ?thesis
      by (auto intro!: quiets_with_panel simp: apply_event_keys apply_event_finished op_running_def)
  next
    case (10 env' n g result s')
    then show ?thesis by (simp add: quiets_done)
  qed (auto intro!: quiets_same extends_reconcile extends_refl extends_updates i
      simp: reconcile_ops begin_detect_def Let_def split: sum.split)
qed

lemma event_quiets: "quiets ev s (handle_event env ev s)"
  unfolding handle_event_def
  by (rule quiets_before [OF quiets_route]) (simp_all add: with_deps_def with_overview_def)

lemma queue_grows_connected: "queue_grows s s' \<Longrightarrow> q_connected (app_cmd s') = q_connected (app_cmd s)"
  by (simp add: queue_grows_def)

end
