(* ===== verification/Terminal.thy ===== *)
theory Terminal
  imports SearchPath Manifests Kubeconfig
begin

text \<open>
  The command line that opens k9s for a cluster in a terminal window (\<open>worker.rs\<close>, \<open>detect_terminal\<close> to
  \<open>windows_default_argv\<close>), with readers of the three languages it quotes for: the words of a POSIX
  shell, the string literals of AppleScript and the arguments of a Windows command line.
\<close>

section \<open>Resolving a terminal\<close>

definition TERMINAL_CANDIDATES :: "string list" where
  "TERMINAL_CANDIDATES =
     [''foot'', ''kitty'', ''alacritty'', ''konsole'', ''gnome-terminal'', ''xterm'', ''x-terminal-emulator'']"

definition first_candidate :: "os_env \<Rightarrow> string list \<Rightarrow> string option" where
  "first_candidate e dirs =
     (case List.map_filter (find_in_path e dirs) TERMINAL_CANDIDATES of p # _ \<Rightarrow> Some p | [] \<Rightarrow> None)"

text \<open>The second argument is the variable \<open>TERMINAL\<close>.\<close>

definition detect_terminal :: "os_env \<Rightarrow> string option \<Rightarrow> string option" where
  "detect_terminal e var =
     (let dirs = path_entries e; term = utf8_lossy (case var of Some t \<Rightarrow> t | None \<Rightarrow> []) in
      if var \<noteq> None \<and> term \<noteq> []
      then (case find_in_path e dirs term of
              Some found \<Rightarrow> Some found
            | None \<Rightarrow> if fs_is_file e term then Some term else first_candidate e dirs)
      else first_candidate e dirs)"

section \<open>Command lines\<close>

definition SQ :: char where "SQ = CHR 0x27"
definition DQ :: char where "DQ = CHR 0x22"
definition BS :: char where "BS = CHR 0x5C"

definition k9s_argv :: "string \<Rightarrow> string \<Rightarrow> string \<Rightarrow> string list" where
  "k9s_argv terminal k9s_bin context =
     (let exec_flag = (if ends_with ''gnome-terminal'' terminal \<or> ends_with ''kitty'' terminal
                       then ''--'' else ''-e'')
      in [terminal, exec_flag, k9s_bin, ''--context'', context])"

definition sh_single_quote :: "string \<Rightarrow> string" where
  "sh_single_quote s = [SQ] @ replace_all [SQ] [SQ, BS, SQ, SQ] s @ [SQ]"

definition applescript_string_escape :: "string \<Rightarrow> string" where
  "applescript_string_escape s = replace_all [DQ] [BS, DQ] (replace_all [BS] [BS, BS] s)"

definition DO_SCRIPT :: string where
  "DO_SCRIPT = ''tell application '' @ [DQ] @ ''Terminal'' @ [DQ] @ '' to do script '' @ [DQ]"

definition macos_default_argv :: "string \<Rightarrow> string \<Rightarrow> string list" where
  "macos_default_argv k9s_bin context =
     (let command = applescript_string_escape
            (sh_single_quote k9s_bin @ '' --context '' @ sh_single_quote context)
      in [''osascript'', ''-e'', DO_SCRIPT @ command @ [DQ], ''-e'',
          ''tell application '' @ [DQ] @ ''Terminal'' @ [DQ] @ '' to activate''])"

definition windows_quote :: "string \<Rightarrow> string" where
  "windows_quote s =
     (if CHR '' '' \<in> set s \<or> CHR 0x09 \<in> set s \<or> DQ \<in> set s
      then [DQ] @ replace_all [DQ] [BS, DQ] s @ [DQ] else s)"

definition windows_default_argv :: "string \<Rightarrow> string \<Rightarrow> string list" where
  "windows_default_argv k9s_bin context =
     [''cmd'', ''/C'', ''start'', [], windows_quote k9s_bin, ''--context'', windows_quote context]"

text \<open>The command line of \<open>open_k9s\<close>, unless there is no terminal.\<close>

definition k9s_command :: "os_env \<Rightarrow> string option \<Rightarrow> string \<Rightarrow> string list option" where
  "k9s_command e var cluster =
     (let context = kind_context_name cluster;
          k9s_bin = (case find_in_path e (effective_path_entries e) ''k9s'' of
                       Some p \<Rightarrow> utf8_lossy p | None \<Rightarrow> ''k9s'')
      in case detect_terminal e var of
           Some t \<Rightarrow> Some (k9s_argv (utf8_lossy t) k9s_bin context)
         | None \<Rightarrow>
             if env_target e = TargetMacos then Some (macos_default_argv k9s_bin context)
             else if env_target e = TargetWindows then Some (windows_default_argv k9s_bin context)
             else None)"

section \<open>Readers\<close>

text \<open>The words of a simple shell command.  A character with a meaning of its own outside quotes is
  refused.\<close>

definition sh_special :: "char \<Rightarrow> bool" where
  "sh_special c \<longleftrightarrow> c \<in> set ''$`;&|<>()*?[]#~!{}'' \<or> c = DQ \<or> c = CHR 0x0A"

fun sh_scan :: "bool \<Rightarrow> string option \<Rightarrow> string \<Rightarrow> string list option" where
  "sh_scan True cur [] = None"
| "sh_scan False cur [] = Some (case cur of None \<Rightarrow> [] | Some w \<Rightarrow> [w])"
| "sh_scan True cur (c # cs) =
     (if c = SQ then sh_scan False (Some (case cur of None \<Rightarrow> [] | Some w \<Rightarrow> w)) cs
      else sh_scan True (Some ((case cur of None \<Rightarrow> [] | Some w \<Rightarrow> w) @ [c])) cs)"
| "sh_scan False cur (c # cs) =
     (if c = SQ then sh_scan True (Some (case cur of None \<Rightarrow> [] | Some w \<Rightarrow> w)) cs
      else if c = BS then
        (case cs of [] \<Rightarrow> None
         | d # ds \<Rightarrow> sh_scan False (Some ((case cur of None \<Rightarrow> [] | Some w \<Rightarrow> w) @ [d])) ds)
      else if c = CHR '' '' then
        map_option (\<lambda>ws. (case cur of None \<Rightarrow> [] | Some w \<Rightarrow> [w]) @ ws) (sh_scan False None cs)
      else if sh_special c then None
      else sh_scan False (Some ((case cur of None \<Rightarrow> [] | Some w \<Rightarrow> w) @ [c])) cs)"

definition sh_words :: "string \<Rightarrow> string list option" where
  "sh_words s = sh_scan False None s"

text \<open>The value of an AppleScript literal after its opening quote, and what follows it.\<close>

fun as_literal :: "string \<Rightarrow> (string \<times> string) option" where
  "as_literal [] = None"
| "as_literal (c # cs) =
     (if c = DQ then Some ([], cs)
      else if c = BS then
        (case cs of [] \<Rightarrow> None
         | d # ds \<Rightarrow> if d = DQ \<or> d = BS then map_option (\<lambda>(v, r). (d # v, r)) (as_literal ds) else None)
      else map_option (\<lambda>(v, r). (c # v, r)) (as_literal cs))"

text \<open>The arguments of a Windows command line: backslashes are special in front of a quote only.  The
  counter holds the backslashes seen.\<close>

fun win_scan :: "bool \<Rightarrow> nat \<Rightarrow> string option \<Rightarrow> string \<Rightarrow> string list" where
  "win_scan q n cur [] =
     (let w = (case cur of None \<Rightarrow> [] | Some w \<Rightarrow> w) @ replicate n BS
      in if cur = None \<and> n = 0 then [] else [w])"
| "win_scan q n cur (c # cs) =
     (let w = (case cur of None \<Rightarrow> [] | Some w \<Rightarrow> w) in
      if c = BS then win_scan q (Suc n) cur cs
      else if c = DQ then
        (if even n then win_scan (\<not> q) 0 (Some (w @ replicate (n div 2) BS)) cs
         else win_scan q 0 (Some (w @ replicate (n div 2) BS @ [DQ])) cs)
      else if (c = CHR '' '' \<or> c = CHR 0x09) \<and> \<not> q then
        (if cur = None \<and> n = 0 then [] else [w @ replicate n BS]) @ win_scan False 0 None cs
      else win_scan q 0 (Some (w @ replicate n BS @ [c])) cs)"

definition win_args :: "string \<Rightarrow> string list" where
  "win_args s = win_scan False 0 None s"

section \<open>Quoting is read back\<close>

lemma replace_char: "replace_all [c] r s = concat (map (\<lambda>x. if x = c then r else [x]) s)"
  by (induction s) (auto simp: replace_all.simps(2))

lemma sh_scan_quoted:
  "sh_scan True (Some w) (concat (map (\<lambda>x. if x = SQ then [SQ, BS, SQ, SQ] else [x]) s) @ SQ # cs)
     = sh_scan False (Some (w @ s)) cs"
  by (induction s arbitrary: w) (auto simp: SQ_def BS_def)

lemma sh_scan_word: "sh_scan False None (sh_single_quote s @ cs) = sh_scan False (Some s) cs"
  using sh_scan_quoted [of "[]" s cs] by (simp add: sh_single_quote_def replace_char)

lemma sh_scan_context: "sh_scan False (Some w) ('' --context '' @ cs)
    = map_option (\<lambda>ws. w # ''--context'' # ws) (sh_scan False None cs)"
  by (simp add: SQ_def BS_def DQ_def sh_special_def option.map_comp comp_def)

lemma escape_chars:
  "applescript_string_escape s = concat (map (\<lambda>x. if x = BS \<or> x = DQ then [BS, x] else [x]) s)"
proof -
  have "concat (map (\<lambda>x. if x = DQ then [BS, DQ] else [x]) (concat (map (\<lambda>x. if x = BS then [BS, BS] else [x]) s)))
      = concat (map (\<lambda>x. if x = BS \<or> x = DQ then [BS, x] else [x]) s)"
    by (induction s) (auto simp: BS_def DQ_def)
  then show ?thesis by (simp add: applescript_string_escape_def replace_char)
qed

lemma as_literal_escape: "as_literal (applescript_string_escape s @ DQ # cs) = Some (s, cs)"
  unfolding escape_chars by (induction s) (auto simp: BS_def DQ_def)

text \<open>C35: On macOS the script is one string literal, whose value is a shell command of exactly three words:
  the path of k9s, the flag and the context, whatever characters they hold.\<close>

theorem macos_command_words:
  "\<exists>cmd. macos_default_argv k9s_bin context ! 2 = DO_SCRIPT @ applescript_string_escape cmd @ [DQ]
     \<and> as_literal (drop (length DO_SCRIPT) (macos_default_argv k9s_bin context ! 2)) = Some (cmd, [])
     \<and> sh_words cmd = Some [k9s_bin, ''--context'', context]"
proof -
  let ?cmd = "sh_single_quote k9s_bin @ '' --context '' @ sh_single_quote context"
  have e: "sh_scan False None (sh_single_quote context) = Some [context]"
    using sh_scan_word [of "context" "[]"] by simp
  have "sh_words ?cmd = Some [k9s_bin, ''--context'', context]"
    by (simp only: sh_words_def sh_scan_word sh_scan_context e) simp
  moreover have "macos_default_argv k9s_bin context ! 2 = DO_SCRIPT @ applescript_string_escape ?cmd @ [DQ]"
    by (simp add: macos_default_argv_def Let_def)
  ultimately show ?thesis using as_literal_escape [of ?cmd "[]"] by (intro exI [of _ ?cmd]) simp
qed

text \<open>The Windows quoting is not read back when the text ends with a backslash: the closing quote becomes
  part of the argument.\<close>

theorem windows_quote_swallows:
  "win_args (windows_quote (''C: x'' @ [BS]) @ '' --context'') = [''C: x'' @ [DQ] @ '' --context'']"
  "win_args (windows_quote ''C: x'' @ '' --context'') = [''C: x'', ''--context'']"
  by (simp_all add: windows_quote_def win_args_def replace_char BS_def DQ_def)

end
