(* ===== verification/WorkerOps.thy ===== *)
theory WorkerOps
  imports Bus Terminal ClientModel
begin

text \<open>
  The operations of the worker (\<open>worker.rs\<close>, \<open>do_reconcile\<close> to \<open>do_logs\<close>).  Each is a computation on the
  host of theory \<open>Host\<close> whose events are what it hands to the bus: a progress event by \<open>emit\<close>, an
  outcome by \<open>emit_important\<close>.  A computation has no result when the process dies in it, a child never ends
  or the task waits forever.
\<close>

section \<open>Sending\<close>

datatype bus_send = Progress core_event | Outcome core_event

text \<open>\<open>send_timeout\<close>: \<open>wait\<close> gives the queue when there is room or the grace period has elapsed.\<close>

definition bus_emit :: "(core_event queue \<Rightarrow> core_event queue) \<Rightarrow> core_event \<Rightarrow> core_event queue \<Rightarrow> core_event queue" where
  "bus_emit wait ev q =
     (case try_send ev q of
        (Inr _, q1) \<Rightarrow> q1
      | (Inl _, q1) \<Rightarrow>
          (case try_send EvBusFull q1 of
             (Inl (QueueFull notice), q2) \<Rightarrow> snd (try_send notice (wait q2))
           | (_, q2) \<Rightarrow> q2))"

definition bus_emit_important ::
    "(core_event queue \<Rightarrow> core_event queue) \<Rightarrow> core_event \<Rightarrow> core_event queue \<Rightarrow> core_event queue" where
  "bus_emit_important wait ev q =
     (case try_send ev q of
        (Inr _, q1) \<Rightarrow> q1
      | (Inl (QueueFull ev'), q1) \<Rightarrow> snd (try_send ev' (wait q1))
      | (Inl (QueueDisconnected _), q1) \<Rightarrow> q1)"

fun bus_deliver :: "(core_event queue \<Rightarrow> core_event queue) \<Rightarrow> bus_send \<Rightarrow> core_event queue \<Rightarrow> core_event queue" where
  "bus_deliver wait (Progress ev) q = bus_emit wait ev q"
| "bus_deliver wait (Outcome ev) q = bus_emit_important wait ev q"

section \<open>Tasks\<close>

type_synonym wworld = "bus_send world"

type_synonym 'a task = "wworld \<Rightarrow> 'a option \<times> wworld"

definition task_return :: "'a \<Rightarrow> 'a task" where
  "task_return x w = (Some x, w)"

definition then_do :: "'a task \<Rightarrow> ('a \<Rightarrow> 'b task) \<Rightarrow> 'b task" where
  "then_do m f w = (case m w of (Some x, w1) \<Rightarrow> f x w1 | (None, w1) \<Rightarrow> (None, w1))"

definition send :: "bus_send \<Rightarrow> unit task" where
  "send s w = (Some (), emit s w)"

text \<open>The environment: the state directory and the kubeconfig, the library calls, the directory listing and the
  cluster connections, and the launch of a detached process.\<close>

record worker_env =
  wk_host :: host_env
  wk_state :: state_env
  wk_root :: string
  wk_kubeconfig :: string
  wk_clock :: "nat \<Rightarrow> string"
  wk_to_yaml :: "yaml \<Rightarrow> string option"
  wk_listing :: "nodes \<Rightarrow> io_error + string option list"
  wk_connect :: "nat \<Rightarrow> kubeconfig \<Rightarrow> string \<Rightarrow> string + string + k8s_api"
  wk_launch :: "nat \<Rightarrow> string list \<Rightarrow> io_error + unit"
  wk_terminal :: "string option"

abbreviation wk_fmt :: "worker_env \<Rightarrow> fmt_env" where "wk_fmt env \<equiv> he_fmt (wk_host env)"

text \<open>\<open>map_err(|err| err.to_string())\<close>.\<close>

definition texted :: "worker_env \<Rightarrow> (bus_send, 'a) prov \<Rightarrow> (string + 'a) task" where
  "texted env m w = (case m w of (r, w1) \<Rightarrow> (map_option (map_err (core_error_text (wk_fmt env))) r, w1))"

definition run_kind :: "worker_env \<Rightarrow> kind_command \<Rightarrow> (string + cmd_output) task" where
  "run_kind env c = texted env (prov_run (wk_host env) (to_cmd (he_os (wk_host env)) c))"

definition run_kind_cancel :: "worker_env \<Rightarrow> nat \<Rightarrow> kind_command \<Rightarrow> (string + cmd_output) task" where
  "run_kind_cancel env token c =
     texted env (prov_run (wk_host env) (with_cancel token (to_cmd (he_os (wk_host env)) c)))"

definition token_cancelled :: "worker_env \<Rightarrow> nat \<Rightarrow> bool task" where
  "token_cancelled env token w = (case is_cancelled (wk_host env) (Some token) w of (b, w1) \<Rightarrow> (Some b, w1))"

text \<open>A computation with events of its own, all forwarded to the bus before its result is used.\<close>

definition forwarded :: "('e \<Rightarrow> bus_send) \<Rightarrow> ('e world \<Rightarrow> 'r \<times> 'e world) \<Rightarrow> wworld \<Rightarrow> 'r \<times> wworld" where
  "forwarded f m w =
     (case m \<lparr>w_fs = w_fs w, w_now = w_now w, w_tick = w_tick w, w_ran = w_ran w, w_events = []\<rparr> of
        (r, v) \<Rightarrow>
          (r, \<lparr>w_fs = w_fs v, w_now = w_now v, w_tick = w_tick v, w_ran = w_ran v,
               w_events = w_events w @ map f (w_events v)\<rparr>))"

section \<open>Reconciliation and detection\<close>

definition STATUS_PROBE_TIMEOUT :: nat where "STATUS_PROBE_TIMEOUT = 10000"

definition probe_status :: "worker_env \<Rightarrow> string \<Rightarrow> cluster_live_status task" where
  "probe_status env n w =
     (case run_cmd (wk_host env)
             (with_timeout STATUS_PROBE_TIMEOUT (to_cmd (he_os (wk_host env)) (KindGetNodes n))) w of
        (None, w1) \<Rightarrow> (None, w1)
      | (Some (Inr output), w1) \<Rightarrow>
          (Some (if out_success output
                 then (let nodes = parse_kind_get_nodes (out_stdout output) in
                       if nodes = [] then LiveCreating else LiveRunning (length nodes))
                 else LiveAbsent), w1)
      | (Some (Inl _), w1) \<Rightarrow> (Some LiveAbsent, w1))"

fun probe_all :: "worker_env \<Rightarrow> string list \<Rightarrow> unit task" where
  "probe_all env [] = task_return ()"
| "probe_all env (n # ns) =
     then_do (probe_status env n) (\<lambda>st.
     then_do (send (Progress (EvClusterStatus n st))) (\<lambda>_. probe_all env ns))"

definition do_reconcile :: "worker_env \<Rightarrow> unit task" where
  "do_reconcile env =
     then_do (run_kind env KindGetClusters) (\<lambda>r.
       case r of
         Inr output \<Rightarrow>
           (let live = parse_kind_get_clusters (out_stdout output) in
            then_do (send (Progress (EvLiveClusters live))) (\<lambda>_.
            then_do (probe_all env live) (\<lambda>_.
            then_do (texted env (prov_fs (\<lambda>f.
                reconcile (wk_state env) (wk_listing env (fs_nodes f)) (wk_root env) live f))) (\<lambda>rep.
              send (Outcome (EvReconcileDone rep))))))
       | Inl err \<Rightarrow> send (Outcome (EvReconcileDone (Inl err))))"

definition detect_tool :: "worker_env \<Rightarrow> 64 word \<Rightarrow> tool_id \<Rightarrow> unit task" where
  "detect_tool env run i =
     then_do (texted env (detect (wk_host env) i)) (\<lambda>r. send (Outcome (EvDetectedTool i run r)))"

fun detect_tools :: "worker_env \<Rightarrow> 64 word \<Rightarrow> tool_id list \<Rightarrow> unit task" where
  "detect_tools env run [] = task_return ()"
| "detect_tools env run (i # ids) = then_do (detect_tool env run i) (\<lambda>_. detect_tools env run ids)"

text \<open>The probes run concurrently: \<open>order\<close> is the order in which they are done, and they are all of the
  registry.  The deadline may cut the wait after \<open>k\<close> of them; the others still report.\<close>

definition do_detect_all :: "worker_env \<Rightarrow> 64 word \<Rightarrow> tool_id list \<Rightarrow> nat option \<Rightarrow> unit task" where
  "do_detect_all env run order late =
     (let k = (case late of Some k \<Rightarrow> k | None \<Rightarrow> length order) in
      then_do (detect_tools env run (take k order)) (\<lambda>_.
      then_do (send (Outcome (EvToolsDetectDone run))) (\<lambda>_.
        detect_tools env run (drop k order))))"

definition do_check_docker :: "worker_env \<Rightarrow> unit task" where
  "do_check_docker env = then_do (check_docker_daemon (wk_host env)) (\<lambda>st. send (Progress (EvDockerDaemon st)))"

definition do_set_theme :: "worker_env \<Rightarrow> string \<Rightarrow> unit task" where
  "do_set_theme env i =
     then_do (texted env
       (prov_bind (prov_fs (load_settings (wk_state env) (wk_root env))) (\<lambda>s.
          prov_fs (save_settings (wk_state env) (wk_root env) (s\<lparr>set_theme := Some i\<rparr>))))) (\<lambda>r.
       case r of
         Inl err \<Rightarrow> send (Progress (EvNotice (''could not save theme: '' @ err)))
       | Inr _ \<Rightarrow> task_return ())"

definition do_install :: "worker_env \<Rightarrow> tool_id \<Rightarrow> nat \<Rightarrow> unit task" where
  "do_install env i token =
     then_do (forwarded (\<lambda>ev. Progress (EvInstallEvent i ev))
                (install_with_progress (wk_host env) i (Some token))) (\<lambda>r.
       send (Outcome (EvInstallDone i (map_err (core_error_text (wk_fmt env)) r))))"

section \<open>Clusters\<close>

definition progress :: "string \<Rightarrow> op_gen \<Rightarrow> provision_event \<Rightarrow> unit task" where
  "progress n g ev = send (Progress (EvProvision n g ev))"

definition create_phase :: "worker_env \<Rightarrow> cluster_spec \<Rightarrow> op_gen \<Rightarrow> nat \<Rightarrow> (string + unit) task" where
  "create_phase env spec g token =
     then_do
       (if cs_cni spec = CiliumCni
        then (\<lambda>w. case run_cmd (wk_host env) (to_cmd (he_os (wk_host env)) DockerKernelVersion) w of
                    (r, w1) \<Rightarrow> (map_option detect_cilium_version r, w1))
        else task_return None) (\<lambda>version.
     case build_plan_with_cilium_version (wk_to_yaml env) spec (wk_root env) (wk_kubeconfig env) version of
       Inl e \<Rightarrow> task_return (Inl (core_error_text (wk_fmt env) e))
     | Inr plan \<Rightarrow>
         then_do (forwarded (\<lambda>ev. Progress (EvProvision (cs_name spec) g ev))
                    (run_plan (wk_host env) plan (Some token))) (\<lambda>r.
           task_return (map_err (core_error_text (wk_fmt env)) r)))"

definition save_record :: "worker_env \<Rightarrow> cluster_spec \<Rightarrow> (string + unit) task" where
  "save_record env spec w =
     texted env (prov_fs (save_cluster (wk_fmt env) (wk_state env) (wk_root env)
       (record_managed (wk_clock env (w_now w)) spec))) w"

definition ALREADY_EXISTS :: string where
  "ALREADY_EXISTS = ''a cluster with this name already exists''"

definition done_op :: "string \<Rightarrow> op_gen \<Rightarrow> string + unit \<Rightarrow> unit task" where
  "done_op n g r = send (Outcome (EvProvisionDone n g r))"

definition create_and_save :: "worker_env \<Rightarrow> cluster_spec \<Rightarrow> op_gen \<Rightarrow> nat \<Rightarrow> (string + unit) task" where
  "create_and_save env spec g token =
     then_do (create_phase env spec g token) (\<lambda>r.
       case r of Inr _ \<Rightarrow> save_record env spec | Inl err \<Rightarrow> task_return (Inl err))"

definition do_create :: "worker_env \<Rightarrow> cluster_spec \<Rightarrow> op_gen \<Rightarrow> nat \<Rightarrow> unit task" where
  "do_create env spec g token =
     then_do (run_kind env KindGetClusters) (\<lambda>pre.
       if (case pre of Inr output \<Rightarrow> cs_name spec \<in> set (parse_kind_get_clusters (out_stdout output))
           | Inl _ \<Rightarrow> False)
       then done_op (cs_name spec) g (Inl ALREADY_EXISTS)
       else then_do (create_and_save env spec g token) (done_op (cs_name spec) g))"

definition remove_kube_context :: "worker_env \<Rightarrow> string \<Rightarrow> (string + unit) task" where
  "remove_kube_context env n =
     texted env (prov_bind (prov_fs (store_load_from (he_kube (wk_host env)) (wk_kubeconfig env))) (\<lambda>s.
       prov_fs (store_save (he_kube (wk_host env)) (snd (remove_context n s)))))"

text \<open>A step of the destroy phase: its events around an action, the rest only after a success.\<close>

definition phase_step ::
    "string \<Rightarrow> op_gen \<Rightarrow> string \<Rightarrow> (string + 'a) task \<Rightarrow> (string + unit) task \<Rightarrow> (string + unit) task" where
  "phase_step n g i act rest =
     then_do (progress n g (EvStepStarted i)) (\<lambda>_.
     then_do act (\<lambda>r.
       case r of
         Inr _ \<Rightarrow> then_do (progress n g (EvStepFinished i)) (\<lambda>_. rest)
       | Inl err \<Rightarrow> then_do (progress n g (EvStepFailed i err)) (\<lambda>_. task_return (Inl err))))"

definition ALREADY_GONE :: string where
  "ALREADY_GONE = ''cluster was already gone; cleanup continues''"

text \<open>\<open>kind delete\<close>; a failure counts as done only when the listing says that the cluster is gone.\<close>

definition delete_cluster :: "worker_env \<Rightarrow> string \<Rightarrow> op_gen \<Rightarrow> nat \<Rightarrow> (string + unit) task" where
  "delete_cluster env n g token =
     then_do (run_kind_cancel env token (KindDelete n)) (\<lambda>r.
       case r of
         Inr _ \<Rightarrow> task_return (Inr ())
       | Inl err \<Rightarrow>
           then_do (token_cancelled env token) (\<lambda>c.
             if c then task_return (Inl ''cancelled'')
             else then_do (run_kind env KindGetClusters) (\<lambda>l.
               if (case l of Inr output \<Rightarrow> n \<notin> set (parse_kind_get_clusters (out_stdout output))
                   | Inl _ \<Rightarrow> False)
               then then_do (progress n g (EvStepOutput ''destroy-kind'' ALREADY_GONE))
                      (\<lambda>_. task_return (Inr ()))
               else task_return (Inl err))))"

definition remove_stored :: "worker_env \<Rightarrow> string \<Rightarrow> (string + bool) task" where
  "remove_stored env n = texted env (prov_fs (remove_cluster (wk_root env) n))"

definition destroy_phase :: "worker_env \<Rightarrow> string \<Rightarrow> op_gen \<Rightarrow> bool \<Rightarrow> nat \<Rightarrow> (string + unit) task" where
  "destroy_phase env n g remove_record token =
     phase_step n g ''destroy-kind'' (delete_cluster env n g token)
       (phase_step n g ''remove-kubeconfig'' (remove_kube_context env n)
         (if remove_record
          then phase_step n g ''remove-record'' (remove_stored env n) (task_return (Inr ()))
          else task_return (Inr ())))"

definition do_destroy :: "worker_env \<Rightarrow> string \<Rightarrow> op_gen \<Rightarrow> nat \<Rightarrow> unit task" where
  "do_destroy env n g token = then_do (destroy_phase env n g True token) (done_op n g)"

definition do_recreate :: "worker_env \<Rightarrow> string \<Rightarrow> cluster_spec \<Rightarrow> op_gen \<Rightarrow> nat \<Rightarrow> unit task" where
  "do_recreate env n spec g token =
     then_do (then_do (destroy_phase env n g False token) (\<lambda>r.
                case r of Inr _ \<Rightarrow> create_and_save env spec g token
                | Inl err \<Rightarrow> task_return (Inl err)))
       (done_op n g)"

section \<open>Contexts, exports and topology\<close>

definition context_status_of :: "string \<Rightarrow> kubeconfig_store \<Rightarrow> context_status" where
  "context_status_of n s =
     (let ctx = kind_context_name n in
      if \<not> verify_context ctx s then CtxAbsent
      else if current_context s = Some ctx then CtxCurrent else CtxPresent)"

definition do_check_context :: "worker_env \<Rightarrow> string \<Rightarrow> unit task" where
  "do_check_context env n =
     then_do (prov_fs (store_load_from (he_kube (wk_host env)) (wk_kubeconfig env))) (\<lambda>r.
       send (Progress (EvContextState n
         (case r of Inr s \<Rightarrow> context_status_of n s | Inl _ \<Rightarrow> CtxAbsent))))"

definition ensure_kube_context :: "worker_env \<Rightarrow> string \<Rightarrow> (bus_send, unit) prov" where
  "ensure_kube_context env n =
     prov_bind (prov_fs (store_load_from (he_kube (wk_host env)) (wk_kubeconfig env))) (\<lambda>s.
     prov_bind (prov_run (wk_host env) (to_cmd (he_os (wk_host env)) (KindExportKubeconfig n False))) (\<lambda>out.
     prov_bind (prov_lift (ensure_context_from_kind_output (he_kube (wk_host env)) n (out_stdout out) s))
       (prov_fs \<circ> store_save (he_kube (wk_host env)))))"

definition do_ensure_context :: "worker_env \<Rightarrow> string \<Rightarrow> unit task" where
  "do_ensure_context env n =
     then_do (texted env (ensure_kube_context env n)) (\<lambda>r. send (Outcome (EvContextEnsured n r)))"

definition do_export_logs :: "worker_env \<Rightarrow> string \<Rightarrow> string \<Rightarrow> unit task" where
  "do_export_logs env n dest =
     then_do (run_kind env (KindExportLogs dest n)) (\<lambda>r.
       send (Outcome (EvLogsExported n dest (rbind r (\<lambda>_. Ok ())))))"

definition MISSING_CONTEXT :: "string \<Rightarrow> string" where
  "MISSING_CONTEXT ctx = ''kubeconfig context `'' @ ctx @ ''` is missing; use '' @ [DQ] @ ''Export kubeconfig''
     @ [DQ] @ '' first''"

definition fetch_topology :: "worker_env \<Rightarrow> string \<Rightarrow> (string + topology_graph) task" where
  "fetch_topology env n =
     then_do (texted env (prov_fs (store_load_from (he_kube (wk_host env)) (wk_kubeconfig env)))) (\<lambda>r w.
       (Some (rbind r (\<lambda>s.
          (let ctx = kind_context_name n in
           if \<not> verify_context ctx s then Err (MISSING_CONTEXT ctx)
           else map_err (core_error_text (wk_fmt env))
             (rbind (for_context (wk_connect env (w_tick w)) (ks_config s) ctx)
               (\<lambda>client. poll_topology (k8_api client)))))), w))"

definition do_fetch_topology :: "worker_env \<Rightarrow> string \<Rightarrow> op_gen \<Rightarrow> unit task" where
  "do_fetch_topology env n g =
     then_do (fetch_topology env n) (\<lambda>r. send (Progress (EvTopology n g r)))"

definition MIN_AUTO_REFRESH_SECS :: "64 word" where "MIN_AUTO_REFRESH_SECS = 2"

definition refresh_period :: "64 word \<Rightarrow> nat" where
  "refresh_period secs = 1000 * unat (max secs MIN_AUTO_REFRESH_SECS)"

definition task_sleep :: "nat \<Rightarrow> unit task" where
  "task_sleep d w = (Some (), w\<lparr>w_now := w_now w + d\<rparr>)"

text \<open>The loop; with no fuel left it is still running.\<close>

fun auto_refresh_loop :: "nat \<Rightarrow> worker_env \<Rightarrow> string \<Rightarrow> nat \<Rightarrow> op_gen \<Rightarrow> nat \<Rightarrow> unit task" where
  "auto_refresh_loop 0 env n period g token = (\<lambda>w. (None, w))"
| "auto_refresh_loop (Suc fuel) env n period g token =
     then_do (token_cancelled env token) (\<lambda>c.
       if c then task_return ()
       else then_do (do_fetch_topology env n g) (\<lambda>_.
            then_do (token_cancelled env token) (\<lambda>c.
              if c then task_return ()
              else then_do (task_sleep period) (\<lambda>_. auto_refresh_loop fuel env n period g token))))"

definition do_auto_refresh :: "nat \<Rightarrow> worker_env \<Rightarrow> string \<Rightarrow> 64 word \<Rightarrow> op_gen \<Rightarrow> nat \<Rightarrow> unit task" where
  "do_auto_refresh fuel env n secs g token = auto_refresh_loop fuel env n (refresh_period secs) g token"

section \<open>Logs\<close>

text \<open>A followed log has two tasks besides the process.  The stream pushes the lines of the process into
  the ring until it sees the token; the pump takes the ring's lines at every tick until it sees the token.
  What the scheduler decides is the order of these acts: lines arrive, the pump ticks, the token fires, and
  each of the two sees it, at any later time.\<close>

datatype log_act = LogArrives nat | LogTick | LogFire | LogPumpSees | LogWatchSees

record log_pump =
  lp_rest :: "string list"
  lp_taken :: nat
  lp_ring :: log_ring
  lp_sent :: "string list"
  lp_fired :: bool
  lp_alive :: bool
  lp_stop :: "nat option"

fun log_step :: "log_act \<Rightarrow> log_pump \<Rightarrow> log_pump" where
  "log_step (LogArrives k) p =
     (if lp_stop p = None
      then p\<lparr>lp_rest := drop k (lp_rest p), lp_taken := lp_taken p + length (take k (lp_rest p)),
             lp_ring := ring_extend (take k (lp_rest p)) (lp_ring p)\<rparr>
      else p)"
| "log_step LogTick p =
     (if lp_alive p
      then p\<lparr>lp_sent := lp_sent p @ ring_snapshot (lp_ring p), lp_ring := ring_clear (lp_ring p)\<rparr>
      else p)"
| "log_step LogFire p = p\<lparr>lp_fired := True\<rparr>"
| "log_step LogPumpSees p = (if lp_fired p then p\<lparr>lp_alive := False\<rparr> else p)"
| "log_step LogWatchSees p =
     (if lp_fired p \<and> lp_stop p = None then p\<lparr>lp_stop := Some (lp_taken p)\<rparr> else p)"

definition log_start :: "string list \<Rightarrow> log_pump" where
  "log_start lines = \<lparr>lp_rest = lines, lp_taken = 0, lp_ring = ring_new DEFAULT_LOG_RING_CAP, lp_sent = [],
     lp_fired = False, lp_alive = True, lp_stop = None\<rparr>"

definition log_run :: "log_act list \<Rightarrow> string list \<Rightarrow> log_pump" where
  "log_run acts lines = fold log_step acts (log_start lines)"

text \<open>The task: it waits for the stream, which ends when it has seen the token or with the lines of the
  process, and then for the pump, which ends only when it has seen the token.\<close>

definition follow_logs ::
    "worker_env \<Rightarrow> string \<Rightarrow> log_source \<Rightarrow> op_gen \<Rightarrow> nat \<Rightarrow> log_act list \<Rightarrow> unit task" where
  "follow_logs env n source g token acts w =
     (let p = log_run acts (watched_lines (wk_host env) source token w)
      in case watch_logs (wk_host env) source token (lp_stop p) (ring_new DEFAULT_LOG_RING_CAP) w of
           ((res, _), w1) \<Rightarrow>
             (let w2 = emit_all (map (\<lambda>l. Progress (EvLogLine n g l)) (lp_sent p)) w1
              in case res of
                   Some r \<Rightarrow>
                     if \<not> lp_alive p \<and> (lp_stop p \<noteq> None \<or> lp_rest p = [])
                     then send (Outcome (EvLogEnded n g (map_err (core_error_text (wk_fmt env)) r))) w2
                     else (None, w2)
                 | None \<Rightarrow> (None, w2)))"

definition tail_logs :: "worker_env \<Rightarrow> string \<Rightarrow> log_source \<Rightarrow> nat option \<Rightarrow> op_gen \<Rightarrow> unit task" where
  "tail_logs env n source tail g =
     then_do (texted env (read_logs (wk_host env) source tail)) (\<lambda>r.
       case r of
         Inr lines \<Rightarrow>
           (\<lambda>w. send (Outcome (EvLogEnded n g (Inr ())))
                  (emit_all (map (\<lambda>l. Progress (EvLogLine n g l)) lines) w))
       | Inl err \<Rightarrow> send (Outcome (EvLogEnded n g (Inl err))))"

definition do_logs ::
    "worker_env \<Rightarrow> string \<Rightarrow> log_source \<Rightarrow> bool \<Rightarrow> nat option \<Rightarrow> op_gen \<Rightarrow> nat \<Rightarrow> log_act list \<Rightarrow> unit task" where
  "do_logs env n source follow tail g token acts =
     (if follow then follow_logs env n source g token acts else tail_logs env n source tail g)"

section \<open>k9s\<close>

definition open_k9s :: "worker_env \<Rightarrow> string \<Rightarrow> unit task" where
  "open_k9s env n w =
     (case k9s_command (os_at (wk_host env) (fs_nodes (w_fs w))) (wk_terminal env) n of
        None \<Rightarrow> send (Outcome (EvError ''k9s''
          ''no terminal emulator found (set $TERMINAL or install foot/kitty/alacritty)'')) w
      | Some argv \<Rightarrow>
          (case wk_launch env (w_tick w) argv of
             Inr _ \<Rightarrow> send (Outcome (EvNotice (''opened k9s for '' @ n @ '' (context ''
               @ kind_context_name n @ '') in a new terminal''))) w
           | Inl e \<Rightarrow> send (Outcome (EvError ''k9s''
               (''failed to open '' @ hd argv @ '': '' @ io_text e))) w))"

section \<open>The task of a command\<close>

text \<open>What the scheduler decides: the order in which tools are probed and when the deadline of the
  detection falls, how long the auto-refresh is observed, and the acts of a followed log.\<close>

record task_choices =
  tc_order :: "tool_id list"
  tc_late :: "nat option"
  tc_fuel :: nat
  tc_logs :: "log_act list"

text \<open>The task spawned for a command; the tokens are in theory \<open>WorkerLoop\<close>.\<close>

fun run_command :: "worker_env \<Rightarrow> task_choices \<Rightarrow> nat \<Rightarrow> core_command \<Rightarrow> unit task" where
  "run_command env ch token CmdReconcile = do_reconcile env"
| "run_command env ch token (CmdDetectTools run) = do_detect_all env run (tc_order ch) (tc_late ch)"
| "run_command env ch token CmdCheckDockerDaemon = do_check_docker env"
| "run_command env ch token (CmdSetTheme i) = do_set_theme env i"
| "run_command env ch token (CmdInstallTool i) = do_install env i token"
| "run_command env ch token (CmdCreateCluster spec g) = do_create env spec g token"
| "run_command env ch token (CmdDestroyCluster n g) = do_destroy env n g token"
| "run_command env ch token (CmdRecreateCluster n spec g) = do_recreate env n spec g token"
| "run_command env ch token (CmdCancelOp n) = task_return ()"
| "run_command env ch token (CmdCheckContext n) = do_check_context env n"
| "run_command env ch token (CmdEnsureContext n) = do_ensure_context env n"
| "run_command env ch token (CmdExportLogs n dest) = do_export_logs env n dest"
| "run_command env ch token (CmdFetchTopology n g) = do_fetch_topology env n g"
| "run_command env ch token (CmdSetAutoRefresh n secs on g) =
     (if on then do_auto_refresh (tc_fuel ch) env n secs g token else task_return ())"
| "run_command env ch token (CmdStartLogs n source follow tail g) =
     do_logs env n source follow tail g token (tc_logs ch)"
| "run_command env ch token (CmdStopLogs n) = task_return ()"
| "run_command env ch token (CmdOpenK9s n) = open_k9s env n"
| "run_command env ch token CmdShutdown = task_return ()"

end
