(* ===== verification/SampleRun.thy ===== *)
theory SampleRun
  imports WorkerOps
begin

text \<open>
  Concrete environments for the worker, and one create that runs to its end on one of them: every
  process succeeds, no file operation fails and no token fires.
\<close>

definition worker_env_example :: worker_env where
  "worker_env_example =
     \<lparr>wk_host = env_example 1,
      wk_state = \<lparr>se_record_to_json = (\<lambda>_. Inl []), se_record_of_json = (\<lambda>_. Inl []),
        se_settings_to_json = (\<lambda>_. Inl []), se_settings_of_json = (\<lambda>_. Inl [])\<rparr>,
      wk_root = ''/d'', wk_kubeconfig = ''/k'', wk_clock = dec, wk_to_yaml = (\<lambda>_. None),
      wk_listing = (\<lambda>_. Inr []), wk_connect = (\<lambda>_ _ _. Inl ''refused''), wk_launch = (\<lambda>_ _. Inr ()),
      wk_terminal = None\<rparr>"

definition calm_host :: host_env where
  "calm_host = (env_example 0)\<lparr>he_spawn := \<lambda>_ _ _. Inr ((child_example 0)\<lparr>ch_effect := \<lambda>n. n\<rparr>), he_cancelled := \<lambda>_. False\<rparr>"

definition dev_spec :: cluster_spec where "dev_spec = cluster_spec_default\<lparr>cs_name := ''dev''\<rparr>"

lemma dev_valid: "validate dev_spec = Ok ()"
proof -
  have "validate_cidrs dev_spec = Ok ()"
    using default_networks by (simp add: validate_cidrs_def dev_spec_def cluster_spec_default_def
        DEFAULT_POD_CIDR_def DEFAULT_SERVICE_CIDR_def cidr_example_pod cidr_example_service)
  moreover have "is_semver_3 DEFAULT_K8S_VERSION" by code_simp
  ultimately show ?thesis
    by (simp add: validate_def dev_spec_def cluster_spec_default_def validate_name_iff label_ok_def
        name_char_def char_class_defs validate_cilium_iff mesh_ok_def validate_port_mappings_iff
        ports_ok_def is_well_formed_def kubernetes_version_default_def)
qed

lemma run_cmd_calm:
  "run_cmd calm_host c w =
     (Some (Ok \<lparr>out_exit_code = Some 0, out_stdout_lines = [''token: x''], out_stderr_tail = []\<rparr>),
      w\<lparr>w_now := w_now w + 1, w_tick := w_tick w + 1, w_ran := w_ran w @ [c]\<rparr>)"
  by (simp add: run_cmd_def calm_host_def env_example_def child_example_def wait_handle_def wait_result_def
      forward_example [simplified] after_child_def Let_def split: prod.split)

lemma streaming_calm:
  "run_streaming calm_host c i w =
     (Some (Ok ()), w\<lparr>w_now := w_now w + 1, w_tick := w_tick w + 1, w_ran := w_ran w @ [c],
        w_events := w_events w @ [EvStepOutput i (redact_kubeconfig_secrets ''token: x'')]\<rparr>)"
  by (simp add: run_streaming_def calm_host_def env_example_def child_example_def wait_handle_def wait_result_def
      forward_example [simplified] after_child_def Let_def rbind_def split: prod.split)

text \<open>The files after the first step of the plan.\<close>

definition fs_config :: "fs" where
  "fs_config = fs_example\<lparr>fs_nodes := (make_dirs [''/d'', ''/d/tmp''] (fs_nodes fs_example))
     (''/d/tmp/kind-dev.yaml'' \<mapsto> NFile \<lparr>f_bytes = ''y'', f_mode = 420\<rparr>)\<rparr>"

lemma write_config:
  assumes "w_fs w = fs_example"
  shows "do_write_file ''/d/tmp/kind-dev.yaml'' ''y'' w = (Some (Ok ()), w\<lparr>w_fs := fs_config\<rparr>)"
  using assms
  by (simp add: do_write_file_def make_parent_def prov_bind_def prov_io_def path_parent_def
        create_dir_all_def io_prim_def write_file_def store_bytes_def make_dirs_def
        fs_example_def path_join_def path_is_absolute_def fs_config_def
        lookup_node_def numeral_eq_Suc Let_def)

lemma lookup_here: "(\<forall>t. n p \<noteq> Some (NLink t)) \<Longrightarrow> lookup_node n p = n p"
  by (simp add: lookup_node_def numeral_eq_Suc split: option.split node.split)

lemma config_nodes:
  "fs_nodes fs_config ''/k'' = None" "fs_faults fs_config = []" "fs_pid fs_config = 7"
  "fs_tmp_counter fs_config = 0"
  "fs_nodes fs_config ''/d/clusters/dev.json'' = None" "fs_nodes fs_config ''/d/clusters'' = None"
  "fs_nodes fs_config ''/d'' = Some NDir"
  by (simp_all add: fs_config_def fs_example_def make_dirs_def)

definition merged :: "fs \<Rightarrow> bool" where
  "merged f \<longleftrightarrow> fs_faults f = [] \<and> fs_pid f = 7 \<and> fs_tmp_counter f = 1
     \<and> (\<forall>p. p \<noteq> ''/k'' \<and> p \<noteq> ''/k.tmp-7-0'' \<longrightarrow> fs_nodes f p = fs_nodes fs_config p)"

lemma save_empty_store:
  "\<exists>f. atomic_write_private ''/k'' ''{}'' fs_config = (Done (), f) \<and> merged f"
proof -
  have t: "tmp_name 7 ''/k'' 0 = ''/k.tmp-7-0''"
    by code_simp
  have n: "fs_nodes fs_config ''/k.tmp-7-0'' = None" by (simp add: fs_config_def fs_example_def make_dirs_def)
  have tries: "create_temp_tries (Suc k) ''/k'' f = (Done ''/k.tmp-7-0'', f\<lparr>fs_tmp_counter := fs_tmp_counter f + 1,
      fs_nodes := (fs_nodes f)(''/k.tmp-7-0'' \<mapsto> NFile \<lparr>f_bytes = [], f_mode = fs_umask_mode f\<rparr>)\<rparr>)"
    if "fs_nodes f ''/k.tmp-7-0'' = None" "fs_tmp_counter f = 0" "fs_pid f = 7" "fs_faults f = []" for f k
    using that t by (simp add: tmp_sibling_def open_create_new_def io_prim_clean)
  show ?thesis
    using tries [of _ 15] n
    by (simp add: atomic_write_private_def atomic_write_impl_def create_dir_all_def io_bind_def io_prim_clean
        path_parent_def make_dirs_def is_file_def lookup_here config_nodes io_return_def create_new_temp_def
        set_private_mode_def set_mode_def write_all_def sync_all_def rename_or_remove_def rename_path_def Let_def merged_def
        del: create_temp_tries.simps)
qed

lemma merge_config:
  assumes "w_fs w = fs_config"
  shows "\<exists>w'. do_export_and_merge calm_host (Some 0) ''dev'' ''/k'' w = (Some (Ok ()), w')
     \<and> merged (w_fs w')"
proof -
  obtain f where f: "atomic_write_private ''/k'' ''{}'' fs_config = (Done (), f)" "merged f"
    using save_empty_store by blast
  have k: "he_kube calm_host = kube_env_example" by (simp add: calm_host_def env_example_def)
  have l: "load_kubeconfig kube_env_example ''/k'' fs_config = (Done (Ok kubeconfig_default), fs_config)"
    by (simp add: load_kubeconfig_def read_file_def io_prim_clean config_nodes lookup_here not_found_def)
  obtain t where t: "ensure_context_from_kind_output kube_env_example ''dev'' y
      \<lparr>ks_path = ''/k'', ks_config = kubeconfig_default\<rparr> = Ok t" "ks_path t = ''/k''" for y
    by (simp add: ensure_context_from_kind_output_def kube_env_example_def take_named_def take_entry_def
        kube_merge_def named_upsert_def kubeconfig_default_def Let_def)
  have s: "store_save kube_env_example t fs_config = (Done (Ok ()), f)"
    using f(1) t(2) by (simp add: store_save_def store_to_yaml_def kube_env_example_def)
  show ?thesis using assms f
    by (simp add: do_export_and_merge_def prov_bind_def prov_run_def run_cmd_calm prov_fs_def store_load_from_def k l
      io_bind_def io_return_def rbind_def prov_lift_def t s)
qed

lemma step_goes:
  assumes "find (\<lambda>s. ps_id s = i) (cp_steps p) = Some st"
    "\<And>v. w_fs v = w_fs w \<Longrightarrow> \<exists>u. execute_step calm_host (Some 0) st v = (Some (Ok ()), u) \<and> P (w_fs u)"
  shows "\<exists>v. run_steps calm_host (Some 0) p (i # ids) w = run_steps calm_host (Some 0) p ids v \<and> P (w_fs v)"
proof -
  let ?w = "emit (EvStepStarted (ps_id st)) (w\<lparr>w_tick := w_tick w + 1\<rparr>)"
  have c: "is_cancelled calm_host (Some 0) w = (False, w\<lparr>w_tick := w_tick w + 1\<rparr>)"
    by (simp add: is_cancelled_def calm_host_def)
  have "w_fs ?w = w_fs w" by (simp add: emit_def)
  from assms(2) [OF this] obtain u where u: "execute_step calm_host (Some 0) st ?w = (Some (Ok ()), u)" "P (w_fs u)"
    by blast
  then have "run_steps calm_host (Some 0) p (i # ids) w
      = run_steps calm_host (Some 0) p ids (emit (EvStepFinished (ps_id st)) u)"
    using assms(1) c by simp
  moreover have "w_fs (emit (EvStepFinished (ps_id st)) u) = w_fs u" by (simp add: emit_def)
  ultimately show ?thesis using u(2) by metis
qed

lemma run_dev:
  assumes "build_plan_with_cilium_version (\<lambda>y. Some ''y'') dev_spec ''/d'' ''/k'' None = Ok p" "w_fs w = fs_example"
  shows "\<exists>w'. run_plan calm_host p (Some 0) w = (Some (Ok ()), w')
     \<and> merged (w_fs w')"
proof -
  have steps: "cp_steps p =
     [\<lparr>ps_id = ''write-kind-config'', ps_command = WriteFile ''/d/tmp/kind-dev.yaml'' ''y'',
        ps_depends_on = [], ps_verify = VerifyNone\<rparr>,
      \<lparr>ps_id = ''kind-create'', ps_command = RunCommand (KindCreate ''/d/tmp/kind-dev.yaml'' True),
        ps_depends_on = [''write-kind-config''], ps_verify = VerifyNone\<rparr>,
      \<lparr>ps_id = ''merge-kubeconfig'', ps_command = ExportAndMergeKubeconfig ''dev'' ''/k'',
        ps_depends_on = [''kind-create''], ps_verify = VerifyNone\<rparr>,
      \<lparr>ps_id = ''final-verify'', ps_command = RunCommand (nodes_ready ''kind-dev''),
        ps_depends_on = [''merge-kubeconfig''], ps_verify = VerifyNone\<rparr>]"
    using assms(1) dev_valid
    by (auto simp: build_plan_with_cilium_version_def step_def plan_cni_def plan_ingress_def dev_spec_def
        cluster_spec_default_def Let_def path_join_def path_is_absolute_def to_kind_yaml_def kind_context_name_def
        KIND_ENTRY_PREFIX_def)
  have sort: "topological_sort p = Some (Ok (step_ids p))"
    using chain_sorts [of p] built_plan [OF assms(1)] distinct_plan_ids [of dev_spec] by simp
  note exec = steps execute_step_def execute_action_def prov_bind_def verify_step_def
  have s1: "\<exists>u. execute_step calm_host (Some 0) (cp_steps p ! 0) v = (Some (Ok ()), u) \<and> w_fs u = fs_config"
    if "w_fs v = w_fs w" for v
    using write_config [of v] assms(2) that by (simp add: exec)
  have s2: "\<exists>u. execute_step calm_host (Some 0) (cp_steps p ! 1) v = (Some (Ok ()), u) \<and> w_fs u = w_fs v" for v
    by (simp add: exec streaming_calm)
  have s3: "\<exists>u. execute_step calm_host (Some 0) (cp_steps p ! 2) v = (Some (Ok ()), u) \<and> merged (w_fs u)"
    if "w_fs v = fs_config" for v
    using merge_config [OF that] by (auto simp: exec)
  have s4: "\<exists>u. execute_step calm_host (Some 0) (cp_steps p ! 3) v = (Some (Ok ()), u) \<and> w_fs u = w_fs v" for v
    by (simp add: exec streaming_calm)
  have find: "find (\<lambda>s. ps_id s = ''write-kind-config'') (cp_steps p) = Some (cp_steps p ! 0)"
    "find (\<lambda>s. ps_id s = ''kind-create'') (cp_steps p) = Some (cp_steps p ! 1)"
    "find (\<lambda>s. ps_id s = ''merge-kubeconfig'') (cp_steps p) = Some (cp_steps p ! 2)"
    "find (\<lambda>s. ps_id s = ''final-verify'') (cp_steps p) = Some (cp_steps p ! 3)"
    and ids: "step_ids p = [''write-kind-config'', ''kind-create'', ''merge-kubeconfig'', ''final-verify'']"
    "ps_id (cp_steps p ! 0) = ''write-kind-config''"
    by (simp_all add: steps step_ids_def)
  let ?run = "run_steps calm_host (Some 0) p"
  obtain v1 where v1: "?run (step_ids p) w = ?run [''kind-create'', ''merge-kubeconfig'', ''final-verify''] v1"
    "w_fs v1 = fs_config"
    using step_goes [OF find(1), of w "\<lambda>f. f = fs_config"] s1 unfolding ids by blast
  obtain v2 where v2: "?run [''kind-create'', ''merge-kubeconfig'', ''final-verify''] v1
      = ?run [''merge-kubeconfig'', ''final-verify''] v2" "w_fs v2 = fs_config"
    using step_goes [OF find(2), of v1 "\<lambda>f. f = fs_config"] s2 v1(2) by metis
  obtain v3 where v3: "?run [''merge-kubeconfig'', ''final-verify''] v2 = ?run [''final-verify''] v3" "merged (w_fs v3)"
    using step_goes [OF find(3), of v2 merged] s3 v2(2) by metis
  obtain v4 where v4: "?run [''final-verify''] v3 = ?run [] v4" "merged (w_fs v4)"
    using step_goes [OF find(4), of v3 merged] s4 v3(2) by metis
  have "?run [] v4 = (Some (Ok ()), emit (EvPlanFinished True) v4)" by simp
  moreover have "w_fs (emit (EvPlanFinished True) v4) = w_fs v4" by (simp add: emit_def)
  ultimately show ?thesis using v1(1) v2(1) v3(1) v4 by (metis run_plan_def option.case(2) sort sum.case(2))
qed

definition calm_worker :: worker_env where
  "calm_worker = worker_env_example\<lparr>wk_host := calm_host, wk_to_yaml := \<lambda>_. Some ''y'',
     wk_state := (wk_state worker_env_example)\<lparr>se_record_to_json := \<lambda>_. Ok ''{}''\<rparr>\<rparr>"

lemma calm_worker_fields [simp]:
  "wk_host calm_worker = calm_host" "wk_to_yaml calm_worker = (\<lambda>_. Some ''y'')"
  "wk_root calm_worker = ''/d''" "wk_kubeconfig calm_worker = ''/k''"
  "se_record_to_json (wk_state calm_worker) = (\<lambda>_. Ok ''{}'')"
  by (simp_all add: calm_worker_def worker_env_example_def)

lemma dev_paths:
  "cluster_path ''/d'' ''dev'' = Ok ''/d/clusters/dev.json''"
  "tmp_name 7 ''/d/clusters/dev.json'' 1 = ''/d/clusters/dev.json.tmp-7-1''"
  "dir_chain [] (split_on (CHR ''/'') (path_parent ''/d/clusters/dev.json'')) = [''/d'', ''/d/clusters'']"
  by code_simp+

lemma save_dev:
  assumes "merged f" "cs_name (cr_spec r) = ''dev''"
  shows "\<exists>f'. save_cluster fe (wk_state calm_worker) ''/d'' r f = (Done (Ok ()), f')"
proof -
  have n: "fs_nodes f ''/d/clusters/dev.json'' = None" "fs_nodes f ''/d/clusters/dev.json.tmp-7-1'' = None"
    "fs_nodes f ''/d/clusters'' = None" "fs_nodes f ''/d'' = Some NDir"
    using assms(1) by (simp_all add: merged_def) (simp_all add: fs_config_def fs_example_def make_dirs_def)
  have "\<exists>f'. atomic_write_impl ''/d/clusters/dev.json'' ''{}'' False f = (Done (), f')"
    using assms(1) n
    by (intro atomic_write_fresh) (simp_all add: merged_def dev_paths lookup_here path_plain_def path_file_name_def)
  moreover have "validate_name ''dev'' = Ok ()"
    by (simp add: validate_name_def MAX_NAME_LEN_def name_char_def char_class_defs)
  ultimately show ?thesis
    using assms(2) by (auto simp: save_cluster_def Let_def dev_paths write_json_def atomic_write_def)
qed

lemma dev_created:
  "\<exists>w'. do_create calm_worker dev_spec 1 0 world_example = (Some (), w')
     \<and> last (w_events w') = Outcome (EvProvisionDone ''dev'' 1 (Inr ()))"
proof -
  let ?w = "world_example :: wworld"
  obtain p where p: "build_plan_with_cilium_version (\<lambda>y. Some ''y'') dev_spec ''/d'' ''/k'' None = Ok p"
    using dev_valid build_plan_succeeds by blast
  have n: "cs_name dev_spec = ''dev''" "cs_cni dev_spec \<noteq> CiliumCni"
    by (simp_all add: dev_spec_def cluster_spec_default_def)
  obtain w1 where l: "run_kind calm_worker KindGetClusters ?w = (Some (Inr \<lparr>out_exit_code = Some 0,
      out_stdout_lines = [''token: x''], out_stderr_tail = []\<rparr>), w1)" "w_fs w1 = fs_example"
    by (simp add: run_kind_def texted_def prov_run_def run_cmd_calm world_example_def)
  have out: "''dev'' \<notin> set (parse_kind_get_clusters (out_stdout \<lparr>out_exit_code = Some 0,
      out_stdout_lines = [''token: x''], out_stderr_tail = []\<rparr>))" by code_simp
  let ?v = "\<lparr>w_fs = w_fs w1, w_now = w_now w1, w_tick = w_tick w1, w_ran = w_ran w1, w_events = []\<rparr> :: pworld"
  obtain u where u: "run_plan calm_host p (Some 0) ?v = (Some (Ok ()), u)" "merged (w_fs u)"
    using run_dev [OF p, of ?v] l(2) by auto
  have c: "\<exists>w2. create_phase calm_worker dev_spec 1 0 w1 = (Some (Inr ()), w2) \<and> w_fs w2 = w_fs u"
    using n u(1) by (simp add: create_phase_def then_do_def task_return_def p forwarded_def)
  then obtain w2 where w2: "create_phase calm_worker dev_spec 1 0 w1 = (Some (Inr ()), w2)" "merged (w_fs w2)"
    using u(2) by auto
  have "cs_name (cr_spec (record_managed t dev_spec)) = ''dev''" for t by (simp add: record_managed_def n)
  from save_dev [OF w2(2) this] obtain f where
    "save_cluster (wk_fmt calm_worker) (wk_state calm_worker) ''/d'' (record_managed (wk_clock calm_worker (w_now w2)) dev_spec) (w_fs w2)
       = (Done (Ok ()), f)" by blast
  then have "save_record calm_worker dev_spec w2 = (Some (Inr ()), w2\<lparr>w_fs := f\<rparr>)"
    by (simp add: save_record_def texted_def prov_fs_def)
  then show ?thesis
    using l(1) out w2(1) n
    by (simp add: do_create_def then_do_def create_and_save_def done_op_def send_def emit_def)
qed

end
