(* ===== verification/Totality.thy ===== *)
theory Totality
  imports RunProps DepsInstall StateStore LogRing
begin

text \<open>
  Computations that return.  A file-system program is steady when, in a world in which the process is
  not killed (no crash is scripted; every other fault may be), it comes back and the world stays such.
  A computation on the host returns when, further, every child that is started ends.
\<close>

named_theorems steady_intros \<open>file-system programs that come back\<close>
named_theorems return_intros \<open>computations that return\<close>

section \<open>File-system programs\<close>

definition no_crash :: "fs \<Rightarrow> bool" where
  "no_crash f \<longleftrightarrow> (\<forall>k. CrashFault k \<notin> set (fs_faults f))"

definition steady :: "(fs \<Rightarrow> 'a outcome \<times> fs) \<Rightarrow> bool" where
  "steady m \<longleftrightarrow> (\<forall>f. no_crash f \<longrightarrow> fst (m f) \<noteq> Crashed \<and> no_crash (snd (m f)))"

lemma steadyD: "steady m \<Longrightarrow> m f = (r, f') \<Longrightarrow> no_crash f \<Longrightarrow> r \<noteq> Crashed \<and> no_crash f'"
  by (metis fst_conv snd_conv steady_def)

lemma steadyI: "(\<And>f r f'. m f = (r, f') \<Longrightarrow> no_crash f \<Longrightarrow> r \<noteq> Crashed \<and> no_crash f') \<Longrightarrow> steady m"
  unfolding steady_def by (metis prod.collapse)

lemma prim_comes_back:
  assumes "no_crash f" shows "fst (io_prim act half f) \<noteq> Crashed \<and> no_crash (snd (io_prim act half f))"
proof (cases "fs_faults f")
  case Nil
  then show ?thesis
    by (cases "act (fs_nodes f)") (auto simp: io_prim_def no_crash_def)
next
  case (Cons x fs)
  then show ?thesis using assms
    by (cases x; cases "act (fs_nodes f)") (auto simp: io_prim_def no_crash_def)
qed

lemma steady_prim [steady_intros]: "steady (io_prim act half)"
  by (simp add: steady_def prim_comes_back)

lemma steady_return [steady_intros]: "steady (io_return x)" "steady (io_fail e)"
  by (simp_all add: steady_def io_return_def io_fail_def)

lemma steady_bind [steady_intros]:
  assumes "steady m" "\<And>x. steady (k x)" shows "steady (io_bind m k)"
proof (rule steadyI)
  fix f r f' assume e: "io_bind m k f = (r, f')" and n: "no_crash f"
  obtain q g where q: "m f = (q, g)" by fastforce
  from steadyD [OF assms(1) q n] show "r \<noteq> Crashed \<and> no_crash f'"
    using e q steadyD [OF assms(2), of _ g r f'] by (cases q) (auto simp: io_bind_def)
qed

lemma steady_calls [steady_intros]:
  "steady (is_file p)" "steady (read_file p)" "steady (open_create_new m p)" "steady (set_mode p m)"
  "steady (write_all p b)" "steady (sync_all p)" "steady (rename_path p q)" "steady (remove_file p)"
  "steady (create_dir_all p)"
  by (simp_all add: is_file_def read_file_def open_create_new_def set_mode_def write_all_def
      sync_all_def rename_path_def remove_file_def create_dir_all_def steady_prim Let_def)
    (simp add: steady_def is_file_def)

lemma steady_write_file [steady_intros]: "steady (write_file p b)"
  by (simp add: steady_def write_file_def prim_comes_back)

lemma steady_temp: "steady (create_temp_tries k base)"
proof (induction k)
  case 0
  show ?case by (simp add: steady_def)
next
  case (Suc k)
  show ?case
  proof (rule steadyI)
    fix f r f' assume e: "create_temp_tries (Suc k) base f = (r, f')" and n: "no_crash f"
    obtain t g where t: "tmp_sibling base f = (Done t, g)" and g: "no_crash g"
      using n by (simp add: tmp_sibling_def no_crash_def)
    obtain q h where q: "open_create_new (fs_umask_mode g) t g = (q, h)" by fastforce
    from steadyD [OF steady_calls(3) q g] show "r \<noteq> Crashed \<and> no_crash f'"
      using e t q steadyD [OF Suc, of h r f'] by (cases q) (auto split: if_splits)
  qed
qed

lemma steady_rename [steady_intros]: "steady (rename_or_remove a b)"
proof (rule steadyI)
  fix f r f' assume e: "rename_or_remove a b f = (r, f')" and n: "no_crash f"
  obtain q g where q: "rename_path a b f = (q, g)" by fastforce
  obtain q' g' where q': "remove_file a g = (q', g')" by fastforce
  from steadyD [OF steady_calls(7) q n] steadyD [OF steady_calls(8) q'] show "r \<noteq> Crashed \<and> no_crash f'"
    using e q q' by (cases q; cases q') (auto simp: rename_or_remove_def)
qed

lemma steady_atomic [steady_intros]:
  "steady (backup p)" "steady (atomic_write p b)" "steady (atomic_write_private p b)"
  by (auto simp: backup_def atomic_write_def atomic_write_private_def atomic_write_impl_def
      create_new_temp_def set_private_mode_def intro!: steady_intros steady_temp)

lemma steady_reads [steady_intros]:
  "steady (sha256_file_hex h p)" "steady (read_to_string p)"
  by (auto simp: sha256_file_hex_def read_to_string_def intro!: steady_intros)

lemma steady_load [steady_intros]:
  "steady (store_load_from ke p)" "steady (load_settings se root)" "steady (load_cluster se root n)"
proof -
  have k: "steady (load_kubeconfig ke p)"
    unfolding load_kubeconfig_def Let_def
    by (auto intro!: steadyI dest!: steadyD [OF steady_calls(2)] split: outcome.splits prod.splits)
  show "steady (store_load_from ke p)" by (auto simp: store_load_from_def intro!: steady_intros k)
  show "steady (load_settings se root)"
    by (auto simp: load_settings_def Let_def intro!: steadyI dest!: steadyD [OF steady_calls(2)]
        split: outcome.splits prod.splits)
  show "steady (load_cluster se root n)"
    by (auto simp: load_cluster_def Let_def intro!: steadyI dest!: steadyD [OF steady_calls(2)]
        split: outcome.splits prod.splits sum.splits)
qed

lemma steady_store [steady_intros]:
  "steady (write_json p j)" "steady (save_settings se root s)" "steady (save_cluster fe se root r)"
  "steady (remove_cluster root n)" "steady (store_save ke st)"
proof -
  show w: "steady (write_json p j)" for p j
    by (auto simp: write_json_def intro!: steadyI dest!: steadyD [OF steady_atomic(2)]
        split: outcome.splits prod.splits sum.splits)
  show "steady (save_settings se root s)" by (simp add: save_settings_def [abs_def] w)
  show "steady (save_cluster fe se root r)"
    by (auto simp: save_cluster_def Let_def intro!: steadyI dest: steadyD [OF w] split: sum.splits)
  show "steady (remove_cluster root n)"
    by (auto simp: remove_cluster_def intro!: steadyI dest!: steadyD [OF steady_calls(8)]
        split: outcome.splits prod.splits sum.splits)
  show "steady (store_save ke st)"
    by (auto simp: store_save_def intro!: steadyI dest!: steadyD [OF steady_atomic(3)]
        split: outcome.splits prod.splits sum.splits)
qed

lemma steady_reconcile_live: "steady (reconcile_live se root ns)"
proof (induction ns)
  case Nil
  show ?case by (simp add: steady_def)
next
  case (Cons n ns)
  show ?case
    by (auto intro!: steadyI dest!: steadyD [OF steady_load(3)] steadyD [OF Cons]
        split: outcome.splits prod.splits sum.splits)
qed

lemma steady_reconcile_stored: "steady (reconcile_stored se root live ns)"
proof (induction ns)
  case Nil
  show ?case by (simp add: steady_def)
next
  case (Cons n ns)
  show ?case
    by (auto intro!: steadyI dest!: steadyD [OF steady_load(3)] dest: steadyD [OF Cons]
        split: outcome.splits prod.splits sum.splits option.splits if_splits)
qed

lemma steady_reconcile [steady_intros]: "steady (reconcile se listing root live)"
  by (auto simp: reconcile_def intro!: steadyI dest!: steadyD [OF steady_reconcile_live]
      steadyD [OF steady_reconcile_stored] split: outcome.splits prod.splits sum.splits)

section \<open>Computations on the host\<close>

definition calm :: "'e world \<Rightarrow> bool" where
  "calm w \<longleftrightarrow> no_crash (w_fs w)"

definition returns :: "('e world \<Rightarrow> 'r option \<times> 'e world) \<Rightarrow> bool" where
  "returns m \<longleftrightarrow> (\<forall>w. calm w \<longrightarrow> fst (m w) \<noteq> None \<and> calm (snd (m w)))"

definition children_end :: "host_env \<Rightarrow> bool" where
  "children_end env \<longleftrightarrow>
     (\<forall>t c n ch. he_spawn env t c n = Inr ch
        \<longrightarrow> fst (await_outcome (ps_observations (ch_script ch)) fresh_handle) \<noteq> None)"

lemma returnsD: "returns m \<Longrightarrow> m w = (r, w') \<Longrightarrow> calm w \<Longrightarrow> r \<noteq> None \<and> calm w'"
  by (metis fst_conv snd_conv returns_def)

lemma returnsI: "(\<And>w r w'. m w = (r, w') \<Longrightarrow> calm w \<Longrightarrow> r \<noteq> None \<and> calm w') \<Longrightarrow> returns m"
  unfolding returns_def by (metis prod.collapse)

lemma returns_prims [return_intros]:
  "returns (prov_return x)" "returns (prov_fail e)" "returns (prov_lift r)"
  by (simp_all add: returns_def prov_return_def prov_fail_def prov_lift_def)

lemma returns_bind [return_intros]:
  assumes "returns m" "\<And>x. returns (k x)" shows "returns (prov_bind m k)"
proof (rule returnsI)
  fix w r w' assume e: "prov_bind m k w = (r, w')" and c: "calm w"
  obtain q v where q: "m w = (q, v)" by fastforce
  from returnsD [OF assms(1) q c] show "r \<noteq> None \<and> calm w'"
    using e q returnsD [OF assms(2), of _ v r w'] by (auto simp: prov_bind_def split: sum.splits)
qed

lemma returns_fs [return_intros]: "steady m \<Longrightarrow> returns (prov_fs m)"
  by (rule returnsI) (auto simp: prov_fs_def calm_def dest: steadyD split: prod.splits outcome.splits)

lemma returns_io [return_intros]: "steady m \<Longrightarrow> returns (prov_io p m)" "steady m \<Longrightarrow> returns (prov_io_quiet m)"
  by (rule returnsI,
      auto simp: prov_io_def prov_io_quiet_def calm_def dest: steadyD split: prod.splits outcome.splits)+

lemma wait_handle_ends:
  "fst (wait_handle p s) = None \<longleftrightarrow> fst (await_outcome (ps_observations s) fresh_handle) = None"
  by (simp add: wait_handle_def Let_def split: prod.split)

lemma child_result:
  "children_end env \<Longrightarrow> he_spawn env t c n = Inr ch \<Longrightarrow> \<exists>z. fst (wait_handle p (ch_script ch)) = Some z"
  unfolding children_end_def using wait_handle_ends [of p "ch_script ch"] by (metis not_None_eq)

lemma calm_after_child [simp]: "calm (after_child c ch w) \<longleftrightarrow> calm w"
  by (simp add: calm_def no_crash_def after_child_def)

lemma calm_updates [simp]:
  "calm (w\<lparr>w_events := es\<rparr>) \<longleftrightarrow> calm w" "calm (w\<lparr>w_tick := t\<rparr>) \<longleftrightarrow> calm w"
  "calm (w\<lparr>w_now := k\<rparr>) \<longleftrightarrow> calm w"
  "calm (emit ev w) \<longleftrightarrow> calm w" "calm (emit_all evs w) \<longleftrightarrow> calm w"
  by (simp_all add: calm_def emit_def emit_all_def)

lemma calm_cancelled: "is_cancelled env tok w = (b, w') \<Longrightarrow> calm w' \<longleftrightarrow> calm w"
  by (auto simp: is_cancelled_def split: option.splits)

lemma returns_run_cmd [return_intros]: "children_end env \<Longrightarrow> returns (run_cmd env c)"
  by (rule returnsI) (auto simp: run_cmd_def intro: child_result split: sum.splits)

lemma returns_run [return_intros]: "children_end env \<Longrightarrow> returns (prov_run env c)"
  by (rule returnsI) (auto simp: prov_run_def dest: returnsD [OF returns_run_cmd] split: prod.splits)

section \<open>Running a plan\<close>

lemma returns_streaming [return_intros]: "children_end env \<Longrightarrow> returns (run_streaming env c i)"
  by (rule returnsI) (auto simp: run_streaming_def Let_def intro: child_result split: sum.splits)

lemma returns_crd [return_intros]:
  assumes "children_end env" shows "returns (wait_for_crd env tok i ctx crd t d)"
proof (rule returnsI)
  fix w r w' assume "wait_for_crd env tok i ctx crd t d w = (r, w')" "calm w"
  then show "r \<noteq> None \<and> calm w'" using assms
  proof (induction env tok i ctx crd t d w rule: wait_for_crd.induct)
    case (1 env tok i ctx crd t d w)
    obtain q v where q: "run_cmd env (attach tok (to_cmd (he_os env) (KubectlGetCrd ctx crd))) w = (q, v)"
      by fastforce
    have v: "q \<noteq> None" "calm v" using returnsD [OF returns_run_cmd q] 1(3,4) by auto
    show ?case
    proof (cases "\<exists>a b c. q = Some (Inl (ExecCommand a b c)) \<and> \<not> d \<le> w_now v")
      case True
      then obtain a b c where x: "q = Some (Inl (ExecCommand a b c))" "\<not> d \<le> w_now v" by blast
      have "wait_for_crd env tok i ctx crd t d (v\<lparr>w_now := w_now v + CRD_POLL\<rparr>) = (r, w')"
        using 1(2) q x by (simp add: wait_for_crd.simps)
      from 1(1) [OF q [symmetric] x(1) refl refl x(2) this] v 1(4) show ?thesis by simp
    next
      case False
      then show ?thesis using 1(2) q v
        by (auto simp: wait_for_crd.simps split: sum.splits exec_error.splits if_splits)
    qed
  qed
qed

lemma returns_diagnose_pods: "children_end env \<Longrightarrow> returns (diagnose_pods env ctx pods)"
proof (induction pods)
  case Nil
  show ?case by (simp add: returns_def)
next
  case (Cons p ps)
  show ?case
    by (rule returnsI) (auto dest: returnsD [OF Cons.IH [OF Cons.prems]] returnsD [OF returns_run_cmd [OF Cons.prems]]
        split: prod.splits option.splits sum.splits if_splits)
qed

lemma returns_diagnose: "children_end env \<Longrightarrow> returns (diagnose_cilium_failure env ctx)"
  by (rule returnsI)
    (auto simp: diagnose_cilium_failure_def Let_def dest: returnsD [OF returns_diagnose_pods] returnsD [OF returns_run_cmd]
      split: prod.splits option.splits sum.splits if_splits)

lemma returns_message: "children_end env \<Longrightarrow> returns (failure_message env tok st err)"
  by (rule returnsI)
    (auto simp: failure_message_def Let_def calm_cancelled dest: returnsD [OF returns_diagnose]
      split: prod.splits option.splits if_splits provision_action.splits kind_command.splits)

lemma returns_action: "children_end env \<Longrightarrow> returns (execute_action env tok st)"
  by (cases "ps_command st")
    (auto simp: execute_action_def do_download_def check_sha256_def do_write_file_def make_parent_def
      do_export_and_merge_def do_patch_flannel_def intro!: return_intros steady_intros
      intro: returnsI dest: returnsD [OF returns_crd] split: option.split)

lemma returns_step: "children_end env \<Longrightarrow> returns (execute_step env tok st)"
proof -
  assume e: "children_end env"
  have "returns (verify_step env tok st)"
    by (rule returnsI) (auto simp: verify_step_def dest: returnsD [OF returns_run_cmd [OF e]]
      split: verify_spec.splits prod.splits option.splits sum.splits)
  then show ?thesis using returns_action [OF e] by (auto simp: execute_step_def intro!: return_intros)
qed

lemma returns_steps: "children_end env \<Longrightarrow> returns (run_steps env tok plan ids)"
proof (induction ids)
  case Nil
  show ?case by (simp add: returns_def)
next
  case (Cons i ids)
  note e = Cons.prems
  show ?case
  proof (rule returnsI)
    fix w :: pworld and r w' assume a: "run_steps env tok plan (i # ids) w = (r, w')" and c: "calm w"
    show "r \<noteq> None \<and> calm w'"
    proof (cases "find (\<lambda>s. ps_id s = i) (cp_steps plan)")
      case None
      then show ?thesis using a c by auto
    next
      case (Some st)
      obtain b v where b: "is_cancelled env tok w = (b, v)" by fastforce
      then have v: "calm v" using calm_cancelled c by blast
      obtain q u where q: "execute_step env tok st (emit (EvStepStarted (ps_id st)) v) = (q, u)" by fastforce
      have u: "q \<noteq> None" "calm u" using returnsD [OF returns_step [OF e] q] v by auto
      show ?thesis using a Some b q u v
        by (auto dest: returnsD [OF Cons.IH [OF e]] returnsD [OF returns_message [OF e]]
            split: bool.splits sum.splits prod.splits option.splits)
    qed
  qed
qed

lemma returns_run_plan [return_intros]:
  assumes "children_end env" "topological_sort plan \<noteq> None"
  shows "returns (run_plan env plan tok)"
  by (rule returnsI) (use assms(2) in \<open>auto simp: run_plan_def dest: returnsD [OF returns_steps [OF assms(1)]]
      split: option.splits sum.splits\<close>)

section \<open>Detecting and installing\<close>

lemma returns_detect [return_intros]: "children_end env \<Longrightarrow> returns (detect env i)"
  by (rule returnsI)
    (auto simp: detect_def detect_with_path_def Let_def dest: returnsD [OF returns_run_cmd]
      split: option.splits prod.splits)

lemma returns_docker [return_intros]: "children_end env \<Longrightarrow> returns (check_docker_daemon env)"
  by (rule returnsI)
    (auto simp: check_docker_daemon_def check_docker_daemon_with_path_def Let_def
      dest: returnsD [OF returns_run_cmd] split: option.splits prod.splits if_splits)

lemma returns_gate: "returns (gate_step env i plan k s)"
proof -
  have v: "returns (verify_download_file env t d p x)" for t d p x
    by (rule returnsI) (auto simp: verify_download_file_def calm_def
      dest: steadyD [OF steady_reads(1)] split: prod.splits outcome.splits)
  show ?thesis
    by (rule returnsI) (auto simp: gate_step_def dest: returnsD [OF v]
      split: option.splits prod.splits sum.splits)
qed

lemma returns_install_steps: "children_end env \<Longrightarrow> returns (install_steps env tok i plan n k ss)"
proof (induction ss arbitrary: k)
  case Nil
  show ?case by (simp add: returns_def)
next
  case (Cons s ss)
  note e = Cons.prems
  show ?case
  proof (rule returnsI)
    fix w :: iworld and r w' assume a: "install_steps env tok i plan n k (s # ss) w = (r, w')" and c: "calm w"
    obtain b v where b: "is_cancelled env tok w = (b, v)" by fastforce
    then have v: "calm v" using calm_cancelled c by blast
    show "r \<noteq> None \<and> calm w'"
    proof (cases b)
      case True
      then show ?thesis using a b v by auto
    next
      case False
      obtain q u where q: "run_cmd env (attach tok (install_step_cmd (os_at env (fs_nodes (w_fs v))) s))
          (emit (IStepStarted k n (is_description s)) v) = (q, u)" by fastforce
      have u: "q \<noteq> None" "calm u" using returnsD [OF returns_run_cmd [OF e] q] v by auto
      then obtain x where x: "q = Some x" by blast
      show ?thesis
      proof (cases x)
        case (Inl err)
        then show ?thesis using a b False q u x
          by (auto dest!: returnsD [OF returns_detect [OF e]] split: prod.splits option.splits)
      next
        case (Inr out)
        obtain g h where g: "gate_step env i plan k s (emit_all (map (\<lambda>l. IStepLine k (redact_kubeconfig_secrets l))
            (out_stdout_lines out)) u) = (g, h)" by fastforce
        have h: "g \<noteq> None" "calm h" using returnsD [OF returns_gate g] u by auto
        have "calm (emit (IStepFinished k) h)" using h by simp
        note ih = returnsD [OF Cons.IH [OF e] _ this]
        show ?thesis using a b False q x Inr g h by (auto dest: ih split: sum.splits)
      qed
    qed
  qed
qed

lemma returns_install [return_intros]:
  assumes "children_end env" shows "returns (install_with_progress env i tok)"
proof -
  have p: "returns (install_with_progress_preflighted env i tok st)" for st
    by (rule returnsI) (auto simp: install_with_progress_preflighted_def
      dest: returnsD [OF returns_install_steps [OF assms]] returnsD [OF returns_detect [OF assms]]
      split: if_splits sum.splits prod.splits option.splits)
  show ?thesis
    by (rule returnsI) (auto simp: install_with_progress_def dest: returnsD [OF p]
      returnsD [OF returns_detect [OF assms]] split: sum.splits prod.splits option.splits)
qed

end
