(* ===== verification/WorkerProps.thy ===== *)
theory WorkerProps
  imports SampleRun Totality
begin

text \<open>
  What the operations of the worker promise: every request is answered, once and at the end; a destroy
  touches the kubeconfig and the record only when the cluster is gone; a followed log delivers what the
  process wrote.
\<close>

section \<open>Answers\<close>

text \<open>The answer of a command, for the commands that have one.\<close>

fun answers :: "core_command \<Rightarrow> bus_send \<Rightarrow> bool" where
  "answers CmdReconcile s = (case s of Outcome (EvReconcileDone _) \<Rightarrow> True | _ \<Rightarrow> False)"
| "answers CmdCheckDockerDaemon s = (case s of Progress (EvDockerDaemon _) \<Rightarrow> True | _ \<Rightarrow> False)"
| "answers (CmdInstallTool i) s = (case s of Outcome (EvInstallDone j _) \<Rightarrow> j = i | _ \<Rightarrow> False)"
| "answers (CmdCreateCluster spec g) s =
     (case s of Outcome (EvProvisionDone m h _) \<Rightarrow> m = cs_name spec \<and> h = g | _ \<Rightarrow> False)"
| "answers (CmdDestroyCluster n g) s = (case s of Outcome (EvProvisionDone m h _) \<Rightarrow> m = n \<and> h = g | _ \<Rightarrow> False)"
| "answers (CmdRecreateCluster n spec g) s =
     (case s of Outcome (EvProvisionDone m h _) \<Rightarrow> m = n \<and> h = g | _ \<Rightarrow> False)"
| "answers (CmdCheckContext n) s = (case s of Progress (EvContextState m _) \<Rightarrow> m = n | _ \<Rightarrow> False)"
| "answers (CmdEnsureContext n) s = (case s of Outcome (EvContextEnsured m _) \<Rightarrow> m = n | _ \<Rightarrow> False)"
| "answers (CmdExportLogs n dest) s =
     (case s of Outcome (EvLogsExported m d _) \<Rightarrow> m = n \<and> d = dest | _ \<Rightarrow> False)"
| "answers (CmdFetchTopology n g) s = (case s of Progress (EvTopology m h _) \<Rightarrow> m = n \<and> h = g | _ \<Rightarrow> False)"
| "answers (CmdStartLogs n source follow tail g) s =
     (case s of Outcome (EvLogEnded m h _) \<Rightarrow> \<not> follow \<and> m = n \<and> h = g | _ \<Rightarrow> False)"
| "answers c s = False"

fun answerable :: "core_command \<Rightarrow> bool" where
  "answerable (CmdDetectTools _) = False"
| "answerable (CmdSetTheme _) = False"
| "answerable (CmdCancelOp _) = False"
| "answerable (CmdSetAutoRefresh _ _ _ _) = False"
| "answerable (CmdStartLogs _ _ follow _ _) = (\<not> follow)"
| "answerable (CmdStopLogs _) = False"
| "answerable (CmdOpenK9s _) = False"
| "answerable CmdShutdown = False"
| "answerable _ = True"

text \<open>A task that returns, whose last event satisfies \<open>P\<close> and no earlier one does.\<close>

definition ends_with_answer :: "(bus_send \<Rightarrow> bool) \<Rightarrow> unit task \<Rightarrow> bool" where
  "ends_with_answer P m \<longleftrightarrow>
     (\<forall>w. calm w \<longrightarrow> (\<exists>w' evs a. m w = (Some (), w') \<and> w_events w' = w_events w @ evs @ [a]
        \<and> P a \<and> list_all (\<lambda>e. \<not> P e) evs))"

lemma answer_send: "P s \<Longrightarrow> ends_with_answer P (send s)"
  by (auto simp: ends_with_answer_def send_def emit_def)

lemma answer_then:
  assumes "returns m" "sends (\<lambda>e. \<not> P e) m" "\<And>x. ends_with_answer P (k x)"
  shows "ends_with_answer P (then_do m k)"
  unfolding ends_with_answer_def
proof (intro allI impI)
  fix w :: wworld assume c: "calm w"
  obtain q v where q: "m w = (q, v)" by fastforce
  obtain x where x: "q = Some x" and v: "calm v" using returnsD [OF assms(1) q c] by blast
  obtain e1 where e1: "w_events v = w_events w @ e1" "list_all (\<lambda>e. \<not> P e) e1"
    using sendsD [OF assms(2) q] by blast
  obtain w' e2 a where "k x v = (Some (), w')" "w_events w' = w_events v @ e2 @ [a]" "P a"
    "list_all (\<lambda>e. \<not> P e) e2"
    using assms(3) v unfolding ends_with_answer_def by blast
  then show "\<exists>w' evs a. then_do m k w = (Some (), w') \<and> w_events w' = w_events w @ evs @ [a]
      \<and> P a \<and> list_all (\<lambda>e. \<not> P e) evs"
    using q x e1 by (intro exI [of _ w'] exI [of _ "e1 @ e2"] exI [of _ a]) (simp add: then_do_def)
qed

section \<open>Tasks that return\<close>

lemma returns_task [return_intros]: "returns (task_return x)" "returns (send s)"
  by (simp_all add: returns_def task_return_def send_def)

lemma returns_then [return_intros]:
  assumes "returns m" "\<And>x. returns (k x)" shows "returns (then_do m k)"
proof (rule returnsI)
  fix w r w' assume e: "then_do m k w = (r, w')" and c: "calm w"
  obtain q v where q: "m w = (q, v)" by fastforce
  from returnsD [OF assms(1) q c] show "r \<noteq> None \<and> calm w'"
    using e q returnsD [OF assms(2), of _ v r w'] by (auto simp: then_do_def)
qed

lemma returns_texted [return_intros]: "returns m \<Longrightarrow> returns (texted env m)"
  by (rule returnsI) (auto simp: texted_def dest: returnsD split: prod.splits)

lemma returns_token [return_intros]: "returns (token_cancelled env tok)"
  by (rule returnsI) (auto simp: token_cancelled_def calm_cancelled split: prod.splits)

lemma returns_forwarded [return_intros]:
  assumes "returns m" shows "returns (forwarded f m)"
proof (rule returnsI)
  fix w r w' assume e: "forwarded f m w = (r, w')" and c: "calm w"
  let ?v = "\<lparr>w_fs = w_fs w, w_now = w_now w, w_tick = w_tick w, w_ran = w_ran w, w_events = []\<rparr>"
  obtain q v where q: "m ?v = (q, v)" by fastforce
  have "calm ?v" using c by (simp add: calm_def)
  from returnsD [OF assms q this] show "r \<noteq> None \<and> calm w'"
    using e q by (auto simp: forwarded_def calm_def)
qed

lemma returns_run_kind [return_intros]:
  "children_end (wk_host env) \<Longrightarrow> returns (run_kind env c)"
  "children_end (wk_host env) \<Longrightarrow> returns (run_kind_cancel env tok c)"
  by (auto simp: run_kind_def run_kind_cancel_def intro!: return_intros)

lemma returns_probe: "children_end (wk_host env) \<Longrightarrow> returns (probe_status env n)"
  by (rule returnsI) (auto simp: probe_status_def Let_def dest: returnsD [OF returns_run_cmd]
    split: prod.splits option.splits sum.splits if_splits)

lemma returns_probe_all [return_intros]: "children_end (wk_host env) \<Longrightarrow> returns (probe_all env ns)"
  by (induction ns) (auto intro!: return_intros returns_probe)

lemma returns_fs_task [return_intros]: "steady m \<Longrightarrow> returns (texted env (prov_fs m))"
  by (intro return_intros)

lemma returns_save [return_intros]: "returns (save_record env spec)"
proof (rule returnsI)
  fix w :: wworld and r w' assume "save_record env spec w = (r, w')" "calm w"
  then show "r \<noteq> None \<and> calm w'"
    using returnsD [OF returns_fs_task [OF steady_store(3)]] by (simp add: save_record_def)
qed

lemma returns_phase_step [return_intros]:
  "returns act \<Longrightarrow> returns rest \<Longrightarrow> returns (phase_step n g i act rest)"
  by (auto simp: phase_step_def progress_def intro!: return_intros split: sum.split)

lemma returns_delete [return_intros]:
  "children_end (wk_host env) \<Longrightarrow> returns (delete_cluster env n g tok)"
  by (auto simp: delete_cluster_def progress_def intro!: return_intros split: sum.split)

lemma returns_destroy [return_intros]:
  "children_end (wk_host env) \<Longrightarrow> returns (destroy_phase env n g b tok)"
  by (auto simp: destroy_phase_def remove_kube_context_def remove_stored_def
      intro!: return_intros steady_intros)

lemma returns_create [return_intros]:
  assumes "children_end (wk_host env)" shows "returns (create_phase env spec g tok)"
proof -
  have v: "returns (\<lambda>w. case run_cmd (wk_host env) c w of (r, w1) \<Rightarrow> (map_option detect_cilium_version r, w1))" for c
    by (rule returnsI) (auto dest: returnsD [OF returns_run_cmd [OF assms]] split: prod.splits)
  have p: "returns (run_plan (wk_host env) plan t)"
    if "build_plan_with_cilium_version ty sp dir kc ver = Inr plan" for plan t ty sp dir kc ver
    using returns_run_plan [OF assms, of plan t] chain_sorts [of plan] built_plan [OF that]
      distinct_plan_ids [of sp] by simp
  show ?thesis
    by (auto simp: create_phase_def intro!: return_intros v p split: sum.split)
qed

lemma returns_fetch [return_intros]: "returns (fetch_topology env n)"
proof -
  have k: "returns (\<lambda>w. (Some (f w), w))" for f by (simp add: returns_def)
  show ?thesis unfolding fetch_topology_def by (intro return_intros k steady_intros)
qed

section \<open>What is sent on the way\<close>

lemma sends_then:
  assumes "sends P m" "\<And>x. sends P (k x)" shows "sends P (then_do m k)"
proof (rule sendsI)
  fix w r w' assume e: "then_do m k w = (r, w')"
  obtain q v where q: "m w = (q, v)" by fastforce
  show "\<exists>evs. w_events w' = w_events w @ evs \<and> list_all P evs"
  proof (cases q)
    case None
    then show ?thesis using e q sendsD [OF assms(1) q] by (simp add: then_do_def)
  next
    case (Some x)
    then have "k x v = (r, w')" using e q by (simp add: then_do_def)
    with sends_chain [OF assms(1) assms(2) q] show ?thesis by blast
  qed
qed

lemma sends_task [wf_intros]: "sends P (task_return x)" "P s \<Longrightarrow> sends P (send s)"
  by (auto simp: sends_def task_return_def send_def emit_def)

lemma sends_texted: "sends P m \<Longrightarrow> sends P (texted env m)"
  by (rule sendsI) (auto simp: texted_def dest: sendsD split: prod.splits)

lemma sends_forwarded:
  assumes "\<And>ev. P (f ev)" shows "sends P (forwarded f m)"
  using assms by (auto simp: sends_def forwarded_def list_all_iff split: prod.split)

lemma sends_kind:
  "sends P (run_kind env c)" "sends P (run_kind_cancel env tok c)"
  by (simp_all add: run_kind_def run_kind_cancel_def sends_texted sends_run)

lemma sends_token: "sends P (token_cancelled env tok)"
  by (auto intro!: sends_quiet simp: token_cancelled_def is_cancelled_events split: prod.split)

lemma sends_fs_task: "sends P (texted env (prov_fs m))"
  by (simp add: sends_texted sends_io)

lemma sends_save: "sends P (save_record env spec)"
  using sends_fs_task unfolding sends_def save_record_def by blast

lemma sends_fetch: "sends P (fetch_topology env n)"
  unfolding fetch_topology_def by (intro sends_then sends_fs_task) (auto intro: sends_quiet)

lemma sends_probe: "sends P (probe_status env n)"
  by (auto intro!: sends_quiet simp: probe_status_def Let_def run_cmd_events
      split: prod.split option.split sum.split)

lemma sends_probe_all:
  "(\<And>n st. P (Progress (EvClusterStatus n st))) \<Longrightarrow> sends P (probe_all env ns)"
  by (induction ns) (auto intro!: sends_then sends_task sends_probe)

lemma sends_phase_step:
  assumes "\<And>ev. P (Progress (EvProvision n g ev))" "sends P act" "sends P rest"
  shows "sends P (phase_step n g i act rest)"
  using assms by (auto simp: phase_step_def progress_def intro!: sends_then sends_task split: sum.split)

lemma sends_destroy:
  assumes "\<And>ev. P (Progress (EvProvision n g ev))" shows "sends P (destroy_phase env n g b tok)"
  using assms
  by (auto simp: destroy_phase_def delete_cluster_def progress_def remove_kube_context_def remove_stored_def
      intro!: sends_phase_step sends_then sends_task sends_kind sends_token sends_texted sends_io sends_bind
      split: sum.split)

lemma sends_create:
  assumes "\<And>ev. P (Progress (EvProvision (cs_name spec) g ev))" shows "sends P (create_phase env spec g tok)"
proof -
  have v: "sends P (\<lambda>w. case run_cmd (wk_host env) c w of (r, w1) \<Rightarrow> (map_option detect_cilium_version r, w1))" for c
    by (auto intro!: sends_quiet simp: run_cmd_events split: prod.split)
  show ?thesis using assms
    by (auto simp: create_phase_def intro!: sends_then sends_task sends_forwarded v split: sum.split)
qed

lemma sends_create_and_save:
  assumes "\<And>ev. P (Progress (EvProvision (cs_name spec) g ev))" shows "sends P (create_and_save env spec g tok)"
  using assms
  by (auto simp: create_and_save_def intro!: sends_then sends_create sends_task sends_save split: sum.split)

lemma sends_docker: "sends P (check_docker_daemon env)"
  by (auto intro!: sends_quiet simp: check_docker_daemon_def check_docker_daemon_with_path_def Let_def
      run_cmd_events split: prod.split)

lemma sends_ensure: "sends P (ensure_kube_context env n)"
  by (auto simp: ensure_kube_context_def intro!: sends_bind sends_io sends_run)

section \<open>Every request is answered\<close>

lemma returns_create_and_save [return_intros]:
  "children_end (wk_host env) \<Longrightarrow> returns (create_and_save env spec g tok)"
  by (auto simp: create_and_save_def intro!: return_intros split: sum.split)

lemma returns_ensure [return_intros]: "children_end (wk_host env) \<Longrightarrow> returns (ensure_kube_context env n)"
  by (auto simp: ensure_kube_context_def intro!: return_intros steady_intros)

lemma answer_tail:
  assumes "children_end (wk_host env)"
  shows "ends_with_answer (answers (CmdStartLogs n source False t g)) (tail_logs env n source tail g)"
  unfolding tail_logs_def
proof (rule answer_then)
  show "returns (texted env (read_logs (wk_host env) source tail))"
    using assms by (auto simp: read_logs_def intro!: return_intros)
  show "sends (\<lambda>e. \<not> answers (CmdStartLogs n source False t g) e) (texted env (read_logs (wk_host env) source tail))"
    by (auto simp: read_logs_def intro!: sends_texted sends_bind sends_run sends_io)
  show "ends_with_answer (answers (CmdStartLogs n source False t g))
      (case r of Inr lines \<Rightarrow> (\<lambda>w. send (Outcome (EvLogEnded n g (Inr ())))
                  (emit_all (map (\<lambda>l. Progress (EvLogLine n g l)) lines) w))
       | Inl err \<Rightarrow> send (Outcome (EvLogEnded n g (Inl err))))" for r
    by (cases r) (auto simp: answer_send, auto simp: ends_with_answer_def send_def emit_def emit_all_def list_all_iff)
qed

lemmas send_rules = sends_then sends_task sends_kind sends_texted sends_io sends_save sends_fetch
  sends_docker sends_ensure sends_probe_all sends_destroy sends_create_and_save sends_forwarded

lemma steady_reconcile_listing [steady_intros]:
  "steady (\<lambda>f. reconcile se (listing (fs_nodes f)) root live f)"
  using steady_reconcile by (auto simp: steady_def)

lemma answered:
  assumes "children_end (wk_host env)" "answerable c"
  shows "ends_with_answer (answers c) (run_command env ch tok c)"
proof (cases c)
  case (CmdStartLogs n source follow t g)
  then show ?thesis using assms answer_tail by (auto simp: do_logs_def)
qed (use assms in \<open>auto simp: do_reconcile_def do_check_docker_def do_install_def do_create_def done_op_def
    do_destroy_def do_recreate_def do_check_context_def do_ensure_context_def do_export_logs_def
    do_fetch_topology_def Let_def
    intro!: answer_then answer_send return_intros send_rules steady_intros split: sum.split\<close>)

text \<open>C4: When the process is not killed and every child it starts ends, the task of a request returns,
  whatever fails in it and whenever its token fires; its last event is the answer to the request, and
  it answers nothing before.\<close>

theorem requests_answered:
  assumes "calm w" and "children_end (wk_host env)" and "answerable c"
  shows "\<exists>w' evs a. run_command env ch token c w = (Some (), w') \<and> w_events w' = w_events w @ evs @ [a]
     \<and> answers c a \<and> filter (answers c) evs = []"
proof -
  obtain w' evs a where "run_command env ch token c w = (Some (), w')" "w_events w' = w_events w @ evs @ [a]"
    "answers c a" "list_all (\<lambda>e. \<not> answers c e) evs"
    using answered [OF assms(2,3), of ch token] assms(1) unfolding ends_with_answer_def by blast
  then show ?thesis
    by (intro exI [of _ w'] exI [of _ evs] exI [of _ a]) (simp add: filter_empty_conv list_all_iff)
qed

lemma children_end_example: "children_end (env_example code)"
  by (simp add: children_end_def env_example_def child_example_def)

lemma requests_answered_witness:
  "\<forall>ch. \<exists>w' evs a. run_command worker_env_example ch 0 (CmdDestroyCluster ''dev'' 3) world_example = (Some (), w')
     \<and> w_events w' = evs @ [a] \<and> answers (CmdDestroyCluster ''dev'' 3) a"
proof
  fix ch
  have "calm (world_example :: wworld)"
    by (simp add: calm_def no_crash_def world_example_def fs_example_def)
  moreover have "children_end (wk_host worker_env_example)"
    by (simp add: worker_env_example_def children_end_example)
  ultimately show "\<exists>w' evs a. run_command worker_env_example ch 0 (CmdDestroyCluster ''dev'' 3) world_example = (Some (), w')
     \<and> w_events w' = evs @ [a] \<and> answers (CmdDestroyCluster ''dev'' 3) a"
    using requests_answered [of "world_example :: wworld" worker_env_example "CmdDestroyCluster ''dev'' 3" ch 0]
    by (force simp: world_example_def)
qed

section \<open>A destroy cleans up only what is gone\<close>

definition children_leave_files :: "host_env \<Rightarrow> bool" where
  "children_leave_files env \<longleftrightarrow> (\<forall>t c n ch. he_spawn env t c n = Inr ch \<longrightarrow> ch_effect ch n = n)"

text \<open>The cluster is gone: \<open>kind delete\<close> succeeded, or it failed, not by its token, and the listing taken
  then does not have the name.\<close>

definition cluster_gone :: "worker_env \<Rightarrow> string \<Rightarrow> nat \<Rightarrow> wworld \<Rightarrow> bool" where
  "cluster_gone env n tok w \<longleftrightarrow>
     (case run_kind_cancel env tok (KindDelete n) w of
        (Some (Inr _), _) \<Rightarrow> True
      | (Some (Inl _), w1) \<Rightarrow>
          (case token_cancelled env tok w1 of
             (Some False, w2) \<Rightarrow>
               (case run_kind env KindGetClusters w2 of
                  (Some (Inr output), _) \<Rightarrow> n \<notin> set (parse_kind_get_clusters (out_stdout output))
                | _ \<Rightarrow> False)
           | _ \<Rightarrow> False)
      | _ \<Rightarrow> False)"

lemma run_cmd_files:
  "children_leave_files env \<Longrightarrow> run_cmd env c w = (r, w') \<Longrightarrow> fs_nodes (w_fs w') = fs_nodes (w_fs w)"
  by (auto simp: run_cmd_def after_child_def children_leave_files_def split: sum.splits)

lemma run_kind_files:
  assumes "children_leave_files (wk_host env)"
  shows "run_kind env c w = (r, w') \<Longrightarrow> fs_nodes (w_fs w') = fs_nodes (w_fs w)"
    "run_kind_cancel env tok c w = (r, w') \<Longrightarrow> fs_nodes (w_fs w') = fs_nodes (w_fs w)"
  using assms
  by (auto simp: run_kind_def run_kind_cancel_def texted_def prov_run_def dest: run_cmd_files split: prod.splits)

lemma token_files: "token_cancelled env tok w = (r, w') \<Longrightarrow> w_fs w' = w_fs w"
  by (auto simp: token_cancelled_def is_cancelled_def split: prod.splits option.splits)

lemma delete_cluster_outcome:
  assumes "children_leave_files (wk_host env)" "delete_cluster env n g tok w = (r, w')"
  shows "fs_nodes (w_fs w') = fs_nodes (w_fs w) \<and> (r = Some (Inr ()) \<longrightarrow> cluster_gone env n tok w)"
proof -
  obtain q w1 where q: "run_kind_cancel env tok (KindDelete n) w = (q, w1)" by fastforce
  have "\<exists>c w2. token_cancelled env tok w1 = (Some c, w2)" by (simp add: token_cancelled_def split: prod.split)
  then obtain c w2 where c: "token_cancelled env tok w1 = (Some c, w2)" by blast
  obtain l w3 where l: "run_kind env KindGetClusters w2 = (l, w3)" by fastforce
  note files = run_kind_files(2) [OF assms(1) q] token_files [OF c] run_kind_files(1) [OF assms(1) l]
  consider (died) "q = None" | (deleted) out where "q = Some (Inr out)" | (failed) e where "q = Some (Inl e)"
    by (metis not_None_eq sumE)
  then show ?thesis
  proof cases
    case died
    then have "(r, w') = (None, w1)" using assms(2) q by (simp add: delete_cluster_def then_do_def)
    then show ?thesis using files by simp
  next
    case deleted
    then have "(r, w') = (Some (Inr ()), w1)" using assms(2) q
      by (simp add: delete_cluster_def then_do_def task_return_def)
    then show ?thesis using files q deleted by (simp add: cluster_gone_def)
  next
    case failed
    note step = delete_cluster_def then_do_def task_return_def progress_def send_def
    show ?thesis
    proof (cases c)
      case True
      then have "(r, w') = (Some (Inl ''cancelled''), w2)" using assms(2) q c failed by (simp add: step)
      then show ?thesis using files by simp
    next
      case False
      show ?thesis
      proof (cases "\<exists>out. l = Some (Inr out) \<and> n \<notin> set (parse_kind_get_clusters (out_stdout out))")
        case True
        then have "r = Some (Inr ()) \<and> w_fs w' = w_fs w3" using assms(2) q c failed l \<open>\<not> c\<close>
          by (auto simp: step emit_def)
        moreover have "cluster_gone env n tok w" using True q c failed l \<open>\<not> c\<close> by (auto simp: cluster_gone_def)
        ultimately show ?thesis using files by simp
      next
        case no: False
        then have "(r, w') = (map_option (\<lambda>_. Inl e) l, w3)" using assms(2) q c failed l \<open>\<not> c\<close>
          by (cases l) (auto simp: step split: sum.splits)
        then show ?thesis using files by auto
      qed
    qed
  qed
qed

lemma phase_step_first:
  assumes "phase_step n g i act rest w = (r, w')"
  shows "\<exists>q w1. act (emit (Progress (EvProvision n g (EvStepStarted i))) w) = (q, w1)
    \<and> (\<forall>e. q = Some (Inl e) \<longrightarrow> r = Some (Inl e) \<and> w' = emit (Progress (EvProvision n g (EvStepFailed i e))) w1)
    \<and> (q = None \<longrightarrow> r = None \<and> w' = w1)"
proof -
  obtain q w1 where q: "act (emit (Progress (EvProvision n g (EvStepStarted i))) w) = (q, w1)" by fastforce
  have "(r, w') = (None, w1)" if "q = None"
    using assms q that by (simp add: phase_step_def progress_def then_do_def send_def)
  moreover have "(r, w') = (Some (Inl e), emit (Progress (EvProvision n g (EvStepFailed i e))) w1)"
    if "q = Some (Inl e)" for e
    using assms q that by (simp add: phase_step_def progress_def then_do_def send_def task_return_def)
  ultimately show ?thesis by (intro exI [of _ q] exI [of _ w1]) (simp add: q)
qed

lemma unit_result: "r \<noteq> Some (Inr ()) \<Longrightarrow> r = None \<or> (\<exists>e. r = Some (Inl e))"
  by (cases r; cases "the r") auto

lemma emit_fs [simp]: "w_fs (emit ev w) = w_fs w"
  by (simp add: emit_def)

lemma destroy_phase_guarded:
  assumes "children_leave_files (wk_host env)" "destroy_phase env n g b tok w = (r, w')"
    "\<not> cluster_gone env n tok (emit (Progress (EvProvision n g (EvStepStarted ''destroy-kind''))) w)"
  shows "fs_nodes (w_fs w') = fs_nodes (w_fs w) \<and> r \<noteq> Some (Inr ())"
proof -
  from phase_step_first [OF assms(2) [unfolded destroy_phase_def]] obtain q w1 where
    a: "delete_cluster env n g tok (emit (Progress (EvProvision n g (EvStepStarted ''destroy-kind''))) w) = (q, w1)"
    and f: "\<forall>e. q = Some (Inl e) \<longrightarrow> r = Some (Inl e) \<and> w' = emit (Progress (EvProvision n g (EvStepFailed ''destroy-kind'' e))) w1"
    and none: "q = None \<longrightarrow> r = None \<and> w' = w1" by (elim exE conjE) (rule that; assumption)
  have w1: "fs_nodes (w_fs w1) = fs_nodes (w_fs w)" and "q \<noteq> Some (Inr ())"
    using delete_cluster_outcome [OF assms(1) a] assms(3) by (simp_all only: emit_fs simp_thms)
  from unit_result [OF this(2)] show ?thesis
  proof
    assume "q = None"
    then show ?thesis using none w1 by simp
  next
    assume "\<exists>e. q = Some (Inl e)"
    then obtain e where "q = Some (Inl e)" by (rule exE)
    with f have "r = Some (Inl e)" "w' = emit (Progress (EvProvision n g (EvStepFailed ''destroy-kind'' e))) w1"
      by (simp_all only: option.inject sum.inject)
    then show ?thesis using w1 by simp
  qed
qed

text \<open>C9: A destroy or the destroy half of a recreate touches no file of its own accord and reports no success
  unless the cluster is gone: \<open>kind delete\<close> succeeded, or the listing taken after its failure does not
  have it.  (The files a child itself leaves are set aside.)\<close>

theorem destroy_needs_gone:
  assumes "children_leave_files (wk_host env)"
    and "\<not> cluster_gone env n tok (emit (Progress (EvProvision n g (EvStepStarted ''destroy-kind''))) w)"
    and "do_destroy env n g tok w = (Some (), w') \<or> do_recreate env n spec g tok w = (Some (), w')"
  shows "fs_nodes (w_fs w') = fs_nodes (w_fs w)
    \<and> (\<exists>e. last (w_events w') = Outcome (EvProvisionDone n g (Inl e)))"
proof -
  have d: "fs_nodes (w_fs v) = fs_nodes (w_fs w) \<and> (r = None \<or> (\<exists>e. r = Some (Inl e)))"
    if "destroy_phase env n g b tok w = (r, v)" for b r v
    using destroy_phase_guarded [OF assms(1) that assms(2)] unit_result by blast
  from assms(3) show ?thesis
  proof
    assume a: "do_destroy env n g tok w = (Some (), w')"
    obtain r v where p: "destroy_phase env n g True tok w = (r, v)" by fastforce
    with a d [OF p] show ?thesis by (auto simp: do_destroy_def then_do_def done_op_def send_def emit_def)
  next
    assume a: "do_recreate env n spec g tok w = (Some (), w')"
    obtain r v where p: "destroy_phase env n g False tok w = (r, v)" by fastforce
    with a d [OF p] show ?thesis
      by (auto simp: do_recreate_def then_do_def done_op_def send_def emit_def task_return_def)
  qed
qed

lemma destroy_needs_gone_witness:
  "\<exists>w' e. do_destroy (worker_env_example\<lparr>wk_host := (env_example 1)\<lparr>he_spawn := \<lambda>_ _ _. Inl not_found\<rparr>\<rparr>)
       ''dev'' 3 0 world_example = (Some (), w')
     \<and> last (w_events w') = Outcome (EvProvisionDone ''dev'' 3 (Inl e))"
proof -
  let ?env = "worker_env_example\<lparr>wk_host := (env_example 1)\<lparr>he_spawn := \<lambda>_ _ _. Inl not_found\<rparr>\<rparr>"
  have "children_leave_files (wk_host ?env)" by (simp add: children_leave_files_def)
  moreover have "\<not> cluster_gone ?env ''dev'' 0 w" for w
    by (simp add: cluster_gone_def run_kind_cancel_def run_kind_def texted_def prov_run_def run_cmd_def
        token_cancelled_def is_cancelled_def split: bool.split)
  moreover have "\<exists>w'. do_destroy ?env ''dev'' 3 0 world_example = (Some (), w')"
    by (simp add: do_destroy_def destroy_phase_def phase_step_def delete_cluster_def run_kind_cancel_def run_kind_def
        texted_def prov_run_def run_cmd_def token_cancelled_def is_cancelled_def then_do_def progress_def send_def
        task_return_def done_op_def split: bool.split)
  ultimately show ?thesis using destroy_needs_gone [of ?env "''dev''" 0 3 world_example] by blast
qed

section \<open>A success is recorded\<close>

lemma save_leaves_record:
  assumes "path_plain root" "save_cluster fe se root r f = (Done (Ok ()), f')"
  shows "\<exists>p json m. cluster_path root (cs_name (cr_spec r)) = Ok p \<and> se_record_to_json se r = Ok json
    \<and> fs_nodes f' p = Some (NFile \<lparr>f_bytes = json, f_mode = m\<rparr>)"
proof -
  obtain p json where p: "cluster_path root (cs_name (cr_spec r)) = Ok p" "se_record_to_json se r = Ok json"
    "write_json p (Ok json) f = (Done (Ok ()), f')"
    using assms(2) by (auto simp: save_cluster_def Let_def split: sum.splits)
  then have "atomic_write_impl p json False f = (Done (), f')"
    by (auto simp: write_json_def atomic_write_def split: prod.splits outcome.splits)
  then show ?thesis using atomic_write_ok [OF cluster_path_plain(1) [OF assms(1) p(1)], of json False f] p by auto
qed

definition recorded :: "worker_env \<Rightarrow> cluster_spec \<Rightarrow> wworld \<Rightarrow> bool" where
  "recorded env spec w \<longleftrightarrow>
     (\<exists>p now json m. cluster_path (wk_root env) (cs_name spec) = Ok p
        \<and> se_record_to_json (wk_state env) (record_managed now spec) = Ok json
        \<and> fs_nodes (w_fs w) p = Some (NFile \<lparr>f_bytes = json, f_mode = m\<rparr>))"

lemma save_record_recorded:
  assumes "path_plain (wk_root env)" "save_record env spec w = (Some (Inr ()), w')"
  shows "recorded env spec w'"
proof -
  obtain f' where s: "save_cluster (wk_fmt env) (wk_state env) (wk_root env)
      (record_managed (wk_clock env (w_now w)) spec) (w_fs w) = (Done (Ok ()), f')" and f: "w_fs w' = f'"
    using assms(2) by (auto simp: save_record_def texted_def prov_fs_def split: prod.splits outcome.splits)
  have "cs_name (cr_spec (record_managed t spec)) = cs_name spec" for t by (simp add: record_managed_def)
  with save_leaves_record [OF assms(1) s] show ?thesis unfolding recorded_def f by metis
qed

lemma create_and_save_recorded:
  assumes "path_plain (wk_root env)" "create_and_save env spec g tok w = (Some (Inr ()), w')"
  shows "recorded env spec w'"
  using assms(2) save_record_recorded [OF assms(1)]
  by (auto simp: create_and_save_def then_do_def task_return_def split: prod.splits option.splits sum.splits)

lemma done_op_run:
  assumes "then_do m (done_op n g) w = (Some (), w')"
  shows "\<exists>r v. m w = (Some r, v) \<and> w_fs w' = w_fs v \<and> w_events w' = w_events v @ [Outcome (EvProvisionDone n g r)]"
  using assms by (auto simp: then_do_def done_op_def send_def emit_def split: prod.splits option.splits)

text \<open>C15: A create or a recreate that reports success leaves the record of its very specification in the
  directory of records, as the file of its name.\<close>

theorem success_is_recorded:
  assumes "path_plain (wk_root env)"
    and "c = CmdCreateCluster spec g \<or> c = CmdRecreateCluster n spec g"
    and "run_command env ch tok c w = (Some (), w')"
    and "last (w_events w') = Outcome (EvProvisionDone m h (Inr ()))"
  shows "recorded env spec w'"
proof -
  have k: "recorded env spec w'" if "create_and_save env spec g tok u = (Some (Inr ()), v)" "w_fs w' = w_fs v" for u v
    using create_and_save_recorded [OF assms(1) that(1)] that(2) by (simp add: recorded_def)
  from assms(2) show ?thesis
  proof
    assume c: "c = CmdCreateCluster spec g"
    obtain pre v where p: "run_kind env KindGetClusters w = (Some pre, v)"
      using assms(3) by (auto simp: c do_create_def then_do_def split: prod.splits option.splits)
    show ?thesis
    proof (cases "case pre of Inr output \<Rightarrow> cs_name spec \<in> set (parse_kind_get_clusters (out_stdout output))
        | Inl _ \<Rightarrow> False")
      case True
      then have "last (w_events w') = Outcome (EvProvisionDone (cs_name spec) g (Inl ALREADY_EXISTS))"
        using assms(3) p by (auto simp: c do_create_def then_do_def done_op_def send_def emit_def)
      then show ?thesis using assms(4) by simp
    next
      case False
      then have "then_do (create_and_save env spec g tok) (done_op (cs_name spec) g) v = (Some (), w')"
        using assms(3) p unfolding c run_command.simps do_create_def by (simp add: then_do_def [of "run_kind env KindGetClusters"])
      from done_op_run [OF this] obtain r u where
        "create_and_save env spec g tok v = (Some r, u)" "w_fs w' = w_fs u"
        "w_events w' = w_events u @ [Outcome (EvProvisionDone (cs_name spec) g r)]" by blast
      then show ?thesis using assms(4) k by simp
    qed
  next
    assume c: "c = CmdRecreateCluster n spec g"
    from assms(3) have "then_do (then_do (destroy_phase env n g False tok) (\<lambda>r.
        case r of Inr _ \<Rightarrow> create_and_save env spec g tok | Inl err \<Rightarrow> task_return (Inl err))) (done_op n g) w = (Some (), w')"
      by (simp add: c do_recreate_def)
    from done_op_run [OF this] obtain r u where
      "then_do (destroy_phase env n g False tok) (\<lambda>r. case r of Inr _ \<Rightarrow> create_and_save env spec g tok
          | Inl err \<Rightarrow> task_return (Inl err)) w = (Some r, u)" "w_fs w' = w_fs u"
      "w_events w' = w_events u @ [Outcome (EvProvisionDone n g r)]" by blast
    moreover from this(3) assms(4) have "r = Inr ()" by simp
    ultimately obtain x v where "destroy_phase env n g False tok w = (Some x, v)"
      "(case x of Inr _ \<Rightarrow> create_and_save env spec g tok | Inl err \<Rightarrow> task_return (Inl err)) v = (Some (Inr ()), u)"
      by (auto simp: then_do_def split: prod.splits option.splits)
    then have "create_and_save env spec g tok v = (Some (Inr ()), u)"
      by (cases x) (simp_all add: task_return_def)
    then show ?thesis using \<open>w_fs w' = w_fs u\<close> by (rule k)
  qed
qed

lemma success_is_recorded_witness:
  "\<exists>w'. do_create calm_worker dev_spec 1 0 world_example = (Some (), w') \<and> recorded calm_worker dev_spec w'"
proof -
  obtain w' where w': "do_create calm_worker dev_spec 1 0 world_example = (Some (), w')"
    "last (w_events w') = Outcome (EvProvisionDone ''dev'' 1 (Inr ()))"
    using dev_created by (elim exE conjE) (rule that)
  have "path_plain (wk_root calm_worker)" by (simp add: path_plain_def path_file_name_def)
  moreover have "run_command calm_worker undefined 0 (CmdCreateCluster dev_spec 1) world_example = (Some (), w')"
    using w'(1) by simp
  ultimately have "recorded calm_worker dev_spec w'"
    using success_is_recorded [OF _ disjI1 [OF refl] _ w'(2)] by blast
  then show ?thesis using w'(1) by (intro exI conjI)
qed

section \<open>Followed logs\<close>

text \<open>The lines that arrive before the last tick, and the condition that no more lines than the ring holds
  arrive between two ticks.\<close>

fun ticked :: "nat \<Rightarrow> nat \<Rightarrow> log_act list \<Rightarrow> nat" where
  "ticked shown arrived [] = shown"
| "ticked shown arrived (LogArrives k # acts) = ticked shown (arrived + k) acts"
| "ticked shown arrived (LogTick # acts) = ticked arrived arrived acts"
| "ticked shown arrived (_ # acts) = ticked shown arrived acts"

fun gaps_fit :: "nat \<Rightarrow> log_act list \<Rightarrow> bool" where
  "gaps_fit room [] \<longleftrightarrow> True"
| "gaps_fit room (LogArrives k # acts) \<longleftrightarrow> k \<le> room \<and> gaps_fit (room - k) acts"
| "gaps_fit room (LogTick # acts) \<longleftrightarrow> gaps_fit DEFAULT_LOG_RING_CAP acts"
| "gaps_fit room (_ # acts) \<longleftrightarrow> gaps_fit room acts"

definition pump_sound :: "string list \<Rightarrow> log_pump \<Rightarrow> bool" where
  "pump_sound lines p \<longleftrightarrow> lp_rest p = drop (lp_taken p) lines \<and> lp_taken p \<le> length lines
     \<and> ring.sound (lp_ring p) \<and> lr_cap (lp_ring p) = DEFAULT_LOG_RING_CAP
     \<and> subseq (lp_sent p @ lr_lines (lp_ring p)) (take (lp_taken p) lines)"

lemma ring_extended:
  assumes "ring.sound r"
  shows "ring.sound (ring_extend xs r)" "lr_cap (ring_extend xs r) = lr_cap r"
    and "lr_lines (ring_extend xs r) = take_last (lr_cap r) (lr_lines r @ xs)"
  using ring.sound_fold [OF assms] ring.bound_fold ring.content_fold [OF assms]
  by (simp_all add: ring_extend_def ring_snapshot_def)

lemma take_grown:
  "take (t + min k (length lines - t)) lines = take t lines @ take k (drop t lines)"
  "take (t + min (length lines - t) k) lines = take t lines @ take k (drop t lines)"
  by (simp_all add: take_add min_def)

lemma drop_grown:
  "drop (t + min k (length lines - t)) lines = drop (k + t) lines"
  "drop (t + min (length lines - t) k) lines = drop (k + t) lines"
  by (simp_all add: min_def add.commute)

lemma log_step_sound: "pump_sound lines p \<Longrightarrow> pump_sound lines (log_step a p)"
proof (cases a)
  case (LogArrives k)
  assume p: "pump_sound lines p"
  let ?new = "take k (lp_rest p)"
  have r: "ring.sound (lp_ring p)" using p by (simp add: pump_sound_def)
  have "subseq (lr_lines (ring_extend ?new (lp_ring p))) (lr_lines (lp_ring p) @ ?new)"
    unfolding ring_extended(3) [OF r] take_last_def by (rule suffix_imp_subseq [OF suffix_drop])
  then have "subseq (lp_sent p @ lr_lines (ring_extend ?new (lp_ring p))) (lp_sent p @ lr_lines (lp_ring p) @ ?new)"
    by (rule list_emb_append_mono [OF subseq_order.order_refl])
  moreover have "subseq ((lp_sent p @ lr_lines (lp_ring p)) @ ?new) (take (lp_taken p) lines @ ?new)"
    using p unfolding pump_sound_def by (intro list_emb_append_mono subseq_order.order_refl) simp
  ultimately have "subseq (lp_sent p @ lr_lines (ring_extend ?new (lp_ring p))) (take (lp_taken p) lines @ ?new)"
    by (auto intro: subseq_order.trans)
  then show ?thesis using p LogArrives ring_extended [OF r]
    by (auto simp: pump_sound_def take_grown drop_grown)
next
  case LogTick
  assume "pump_sound lines p"
  then show ?thesis using LogTick
    by (auto simp: pump_sound_def ring_snapshot_def ring_clear_def ring.sound_def)
qed (auto simp: pump_sound_def)

lemma log_fold_sound: "pump_sound lines p \<Longrightarrow> pump_sound lines (fold log_step acts p)"
  by (induction acts arbitrary: p) (simp_all add: log_step_sound)

lemma log_start_sound: "pump_sound lines (log_start lines)"
  using ring_new_sound [of DEFAULT_LOG_RING_CAP]
  by (simp add: pump_sound_def log_start_def) (simp add: ring_new_def DEFAULT_LOG_RING_CAP_def)

text \<open>While the pump lives and the ring has room, what was sent and what waits in the ring are the lines
  taken so far.\<close>

definition pump_full :: "nat \<Rightarrow> string list \<Rightarrow> log_pump \<Rightarrow> bool" where
  "pump_full room lines p \<longleftrightarrow> pump_sound lines p
     \<and> (lp_alive p \<longrightarrow> length (lr_lines (lp_ring p)) + room \<le> DEFAULT_LOG_RING_CAP
          \<and> lp_sent p @ lr_lines (lp_ring p) = take (lp_taken p) lines)
     \<and> prefix (lp_sent p) lines"

lemma full_arrives:
  assumes "pump_full room lines p" "k \<le> room"
  shows "pump_full (room - k) lines (log_step (LogArrives k) p)"
proof (cases "lp_alive p \<and> lp_stop p = None")
  case True
  let ?new = "take k (lp_rest p)"
  have p: "pump_sound lines p" "length (lr_lines (lp_ring p)) + room \<le> DEFAULT_LOG_RING_CAP"
    "lp_sent p @ lr_lines (lp_ring p) = take (lp_taken p) lines"
    using assms True by (simp_all add: pump_full_def)
  have r: "ring.sound (lp_ring p)" "lr_cap (lp_ring p) = DEFAULT_LOG_RING_CAP"
    "lp_rest p = drop (lp_taken p) lines" "lp_taken p \<le> length lines" using p(1) by (simp_all add: pump_sound_def)
  have "length ?new \<le> k" by simp
  then have fit: "length (lr_lines (lp_ring p) @ ?new) \<le> DEFAULT_LOG_RING_CAP - (room - k)"
    using p(2) assms(2) unfolding length_append by linarith
  then have "lr_lines (ring_extend ?new (lp_ring p)) = lr_lines (lp_ring p) @ ?new"
    by (simp add: ring_extended(3) [OF r(1)] r(2) take_last_def)
  then show ?thesis
    using assms True fit p r(3,4) log_step_sound [OF p(1), of "LogArrives k"]
    by (auto simp: pump_full_def take_grown simp flip: append_assoc)
next
  case False
  then show ?thesis
    using assms log_step_sound [of lines p "LogArrives k"]
    by (cases "lp_alive p") (auto simp: pump_full_def)
qed

lemma full_step:
  assumes "pump_full room lines p" "a \<noteq> LogTick" "\<forall>k. a \<noteq> LogArrives k"
  shows "pump_full room lines (log_step a p)"
  using assms log_step_sound [of lines p a] by (cases a) (auto simp: pump_full_def)

lemma full_tick:
  assumes "pump_full room lines p"
  shows "pump_full DEFAULT_LOG_RING_CAP lines (log_step LogTick p)"
  using assms log_step_sound [of lines p LogTick] take_is_prefix [of "lp_taken p" lines]
  by (auto simp: pump_full_def ring_snapshot_def ring_clear_def)

lemma full_fold: "gaps_fit room acts \<Longrightarrow> pump_full room lines p
    \<Longrightarrow> \<exists>room'. pump_full room' lines (fold log_step acts p)"
proof (induction room acts arbitrary: p rule: gaps_fit.induct)
  case (1 room)
  then show ?case by auto
next
  case (2 room k acts)
  then show ?case using full_arrives by (simp del: log_step.simps)
next
  case (3 room acts)
  then show ?case using full_tick by (simp del: log_step.simps)
qed (use full_step in \<open>simp_all del: log_step.simps\<close>)

lemma log_start_full: "pump_full DEFAULT_LOG_RING_CAP lines (log_start lines)"
  using log_start_sound by (simp add: pump_full_def) (simp add: log_start_def ring_new_def)

text \<open>Before the token fires the pump is alive, the stream goes on, and a tick sends all that arrived.\<close>

lemma unfired_sent:
  assumes "gaps_fit room acts" "pump_full room lines p" "LogFire \<notin> set acts"
    and "lp_alive p" "\<not> lp_fired p" "lp_stop p = None"
    and "take (lp_taken p) lines = take arrived lines" "lp_sent p = take shown lines"
  shows "lp_sent (fold log_step acts p) = take (ticked shown arrived acts) lines"
  using assms
proof (induction room acts arbitrary: p shown arrived rule: gaps_fit.induct)
  case (2 room k acts)
  have s: "pump_sound lines p" using 2(3) by (simp add: pump_full_def)
  let ?p = "log_step (LogArrives k) p"
  have "take (lp_taken ?p) lines = take (lp_taken p) lines @ take k (drop (lp_taken p) lines)"
    using s 2(7) by (simp add: pump_sound_def take_grown)
  moreover have "take (lp_taken p + k) lines = take (arrived + k) lines"
  proof (cases "lp_taken p = length lines")
    case True
    then have "length lines \<le> arrived" using arg_cong [OF 2(8), of length] by simp
    then show ?thesis using True by simp
  next
    case False
    then have "lp_taken p < length lines" using s by (simp add: pump_sound_def)
    then have "arrived = lp_taken p" using arg_cong [OF 2(8), of length] by simp
    then show ?thesis by simp
  qed
  ultimately have "take (lp_taken ?p) lines = take (arrived + k) lines" by (simp add: take_add)
  moreover have "pump_full (room - k) lines ?p" using 2(2,3) full_arrives by (simp del: log_step.simps)
  ultimately show ?case using 2 by simp
next
  case (3 room acts)
  then have "pump_full DEFAULT_LOG_RING_CAP lines (log_step LogTick p)" by (simp only: full_tick)
  moreover have "lp_sent (log_step LogTick p) = take arrived lines"
    using 3 by (simp add: pump_full_def ring_snapshot_def)
  ultimately show ?case using 3 by simp
qed simp_all

lemma log_step_fired:
  "lp_fired (log_step a p) \<Longrightarrow> lp_fired p \<or> a = LogFire"
  "\<not> lp_alive (log_step a p) \<Longrightarrow> lp_alive p \<Longrightarrow> lp_fired p"
  by (cases a; auto split: if_splits)+

lemma pump_needs_fire:
  "(\<not> lp_alive p \<longrightarrow> lp_fired p) \<Longrightarrow> \<not> lp_alive (fold log_step acts p) \<Longrightarrow> lp_fired p \<or> LogFire \<in> set acts"
proof (induction acts arbitrary: p)
  case (Cons a acts)
  have "lp_fired p \<Longrightarrow> lp_fired (log_step a p)" by (cases a) simp_all
  then have "\<not> lp_alive (log_step a p) \<longrightarrow> lp_fired (log_step a p)"
    using Cons.prems(1) log_step_fired(2) [of a p] by blast
  moreover have "\<not> lp_alive (fold log_step acts (log_step a p))" using Cons.prems(2) by simp
  ultimately have "lp_fired (log_step a p) \<or> LogFire \<in> set acts" by (rule Cons.IH)
  then show ?case using log_step_fired(1) [of a p] by auto
qed simp

text \<open>C29: A followed log sends lines of the process in order and none twice, whatever the order of the
  arrivals, the pump's ticks and the cancellation.  When no more lines than the ring holds arrive between two
  ticks it loses none of them on the way, and while the token has not fired all that arrived before the last
  tick is sent.  It reports the end of the stream last, and only after its token has fired, whatever became
  of the process.\<close>

theorem follow_delivers:
  assumes "follow_logs env n source g tok acts w = (res, w')"
  shows "\<exists>sent tail. w_events w' = w_events w @ map (\<lambda>l. Progress (EvLogLine n g l)) sent @ tail
     \<and> subseq sent (watched_lines (wk_host env) source tok w)
     \<and> (gaps_fit DEFAULT_LOG_RING_CAP acts \<longrightarrow> prefix sent (watched_lines (wk_host env) source tok w)
          \<and> (LogFire \<notin> set acts
               \<longrightarrow> sent = take (ticked 0 0 acts) (watched_lines (wk_host env) source tok w)))
     \<and> (tail = [] \<and> res = None
          \<or> LogFire \<in> set acts \<and> res = Some () \<and> (\<exists>e. tail = [Outcome (EvLogEnded n g e)]))"
proof -
  let ?ls = "watched_lines (wk_host env) source tok w"
  let ?p = "log_run acts ?ls"
  obtain q r w1 where q: "watch_logs (wk_host env) source tok (lp_stop ?p) (ring_new DEFAULT_LOG_RING_CAP) w
      = ((q, r), w1)" by (metis surj_pair)
  have e: "w_events w1 = w_events w"
    using q by (auto simp: watch_logs_def Let_def after_child_def split: sum.splits prod.splits bool.splits)
  have "pump_sound ?ls ?p" unfolding log_run_def by (intro log_fold_sound log_start_sound)
  then have "subseq (lp_sent ?p @ lr_lines (lp_ring ?p)) (take (lp_taken ?p) ?ls)"
    by (simp add: pump_sound_def)
  then have sub: "subseq (lp_sent ?p) ?ls"
    by (rule subseq_order.trans [OF prefix_imp_subseq [OF prefixI [OF refl]]
        subseq_order.trans [OF _ prefix_imp_subseq [OF take_is_prefix]]])
  have pre: "prefix (lp_sent ?p) ?ls" if "gaps_fit DEFAULT_LOG_RING_CAP acts"
    using full_fold [OF that log_start_full [of ?ls]] by (auto simp: pump_full_def log_run_def)
  have all: "lp_sent ?p = take (ticked 0 0 acts) ?ls"
    if "gaps_fit DEFAULT_LOG_RING_CAP acts" "LogFire \<notin> set acts"
    unfolding log_run_def
    by (rule unfired_sent [OF that(1) log_start_full that(2)]) (simp_all add: log_start_def)
  have fire: "LogFire \<in> set acts" if "\<not> lp_alive ?p"
    using pump_needs_fire [of "log_start ?ls" acts] that by (simp add: log_run_def log_start_def)
  show ?thesis
  proof (intro exI conjI impI)
    show "subseq (lp_sent ?p) ?ls" by (rule sub)
    show "prefix (lp_sent ?p) ?ls" if "gaps_fit DEFAULT_LOG_RING_CAP acts" using pre that .
    show "lp_sent ?p = take (ticked 0 0 acts) ?ls"
      if "gaps_fit DEFAULT_LOG_RING_CAP acts" "LogFire \<notin> set acts" using all that .
    let ?tail = "case q of Some x \<Rightarrow> if \<not> lp_alive ?p \<and> (lp_stop ?p \<noteq> None \<or> lp_rest ?p = [])
        then [Outcome (EvLogEnded n g (map_err (core_error_text (wk_fmt env)) x))] else [] | None \<Rightarrow> []"
    show "w_events w' = w_events w @ map (\<lambda>l. Progress (EvLogLine n g l)) (lp_sent ?p) @ ?tail"
      using assms q e
      by (auto simp: follow_logs_def Let_def emit_all_def send_def emit_def split: option.splits if_splits)
    show "?tail = [] \<and> res = None
          \<or> LogFire \<in> set acts \<and> res = Some () \<and> (\<exists>e. ?tail = [Outcome (EvLogEnded n g e)])"
      using assms q fire
      by (auto simp: follow_logs_def Let_def send_def split: option.splits if_splits)
  qed
qed

lemma follow_delivers_witness:
  "\<exists>w'. follow_logs worker_env_example ''dev'' (LogDocker ''c'') 4 0 [LogArrives 1, LogTick, LogArrives 5]
       world_example = (None, w')
     \<and> w_events w' = [Progress (EvLogLine ''dev'' 4 ''token: x'')]"
proof -
  let ?acts = "[LogArrives 1, LogTick, LogArrives 5]"
  obtain res w' where e: "follow_logs worker_env_example ''dev'' (LogDocker ''c'') 4 0 ?acts world_example = (res, w')"
    by fastforce
  have l: "watched_lines (wk_host worker_env_example) (LogDocker ''c'') 0 world_example = [''token: x'']"
    by (simp add: watched_lines_def worker_env_example_def env_example_def child_example_def
        forward_example [simplified])
  have none: "w_events world_example = []" by (simp add: world_example_def)
  have "gaps_fit DEFAULT_LOG_RING_CAP ?acts" by (simp add: DEFAULT_LOG_RING_CAP_def)
  with follow_delivers [OF e] have "w_events w' = [Progress (EvLogLine ''dev'' 4 ''token: x'')] \<and> res = None"
    by (auto simp: l none)
  then show ?thesis using e by blast
qed

text \<open>Once the token has fired and both tasks have seen it the end is reported, if the process is reaped.\<close>

lemma log_keeps:
  "lp_fired p \<Longrightarrow> lp_fired (log_step a p)"
  "\<not> lp_alive p \<Longrightarrow> \<not> lp_alive (log_step a p)"
  "lp_stop p \<noteq> None \<Longrightarrow> lp_stop (log_step a p) \<noteq> None"
  by (cases a; simp)+

lemma log_folds:
  "\<not> lp_alive p \<Longrightarrow> \<not> lp_alive (fold log_step acts p)"
  "lp_stop p \<noteq> None \<Longrightarrow> lp_stop (fold log_step acts p) \<noteq> None"
  "lp_fired p \<Longrightarrow> lp_fired (fold log_step acts p)"
  by (induction acts arbitrary: p) (simp_all add: log_keeps del: not_None_eq)

lemma log_sees:
  "lp_fired p \<Longrightarrow> LogPumpSees \<in> set acts \<Longrightarrow> \<not> lp_alive (fold log_step acts p)"
  "lp_fired p \<Longrightarrow> LogWatchSees \<in> set acts \<Longrightarrow> lp_stop (fold log_step acts p) \<noteq> None"
proof (induction acts arbitrary: p)
  case (Cons a acts)
  {
    case 1
    then show ?case using Cons.IH(1) [of "log_step a p"] log_folds(1) [of "log_step a p" acts] log_keeps(1) [of p a]
      by (cases "a = LogPumpSees") auto
  next
    case 2
    then show ?case using Cons.IH(2) [of "log_step a p"] log_folds(2) [of "log_step a p" acts] log_keeps(1) [of p a]
      by (cases "a = LogWatchSees") auto
  }
qed simp_all

lemma follow_ends:
  assumes "acts = before @ LogFire # after" "LogPumpSees \<in> set after" "LogWatchSees \<in> set after"
    and "fst (fst (watch_logs (wk_host env) source tok
           (lp_stop (log_run acts (watched_lines (wk_host env) source tok w))) (ring_new DEFAULT_LOG_RING_CAP) w)) \<noteq> None"
  shows "fst (follow_logs env n source g tok acts w) = Some ()"
proof -
  let ?p = "log_run acts (watched_lines (wk_host env) source tok w)"
  have p: "?p = fold log_step after (log_step LogFire (fold log_step before (log_start (watched_lines (wk_host env) source tok w))))"
    by (simp add: log_run_def assms(1))
  have "\<not> lp_alive ?p" "lp_stop ?p \<noteq> None" unfolding p using assms(2,3) by (intro log_sees; simp)+
  then show ?thesis using assms(4)
    by (auto simp: follow_logs_def Let_def send_def split: prod.splits option.splits)
qed

section \<open>Auto-refresh\<close>

lemma token_ticks: "token_cancelled env tok w = (Some (he_cancelled (wk_host env) (w_tick w)), w\<lparr>w_tick := w_tick w + 1\<rparr>)"
  by (simp add: token_cancelled_def is_cancelled_def)

lemma fetch_once:
  assumes "calm w"
  shows "\<exists>w' r. do_fetch_topology env n g w = (Some (), w') \<and> calm w' \<and> w_tick w' = w_tick w
    \<and> w_events w' = w_events w @ [Progress (EvTopology n g r)]"
proof -
  obtain q v where q: "fetch_topology env n w = (q, v)" by fastforce
  have t: "w_tick v = w_tick w \<and> w_events v = w_events w"
    using q by (auto simp: fetch_topology_def then_do_def texted_def prov_fs_def
      split: prod.splits option.splits outcome.splits)
  obtain r where "q = Some r" "calm v" using returnsD [OF returns_fetch q assms] by blast
  then show ?thesis using q t by (simp add: do_fetch_topology_def then_do_def send_def emit_def calm_def)
qed

lemma auto_refresh_ends:
  assumes "\<forall>t \<ge> T. he_cancelled (wk_host env) t" "calm w" "T - w_tick w < fuel"
  shows "\<exists>w' evs. auto_refresh_loop fuel env n period g tok w = (Some (), w') \<and> w_events w' = w_events w @ evs
    \<and> list_all (answers (CmdFetchTopology n g)) evs \<and> length evs \<le> T - w_tick w"
  using assms(2,3)
proof (induction fuel arbitrary: w)
  case 0
  then show ?case by simp
next
  case (Suc fuel)
  show ?case
  proof (cases "he_cancelled (wk_host env) (w_tick w)")
    case True
    then show ?thesis
      by (intro exI [of _ "w\<lparr>w_tick := w_tick w + 1\<rparr>"] exI [of _ "[]"])
        (simp add: then_do_def token_ticks task_return_def)
  next
    case False
    then have t: "w_tick w < T" using assms(1) by (metis not_less)
    have "calm (w\<lparr>w_tick := w_tick w + 1\<rparr>)" using Suc.prems(1) by simp
    from fetch_once [OF this, of env n g] obtain w2 r where w2:
      "do_fetch_topology env n g (w\<lparr>w_tick := w_tick w + 1\<rparr>) = (Some (), w2)" "calm w2"
      "w_tick w2 = w_tick w + 1" "w_events w2 = w_events w @ [Progress (EvTopology n g r)]" by auto
    note step = then_do_def token_ticks task_return_def task_sleep_def
    show ?thesis
    proof (cases "he_cancelled (wk_host env) (w_tick w2)")
      case True
      then have "auto_refresh_loop (Suc fuel) env n period g tok w = (Some (), w2\<lparr>w_tick := w_tick w2 + 1\<rparr>)"
        using False w2(1) by (simp add: step)
      then show ?thesis using w2 t by auto
    next
      case running: False
      let ?v = "w2\<lparr>w_tick := w_tick w2 + 1, w_now := w_now w2 + period\<rparr>"
      have e: "auto_refresh_loop (Suc fuel) env n period g tok w = auto_refresh_loop fuel env n period g tok ?v"
        using False running w2(1) by (simp add: step)
      have "calm ?v" "T - w_tick ?v < fuel" using w2(2,3) Suc.prems(2) t by auto
      from Suc.IH [OF this] obtain w' evs where "auto_refresh_loop fuel env n period g tok ?v = (Some (), w')"
        "w_events w' = w_events ?v @ evs" "list_all (answers (CmdFetchTopology n g)) evs"
        "length evs \<le> T - w_tick ?v" by blast
      moreover have "answers (CmdFetchTopology n g) (Progress (EvTopology n g r))" by simp
      ultimately show ?thesis using e w2 t
        by (intro exI [of _ w'] exI [of _ "Progress (EvTopology n g r) # evs"]) (auto simp del: answers.simps)
    qed
  qed
qed

text \<open>C31: Once its token has fired for good the auto-refresh returns, however long it ran and whatever its polls
  met; it sends nothing but topologies of its own generation, at most one for each look at the
  token before.\<close>

theorem auto_refresh_stops:
  assumes "calm w" and "\<forall>t \<ge> T. he_cancelled (wk_host env) t" and "T - w_tick w < fuel"
  shows "\<exists>w' evs. do_auto_refresh fuel env n secs g tok w = (Some (), w') \<and> w_events w' = w_events w @ evs
    \<and> list_all (answers (CmdFetchTopology n g)) evs \<and> length evs \<le> T - w_tick w"
  unfolding do_auto_refresh_def by (rule auto_refresh_ends [OF assms(2,1,3)])

lemma auto_refresh_stops_witness:
  "\<exists>w'. do_auto_refresh 7 worker_env_example ''dev'' 5 3 0 world_example = (Some (), w') \<and> length (w_events w') \<le> 1"
proof -
  have "calm (world_example :: wworld)"
    by (simp add: calm_def no_crash_def world_example_def fs_example_def)
  moreover have "\<forall>t \<ge> 1. he_cancelled (wk_host worker_env_example) t"
    by (simp add: worker_env_example_def env_example_def)
  ultimately show ?thesis
    using auto_refresh_stops [of world_example 1 worker_env_example 7 "''dev''" 5 3 0]
    by (force simp: world_example_def)
qed

section \<open>The bus\<close>

text \<open>What the user interface does while a sender waits: it takes events from the front.\<close>

definition drains :: "(core_event queue \<Rightarrow> core_event queue) \<Rightarrow> bool" where
  "drains wait \<longleftrightarrow> (\<forall>q. \<exists>k. wait q = q\<lparr>q_items := drop k (q_items q)\<rparr>)"

text \<open>C32: Delivering an event never exceeds the capacity and never reorders or duplicates what is queued.  An
  outcome is queued at the end unless the bus is disconnected or still full after the grace period;
  a progress event is queued or, under the same condition, replaced by the overflow notice.\<close>

theorem bus_keeps_outcomes:
  assumes "drains wait" and "length (q_items q) \<le> q_cap q"
  shows "length (q_items (bus_deliver wait s q)) \<le> q_cap q
     \<and> (\<exists>old. suffix old (q_items q)
          \<and> q_items (bus_deliver wait s q)
              \<in> {old, old @ [case s of Outcome ev \<Rightarrow> ev | Progress ev \<Rightarrow> ev], old @ [EvBusFull]})
     \<and> (q_connected q \<and> length (q_items (wait q)) < q_cap q \<longrightarrow>
          (case s of
             Outcome ev \<Rightarrow> last (q_items (bus_deliver wait s q)) = ev
           | Progress ev \<Rightarrow> last (q_items (bus_deliver wait s q)) \<in> {ev, EvBusFull}))"
proof -
  obtain k where k: "wait q = q\<lparr>q_items := drop k (q_items q)\<rparr>" using assms(1) unfolding drains_def by blast
  let ?ev = "case s of Outcome ev \<Rightarrow> ev | Progress ev \<Rightarrow> ev" and ?d = "drop k (q_items q)"
  let ?out = "q_items (bus_deliver wait s q)"
  have "?out \<in> {q_items q, q_items q @ [?ev], ?d, ?d @ [?ev], ?d @ [EvBusFull]}"
    by (cases s) (simp_all add: bus_emit_def bus_emit_important_def try_send_def k)
  then have "\<exists>old. suffix old (q_items q) \<and> ?out \<in> {old, old @ [?ev], old @ [EvBusFull]}"
    using suffix_drop [of k "q_items q"] by blast
  moreover have "length ?out \<le> q_cap q" using assms(2)
    by (cases s) (auto simp: bus_emit_def bus_emit_important_def try_send_def k)
  moreover have "q_connected q \<and> length (q_items (wait q)) < q_cap q \<longrightarrow>
      (case s of Outcome ev \<Rightarrow> last ?out = ev | Progress ev \<Rightarrow> last ?out \<in> {ev, EvBusFull})"
    by (cases s) (auto simp: bus_emit_def bus_emit_important_def try_send_def k)
  ultimately show ?thesis by blast
qed

lemma bus_keeps_outcomes_witness:
  "\<exists>q. q_items q = [EvBusFull] \<and> q_cap q = 1
     \<and> last (q_items (bus_deliver (\<lambda>q. q\<lparr>q_items := drop 1 (q_items q)\<rparr>) (Outcome (EvNotice ''x'')) q)) = EvNotice ''x''"
proof -
  let ?q = "\<lparr>q_items = [EvBusFull], q_cap = 1, q_connected = True\<rparr>"
  have "drains (\<lambda>q. q\<lparr>q_items := drop 1 (q_items q)\<rparr>)" by (auto simp: drains_def)
  from bus_keeps_outcomes [OF this, of ?q "Outcome (EvNotice ''x'')"] show ?thesis
    by (intro exI [of _ ?q]) simp
qed

text \<open>The result of a topology poll, of a context check and of the docker probe is sent as droppable progress: with
  the bus full during the grace period it is lost.\<close>

theorem topology_result_can_be_lost:
  "bus_deliver (\<lambda>q. q) (Progress (EvTopology n g r)) \<lparr>q_items = [EvBusFull], q_cap = 1, q_connected = True\<rparr>
     = \<lparr>q_items = [EvBusFull], q_cap = 1, q_connected = True\<rparr>
   \<and> bus_deliver (\<lambda>q. q\<lparr>q_items := []\<rparr>) (Progress (EvTopology n g r))
       \<lparr>q_items = [EvNotice ''x''], q_cap = 1, q_connected = True\<rparr>
     = \<lparr>q_items = [EvBusFull], q_cap = 1, q_connected = True\<rparr>"
  by (simp add: bus_emit_def try_send_def)

end
