(* ===== verification/WorkerLoop.thy ===== *)
theory WorkerLoop
  imports WorkerProps
begin

text \<open>
  The loop of the worker (\<open>worker.rs\<close>, \<open>run_loop\<close> and \<open>op_token\<close>): it takes commands in order, spawns
  a task for each and keeps the cancellation token of the task that holds a slot.  A token that has
  fired is a member of \<open>wl_fired\<close>; what a task does with its token is in theory \<open>WorkerOps\<close>.
\<close>

section \<open>State\<close>

record loop_state =
  wl_cancels :: "string \<Rightarrow> nat option"
  wl_fired :: "nat set"
  wl_next :: nat
  wl_tasks :: "(core_command \<times> nat option) list"
  wl_running :: bool

definition loop_start :: loop_state where
  "loop_start = \<lparr>wl_cancels = (\<lambda>_. None), wl_fired = {}, wl_next = 0, wl_tasks = [], wl_running = True\<rparr>"

text \<open>The start of the worker: without a state directory it reports and ends; a failed clean-up is
  reported only.\<close>

definition worker_start :: "worker_env \<Rightarrow> string + string \<Rightarrow> bool task" where
  "worker_start env built =
     (case built of
        Inl err \<Rightarrow>
          then_do (send (Outcome (EvError ''startup'' (''state directory unavailable: '' @ err))))
            (\<lambda>_. task_return False)
      | Inr root \<Rightarrow>
          then_do (texted env (prov_fs (clean_tmp root))) (\<lambda>r.
            case r of
              Inl err \<Rightarrow>
                then_do (send (Outcome (EvError ''startup'' (''failed to clean tmp dir: '' @ err))))
                  (\<lambda>_. task_return True)
            | Inr _ \<Rightarrow> task_return True))"

section \<open>Tokens\<close>

definition op_token :: "string \<Rightarrow> loop_state \<Rightarrow> nat \<times> loop_state" where
  "op_token key s =
     (wl_next s,
      s\<lparr>wl_cancels := (wl_cancels s)(key \<mapsto> wl_next s), wl_next := wl_next s + 1,
        wl_fired := wl_fired s \<union> set_option (wl_cancels s key)\<rparr>)"

definition cancel_slot :: "string \<Rightarrow> loop_state \<Rightarrow> loop_state" where
  "cancel_slot key s =
     s\<lparr>wl_cancels := (wl_cancels s)(key := None), wl_fired := wl_fired s \<union> set_option (wl_cancels s key)\<rparr>"

definition spawn :: "core_command \<Rightarrow> nat option \<Rightarrow> loop_state \<Rightarrow> loop_state" where
  "spawn c tok s = s\<lparr>wl_tasks := wl_tasks s @ [(c, tok)]\<rparr>"

definition spawn_in :: "string \<Rightarrow> core_command \<Rightarrow> loop_state \<Rightarrow> loop_state" where
  "spawn_in key c s = (let (tok, s1) = op_token key s in spawn c (Some tok) s1)"

section \<open>Dispatch\<close>

fun dispatch :: "core_command \<Rightarrow> loop_state \<Rightarrow> loop_state" where
  "dispatch CmdShutdown s = s\<lparr>wl_running := False, wl_cancels := (\<lambda>_. None), wl_tasks := []\<rparr>"
| "dispatch (CmdInstallTool i) s = spawn_in (''install:'' @ tool_name i) (CmdInstallTool i) s"
| "dispatch (CmdCreateCluster spec g) s = spawn_in (''create:'' @ cs_name spec) (CmdCreateCluster spec g) s"
| "dispatch (CmdDestroyCluster n g) s = spawn_in (''destroy:'' @ n) (CmdDestroyCluster n g) s"
| "dispatch (CmdRecreateCluster n spec g) s = spawn_in (''recreate:'' @ n) (CmdRecreateCluster n spec g) s"
| "dispatch (CmdCancelOp n) s =
     fold cancel_slot [''create:'' @ n, ''destroy:'' @ n, ''recreate:'' @ n] s"
| "dispatch (CmdSetAutoRefresh n secs on g) s =
     (let s1 = cancel_slot (''topo:'' @ n) s
      in if on then spawn_in (''topo:'' @ n) (CmdSetAutoRefresh n secs on g) s1 else s1)"
| "dispatch (CmdStartLogs n source follow tail g) s =
     spawn_in (''logs:'' @ n) (CmdStartLogs n source follow tail g) s"
| "dispatch (CmdStopLogs n) s = cancel_slot (''logs:'' @ n) s"
| "dispatch (CmdOpenK9s n) s = s"
| "dispatch c s = spawn c None s"

text \<open>The slot a task holds.\<close>

fun slot_of :: "core_command \<Rightarrow> string option" where
  "slot_of (CmdInstallTool i) = Some (''install:'' @ tool_name i)"
| "slot_of (CmdCreateCluster spec g) = Some (''create:'' @ cs_name spec)"
| "slot_of (CmdDestroyCluster n g) = Some (''destroy:'' @ n)"
| "slot_of (CmdRecreateCluster n spec g) = Some (''recreate:'' @ n)"
| "slot_of (CmdSetAutoRefresh n secs on g) = Some (''topo:'' @ n)"
| "slot_of (CmdStartLogs n source follow tail g) = Some (''logs:'' @ n)"
| "slot_of c = None"

text \<open>The loop takes a command, or joins a task that is done.\<close>

inductive loop_reachable :: "loop_state \<Rightarrow> bool" where
  start: "loop_reachable loop_start"
| command: "loop_reachable s \<Longrightarrow> wl_running s \<Longrightarrow> loop_reachable (dispatch c s)"
| joined: "loop_reachable s \<Longrightarrow> i < length (wl_tasks s)
    \<Longrightarrow> loop_reachable (s\<lparr>wl_tasks := take i (wl_tasks s) @ drop (Suc i) (wl_tasks s)\<rparr>)"

inductive_cases loop_reachableE: "loop_reachable s"

section \<open>Slots are exclusive\<close>

definition task_tokens :: "loop_state \<Rightarrow> nat list" where
  "task_tokens s = List.map_filter snd (wl_tasks s)"

text \<open>A token is held when it has fired or its slot names it.\<close>

definition held :: "loop_state \<Rightarrow> core_command \<Rightarrow> nat \<Rightarrow> bool" where
  "held s c t \<longleftrightarrow> t \<in> wl_fired s \<or> (slot_of c \<noteq> None \<and> wl_cancels s (the (slot_of c)) = Some t)"

definition slots_ok :: "loop_state \<Rightarrow> bool" where
  "slots_ok s \<longleftrightarrow> distinct (task_tokens s) \<and> (\<forall>t \<in> set (task_tokens s). t < wl_next s)
     \<and> (\<forall>k t. wl_cancels s k = Some t \<longrightarrow> t < wl_next s)
     \<and> (\<forall>c t. (c, Some t) \<in> set (wl_tasks s) \<longrightarrow> held s c t)"

lemma task_tokens_spawn [simp]:
  "task_tokens (spawn c tok s) = task_tokens s @ (case tok of Some t \<Rightarrow> [t] | None \<Rightarrow> [])"
  by (simp add: task_tokens_def spawn_def List.map_filter_def split: option.split)

lemma task_token_mem: "(c, Some t) \<in> set (wl_tasks s) \<Longrightarrow> t \<in> set (task_tokens s)"
  by (force simp: task_tokens_def List.map_filter_def)

lemma slots_ok_cancel:
  assumes "slots_ok s" shows "slots_ok (cancel_slot k s)"
proof -
  have "held s c t \<Longrightarrow> held (cancel_slot k s) c t" for c t
    by (auto simp: held_def cancel_slot_def)
  then show ?thesis using assms by (simp add: slots_ok_def cancel_slot_def task_tokens_def)
qed

lemma slots_ok_spawn_in:
  assumes "slots_ok s" "slot_of c = Some k" shows "slots_ok (spawn_in k c s)"
proof -
  let ?s = "spawn_in k c s"
  have f: "task_tokens ?s = task_tokens s @ [wl_next s]" "wl_next ?s = Suc (wl_next s)"
    "wl_cancels ?s = (wl_cancels s)(k \<mapsto> wl_next s)" "wl_tasks ?s = wl_tasks s @ [(c, Some (wl_next s))]"
    by (simp_all add: spawn_in_def op_token_def) (simp_all add: task_tokens_def spawn_def)
  have "held s c' t \<Longrightarrow> held ?s c' t" for c' t
    by (auto simp: held_def spawn_in_def op_token_def spawn_def)
  moreover have "held ?s c (wl_next s)" using assms(2) by (simp add: held_def f)
  ultimately have "(c', Some t) \<in> set (wl_tasks ?s) \<longrightarrow> held ?s c' t" for c' t
    using assms(1) by (auto simp: slots_ok_def f)
  moreover have "wl_cancels ?s k' = Some t \<longrightarrow> t < wl_next ?s" for k' t
    using assms(1) by (auto simp: slots_ok_def f less_SucI)
  moreover have "distinct (task_tokens ?s)" "\<forall>t \<in> set (task_tokens ?s). t < wl_next ?s"
    using assms(1) by (auto simp: slots_ok_def f less_SucI)
  ultimately show ?thesis by (simp add: slots_ok_def)
qed

lemma slots_ok_spawn:
  assumes "slots_ok s" shows "slots_ok (spawn c None s)"
  using assms by (simp add: slots_ok_def held_def) (auto simp: spawn_def)

lemma slots_ok_shutdown: "slots_ok (s\<lparr>wl_running := False, wl_cancels := (\<lambda>_. None), wl_tasks := []\<rparr>)"
  by (simp add: slots_ok_def task_tokens_def List.map_filter_def)

lemma slots_ok_dispatch: "slots_ok s \<Longrightarrow> slots_ok (dispatch c s)"
  by (cases "(c, s)" rule: dispatch.cases)
    (auto intro!: slots_ok_spawn_in slots_ok_spawn slots_ok_cancel slots_ok_shutdown simp: Let_def)

lemma slots_ok_joined:
  assumes "slots_ok s" "i < length (wl_tasks s)"
  shows "slots_ok (s\<lparr>wl_tasks := take i (wl_tasks s) @ drop (Suc i) (wl_tasks s)\<rparr>)"
proof -
  obtain xs x ys where t: "wl_tasks s = xs @ x # ys" "take i (wl_tasks s) = xs" "drop (Suc i) (wl_tasks s) = ys"
    using id_take_nth_drop [OF assms(2)] by blast
  let ?u = "s\<lparr>wl_tasks := xs @ ys\<rparr>"
  have m: "List.map_filter snd (xs @ ys) = List.map_filter snd xs @ List.map_filter snd ys"
    "task_tokens s = List.map_filter snd xs @ (case snd x of Some t \<Rightarrow> [t] | None \<Rightarrow> []) @ List.map_filter snd ys"
    by (simp_all add: task_tokens_def t(1) List.map_filter_def split: option.split)
  have d: "distinct (task_tokens s)" and b: "\<forall>t \<in> set (task_tokens s). t < wl_next s"
    using assms(1) by (simp_all add: slots_ok_def)
  have "distinct (task_tokens ?u)" "\<forall>t \<in> set (task_tokens ?u). t < wl_next s"
    using d b unfolding m(2) by (auto simp: task_tokens_def [of ?u] m(1))
  moreover have "\<forall>c t. (c, Some t) \<in> set (xs @ ys) \<longrightarrow> held ?u c t"
    using assms(1) by (simp add: slots_ok_def t(1) held_def)
  ultimately have "slots_ok ?u" using assms(1) by (simp add: slots_ok_def)
  then show ?thesis by (simp only: t(2,3))
qed

lemma slots_ok_reachable: "loop_reachable s \<Longrightarrow> slots_ok s"
proof (induction rule: loop_reachable.induct)
  case start
  show ?case by (simp add: slots_ok_def loop_start_def task_tokens_def List.map_filter_def)
qed (simp_all add: slots_ok_dispatch slots_ok_joined)

text \<open>C14: Whatever commands arrive, of the tasks alive on one slot at most one has a token that has not fired;
  so a new operation of a slot has cancelled the one before it.\<close>

theorem slots_exclusive:
  assumes "loop_reachable s" and "wl_tasks s = xs @ (c, Some t) # ys" and "(d, Some u) \<in> set (xs @ ys)"
    and "slot_of d = slot_of c"
  shows "t \<in> wl_fired s \<or> u \<in> wl_fired s"
proof (rule ccontr)
  assume n: "\<not> (t \<in> wl_fired s \<or> u \<in> wl_fired s)"
  have ok: "slots_ok s" using assms(1) by (rule slots_ok_reachable)
  have "held s c t" "held s d u" using ok assms(2,3) by (auto simp: slots_ok_def)
  then have "u = t" using n assms(4) by (auto simp: held_def)
  moreover have "distinct (task_tokens s)" using ok by (simp add: slots_ok_def)
  then have "t \<notin> set (List.map_filter snd (xs @ ys))"
    by (auto simp: task_tokens_def assms(2) List.map_filter_def)
  ultimately show False using assms(3) by (force simp: List.map_filter_def)
qed

lemma slots_exclusive_witness:
  "\<exists>s. loop_reachable s \<and> length (wl_tasks s) = 2 \<and> (0 \<in> wl_fired s \<or> 1 \<in> wl_fired s)"
proof -
  let ?c = "CmdDestroyCluster ''dev''"
  let ?s = "dispatch (?c 2) (dispatch (?c 1) loop_start)"
  note e = spawn_in_def op_token_def spawn_def loop_start_def
  have r: "loop_reachable ?s"
    by (intro loop_reachable.command loop_reachable.start) (simp_all add: e)
  have t: "wl_tasks ?s = [] @ (?c 1, Some 0) # [(?c 2, Some 1)]" by (simp add: e)
  have "0 \<in> wl_fired ?s \<or> 1 \<in> wl_fired ?s"
    by (rule slots_exclusive [OF r t, of "?c 2"]) simp_all
  then show ?thesis using r t by (intro exI [of _ ?s]) simp
qed

section \<open>Cancelling\<close>

lemma cancel_fires: "wl_cancels s k = Some t \<Longrightarrow> t \<in> wl_fired (cancel_slot k s)"
  by (simp add: cancel_slot_def)

lemma cancel_keeps: "t \<in> wl_fired s \<Longrightarrow> t \<in> wl_fired (cancel_slot k s)"
  by (simp add: cancel_slot_def)

lemma cancel_other: "k \<noteq> j \<Longrightarrow> wl_cancels (cancel_slot k s) j = wl_cancels s j"
  by (simp add: cancel_slot_def)

lemma cancel_all_fires:
  assumes "k \<in> set ks" "wl_cancels s k = Some t" shows "t \<in> wl_fired (fold cancel_slot ks s)"
proof -
  have keep: "t \<in> wl_fired s' \<Longrightarrow> t \<in> wl_fired (fold cancel_slot js s')" for js s'
    by (induction js arbitrary: s') (simp_all add: cancel_keeps)
  show ?thesis using assms
  proof (induction ks arbitrary: s)
    case (Cons j ks)
    show ?case
    proof (cases "j = k")
      case True
      then show ?thesis using Cons.prems(2) by (simp add: keep cancel_fires)
    next
      case False
      then show ?thesis using Cons by (simp add: cancel_other)
    qed
  qed simp
qed

text \<open>A cancel command fires the token of every create, destroy and recreate of that name that is alive, and
  a stop or a disabled auto-refresh that of the stream or the refresh.\<close>

theorem cancel_reaches:
  assumes "loop_reachable s" and "(c, Some t) \<in> set (wl_tasks s)"
  shows "(slot_of c \<in> {Some (''create:'' @ n), Some (''destroy:'' @ n), Some (''recreate:'' @ n)}
           \<longrightarrow> t \<in> wl_fired (dispatch (CmdCancelOp n) s))
       \<and> (slot_of c = Some (''logs:'' @ n) \<longrightarrow> t \<in> wl_fired (dispatch (CmdStopLogs n) s))
       \<and> (slot_of c = Some (''topo:'' @ n) \<longrightarrow> t \<in> wl_fired (dispatch (CmdSetAutoRefresh n secs on g) s))"
proof -
  have h: "held s c t" using slots_ok_reachable [OF assms(1)] assms(2) by (simp add: slots_ok_def)
  have f: "t \<in> wl_fired (fold cancel_slot ks s)" if "slot_of c \<in> Some ` set ks" for ks
  proof (cases "t \<in> wl_fired s")
    case True
    then show ?thesis by (induction ks arbitrary: s) (simp_all add: cancel_keeps)
  next
    case False
    then show ?thesis using h that cancel_all_fires [of _ ks s t] by (auto simp: held_def)
  qed
  have more: "t \<in> wl_fired s' \<Longrightarrow> t \<in> wl_fired (spawn_in k c' s')" for k c' s'
    by (simp add: spawn_in_def op_token_def spawn_def)
  show ?thesis
    using f [of "[''create:'' @ n, ''destroy:'' @ n, ''recreate:'' @ n]"] f [of "[''logs:'' @ n]"]
      f [of "[''topo:'' @ n]"] by (auto simp: Let_def more)
qed

lemma cancel_reaches_witness:
  "0 \<in> wl_fired (dispatch (CmdCancelOp ''dev'') (dispatch (CmdDestroyCluster ''dev'' 1) loop_start))"
proof -
  let ?s = "dispatch (CmdDestroyCluster ''dev'' 1) loop_start"
  note e = spawn_in_def op_token_def spawn_def loop_start_def
  have "loop_reachable ?s"
    by (intro loop_reachable.command loop_reachable.start) (simp_all add: e)
  from cancel_reaches [OF this, of "CmdDestroyCluster ''dev'' 1" 0 "''dev''"]
  show ?thesis by (simp add: e)
qed

text \<open>A shutdown drops the tokens without firing one: the tasks are aborted, and what a running child sees is
  the drop of its handle.\<close>

theorem shutdown_fires_nothing:
  "wl_fired (dispatch CmdShutdown s) = wl_fired s \<and> wl_tasks (dispatch CmdShutdown s) = []"
  by simp

end
