(* ===== verification/System.thy ===== *)
theory System
  imports AppQueue WorkerLoop
begin

text \<open>
  The whole program: the application (theory \<open>App\<close>), the worker with its tasks (theories \<open>WorkerLoop\<close> and
  \<open>WorkerOps\<close>) and the two queues between them (theory \<open>Bus\<close>), as one step relation.  The user's inputs, the
  delivery of events, the worker and the sends of its tasks interleave in every order.  The program runs until the
  window closes: the shutdown command, which \<open>main\<close> sends then, is not part of these runs.
\<close>

section \<open>State\<close>

text \<open>What a task still sends, and whether it then ends: the events of some run of its command, in a
  world in which the process is not killed and every child ends.\<close>

definition task_run :: "core_command \<Rightarrow> bus_send list \<Rightarrow> bool \<Rightarrow> bool" where
  "task_run c scr ends \<longleftrightarrow>
     (\<exists>env ch tok w r w'. calm w \<and> w_events w = [] \<and> children_end (wk_host env)
        \<and> run_command env ch tok c w = (r, w') \<and> scr = w_events w' \<and> ends = (r \<noteq> None))"

text \<open>A thread moves the commands from the bounded queue of the application to the unbounded one of the loop,
  \<open>sy_bridge\<close>.  The tasks of the loop have their sends at the same place of \<open>sy_work\<close>.  \<open>sy_lost\<close> is a record kept for the
  statements only: the operations whose command or whose outcome did not fit into a full queue.\<close>

record system =
  sy_app :: app_state
  sy_bridge :: "core_command list"
  sy_loop :: loop_state
  sy_work :: "(bus_send list \<times> bool) list"
  sy_events :: "core_event queue"
  sy_lost :: "(string \<times> op_gen) set"

definition system_start :: "app_env \<Rightarrow> system" where
  "system_start env =
     \<lparr>sy_app = app_new env (bus_cmd buses_new), sy_bridge = [], sy_loop = loop_start, sy_work = [],
      sy_events = bus_event buses_new, sy_lost = {}\<rparr>"

section \<open>Steps\<close>

definition ui_input :: "app_env \<Rightarrow> app_input \<Rightarrow> system \<Rightarrow> system" where
  "ui_input env i S =
     (let s' = app_react env i (sy_app S) in
      S\<lparr>sy_app := s',
        sy_lost := sy_lost S \<union> (if cmd_full s'
          then {(n, g). running_op s' n g \<and> \<not> running_op (sy_app S) n g \<and> \<not> queued_op s' n g} else {})\<rparr>)"

definition ui_event :: "app_env \<Rightarrow> core_event \<Rightarrow> core_event list \<Rightarrow> system \<Rightarrow> system" where
  "ui_event env ev evs S =
     S\<lparr>sy_app := handle_event env ev (sy_app S), sy_events := (sy_events S)\<lparr>q_items := evs\<rparr>\<rparr>"

definition with_queue :: "core_command list \<Rightarrow> app_state \<Rightarrow> app_state" where
  "with_queue cs s = s\<lparr>app_cmd := (app_cmd s)\<lparr>q_items := cs\<rparr>\<rparr>"

text \<open>A send that finds the queue full when its wait is over is dropped; one that waits until there is room
  is a send at that later moment.\<close>

definition bus_put :: "bus_send \<Rightarrow> core_event queue \<Rightarrow> core_event queue" where
  "bus_put = bus_deliver (\<lambda>q. q)"

definition event_full :: "system \<Rightarrow> bool" where
  "event_full S \<longleftrightarrow> q_cap (sy_events S) \<le> length (q_items (sy_events S))"

text \<open>The bridge takes a command from the application.\<close>

definition bridge_cmd :: "core_command \<Rightarrow> core_command list \<Rightarrow> system \<Rightarrow> system" where
  "bridge_cmd c cs S = S\<lparr>sy_app := with_queue cs (sy_app S), sy_bridge := sy_bridge S @ [c]\<rparr>"

text \<open>The worker takes a command: it spawns the task, or opens k9s itself.\<close>

definition worker_take :: "core_command \<Rightarrow> core_command list \<Rightarrow> bus_send list \<Rightarrow> bool \<Rightarrow> system \<Rightarrow> system" where
  "worker_take c cs scr ends S =
     (let l = dispatch c (sy_loop S) in
      S\<lparr>sy_bridge := cs, sy_loop := l,
        sy_work := (if length (wl_tasks (sy_loop S)) < length (wl_tasks l) then sy_work S @ [(scr, ends)] else sy_work S),
        sy_events := (case c of CmdOpenK9s n \<Rightarrow> fold bus_put scr (sy_events S) | _ \<Rightarrow> sy_events S)\<rparr>)"

definition lost_by :: "bus_send \<Rightarrow> (string \<times> op_gen) set" where
  "lost_by m = {(n, g). \<exists>r. m = Outcome (EvProvisionDone n g r)}"

definition task_send :: "nat \<Rightarrow> bus_send \<Rightarrow> bus_send list \<Rightarrow> bool \<Rightarrow> system \<Rightarrow> system" where
  "task_send k m scr ends S =
     S\<lparr>sy_work := (sy_work S)[k := (scr, ends)], sy_events := bus_put m (sy_events S),
       sy_lost := sy_lost S \<union> (if event_full S then lost_by m else {})\<rparr>"

text \<open>A progress event is dropped for the notice of the overflow, which waits.\<close>

definition task_notice :: "nat \<Rightarrow> bus_send list \<Rightarrow> bool \<Rightarrow> system \<Rightarrow> system" where
  "task_notice k scr ends S = S\<lparr>sy_work := (sy_work S)[k := (Outcome EvBusFull # scr, ends)]\<rparr>"

definition task_joined :: "nat \<Rightarrow> system \<Rightarrow> system" where
  "task_joined k S =
     S\<lparr>sy_loop := (sy_loop S)\<lparr>wl_tasks := take k (wl_tasks (sy_loop S)) @ drop (Suc k) (wl_tasks (sy_loop S))\<rparr>,
       sy_work := take k (sy_work S) @ drop (Suc k) (sy_work S)\<rparr>"

text \<open>\<open>runs\<close> says which sends a command may have; what the commands do is \<open>task_run\<close>.\<close>

inductive sys_step :: "(core_command \<Rightarrow> bus_send list \<Rightarrow> bool \<Rightarrow> bool) \<Rightarrow> system \<Rightarrow> system \<Rightarrow> bool"
  for runs where
  deliver: "q_items (sy_events S) = ev # evs \<Longrightarrow> sys_step runs S (ui_event env ev evs S)"
| bridged: "q_items (app_cmd (sy_app S)) = c # cs \<Longrightarrow> sys_step runs S (bridge_cmd c cs S)"
| take_cmd: "sy_bridge S = c # cs \<Longrightarrow> c \<noteq> CmdShutdown \<Longrightarrow> runs c scr ends
    \<Longrightarrow> sys_step runs S (worker_take c cs scr ends S)"
| send_msg: "k < length (sy_work S) \<Longrightarrow> sy_work S ! k = (m # scr, ends) \<Longrightarrow> sys_step runs S (task_send k m scr ends S)"
| notice: "k < length (sy_work S) \<Longrightarrow> sy_work S ! k = (Progress ev # scr, ends) \<Longrightarrow> event_full S
    \<Longrightarrow> sys_step runs S (task_notice k scr ends S)"
| joined: "k < length (sy_work S) \<Longrightarrow> sy_work S ! k = ([], True) \<Longrightarrow> sys_step runs S (task_joined k S)"

text \<open>A run, with the inputs of the user and the states of the application they met, the last one first.\<close>

inductive system_run :: "(app_input \<times> app_state) list \<Rightarrow> system \<Rightarrow> bool" where
  start: "system_run [] (system_start env)"
| input: "system_run h S \<Longrightarrow> \<forall>ev. i \<noteq> AppEvent ev \<Longrightarrow> system_run ((i, sy_app S) # h) (ui_input env i S)"
| step: "system_run h S \<Longrightarrow> sys_step task_run S S' \<Longrightarrow> system_run h S'"

section \<open>Where the outcome of an operation is\<close>

definition bridging :: "system \<Rightarrow> string \<Rightarrow> op_gen \<Rightarrow> bool" where
  "bridging S n g \<longleftrightarrow> (\<exists>c \<in> set (sy_bridge S). op_of c = Some (n, g))"

definition sending :: "system \<Rightarrow> string \<Rightarrow> op_gen \<Rightarrow> bool" where
  "sending S n g \<longleftrightarrow> (\<exists>x \<in> set (sy_work S). \<exists>r. Outcome (EvProvisionDone n g r) \<in> set (fst x))"

definition arriving :: "system \<Rightarrow> string \<Rightarrow> op_gen \<Rightarrow> bool" where
  "arriving S n g \<longleftrightarrow> (\<exists>r. EvProvisionDone n g r \<in> set (q_items (sy_events S)))"

definition backed :: "system \<Rightarrow> string \<Rightarrow> op_gen \<Rightarrow> bool" where
  "backed S n g \<longleftrightarrow> queued_op (sy_app S) n g \<or> bridging S n g \<or> sending S n g \<or> arriving S n g"

definition sys_ok :: "system \<Rightarrow> bool" where
  "sys_ok S \<longleftrightarrow> q_connected (app_cmd (sy_app S)) \<and> q_connected (sy_events S) \<and> 0 < q_cap (sy_events S)
     \<and> length (sy_work S) = length (wl_tasks (sy_loop S))
     \<and> (\<forall>n g. running_op (sy_app S) n g \<longrightarrow> backed S n g \<or> (n, g) \<in> sy_lost S)"

lemma sys_okI:
  assumes "sys_ok S" "q_connected (app_cmd (sy_app S'))" "q_connected (sy_events S')" "0 < q_cap (sy_events S')"
    "length (sy_work S') = length (wl_tasks (sy_loop S'))"
    "\<And>n g. running_op (sy_app S') n g \<Longrightarrow> running_op (sy_app S) n g \<Longrightarrow> backed S n g \<or> (n, g) \<in> sy_lost S \<Longrightarrow>
       backed S' n g \<or> (n, g) \<in> sy_lost S'"
    "\<And>n g. running_op (sy_app S') n g \<Longrightarrow> \<not> running_op (sy_app S) n g \<Longrightarrow> backed S' n g \<or> (n, g) \<in> sy_lost S'"
  shows "sys_ok S'"
  using assms unfolding sys_ok_def by blast

subsection \<open>The queue of events\<close>

lemma bus_put_room:
  "q_connected q \<Longrightarrow> length (q_items q) < q_cap q \<Longrightarrow>
     bus_put m q = q\<lparr>q_items := q_items q @ [case m of Progress ev \<Rightarrow> ev | Outcome ev \<Rightarrow> ev]\<rparr>"
  by (cases m) (simp_all add: bus_put_def bus_emit_def bus_emit_important_def try_send_def)

lemma bus_put_full: "q_cap q \<le> length (q_items q) \<Longrightarrow> bus_put m q = q"
  by (cases m) (simp_all add: bus_put_def bus_emit_def bus_emit_important_def try_send_def)

lemma bus_put_fields [simp]: "q_connected (bus_put m q) = q_connected q" "q_cap (bus_put m q) = q_cap q"
  by (cases m; auto simp: bus_put_def bus_emit_def bus_emit_important_def try_send_def)+

lemma bus_put_keeps: "set (q_items q) \<subseteq> set (q_items (bus_put m q))"
  by (cases m) (auto simp: bus_put_def bus_emit_def bus_emit_important_def try_send_def)

lemma bus_puts_fields [simp]:
  "q_connected (fold bus_put ms q) = q_connected q" "q_cap (fold bus_put ms q) = q_cap q"
  by (induction ms arbitrary: q) simp_all

lemma bus_puts_keep: "set (q_items q) \<subseteq> set (q_items (fold bus_put ms q))"
proof (induction ms arbitrary: q)
  case (Cons m ms)
  show ?case using bus_put_keeps [of q m] Cons.IH [of "bus_put m q"] by simp
qed simp

subsection \<open>The loop\<close>

text \<open>The commands that become a task of their own.\<close>

lemma dispatch_tasks:
  assumes "c \<noteq> CmdShutdown"
  shows "wl_tasks (dispatch c l) = wl_tasks l \<or> (\<exists>tok. wl_tasks (dispatch c l) = wl_tasks l @ [(c, tok)])"
proof -
  have k: "wl_tasks (cancel_slot k l) = wl_tasks l" "wl_tasks (spawn_in k c l) = wl_tasks l @ [(c, Some (wl_next l))]"
    "wl_tasks (spawn c tok l) = wl_tasks l @ [(c, tok)]" for k l c tok
    by (simp_all add: cancel_slot_def spawn_in_def op_token_def spawn_def)
  show ?thesis using assms by (cases "(c, l)" rule: dispatch.cases) (simp_all add: k Let_def)
qed

lemma dispatch_op:
  assumes "op_of c = Some (n, g)" shows "\<exists>tok. wl_tasks (dispatch c l) = wl_tasks l @ [(c, tok)]"
  using assms by (cases c) (simp_all add: spawn_in_def op_token_def spawn_def)

lemma op_run_answers:
  assumes "task_run c scr ends" "op_of c = Some (n, g)"
  shows "\<exists>r. Outcome (EvProvisionDone n g r) \<in> set scr"
proof -
  obtain env ch tok w r w' where h: "calm w" "w_events w = []" "children_end (wk_host env)"
    "run_command env ch tok c w = (r, w')" "scr = w_events w'"
    using assms(1) unfolding task_run_def by blast
  have "answerable c" using assms(2) by (cases c) simp_all
  then obtain evs a where a: "w_events w' = w_events w @ evs @ [a]" "answers c a"
    using answered [OF h(3), of c ch tok] h(1,4) unfolding ends_with_answer_def by fastforce
  have "\<exists>r. a = Outcome (EvProvisionDone n g r)"
    using a(2) assms(2) by (cases c) (auto split: bus_send.splits core_event.splits)
  then show ?thesis using a(1) h(5) by auto
qed

section \<open>Every running operation is backed\<close>

lemma sys_ok_start: "sys_ok (system_start env)"
proof -
  have "app_ops (app_new env q) = (\<lambda>_. None)" for q
    by (simp add: app_new_def Let_def begin_detect_def split: option.split)
  moreover have "q_connected (app_cmd (issue c s)) = q_connected (app_cmd s)" for c s
    using grows_issue [of s c] by (simp add: queue_grows_def)
  then have "q_connected (app_cmd (app_new env q)) = q_connected q" for q
    by (simp add: app_new_def Let_def begin_detect_def with_deps_def with_overview_def split: option.split)
  ultimately show ?thesis
    by (simp add: sys_ok_def system_start_def buses_new_def queue_new_def EVENT_BUS_CAP_def loop_start_def running_op_def)
qed

lemma sys_ok_input:
  assumes "sys_ok S" "\<forall>ev. i \<noteq> AppEvent ev" shows "sys_ok (ui_input env i S)"
proof -
  let ?s = "sy_app S" and ?s' = "app_react env i (sy_app S)"
  have e: "extends ?s ?s'" using assms by (intro extends_react) (simp_all add: sys_ok_def)
  then have q: "queue_grows ?s ?s'" by (rule extends_grows)
  note f = ui_input_def Let_def backed_def bridging_def sending_def arriving_def
  show ?thesis
  proof (rule sys_okI [OF assms(1)])
    fix n g assume "backed S n g \<or> (n, g) \<in> sy_lost S"
    then show "backed (ui_input env i S) n g \<or> (n, g) \<in> sy_lost (ui_input env i S)"
      using queue_grows_queued [OF q] by (auto simp: f)
  next
    fix n g assume r: "running_op (sy_app (ui_input env i S)) n g" "\<not> running_op (sy_app S) n g"
    then have "running_op ?s' n g" by (simp add: ui_input_def Let_def)
    then have "queued_op ?s' n g \<or> cmd_full ?s'" using r(2) e unfolding extends_def by blast
    then show "backed (ui_input env i S) n g \<or> (n, g) \<in> sy_lost (ui_input env i S)"
      using r by (auto simp: f)
  qed (use assms(1) queue_grows_connected [OF q] in \<open>simp_all add: sys_ok_def ui_input_def Let_def\<close>)
qed

lemma sys_ok_deliver:
  assumes "sys_ok S" "q_items (sy_events S) = ev # evs" shows "sys_ok (ui_event env ev evs S)"
proof -
  note q = event_quiets [of ev "sy_app S" env]
  have g: "queue_grows (sy_app S) (handle_event env ev (sy_app S))" using q by (simp add: quiets_def)
  show ?thesis
  proof (rule sys_okI [OF assms(1)])
    fix n g assume r: "running_op (sy_app (ui_event env ev evs S)) n g" and b: "backed S n g \<or> (n, g) \<in> sy_lost S"
    have "\<forall>r. ev \<noteq> EvProvisionDone n g r" using q r by (simp add: quiets_def ui_event_def)
    then show "backed (ui_event env ev evs S) n g \<or> (n, g) \<in> sy_lost (ui_event env ev evs S)"
      using b assms(2) queue_grows_queued [OF g, of n] by (auto simp: backed_def bridging_def sending_def arriving_def ui_event_def)
  next
    fix n g assume "running_op (sy_app (ui_event env ev evs S)) n g" "\<not> running_op (sy_app S) n g"
    then show "backed (ui_event env ev evs S) n g \<or> (n, g) \<in> sy_lost (ui_event env ev evs S)"
      using q by (simp add: quiets_def ui_event_def)
  qed (use assms(1) queue_grows_connected [OF g] in \<open>simp_all add: sys_ok_def ui_event_def\<close>)
qed

lemma running_with_queue [simp]: "running_op (with_queue cs s) n g = running_op s n g"
  by (simp add: running_op_def with_queue_def)

lemma sys_ok_bridged:
  assumes "sys_ok S" "q_items (app_cmd (sy_app S)) = c # cs" shows "sys_ok (bridge_cmd c cs S)"
proof (rule sys_okI [OF assms(1)])
  fix n g assume "backed S n g \<or> (n, g) \<in> sy_lost S"
  then show "backed (bridge_cmd c cs S) n g \<or> (n, g) \<in> sy_lost (bridge_cmd c cs S)"
    using assms(2)
    by (auto simp: backed_def bridging_def queued_op_def sending_def arriving_def bridge_cmd_def with_queue_def)
qed (use assms(1) in \<open>simp_all add: sys_ok_def bridge_cmd_def\<close>, simp add: with_queue_def)

lemma take_fields [simp]:
  "sy_app (worker_take c cs scr ends S) = sy_app S" "sy_bridge (worker_take c cs scr ends S) = cs"
  "sy_lost (worker_take c cs scr ends S) = sy_lost S"
  "q_connected (sy_events (worker_take c cs scr ends S)) = q_connected (sy_events S)"
  "q_cap (sy_events (worker_take c cs scr ends S)) = q_cap (sy_events S)"
  by (simp_all add: worker_take_def Let_def split: core_command.split)

lemma take_sends:
  assumes "task_run c scr ends" "op_of c = Some (n, g)" shows "sending (worker_take c cs scr ends S) n g"
proof -
  have "sy_work (worker_take c cs scr ends S) = sy_work S @ [(scr, ends)]"
    using dispatch_op [OF assms(2), of "sy_loop S"] by (auto simp: worker_take_def Let_def)
  then show ?thesis using op_run_answers [OF assms] by (simp add: sending_def)
qed

lemma take_keeps:
  "sending S n g \<Longrightarrow> sending (worker_take c cs scr ends S) n g"
  "arriving S n g \<Longrightarrow> arriving (worker_take c cs scr ends S) n g"
  using bus_puts_keep [of "sy_events S" scr]
  by (auto simp: sending_def arriving_def worker_take_def Let_def split: core_command.split)

lemma sys_ok_take:
  assumes "sys_ok S" "sy_bridge S = c # cs" "c \<noteq> CmdShutdown" "task_run c scr ends"
  shows "sys_ok (worker_take c cs scr ends S)"
proof (rule sys_okI [OF assms(1)])
  fix n g assume "backed S n g \<or> (n, g) \<in> sy_lost S"
  moreover have "bridging S n g \<Longrightarrow> bridging (worker_take c cs scr ends S) n g \<or> op_of c = Some (n, g)"
    using assms(2) by (auto simp: bridging_def)
  ultimately show "backed (worker_take c cs scr ends S) n g \<or> (n, g) \<in> sy_lost (worker_take c cs scr ends S)"
    using take_sends [OF assms(4)] take_keeps unfolding backed_def take_fields by blast
next
  show "length (sy_work (worker_take c cs scr ends S)) = length (wl_tasks (sy_loop (worker_take c cs scr ends S)))"
    using assms(1) dispatch_tasks [OF assms(3), of "sy_loop S"] by (auto simp: sys_ok_def worker_take_def Let_def)
qed (use assms(1) in \<open>simp_all add: sys_ok_def\<close>)

lemma sys_ok_send:
  assumes "sys_ok S" "k < length (sy_work S)" "sy_work S ! k = (m # scr, ends)"
  shows "sys_ok (task_send k m scr ends S)"
proof -
  let ?S = "task_send k m scr ends S"
  have mem: "(m # scr, ends) \<in> set (sy_work S)" using assms(2,3) nth_mem by metis
  have ok: "q_connected (sy_events S)" using assms(1) by (simp add: sys_ok_def)
  show ?thesis
  proof (rule sys_okI [OF assms(1)])
    fix n g assume b: "backed S n g \<or> (n, g) \<in> sy_lost S"
    have s: "sending ?S n g \<or> m = Outcome (EvProvisionDone n g r)"
      if "x \<in> set (sy_work S)" "Outcome (EvProvisionDone n g r) \<in> set (fst x)" for x r
    proof (cases "x = sy_work S ! k")
      case True
      then have "m = Outcome (EvProvisionDone n g r) \<or> Outcome (EvProvisionDone n g r) \<in> set scr"
        using that(2) assms(3) by auto
      moreover have "(scr, ends) \<in> set ((sy_work S)[k := (scr, ends)])" using assms(2) by (rule set_update_memI)
      ultimately show ?thesis by (force simp: sending_def task_send_def)
    next
      case False
      then have "x \<in> set ((sy_work S)[k := (scr, ends)])"
        using that(1) assms(2) by (metis in_set_conv_nth length_list_update nth_list_update_neq)
      then show ?thesis using that(2) by (auto simp: sending_def task_send_def)
    qed
    have "arriving ?S n g \<or> (n, g) \<in> sy_lost ?S" if "m = Outcome (EvProvisionDone n g r)" for r
      using that ok bus_put_room [of "sy_events S" m]
      by (cases "event_full S") (auto simp: arriving_def task_send_def lost_by_def event_full_def)
    moreover have "arriving S n g \<Longrightarrow> arriving ?S n g"
      using bus_put_keeps [of "sy_events S" m] by (auto simp: arriving_def task_send_def)
    ultimately show "backed ?S n g \<or> (n, g) \<in> sy_lost ?S"
      using b s by (auto simp: backed_def bridging_def sending_def [of S] task_send_def)
  qed (use assms(1) in \<open>simp_all add: sys_ok_def task_send_def\<close>)
qed

lemma sys_ok_notice:
  assumes "sys_ok S" "k < length (sy_work S)" "sy_work S ! k = (Progress ev # scr, ends)"
  shows "sys_ok (task_notice k scr ends S)"
proof -
  let ?S = "task_notice k scr ends S"
  show ?thesis
  proof (rule sys_okI [OF assms(1)])
    fix n g assume b: "backed S n g \<or> (n, g) \<in> sy_lost S"
    have "sending S n g \<Longrightarrow> sending ?S n g"
    proof -
      assume "sending S n g"
      then obtain x r where x: "x \<in> set (sy_work S)" "Outcome (EvProvisionDone n g r) \<in> set (fst x)"
        unfolding sending_def by blast
      then obtain j where j: "j < length (sy_work S)" "sy_work S ! j = x" by (auto simp: in_set_conv_nth)
      have "Outcome (EvProvisionDone n g r) \<in> set (fst (sy_work ?S ! j))"
        using x(2) j assms(2,3) by (cases "j = k") (auto simp: task_notice_def)
      moreover have "sy_work ?S ! j \<in> set (sy_work ?S)" using j(1) by (simp add: task_notice_def)
      ultimately show "sending ?S n g" unfolding sending_def by blast
    qed
    then show "backed ?S n g \<or> (n, g) \<in> sy_lost ?S" using b by (auto simp: backed_def bridging_def arriving_def task_notice_def)
  qed (use assms(1) in \<open>simp_all add: sys_ok_def task_notice_def\<close>)
qed

lemma sys_ok_joined:
  assumes "sys_ok S" "k < length (sy_work S)" "sy_work S ! k = ([], True)"
  shows "sys_ok (task_joined k S)"
proof -
  let ?S = "task_joined k S"
  have w: "set (sy_work S) = insert ([], True) (set (sy_work ?S))"
    using arg_cong [OF id_take_nth_drop [OF assms(2)], of set] assms(3) by (simp add: task_joined_def)
  show ?thesis
  proof (rule sys_okI [OF assms(1)])
    fix n g assume b: "backed S n g \<or> (n, g) \<in> sy_lost S"
    have "sending S n g \<Longrightarrow> sending ?S n g" by (auto simp: sending_def w)
    then show "backed ?S n g \<or> (n, g) \<in> sy_lost ?S" using b by (auto simp: backed_def bridging_def arriving_def task_joined_def)
  qed (use assms in \<open>simp_all add: sys_ok_def task_joined_def\<close>)
qed

lemma sys_ok_step: "sys_step task_run S S' \<Longrightarrow> sys_ok S \<Longrightarrow> sys_ok S'"
  by (induction rule: sys_step.induct)
    (blast intro: sys_ok_deliver sys_ok_bridged sys_ok_take sys_ok_send sys_ok_notice sys_ok_joined)+

lemma sys_ok_run: "system_run h S \<Longrightarrow> sys_ok S"
  by (induction rule: system_run.induct) (simp_all add: sys_ok_start sys_ok_input sys_ok_step)

end
