(* ===== verification/SystemProps.thy ===== *)
theory SystemProps
  imports System SampleRun
begin

text \<open>
  What holds of every run of the whole program: nothing is destroyed that the user did not ask for, every
  operation shown as running has its command or its outcome on the way, and from every state the program can go
  on until the operation ends.
\<close>

section \<open>Destruction\<close>

text \<open>The destructive commands waiting or running have been asked for in the history.\<close>

definition accounted :: "(app_input \<times> app_state) list \<Rightarrow> core_command \<Rightarrow> bool" where
  "accounted h c \<longleftrightarrow> destructive c \<longrightarrow> (\<exists>x \<in> set h. asked (fst x) (snd x) c \<or> misnamed (fst x) (snd x) c)"

definition harm_ok :: "(app_input \<times> app_state) list \<Rightarrow> system \<Rightarrow> bool" where
  "harm_ok h S \<longleftrightarrow> (\<forall>c \<in> set (q_items (app_cmd (sy_app S))) \<union> set (sy_bridge S). accounted h c)
     \<and> (\<forall>x \<in> set (wl_tasks (sy_loop S)). accounted h (fst x))"

lemma accounted_more: "accounted h c \<Longrightarrow> accounted (x # h) c"
  by (auto simp: accounted_def)

lemma not_asked_shutdown: "\<not> asked i s CmdShutdown" "\<not> misnamed i s CmdShutdown"
  by (simp_all add: asked_def misnamed_def)

lemma no_shutdown_queued:
  "harm_ok h S \<Longrightarrow> CmdShutdown \<notin> set (q_items (app_cmd (sy_app S))) \<union> set (sy_bridge S)"
  unfolding harm_ok_def accounted_def using not_asked_shutdown destructive_simps(3) by blast

lemma harm_ok_queue: "harm_ok h S \<Longrightarrow> c \<in> harm (sy_app S) \<Longrightarrow> accounted h c"
  by (simp add: harm_ok_def harm_def)

lemma harm_start: "q_items q = [] \<Longrightarrow> harm (app_new env q) = {}"
  by (simp add: app_new_def begin_detect_def Let_def harm_def [of "app_state.make _ _ _ _ _ _ _ _ _ _ _ _ _"] split: option.split) (simp add: harm_def)

lemma harm_ok_start: "harm_ok [] (system_start env)"
  using harm_start [of "bus_cmd buses_new" env]
  by (auto simp: harm_ok_def system_start_def loop_start_def accounted_def harm_def buses_new_def queue_new_def)

lemma harm_ok_input:
  assumes "harm_ok h S" shows "harm_ok ((i, sy_app S) # h) (ui_input env i S)"
proof -
  have "accounted ((i, sy_app S) # h) c" if "c \<in> set (q_items (app_cmd (app_react env i (sy_app S))))" for c
  proof (cases "destructive c \<and> c \<notin> harm (sy_app S)")
    case True
    then have "c \<in> harm (app_react env i (sy_app S))" "c \<notin> harm (sy_app S)" using that by (auto simp: harm_def)
    then have "asked i (sy_app S) c \<or> misnamed i (sy_app S) c" by (rule destroy_needs_typed_name)
    then show ?thesis by (simp add: accounted_def)
  next
    case False
    then have "accounted h c" using harm_ok_queue [OF assms] by (auto simp: accounted_def)
    then show ?thesis by (rule accounted_more)
  qed
  then show ?thesis using assms accounted_more by (auto simp: harm_ok_def ui_input_def Let_def)
qed

lemma harm_ok_deliver:
  assumes "harm_ok h S" shows "harm_ok h (ui_event env ev evs S)"
proof -
  have "accounted h c" if "c \<in> set (q_items (app_cmd (handle_event env ev (sy_app S))))" for c
  proof (cases "destructive c")
    case True
    then have "c \<in> harm (handle_event env ev (sy_app S))" using that by (simp add: harm_def)
    then show ?thesis using harm_ok_queue [OF assms] by simp
  qed (simp add: accounted_def)
  then show ?thesis using assms by (auto simp: harm_ok_def ui_event_def)
qed

lemma harm_ok_step:
  assumes "sys_step runs S S'" "harm_ok h S" shows "harm_ok h S'"
  using assms
proof (induction rule: sys_step.induct)
  case (take_cmd S c cs scr ends)
  then show ?case using dispatch_tasks [of c "sy_loop S"]
    by (auto simp: harm_ok_def) (auto simp: worker_take_def Let_def)
next
  case (bridged S c cs)
  then show ?case by (auto simp: harm_ok_def bridge_cmd_def with_queue_def)
next
  case (deliver S ev evs env)
  then show ?case by (simp add: harm_ok_deliver)
next
  case (joined k S)
  then show ?case by (auto simp: harm_ok_def task_joined_def dest: in_set_takeD in_set_dropD)
qed (simp_all add: harm_ok_def task_send_def task_notice_def)

lemma harm_ok_run: "system_run h S \<Longrightarrow> harm_ok h S"
  by (induction rule: system_run.induct) (simp_all add: harm_ok_start harm_ok_input harm_ok_step)

text \<open>C8: Whatever is interleaved with what, a task that destroys or recreates a cluster was asked for by an input of the
  history: a confirmation accepted with the name of exactly this cluster typed, or a click on \<open>Recreate\<close> in the card
  of this cluster when the report says that it is missing.  The one exception is a tab whose stored record names
  another cluster than the tab: then the name typed is that of the tab.\<close>

theorem destroys_are_asked:
  assumes "system_run h S" and "(c, tok) \<in> set (wl_tasks (sy_loop S))" and "destructive c"
  shows "\<exists>(i, s) \<in> set h. asked i s c \<or> misnamed i s c"
  using harm_ok_run [OF assms(1)] assms(2,3) by (fastforce simp: harm_ok_def accounted_def)

section \<open>The end of an operation\<close>

definition holds :: "system \<Rightarrow> string \<Rightarrow> op_gen \<Rightarrow> bool" where
  "holds S n g \<longleftrightarrow> (\<exists>p. app_ops (sy_app S) n = Some p \<and> OpPanel.op_gen p = g)"

definition ended :: "system \<Rightarrow> string \<Rightarrow> op_gen \<Rightarrow> bool" where
  "ended S n g \<longleftrightarrow> (\<exists>p. app_ops (sy_app S) n = Some p \<and> OpPanel.op_gen p = g \<and> op_finished p \<noteq> None)"

lemma ended_iff: "ended S n g \<longleftrightarrow> holds S n g \<and> \<not> running_op (sy_app S) n g"
  by (auto simp: ended_def holds_def running_op_def op_running_def)

text \<open>No step of the program itself closes a panel.\<close>

lemma holds_step:
  assumes "sys_step runs S S'" "holds S n g" shows "holds S' n g"
  using assms
proof (induction rule: sys_step.induct)
  case (deliver S ev evs env)
  then show ?case using event_quiets [of ev "sy_app S" env] by (fastforce simp: quiets_def holds_def ui_event_def)
qed (simp_all add: holds_def bridge_cmd_def with_queue_def task_send_def task_notice_def task_joined_def Let_def)

lemma holds_steps: "(sys_step runs)\<^sup>*\<^sup>* S S' \<Longrightarrow> holds S n g \<Longrightarrow> holds S' n g"
  by (induction rule: rtranclp_induct) (auto dest: holds_step)

text \<open>All events that wait are delivered.\<close>

lemma drain:
  "\<exists>S'. (sys_step runs)\<^sup>*\<^sup>* S S' \<and> sy_events S' = (sy_events S)\<lparr>q_items := []\<rparr> \<and> sy_work S' = sy_work S
     \<and> (arriving S n g \<longrightarrow> \<not> running_op (sy_app S') n g)
     \<and> (\<not> running_op (sy_app S) n g \<longrightarrow> \<not> running_op (sy_app S') n g)"
proof (induction "q_items (sy_events S)" arbitrary: S)
  case Nil
  then have "sy_events S = (sy_events S)\<lparr>q_items := []\<rparr>" "\<not> arriving S n g" by (simp_all add: arriving_def)
  then show ?case by blast
next
  case (Cons ev evs)
  let ?T = "ui_event undefined ev evs S"
  have q: "quiets ev (sy_app S) (sy_app ?T)" using event_quiets by (simp add: ui_event_def)
  have T: "q_items (sy_events ?T) = evs" "sy_work ?T = sy_work S"
    "(sy_events ?T)\<lparr>q_items := []\<rparr> = (sy_events S)\<lparr>q_items := []\<rparr>" by (simp_all add: ui_event_def)
  have a: "arriving S n g \<longleftrightarrow> (\<exists>r. ev = EvProvisionDone n g r) \<or> arriving ?T n g"
    using Cons.hyps(2) [symmetric] by (auto simp: arriving_def T(1))
  have "sys_step runs S ?T" using Cons.hyps(2) by (intro sys_step.deliver) simp
  moreover obtain S' where S': "(sys_step runs)\<^sup>*\<^sup>* ?T S'" "sy_events S' = (sy_events S)\<lparr>q_items := []\<rparr>"
    "sy_work S' = sy_work S" "arriving ?T n g \<longrightarrow> \<not> running_op (sy_app S') n g"
    "\<not> running_op (sy_app ?T) n g \<longrightarrow> \<not> running_op (sy_app S') n g"
    using Cons.hyps(1) [of ?T] T by metis
  moreover have "\<not> running_op (sy_app ?T) n g" if "(\<exists>r. ev = EvProvisionDone n g r) \<or> \<not> running_op (sy_app S) n g"
    using q that by (auto simp: quiets_def)
  ultimately show ?case using a by (metis converse_rtranclp_into_rtranclp)
qed

text \<open>A task sends what it has to send up to its outcome, each time into an empty queue.\<close>

lemma send_through:
  assumes "q_connected (sy_events S)" "0 < q_cap (sy_events S)" "k < length (sy_work S)"
    "sy_work S ! k = (scr, ends)" "Outcome (EvProvisionDone n g r) \<in> set scr"
  shows "\<exists>S'. (sys_step runs)\<^sup>*\<^sup>* S S' \<and> \<not> running_op (sy_app S') n g"
  using assms
proof (induction scr arbitrary: S)
  case (Cons m scr)
  obtain D where D: "(sys_step runs)\<^sup>*\<^sup>* S D" "sy_events D = (sy_events S)\<lparr>q_items := []\<rparr>" "sy_work D = sy_work S"
    using drain [of runs S n g] by blast
  let ?T = "task_send k m scr ends D"
  have "sys_step runs D ?T" using Cons.prems D(3) by (intro sys_step.send_msg) simp_all
  then have ST: "(sys_step runs)\<^sup>*\<^sup>* S ?T" using D(1) by simp
  have ev: "sy_events ?T = (sy_events S)\<lparr>q_items := [case m of Progress ev \<Rightarrow> ev | Outcome ev \<Rightarrow> ev]\<rparr>"
    using Cons.prems D(2) bus_put_room [of "sy_events D" m] by (simp add: task_send_def)
  show ?case
  proof (cases "m = Outcome (EvProvisionDone n g r)")
    case True
    then have "EvProvisionDone n g r \<in> set (q_items (sy_events ?T))" unfolding ev using True by simp
    then have "arriving ?T n g" unfolding arriving_def by blast
    then obtain S' where "(sys_step runs)\<^sup>*\<^sup>* ?T S'" "\<not> running_op (sy_app S') n g" using drain [of runs ?T n g] by blast
    then show ?thesis using ST by (meson rtranclp_trans)
  next
    case False
    then have "\<exists>S'. (sys_step runs)\<^sup>*\<^sup>* ?T S' \<and> \<not> running_op (sy_app S') n g"
      using Cons.prems D(3) by (intro Cons.IH) (simp_all add: ev, simp_all add: task_send_def)
    then show ?thesis using ST by (meson rtranclp_trans)
  qed
qed simp

lemma sending_ends:
  assumes "q_connected (sy_events S)" "0 < q_cap (sy_events S)" "sending S n g"
  shows "\<exists>S'. (sys_step runs)\<^sup>*\<^sup>* S S' \<and> \<not> running_op (sy_app S') n g"
proof -
  obtain k scr ends r where "k < length (sy_work S)" "sy_work S ! k = (scr, ends)"
    "Outcome (EvProvisionDone n g r) \<in> set scr"
    using assms(3) unfolding sending_def by (metis in_set_conv_nth prod.collapse)
  then show ?thesis using send_through assms(1,2) by blast
qed

text \<open>The commands are bridged, then taken up to that of the operation.\<close>

lemma bridge_all:
  "\<exists>S'. (sys_step runs)\<^sup>*\<^sup>* S S' \<and> sy_bridge S' = sy_bridge S @ q_items (app_cmd (sy_app S))
     \<and> sy_events S' = sy_events S"
proof (induction "q_items (app_cmd (sy_app S))" arbitrary: S)
  case (Cons c cs)
  let ?T = "bridge_cmd c cs S"
  have T: "q_items (app_cmd (sy_app ?T)) = cs" "sy_bridge ?T = sy_bridge S @ [c]" "sy_events ?T = sy_events S"
    by (simp_all add: bridge_cmd_def with_queue_def)
  have "sys_step runs S ?T" using Cons.hyps(2) by (intro sys_step.bridged) simp
  moreover obtain S' where "(sys_step runs)\<^sup>*\<^sup>* ?T S'" "sy_bridge S' = sy_bridge S @ c # cs" "sy_events S' = sy_events S"
    using Cons.hyps(1) [of ?T] T by auto
  ultimately show ?case using Cons.hyps(2) by (metis converse_rtranclp_into_rtranclp)
qed auto

lemma bridging_ends:
  assumes "\<forall>c. c \<noteq> CmdShutdown \<longrightarrow> (\<exists>scr ends. runs c scr ends)" "\<forall>c scr ends. runs c scr ends \<longrightarrow> task_run c scr ends"
    and "q_connected (sy_events S)" "0 < q_cap (sy_events S)" "CmdShutdown \<notin> set (sy_bridge S)" "bridging S n g"
  shows "\<exists>S'. (sys_step runs)\<^sup>*\<^sup>* S S' \<and> \<not> running_op (sy_app S') n g"
  using assms(3-)
proof (induction "sy_bridge S" arbitrary: S)
  case (Cons c cs)
  have c: "c \<noteq> CmdShutdown" using Cons.prems(3) Cons.hyps(2) [symmetric] by auto
  then obtain scr ends where r: "runs c scr ends" using assms(1) by blast
  let ?T = "worker_take c cs scr ends S"
  have step: "sys_step runs S ?T" using c r Cons.hyps(2) by (intro sys_step.take_cmd) simp_all
  have "\<exists>S'. (sys_step runs)\<^sup>*\<^sup>* ?T S' \<and> \<not> running_op (sy_app S') n g"
  proof (cases "op_of c = Some (n, g)")
    case True
    then show ?thesis using r assms(2) Cons.prems by (intro sending_ends take_sends) simp_all
  next
    case False
    then have "bridging ?T n g" using Cons.prems(4) Cons.hyps(2) [symmetric] by (simp add: bridging_def)
    then show ?thesis using Cons.hyps(1) [of ?T] Cons.prems Cons.hyps(2) [symmetric] by simp
  qed
  then show ?case using step by (metis converse_rtranclp_into_rtranclp)
qed (simp add: bridging_def)

lemma commands_end:
  assumes "\<forall>c. c \<noteq> CmdShutdown \<longrightarrow> (\<exists>scr ends. runs c scr ends)" "\<forall>c scr ends. runs c scr ends \<longrightarrow> task_run c scr ends"
    and "q_connected (sy_events S)" "0 < q_cap (sy_events S)" "harm_ok h S" "queued_op (sy_app S) n g \<or> bridging S n g"
  shows "\<exists>S'. (sys_step runs)\<^sup>*\<^sup>* S S' \<and> \<not> running_op (sy_app S') n g"
proof -
  obtain B where B: "(sys_step runs)\<^sup>*\<^sup>* S B" "sy_bridge B = sy_bridge S @ q_items (app_cmd (sy_app S))" "sy_events B = sy_events S"
    using bridge_all by blast
  have "bridging B n g" using assms(6) by (auto simp: bridging_def queued_op_def B(2))
  moreover have "CmdShutdown \<notin> set (sy_bridge B)" using no_shutdown_queued [OF assms(5)] by (simp add: B(2))
  ultimately obtain S' where "(sys_step runs)\<^sup>*\<^sup>* B S'" "\<not> running_op (sy_app S') n g"
    using bridging_ends [OF assms(1,2), of B n g] assms(3,4) B(3) by auto
  then show ?thesis using B(1) by (meson rtranclp_trans)
qed

text \<open>C11: From every state in which an operation is shown as running, unless its command or its outcome met a full queue, the
  program can go on to a state that shows its end; \<open>runs\<close> may leave every command any one of its runs only.\<close>

theorem operation_can_end:
  assumes "system_run h S" and "running_op (sy_app S) n g" and "(n, g) \<notin> sy_lost S"
    and "\<forall>c. c \<noteq> CmdShutdown \<longrightarrow> (\<exists>scr ends. runs c scr ends)"
    and "\<forall>c scr ends. runs c scr ends \<longrightarrow> task_run c scr ends"
  shows "\<exists>S'. (sys_step runs)\<^sup>*\<^sup>* S S' \<and> ended S' n g"
proof -
  have ok: "sys_ok S" using assms(1) by (rule sys_ok_run)
  then have e: "q_connected (sy_events S)" "0 < q_cap (sy_events S)" by (simp_all add: sys_ok_def)
  have "backed S n g" using ok assms(2,3) unfolding sys_ok_def by blast
  then consider "queued_op (sy_app S) n g \<or> bridging S n g" | "sending S n g" | "arriving S n g" unfolding backed_def by blast
  then have "\<exists>S'. (sys_step runs)\<^sup>*\<^sup>* S S' \<and> \<not> running_op (sy_app S') n g"
  proof cases
    case 1
    then show ?thesis using commands_end [OF assms(4,5) e harm_ok_run [OF assms(1)]] by blast
  next
    case 2
    then show ?thesis by (rule sending_ends [OF e])
  next
    case 3
    then show ?thesis using drain [of runs S n g] by blast
  qed
  then obtain S' where S': "(sys_step runs)\<^sup>*\<^sup>* S S'" "\<not> running_op (sy_app S') n g" by blast
  have "holds S n g" using assms(2) by (auto simp: running_op_def holds_def)
  then show ?thesis using S' holds_steps [OF S'(1)] unfolding ended_iff by blast
qed

section \<open>A create\<close>

definition env_wizard :: app_env where "env_wizard = env_opening\<lparr>av_open_wizard := True\<rparr>"

text \<open>The user confirms the form of the wizard.\<close>

definition sys_creating :: system where
  "sys_creating = ui_input env_wizard (AppWizard ClickCreate (from_spec mesh_spec)) (system_start env_wizard)"

lemma creating_run: "\<exists>h. system_run h sys_creating"
  unfolding sys_creating_def by (rule exI, rule system_run.input [OF system_run.start]) simp

lemma wizard_open_issue [simp]: "app_wizard_open (issue c s) = app_wizard_open s"
  by (simp add: issue_def push_banner_def split: prod.split sum.split send_error.split)

lemma app_creating:
  "sy_app sys_creating = (start_op OpCreate (cs_name mesh_spec) (CmdCreateCluster mesh_spec) (sy_app (system_start env_wizard)))
     \<lparr>app_wizard_open := False, app_wizard := None\<rparr>"
proof -
  have "wizard_frame ClickCreate (from_spec mesh_spec) = WizardCreate mesh_spec"
    by (rule wizard_frame_from_spec [OF mesh_spec_valid to_spec_from_spec [OF mesh_spec_valid mesh_spec_form]])
  moreover have "app_wizard_open (sy_app (system_start env_wizard))"
    by (simp add: system_start_def app_new_def env_wizard_def env_opening_def begin_detect_def Let_def)
  ultimately show ?thesis by (simp add: sys_creating_def ui_input_def wizard_react_def Let_def)
qed

lemma creating_panel: "running_op (sy_app sys_creating) (cs_name mesh_spec) 1"
  by (simp add: running_op_def app_creating start_op_def next_op_gen_def op_start_def op_running_def system_start_def
      app_new_def env_wizard_def env_opening_def begin_detect_def Let_def split: option.split)

lemma creating_kept: "(n, g) \<notin> sy_lost sys_creating"
proof -
  have "\<not> cmd_full (sy_app sys_creating)"
    by (simp add: cmd_full_def app_creating start_op_def next_op_gen_def system_start_def app_new_def env_wizard_def
        env_opening_def begin_detect_def issue_def try_send_def buses_new_def queue_new_def CMD_BUS_CAP_def Let_def
        split: option.split)
  then show ?thesis by (simp add: sys_creating_def ui_input_def system_start_def Let_def)
qed

lemma some_run: "\<exists>scr ends. task_run c scr ends"
proof -
  have e: "children_end (wk_host calm_worker)"
    by (simp add: children_end_def calm_host_def env_example_def child_example_def)
  obtain r w' where "run_command calm_worker undefined 0 c world_example = (r, w')" by fastforce
  moreover have "calm world_example" "w_events world_example = []"
    by (simp_all add: calm_def world_example_def fs_example_def no_crash_def)
  ultimately show ?thesis unfolding task_run_def using e by blast
qed

lemma operation_can_end_witness:
  "\<exists>S. running_op (sy_app S) (cs_name mesh_spec) 1 \<and> (\<exists>S'. (sys_step task_run)\<^sup>*\<^sup>* S S' \<and> ended S' (cs_name mesh_spec) 1)"
  using creating_run operation_can_end [OF _ creating_panel creating_kept, of _ task_run] creating_panel some_run by blast

section \<open>A destroy\<close>

text \<open>A host on which every process ends at once and prints nothing.\<close>

definition quiet_child :: child where
  "quiet_child = \<lparr>ch_script = (ch_script (child_example 0))\<lparr>ps_stdout_reads := []\<rparr>, ch_effect = \<lambda>n. n, ch_elapsed = 1\<rparr>"

definition quiet_worker :: worker_env where
  "quiet_worker = calm_worker\<lparr>wk_host := calm_host\<lparr>he_spawn := \<lambda>_ _ _. Inr quiet_child\<rparr>\<rparr>"

lemma reconcile_run:
  "task_run CmdReconcile [Progress (EvLiveClusters []), Outcome (EvReconcileDone (Inr \<lparr>rr_clusters = []\<rparr>))] True"
proof -
  let ?w = "world_example :: wworld" and ?out = "\<lparr>out_exit_code = Some 0, out_stdout_lines = [], out_stderr_tail = []\<rparr>"
  have run: "run_cmd (wk_host quiet_worker) c w = (Some (Ok ?out), after_child c quiet_child w)" for c and w :: wworld
    by (simp add: run_cmd_def quiet_worker_def quiet_child_def child_example_def wait_handle_def wait_result_def
        forward_lines_eq str_lines_def Let_def split: prod.split)
  obtain w1 where "run_kind quiet_worker KindGetClusters ?w = (Some (Inr ?out), w1)" "w_events w1 = []"
    by (simp add: run_kind_def texted_def prov_run_def run after_child_def world_example_def)
  moreover have "parse_kind_get_clusters (out_stdout ?out) = []" by code_simp
  moreover have "wk_listing quiet_worker = (\<lambda>_. Inr [])"
    by (simp add: quiet_worker_def calm_worker_def worker_env_example_def)
  ultimately obtain w' where w': "run_command quiet_worker undefined 0 CmdReconcile ?w = (Some (), w')"
    "w_events w' = [Progress (EvLiveClusters []), Outcome (EvReconcileDone (Inr \<lparr>rr_clusters = []\<rparr>))]"
    by (simp add: do_reconcile_def then_do_def task_return_def send_def emit_def texted_def prov_fs_def reconcile_def
        stored_cluster_names_def)
  have "children_end (wk_host quiet_worker)"
    by (simp add: children_end_def quiet_worker_def quiet_child_def child_example_def)
  moreover have "calm ?w" "w_events ?w = []" by (simp_all add: calm_def world_example_def fs_example_def no_crash_def)
  ultimately show ?thesis unfolding task_run_def using w' by fastforce
qed

text \<open>The tab of the cluster is open after the reconciliation.\<close>

definition sys_opened :: system where
  "sys_opened =
     (let S0 = bridge_cmd CmdReconcile (tl (q_items (app_cmd (sy_app (system_start env_opening))))) (system_start env_opening);
       S1 = worker_take CmdReconcile []
         [Progress (EvLiveClusters []), Outcome (EvReconcileDone (Inr \<lparr>rr_clusters = []\<rparr>))] True S0;
       S2 = task_send 0 (Progress (EvLiveClusters [])) [Outcome (EvReconcileDone (Inr \<lparr>rr_clusters = []\<rparr>))] True S1;
       S3 = ui_event env_opening (EvLiveClusters []) [] S2;
       S4 = task_send 0 (Outcome (EvReconcileDone (Inr \<lparr>rr_clusters = []\<rparr>))) [] True S3
      in ui_event env_opening (EvReconcileDone (Inr \<lparr>rr_clusters = []\<rparr>)) [] S4)"

lemma opened_run: "system_run [] sys_opened"
proof -
  let ?S0 = "system_start env_opening" and ?scr = "[Progress (EvLiveClusters []), Outcome (EvReconcileDone (Inr \<lparr>rr_clusters = []\<rparr>))]"
  define B where "B = bridge_cmd CmdReconcile (tl (q_items (app_cmd (sy_app ?S0)))) ?S0"
  define S1 where "S1 = worker_take CmdReconcile [] ?scr True B"
  define S2 where "S2 = task_send 0 (Progress (EvLiveClusters [])) (tl ?scr) True S1"
  define S3 where "S3 = ui_event env_opening (EvLiveClusters []) [] S2"
  define S4 where "S4 = task_send 0 (Outcome (EvReconcileDone (Inr \<lparr>rr_clusters = []\<rparr>))) [] True S3"
  have q: "\<exists>cs. q_items (app_cmd (sy_app ?S0)) = CmdReconcile # cs"
    by (simp add: system_start_def app_new_def env_opening_def begin_detect_def issue_def try_send_def buses_new_def
        queue_new_def CMD_BUS_CAP_def Let_def)
  have e0: "sy_events ?S0 = queue_new EVENT_BUS_CAP" "sy_work ?S0 = []" "wl_tasks (sy_loop ?S0) = []" "sy_bridge ?S0 = []"
    by (simp_all add: system_start_def buses_new_def loop_start_def)
  have eb: "sy_events B = queue_new EVENT_BUS_CAP" "sy_work B = []" "wl_tasks (sy_loop B) = []" "sy_bridge B = [CmdReconcile]"
    by (simp_all add: B_def bridge_cmd_def e0)
  have e1: "sy_events S1 = queue_new EVENT_BUS_CAP" "sy_work S1 = [(?scr, True)]"
    by (simp_all add: S1_def worker_take_def eb spawn_def Let_def)
  have put: "q_items (bus_put m (queue_new EVENT_BUS_CAP)) = [case m of Progress ev \<Rightarrow> ev | Outcome ev \<Rightarrow> ev]"
    "(bus_put m (queue_new EVENT_BUS_CAP))\<lparr>q_items := []\<rparr> = queue_new EVENT_BUS_CAP" for m
    by (simp_all add: bus_put_room queue_new_def EVENT_BUS_CAP_def)
  have e2: "sy_events S2 = bus_put (Progress (EvLiveClusters [])) (queue_new EVENT_BUS_CAP)" "sy_work S2 = [(tl ?scr, True)]"
    by (simp_all add: S2_def task_send_def e1)
  have e3: "sy_events S3 = queue_new EVENT_BUS_CAP" "sy_work S3 = [(tl ?scr, True)]"
    by (simp_all add: S3_def ui_event_def e2 put)
  have e4: "sy_events S4 = bus_put (Outcome (EvReconcileDone (Inr \<lparr>rr_clusters = []\<rparr>))) (queue_new EVENT_BUS_CAP)"
    by (simp_all add: S4_def task_send_def e3)
  have "system_run [] ?S0" by (rule system_run.start)
  moreover have "sys_step task_run ?S0 B" unfolding B_def using q by (intro sys_step.bridged) auto
  moreover have "sys_step task_run B S1" unfolding S1_def using reconcile_run by (intro sys_step.take_cmd) (simp_all add: eb)
  moreover have "sys_step task_run S1 S2" unfolding S2_def by (intro sys_step.send_msg) (simp_all add: e1)
  moreover have "sys_step task_run S2 S3" unfolding S3_def by (intro sys_step.deliver) (simp add: e2 put)
  moreover have "sys_step task_run S3 S4" unfolding S4_def by (intro sys_step.send_msg) (simp_all add: e3)
  moreover have "sys_step task_run S4 (ui_event env_opening (EvReconcileDone (Inr \<lparr>rr_clusters = []\<rparr>)) [] S4)"
    by (intro sys_step.deliver) (simp add: e4 put)
  ultimately have "system_run [] (ui_event env_opening (EvReconcileDone (Inr \<lparr>rr_clusters = []\<rparr>)) [] S4)"
    by (meson system_run.step)
  then show ?thesis by (simp add: sys_opened_def B_def S1_def S2_def S3_def S4_def Let_def)
qed

lemma opened_app:
  "app_active (sy_app sys_opened) = ActiveCluster ''dev''" "app_op_gens (sy_app sys_opened) = (\<lambda>_. None)"
  "\<exists>t. find_tab ''dev'' (sy_app sys_opened) = Some t \<and> ct_name t = ''dev'' \<and> ct_confirm t = None"
  "q_connected (app_cmd (sy_app sys_opened))" "length (q_items (app_cmd (sy_app sys_opened))) < q_cap (app_cmd (sy_app sys_opened))"
  by (simp_all add: sys_opened_def bridge_cmd_def worker_take_def task_send_def ui_event_def system_start_def with_queue_def app_new_def
      env_opening_def handle_event_def reconcile_done_def open_tab_def begin_detect_def Let_def tab_new_def with_deps_def
      with_overview_def issue_def try_send_def buses_new_def queue_new_def CMD_BUS_CAP_def find_tab_def)

text \<open>The user asks for the destroy, types the name and accepts; the worker takes the command.\<close>

definition app_destroying :: "app_state \<Rightarrow> app_state" where
  "app_destroying s = fold (\<lambda>j. app_react env_opening (AppTab j)) [InDestroy, InConfirmTyped ''dev'', InConfirmOk] s"

lemma find_tab_with_tab:
  "find_tab n s = Some t \<Longrightarrow> ct_name (f t) = n \<Longrightarrow> find_tab n (with_tab n f s) = Some (f t)"
proof -
  have "find (\<lambda>t. ct_name t = n) ts = Some t \<Longrightarrow> ct_name (f t) = n
      \<Longrightarrow> find (\<lambda>t. ct_name t = n) (update_first n f ts) = Some (f t)" for ts
    by (induction ts) (auto split: if_splits)
  then show "find_tab n s = Some t \<Longrightarrow> ct_name (f t) = n \<Longrightarrow> find_tab n (with_tab n f s) = Some (f t)"
    by (simp add: find_tab_def with_tab_def)
qed

lemma with_tab_fields [simp]:
  "app_active (with_tab n f s) = app_active s" "app_cmd (with_tab n f s) = app_cmd s"
  "app_op_gens (with_tab n f s) = app_op_gens s"
  by (simp_all add: with_tab_def)

lemma destroy_queued:
  assumes "app_active s = ActiveCluster ''dev''" "app_op_gens s = (\<lambda>_. None)"
    "find_tab ''dev'' s = Some t" "ct_name t = ''dev''" "ct_confirm t = None"
    "q_connected (app_cmd s)" "length (q_items (app_cmd s)) < q_cap (app_cmd s)"
  shows "CmdDestroyCluster ''dev'' 1 \<in> set (q_items (app_cmd (app_destroying s)))"
proof -
  have trim: "str_trim ''dev'' = ''dev''" 
    by (simp add: str_trim_def trim_end_def is_ws1_def is_ws2_def is_ws3_def less_eq_char_def)
  have s1: "app_react env_opening (AppTab InDestroy) s
      = with_tab ''dev'' (\<lambda>_. t\<lparr>ct_confirm := Some (ConfirmDestroy [])\<rparr>) s" (is "_ = ?s1")
    using assms(1,3) by simp
  have f1: "find_tab ''dev'' ?s1 = Some (t\<lparr>ct_confirm := Some (ConfirmDestroy [])\<rparr>)"
    using assms(3,4) by (subst find_tab_with_tab) simp_all
  have s2: "app_react env_opening (AppTab (InConfirmTyped ''dev'')) ?s1
      = with_tab ''dev'' (\<lambda>_. t\<lparr>ct_confirm := Some (ConfirmDestroy ''dev'')\<rparr>) ?s1" (is "_ = ?s2")
    using assms(1) f1 by (simp add: retype_def)
  have f2: "find_tab ''dev'' ?s2 = Some (t\<lparr>ct_confirm := Some (ConfirmDestroy ''dev'')\<rparr>)"
    using f1 assms(4) by (subst find_tab_with_tab) simp_all
  have s3: "app_react env_opening (AppTab InConfirmOk) ?s2
      = start_op OpDestroy ''dev'' (CmdDestroyCluster ''dev'') (with_tab ''dev'' (\<lambda>_. t\<lparr>ct_confirm := None\<rparr>) ?s2)"
    using assms(1,4) f2 by (simp add: confirm_ok_def confirm_typed_def trim)
  show ?thesis
    using assms(2,6,7) by (simp add: app_destroying_def s1 s2 s3 start_op_def next_op_gen_def issue_def try_send_def
        del: app_react.simps)
qed

text \<open>A command that becomes a task is taken in time.\<close>

lemma taken_in_time:
  assumes "system_run h S" "c \<in> set (sy_bridge S)" "op_of c = Some (n, g)"
  shows "\<exists>S' tok. system_run h S' \<and> (c, tok) \<in> set (wl_tasks (sy_loop S'))"
  using assms
proof (induction "sy_bridge S" arbitrary: S)
  case (Cons d cs)
  have "d \<noteq> CmdShutdown" using no_shutdown_queued [OF harm_ok_run [OF Cons.prems(1)]] Cons.hyps(2) [symmetric] by auto
  moreover obtain scr ends where "task_run d scr ends" using some_run by blast
  ultimately have run: "system_run h (worker_take d cs scr ends S)" (is "system_run h ?T")
    using Cons.prems(1) Cons.hyps(2) by (intro system_run.step [OF _ sys_step.take_cmd]) simp_all
  show ?case
  proof (cases "d = c")
    case True
    obtain tok where "wl_tasks (dispatch c (sy_loop S)) = wl_tasks (sy_loop S) @ [(c, tok)]"
      using dispatch_op [OF Cons.prems(3)] by blast
    then have "(c, tok) \<in> set (wl_tasks (sy_loop ?T))" using True by (simp add: worker_take_def Let_def)
    then show ?thesis using run by blast
  next
    case False
    then show ?thesis using Cons.hyps(1) [of ?T] run Cons.prems Cons.hyps(2) [symmetric] by auto
  qed
qed simp

lemma steps_run: "(sys_step task_run)\<^sup>*\<^sup>* S S' \<Longrightarrow> system_run h S \<Longrightarrow> system_run h S'"
  by (induction rule: rtranclp_induct) (auto intro: system_run.step)

lemma tab_inputs_run:
  "system_run h S \<Longrightarrow> \<exists>h' S'. system_run h' S' \<and> sy_app S' = fold (\<lambda>j. app_react env (AppTab j)) js (sy_app S)"
proof (induction js arbitrary: h S)
  case (Cons j js)
  have "system_run ((AppTab j, sy_app S) # h) (ui_input env (AppTab j) S)"
    using Cons.prems by (rule system_run.input) simp
  moreover have "sy_app (ui_input env (AppTab j) S) = app_react env (AppTab j) (sy_app S)"
    by (simp add: ui_input_def Let_def del: app_react.simps)
  ultimately show ?case using Cons.IH by (metis fold_simps(2))
qed auto

lemma destroys_are_asked_witness:
  "\<exists>h S tok. system_run h S \<and> (CmdDestroyCluster ''dev'' 1, tok) \<in> set (wl_tasks (sy_loop S))
     \<and> (\<exists>(i, s) \<in> set h. asked i s (CmdDestroyCluster ''dev'' 1))"
proof -
  obtain h S where S: "system_run h S" "sy_app S = app_destroying (sy_app sys_opened)"
    using tab_inputs_run [OF opened_run] unfolding app_destroying_def by blast
  then have "CmdDestroyCluster ''dev'' 1 \<in> set (q_items (app_cmd (sy_app S)))"
    using destroy_queued opened_app by auto
  moreover obtain B where "(sys_step task_run)\<^sup>*\<^sup>* S B" "sy_bridge B = sy_bridge S @ q_items (app_cmd (sy_app S))"
    using bridge_all by blast
  ultimately have "system_run h B" "CmdDestroyCluster ''dev'' 1 \<in> set (sy_bridge B)" using steps_run S(1) by auto
  from taken_in_time [OF this] obtain T tok where
    T: "system_run h T" "(CmdDestroyCluster ''dev'' 1, tok) \<in> set (wl_tasks (sy_loop T))" by auto
  have "\<not> misnamed i s (CmdDestroyCluster ''dev'' 1)" for i s by (simp add: misnamed_def)
  then show ?thesis using T destroys_are_asked [OF T] by auto
qed

section \<open>Panels\<close>

text \<open>C10: In every run an operation shown as running has its command in one of the queues of commands, or its outcome among
  the sends of a task or in the queue of events, unless its command or its outcome met a full queue.\<close>

theorem running_panels_backed:
  assumes "system_run h S" and "running_op (sy_app S) n g" and "(n, g) \<notin> sy_lost S"
  shows "backed S n g"
  using sys_ok_run [OF assms(1)] assms(2,3) unfolding sys_ok_def by blast

lemma running_panels_backed_witness: "\<exists>S. backed S (cs_name mesh_spec) 1"
  using creating_run running_panels_backed [OF _ creating_panel creating_kept] by blast

section \<open>A full queue\<close>

text \<open>C38: A start that finds the queue of commands full sends nothing, but its panel runs, and the close mark of a
  running panel does not close it.\<close>

theorem dropped_start_leaves_panel:
  assumes "q_connected (app_cmd s)" and "cmd_full s"
  shows "\<exists>g. running_op (start_op k n c s) n g \<and> app_cmd (start_op k n c s) = app_cmd s
     \<and> app_bus_warning (start_op k n c s) \<and> app_ops (close_panel n (start_op k n c s)) = app_ops (start_op k n c s)"
proof -
  obtain g s1 where g: "next_op_gen n s = (g, s1)" by fastforce
  define s2 where "s2 = s1\<lparr>app_ops := (app_ops s1)(n \<mapsto> op_start k n g)\<rparr>"
  have f: "app_cmd s2 = app_cmd s" using g by (auto simp: next_op_gen_def Let_def s2_def)
  then have "issue (c g) s2 = s2\<lparr>app_bus_warning := True\<rparr>"
    using assms by (simp add: issue_def try_send_def cmd_full_def)
  then have s: "start_op k n c s = s2\<lparr>app_bus_warning := True\<rparr>" by (simp add: start_op_def g s2_def)
  have p: "app_ops s2 n = Some (op_start k n g)" by (simp add: s2_def)
  have "op_running (op_start k n g)" "OpPanel.op_gen (op_start k n g) = g" by (simp_all add: op_start_def op_running_def)
  then show ?thesis unfolding s by (intro exI [of _ g]) (simp add: running_op_def p f close_panel_def)
qed

lemma dropped_start_leaves_panel_witness:
  "\<exists>s g. running_op (start_op OpCreate ''dev'' (CmdCreateCluster dev_spec) s) ''dev'' g \<and> cmd_full s"
proof -
  define s where "s = app_new env_opening ((queue_new CMD_BUS_CAP)\<lparr>q_items := replicate 64 CmdReconcile\<rparr>)"
  have "q_connected (app_cmd s)" "cmd_full s"
    by (simp_all add: s_def app_new_def env_opening_def begin_detect_def issue_def try_send_def queue_new_def
        CMD_BUS_CAP_def cmd_full_def Let_def)
  from dropped_start_leaves_panel [OF this, of OpCreate "''dev''" "CmdCreateCluster dev_spec"] this(2)
  show ?thesis by blast
qed

end
