(* ===== verification/SystemClose.thy ===== *)
theory SystemClose
  imports SystemProps
begin

text \<open>
  The end of the program (\<open>main.rs\<close>, after the window has closed, and the end of \<open>run_loop\<close>): the last command is
  sent with a blocking send, the bridge and the loop work on what is queued, and the loop ends at the shutdown.
\<close>

section \<open>Steps\<close>

text \<open>The application is gone, and with it the receiver of the events.\<close>

definition close_window :: "system \<Rightarrow> system" where
  "close_window S = S\<lparr>sy_events := (sy_events S)\<lparr>q_connected := False\<rparr>\<rparr>"

text \<open>The blocking send: \<open>None\<close> while it waits for room.\<close>

definition send_shutdown :: "system \<Rightarrow> system option" where
  "send_shutdown S =
     (if cmd_full (sy_app S) then None
      else Some (S\<lparr>sy_app := with_queue (q_items (app_cmd (sy_app S)) @ [CmdShutdown]) (sy_app S)\<rparr>))"

text \<open>The loop breaks, and the tasks are aborted.\<close>

definition loop_stop :: "core_command list \<Rightarrow> system \<Rightarrow> system" where
  "loop_stop cs S = S\<lparr>sy_bridge := cs, sy_loop := dispatch CmdShutdown (sy_loop S), sy_work := []\<rparr>"

text \<open>The flag says whether the shutdown has been sent.\<close>

inductive close_step :: "(core_command \<Rightarrow> bus_send list \<Rightarrow> bool \<Rightarrow> bool) \<Rightarrow> bool \<times> system \<Rightarrow> bool \<times> system \<Rightarrow> bool"
  for runs where
  sent: "send_shutdown S = Some S' \<Longrightarrow> close_step runs (False, S) (True, S')"
| bridged: "wl_running (sy_loop S) \<Longrightarrow> q_items (app_cmd (sy_app S)) = c # cs
    \<Longrightarrow> close_step runs (b, S) (b, bridge_cmd c cs S)"
| taken: "wl_running (sy_loop S) \<Longrightarrow> sy_bridge S = c # cs \<Longrightarrow> c \<noteq> CmdShutdown \<Longrightarrow> runs c scr ends
    \<Longrightarrow> close_step runs (b, S) (b, worker_take c cs scr ends S)"
| stopped: "wl_running (sy_loop S) \<Longrightarrow> sy_bridge S = CmdShutdown # cs \<Longrightarrow> close_step runs (b, S) (b, loop_stop cs S)"

section \<open>Before the window closes\<close>

definition roomy :: "system \<Rightarrow> bool" where
  "roomy S \<longleftrightarrow> wl_running (sy_loop S) \<and> 0 < q_cap (app_cmd (sy_app S))"

lemma dispatch_running: "c \<noteq> CmdShutdown \<Longrightarrow> wl_running (dispatch c l) = wl_running l"
  by (cases "(c, l)" rule: dispatch.cases)
    (simp_all add: spawn_in_def op_token_def spawn_def cancel_slot_def Let_def)

lemma with_queue_cap [simp]: "q_cap (app_cmd (with_queue cs s)) = q_cap (app_cmd s)"
  "q_items (app_cmd (with_queue cs s)) = cs"
  by (simp_all add: with_queue_def)

lemma take_running: "c \<noteq> CmdShutdown \<Longrightarrow> wl_running (sy_loop (worker_take c cs scr ends S)) = wl_running (sy_loop S)"
  by (simp add: worker_take_def Let_def dispatch_running)

lemma roomy_step: "sys_step runs S S' \<Longrightarrow> roomy S \<Longrightarrow> roomy S'"
proof (induction rule: sys_step.induct)
  case (deliver S ev evs env)
  then show ?case using event_quiets [of ev "sy_app S" env] by (simp add: roomy_def quiets_def queue_grows_def ui_event_def)
next
  case (take_cmd S c cs scr ends)
  then show ?case by (simp add: roomy_def take_running)
qed (simp_all add: roomy_def bridge_cmd_def task_send_def task_notice_def task_joined_def)

lemma roomy_start: "roomy (system_start env)"
proof -
  have "q_cap (app_cmd (issue c s)) = q_cap (app_cmd s)" for c s
    using grows_issue [of s c] by (simp add: queue_grows_def)
  then have "q_cap (app_cmd (app_new env q)) = q_cap q" for q
    by (simp add: app_new_def Let_def begin_detect_def with_deps_def with_overview_def split: option.split)
  then show ?thesis by (simp add: roomy_def system_start_def loop_start_def buses_new_def queue_new_def CMD_BUS_CAP_def)
qed

lemma roomy_run: "system_run h S \<Longrightarrow> roomy S"
proof (induction rule: system_run.induct)
  case (input h S i env)
  then have "extends (sy_app S) (app_react env i (sy_app S))"
    using sys_ok_run by (intro extends_react) (auto simp: sys_ok_def)
  then show ?case using input.IH by (simp add: roomy_def extends_def queue_grows_def ui_input_def Let_def)
qed (simp_all add: roomy_start roomy_step)

section \<open>The end\<close>

definition close_ok :: "bool \<times> system \<Rightarrow> bool" where
  "close_ok x \<longleftrightarrow> (case x of (b, S) \<Rightarrow> 0 < q_cap (app_cmd (sy_app S))
     \<and> (wl_running (sy_loop S) \<and> b
          \<longrightarrow> CmdShutdown \<in> set (q_items (app_cmd (sy_app S))) \<union> set (sy_bridge S))
     \<and> (\<not> b \<longrightarrow> CmdShutdown \<notin> set (q_items (app_cmd (sy_app S))) \<union> set (sy_bridge S))
     \<and> (\<not> wl_running (sy_loop S) \<longrightarrow> b \<and> wl_tasks (sy_loop S) = []))"

lemma close_ok_start:
  assumes "system_run h S" shows "close_ok (False, close_window S)"
  using roomy_run [OF assms] no_shutdown_queued [OF harm_ok_run [OF assms]]
  by (simp add: close_ok_def roomy_def close_window_def)

lemma close_ok_step: "close_step runs x y \<Longrightarrow> close_ok x \<Longrightarrow> close_ok y"
proof (induction rule: close_step.induct)
  case (sent S S')
  then show ?case by (auto simp: close_ok_def send_shutdown_def split: if_splits)
next
  case (bridged S c cs b)
  then show ?case by (auto simp: close_ok_def bridge_cmd_def)
next
  case (taken S c cs scr ends b)
  then show ?case by (auto simp: close_ok_def take_running)
next
  case (stopped S cs b)
  then show ?case by (cases b) (auto simp: close_ok_def loop_stop_def)
qed

lemma close_ok_steps: "(close_step runs)\<^sup>*\<^sup>* x y \<Longrightarrow> close_ok x \<Longrightarrow> close_ok y"
  by (induction rule: rtranclp_induct) (auto dest: close_ok_step)

text \<open>What is still to be done: each step takes something away.\<close>

definition close_left :: "bool \<times> system \<Rightarrow> nat" where
  "close_left x = (case x of (b, S) \<Rightarrow>
     (if b then 0 else 3) + 2 * length (q_items (app_cmd (sy_app S))) + length (sy_bridge S))"

lemma close_left_step: "close_step runs x y \<Longrightarrow> close_left y < close_left x"
  by (induction rule: close_step.induct)
    (auto simp: close_left_def send_shutdown_def bridge_cmd_def loop_stop_def split: if_splits)

lemma close_progress:
  assumes "close_ok (b, S)" "wl_running (sy_loop S)" "\<forall>c. c \<noteq> CmdShutdown \<longrightarrow> (\<exists>scr ends. runs c scr ends)"
  shows "\<exists>y. close_step runs (b, S) y"
proof (cases "q_items (app_cmd (sy_app S))")
  case Nil
  show ?thesis
  proof (cases b)
    case False
    obtain S' where "send_shutdown S = Some S'" using assms(1) Nil by (simp add: send_shutdown_def cmd_full_def close_ok_def)
    then show ?thesis using False close_step.sent by fastforce
  next
    case True
    then have "CmdShutdown \<in> set (sy_bridge S)" using assms(1,2) Nil by (simp add: close_ok_def)
    then obtain c cs where c: "sy_bridge S = c # cs" by (cases "sy_bridge S") auto
    show ?thesis
    proof (cases "c = CmdShutdown")
      case True
      then show ?thesis using close_step.stopped [OF assms(2)] c by blast
    next
      case False
      then show ?thesis using close_step.taken [OF assms(2) c] assms(3) by blast
    qed
  qed
next
  case (Cons c cs)
  then show ?thesis using close_step.bridged [OF assms(2)] by blast
qed

text \<open>C30: However full the queue is when the window closes, the end is reached: the steps cannot go on for ever, and when
  none is possible the shutdown has been sent, the loop has ended and no task is left.\<close>

theorem shutdown_completes:
  assumes "system_run h S" and "\<forall>c. c \<noteq> CmdShutdown \<longrightarrow> (\<exists>scr ends. runs c scr ends)"
  shows "(\<nexists>f. f 0 = (False, close_window S) \<and> (\<forall>i::nat. close_step runs (f i) (f (Suc i))))
     \<and> (\<forall>b T. (close_step runs)\<^sup>*\<^sup>* (False, close_window S) (b, T) \<and> (\<nexists>y. close_step runs (b, T) y)
          \<longrightarrow> b \<and> \<not> wl_running (sy_loop T) \<and> wl_tasks (sy_loop T) = [])"
proof (intro conjI allI impI notI, elim exE conjE)
  fix f :: "nat \<Rightarrow> bool \<times> system" assume "\<forall>i. close_step runs (f i) (f (Suc i))"
  then have "\<forall>i. (f (Suc i), f i) \<in> measure close_left" unfolding in_measure using close_left_step by blast
  then show False using wf_iff_no_infinite_down_chain [of "measure close_left"] by blast
next
  fix b T assume T: "(close_step runs)\<^sup>*\<^sup>* (False, close_window S) (b, T) \<and> (\<nexists>y. close_step runs (b, T) y)"
  then have ok: "close_ok (b, T)" using close_ok_steps close_ok_start [OF assms(1)] by blast
  moreover have r: "\<not> wl_running (sy_loop T)" using close_progress [OF ok _ assms(2)] T by blast
  ultimately show b "wl_tasks (sy_loop T) = []" by (simp_all add: close_ok_def)
  show "wl_running (sy_loop T) \<Longrightarrow> False" using r by blast
qed

lemma shutdown_completes_witness:
  "\<nexists>f. f 0 = (False, close_window sys_creating) \<and> (\<forall>i::nat. close_step task_run (f i) (f (Suc i)))"
  using creating_run shutdown_completes [of _ sys_creating task_run] some_run by blast

end
