(* ===== verification/WizardForm.thy ===== *)
theory WizardForm
  imports Wizard
begin

text \<open>
  The controls of the create wizard (\<open>views/wizard.rs\<close>, \<open>show\<close>): which of them a form shows, what an edit does, the
  notes under the fields, and the frame around theory \<open>Wizard\<close>.  A number control with a range brings its
  value into the range whenever it is shown, as the toolkit documents it.
\<close>

section \<open>Controls\<close>

datatype wizard_edit =
    EditName string
  | EditVersion string
  | PickCni cni
  | EditPodCidr string
  | EditServiceCidr string
  | SetWorkers "32 word"
  | PickIngress "ingress_controller option"
  | TickApiGateway bool
  | TickHubble bool
  | TickCiliumIngress bool
  | TickMesh bool
  | SetClusterId "16 word"
  | EditClusterName string

definition extras_shown :: "wizard_state \<Rightarrow> bool" where
  "extras_shown w \<longleftrightarrow> wz_cni w = CiliumCni"

definition mesh_shown :: "wizard_state \<Rightarrow> bool" where
  "mesh_shown w \<longleftrightarrow> extras_shown w \<and> co_mesh (wz_cilium w)"

definition ingress_shown :: "wizard_state \<Rightarrow> ingress_controller option \<Rightarrow> bool" where
  "ingress_shown w i \<longleftrightarrow> i \<noteq> Some CiliumIngress \<or> extras_shown w"

definition on_cilium :: "(cilium_options \<Rightarrow> cilium_options) \<Rightarrow> wizard_state \<Rightarrow> wizard_state" where
  "on_cilium u w = w\<lparr>wz_cilium := u (wz_cilium w)\<rparr>"

fun apply_edit :: "wizard_edit \<Rightarrow> wizard_state \<Rightarrow> wizard_state" where
  "apply_edit (EditName s) w = w\<lparr>wz_name := s\<rparr>"
| "apply_edit (EditVersion s) w = w\<lparr>wz_k8s_version := s\<rparr>"
| "apply_edit (PickCni c) w = w\<lparr>wz_cni := c\<rparr>"
| "apply_edit (EditPodCidr s) w = w\<lparr>wz_pod_cidr := s\<rparr>"
| "apply_edit (EditServiceCidr s) w = w\<lparr>wz_service_cidr := s\<rparr>"
| "apply_edit (SetWorkers n) w = w\<lparr>wz_worker_count := n\<rparr>"
| "apply_edit (PickIngress i) w = (if ingress_shown w i then w\<lparr>wz_ingress := i\<rparr> else w)"
| "apply_edit (TickApiGateway b) w = (if extras_shown w then on_cilium (\<lambda>c. c\<lparr>co_api_gateway := b\<rparr>) w else w)"
| "apply_edit (TickHubble b) w = (if extras_shown w then on_cilium (\<lambda>c. c\<lparr>co_hubble := b\<rparr>) w else w)"
| "apply_edit (TickCiliumIngress b) w = (if extras_shown w then on_cilium (\<lambda>c. c\<lparr>co_ingress := b\<rparr>) w else w)"
| "apply_edit (TickMesh b) w = (if extras_shown w then on_cilium (\<lambda>c. c\<lparr>co_mesh := b\<rparr>) w else w)"
| "apply_edit (SetClusterId n) w = (if mesh_shown w then on_cilium (\<lambda>c. c\<lparr>co_cluster_id := n\<rparr>) w else w)"
| "apply_edit (EditClusterName s) w = (if mesh_shown w then on_cilium (\<lambda>c. c\<lparr>co_cluster_name := s\<rparr>) w else w)"

definition drag_value :: "'a::linorder \<Rightarrow> 'a \<Rightarrow> 'a \<Rightarrow> 'a" where
  "drag_value lo hi x = (if x < lo then lo else if hi < x then hi else x)"

definition show_numbers :: "wizard_state \<Rightarrow> wizard_state" where
  "show_numbers w =
     (let w1 = w\<lparr>wz_worker_count := drag_value 0 MAX_WORKERS (wz_worker_count w)\<rparr> in
      if mesh_shown w1
      then on_cilium (\<lambda>c. c\<lparr>co_cluster_id := drag_value MIN_CLUSTER_ID MAX_CLUSTER_ID (co_cluster_id c)\<rparr>) w1
      else w1)"

section \<open>Notes\<close>

definition name_note :: "fmt_env \<Rightarrow> wizard_state \<Rightarrow> string option" where
  "name_note f w =
     (if wz_name w = [] then None
      else case validate_name (wz_name w) of Inl e \<Rightarrow> Some (core_error_text f e) | Inr _ \<Rightarrow> None)"

definition cilium_ingress_note :: "wizard_state \<Rightarrow> string option" where
  "cilium_ingress_note w =
     (if wz_ingress w = Some CiliumIngress \<and> \<not> co_ingress (wz_cilium w)
      then Some (''Cilium ingress requires the '' @ [CHR 39] @ ''Ingress Controller'' @ [CHR 39] @ '' cilium extra below'')
      else None)"

definition ports_note :: "wizard_state \<Rightarrow> string" where
  "ports_note w =
     (case wz_ingress w of
        Some Nginx \<Rightarrow> ''host ports 80/443 -> node ports are mapped automatically''
      | Some Traefik \<Rightarrow> ''host ports 80/443 -> node ports are mapped automatically''
      | None \<Rightarrow>
          if wz_cni w = CiliumCni \<and> co_ingress (wz_cilium w)
          then ''no host ports mapped; the Cilium ingress controller is installed by default (see Cilium extras)''
          else ''no host ports mapped (Cilium ingress uses a LoadBalancer service)''
      | Some CiliumIngress \<Rightarrow> ''no host ports mapped (Cilium ingress uses a LoadBalancer service)'')"

section \<open>The frame\<close>

record wizard_input =
  wi_edits :: "wizard_edit list"
  wi_interacted :: bool
  wi_click :: wizard_click

definition wizard_touch :: "bool \<Rightarrow> wizard_state \<Rightarrow> wizard_state" where
  "wizard_touch interacted w = (if \<not> wz_touched w \<and> interacted then w\<lparr>wz_touched := True\<rparr> else w)"

definition wizard_show :: "fmt_env \<Rightarrow> wizard_input \<Rightarrow> wizard_state \<Rightarrow> wizard_state \<times> wizard_validation \<times> wizard_action" where
  "wizard_show f i w =
     (let w1 = wizard_touch (wi_interacted i) (show_numbers (fold apply_edit (wi_edits i) w))
      in (w1, validation_status f (validate (to_spec w1)) (wz_touched w1), wizard_frame (wi_click i) w1))"

section \<open>Properties\<close>

lemma drag_value_range: "lo \<le> hi \<Longrightarrow> lo \<le> drag_value lo hi x \<and> drag_value lo hi x \<le> hi"
  by (auto simp: drag_value_def)

lemma show_numbers_range:
  "wz_worker_count (show_numbers w) \<le> MAX_WORKERS
   \<and> (mesh_shown (show_numbers w) \<longrightarrow>
        MIN_CLUSTER_ID \<le> co_cluster_id (wz_cilium (show_numbers w))
        \<and> co_cluster_id (wz_cilium (show_numbers w)) \<le> MAX_CLUSTER_ID)"
  using drag_value_range [of 0 MAX_WORKERS "wz_worker_count w"]
    drag_value_range [of MIN_CLUSTER_ID MAX_CLUSTER_ID "co_cluster_id (wz_cilium w)"]
  by (auto simp: show_numbers_def on_cilium_def mesh_shown_def extras_shown_def Let_def
      MIN_CLUSTER_ID_def MAX_CLUSTER_ID_def)

text \<open>Whatever is typed and clicked, the numbers of the form a frame leaves are in their ranges, the action is the one of
  that form, and a fresh form shows its hint until the user has done something.\<close>

theorem wizard_show_sound:
  "case wizard_show f i w of (w', v, a) \<Rightarrow>
     a = wizard_frame (wi_click i) w' \<and> wz_worker_count w' \<le> MAX_WORKERS
     \<and> (\<not> mesh_shown w' \<or> (MIN_CLUSTER_ID \<le> co_cluster_id (wz_cilium w') \<and> co_cluster_id (wz_cilium w') \<le> MAX_CLUSTER_ID))
     \<and> (v = ShowHint) = (\<not> wz_touched w')"
proof -
  define w1 where "w1 = show_numbers (fold apply_edit (wi_edits i) w)"
  have "wz_worker_count w1 \<le> MAX_WORKERS"
    "mesh_shown w1 \<Longrightarrow> MIN_CLUSTER_ID \<le> co_cluster_id (wz_cilium w1) \<and> co_cluster_id (wz_cilium w1) \<le> MAX_CLUSTER_ID"
    using show_numbers_range [of "fold apply_edit (wi_edits i) w"] by (simp_all add: w1_def)
  then show ?thesis
    by (auto simp: wizard_show_def w1_def [symmetric] wizard_touch_def validation_status_def Let_def
        mesh_shown_def extras_shown_def split: sum.split)
qed

text \<open>The choice of the Cilium controller stays when another CNI is picked, although its control is gone.\<close>

lemma cilium_ingress_stays:
  "wz_ingress w = Some CiliumIngress \<Longrightarrow>
     wz_ingress (apply_edit (PickCni Calico) w) = Some CiliumIngress
     \<and> \<not> ingress_shown (apply_edit (PickCni Calico) w) (Some CiliumIngress)"
  by (simp add: ingress_shown_def extras_shown_def)

end
