(* ===== verification/AppFrame.thy ===== *)
theory AppFrame
  imports AppProps WizardForm
begin

text \<open>
  A whole frame of the application (\<open>app.rs\<close>, \<open>logic\<close> and \<open>ui\<close>): the events drained, the keys, the watchdog, then
  every part of the window in the order it is rendered, with the windows of the operations
  (\<open>views/ops.rs\<close>, \<open>show\<close>), the banners and the about window.  Screenshots are in theory \<open>Screenshot\<close>.
\<close>

section \<open>The window of an operation\<close>

definition op_title :: "op_panel \<Rightarrow> string" where
  "op_title p = op_kind_label (OpPanel.op_kind p) @ '' cluster: '' @ op_name p"

fun step_marker :: "step_status \<Rightarrow> string \<times> pill_hue" where
  "step_marker StepRunning = ([CHR 0xE2, CHR 0x80, CHR 0xA6], PillAmber)"
| "step_marker StepDone = (CHECK_MARK, PillGreen)"
| "step_marker StepFail = (CROSS_MARK, PillRed)"

definition step_line :: "step_ui \<Rightarrow> string \<times> string \<times> pill_hue" where
  "step_line st = (case step_marker (su_status st) of (m, hue) \<Rightarrow> (''['' @ m @ '']'', friendly_step (su_id st), hue))"

definition op_footer :: "op_panel \<Rightarrow> string option" where
  "op_footer p =
     (case op_finished p of
        None \<Rightarrow> None
      | Some (Inr _) \<Rightarrow> Some ''Finished''
      | Some (Inl e) \<Rightarrow> Some (''Failed: '' @ e))"

definition op_texts :: "op_panel \<Rightarrow> string list" where
  "op_texts p = op_output p @ (if op_running p then [''running...''] else [])"

record op_input =
  on_cancel :: bool
  on_close :: bool
  on_x :: bool

text \<open>Whether the panel is removed, and the commands.\<close>

definition op_show :: "op_input \<Rightarrow> op_panel \<Rightarrow> bool \<times> core_command list" where
  "op_show i p =
     (let (remove, actions) =
        (case op_finished p of
           None \<Rightarrow> (False, if on_cancel i then [CmdCancelOp (op_name p)] else [])
         | Some _ \<Rightarrow> (on_close i, []))
      in if on_x i
         then (if op_running p then (remove, actions @ [CmdCancelOp (op_name p)]) else (True, actions))
         else (remove, actions))"

text \<open>The panels in the order \<open>names\<close> of the map: the commands of all of them first, then the removals.\<close>

definition panel_result :: "(string \<Rightarrow> op_input) \<Rightarrow> app_state \<Rightarrow> string \<Rightarrow> bool \<times> core_command list" where
  "panel_result inp s n = (case app_ops s n of Some p \<Rightarrow> op_show (inp n) p | None \<Rightarrow> (False, []))"

definition render_op_panels :: "string list \<Rightarrow> (string \<Rightarrow> op_input) \<Rightarrow> app_state \<Rightarrow> app_state" where
  "render_op_panels names inp s =
     (let s1 = fold issue (concat (map (\<lambda>n. snd (panel_result inp s n)) names)) s
      in fold (\<lambda>n s. s\<lparr>app_ops := (app_ops s)(n := None)\<rparr>) (filter (\<lambda>n. fst (panel_result inp s n)) names) s1)"

section \<open>Banners, bars and the about window\<close>

definition remove_at :: "nat \<Rightarrow> 'a list \<Rightarrow> 'a list" where
  "remove_at k xs = take k xs @ drop (Suc k) xs"

definition render_banners :: "nat list \<Rightarrow> app_state \<Rightarrow> app_state" where
  "render_banners dismiss s = s\<lparr>app_banners := fold remove_at (rev dismiss) (app_banners s)\<rparr>"

definition bus_notice :: "app_state \<Rightarrow> string option" where
  "bus_notice s = (if app_bus_warning s then Some ''core busy - some requests may have been dropped'' else None)"

definition tab_label :: "cluster_tab \<Rightarrow> string" where
  "tab_label t = ''  '' @ ct_name t @ ''  ''"

record bar_input =
  bi_about :: bool
  bi_theme :: "theme_id option"
  bi_dismiss :: "nat list"
  bi_overview :: bool
  bi_select :: "string list"
  bi_close :: "string option"

text \<open>The top bar: the About button, then the picker of the themes.\<close>

definition render_top_bar :: "bar_input \<Rightarrow> app_state \<Rightarrow> app_state" where
  "render_top_bar i s =
     (let s1 = (if bi_about i then s\<lparr>app_about_open := True\<rparr> else s)
      in case bi_theme i of Some t \<Rightarrow> pick_theme t s1 | None \<Rightarrow> s1)"

definition render_tab_bar :: "bar_input \<Rightarrow> app_state \<Rightarrow> app_state" where
  "render_tab_bar i s =
     (let s1 = (if bi_overview i then s\<lparr>app_active := ActiveOverview\<rparr> else s);
          s2 = fold (\<lambda>n s. if list_ex (\<lambda>t. ct_name t = n) (app_tabs s) then s\<lparr>app_active := ActiveCluster n\<rparr> else s)
                 (bi_select i) s1
      in case bi_close i of
           Some n \<Rightarrow> if list_ex (\<lambda>t. ct_name t = n) (app_tabs s2) then close_tab n s2 else s2
         | None \<Rightarrow> s2)"

record about_input =
  ai_capture :: bool
  ai_close :: bool
  ai_x :: bool

text \<open>The about window: whether it stays open, and whether a capture is requested.\<close>

definition about_show :: "about_input \<Rightarrow> bool \<times> bool" where
  "about_show i = (\<not> ai_x i \<and> \<not> ai_close i, ai_capture i)"

definition render_about :: "about_input \<Rightarrow> app_state \<Rightarrow> app_state \<times> bool" where
  "render_about i s =
     (if app_about_open s
      then (case about_show i of (open', capture) \<Rightarrow> (s\<lparr>app_about_open := open'\<rparr>, capture))
      else (s, False))"

section \<open>The frame\<close>

record frame_input =
  fi_events :: "core_event list"
  fi_escape :: bool
  fi_refresh :: bool
  fi_bars :: bar_input
  fi_deps :: deps_input
  fi_overview :: overview_input
  fi_tab :: "tab_input list"
  fi_order :: "string list"
  fi_panels :: "string \<Rightarrow> op_input"
  fi_wizard :: wizard_input
  fi_about :: about_input

definition app_logic :: "app_env \<Rightarrow> frame_input \<Rightarrow> app_state \<Rightarrow> app_state" where
  "app_logic env i s =
     (let s1 = fold (handle_event env) (fi_events i) s;
          s2 = (if fi_escape i then escape s1 else s1);
          s3 = (if fi_refresh i then refresh_key s2 else s2)
      in watch env s3)"

text \<open>The tab that is shown: its commands are carried out after all its controls.\<close>

definition tab_frame :: "tab_input list \<Rightarrow> app_state \<Rightarrow> app_state" where
  "tab_frame ins s =
     (case app_active s of
        ActiveOverview \<Rightarrow> s
      | ActiveCluster n \<Rightarrow>
          (case find_tab n s of
             None \<Rightarrow> s
           | Some t \<Rightarrow> (let (t1, cmds) = tab_react_all ins t in fold tab_cmd_react cmds (with_tab n (\<lambda>_. t1) s))))"

definition render_active :: "app_env \<Rightarrow> frame_input \<Rightarrow> app_state \<Rightarrow> app_state" where
  "render_active env i s =
     (case app_active s of
        ActiveOverview \<Rightarrow> overview_frame env (fi_deps i) (fi_overview i) s
      | ActiveCluster _ \<Rightarrow> tab_frame (fi_tab i) s)"

definition render_wizard :: "fmt_env \<Rightarrow> wizard_input \<Rightarrow> app_state \<Rightarrow> app_state" where
  "render_wizard f i s =
     (let form = (case app_wizard s of Some w \<Rightarrow> w | None \<Rightarrow> wizard_fresh)
      in wizard_react (wi_click i) (fst (wizard_show f i form)) s)"

definition app_ui :: "app_env \<Rightarrow> fmt_env \<Rightarrow> frame_input \<Rightarrow> app_state \<Rightarrow> app_state \<times> bool" where
  "app_ui env f i s =
     (let s1 = render_top_bar (fi_bars i) s;
          s2 = render_tab_bar (fi_bars i) (render_banners (bi_dismiss (fi_bars i)) s1);
          s3 = render_active env i s2;
          s4 = render_op_panels (fi_order i) (fi_panels i) s3
      in render_about (fi_about i) (render_wizard f (fi_wizard i) s4))"

definition app_frame :: "app_env \<Rightarrow> fmt_env \<Rightarrow> frame_input \<Rightarrow> app_state \<Rightarrow> app_state \<times> bool" where
  "app_frame env f i s = app_ui env f i (app_logic env i s)"

section \<open>Every part keeps the invariant\<close>

lemma app_ok_issues: "app_ok s \<Longrightarrow> app_ok (fold issue cs s)"
  by (induction cs arbitrary: s) simp_all

lemma app_ok_removals: "app_ok s \<Longrightarrow> app_ok (fold (\<lambda>n s. s\<lparr>app_ops := (app_ops s)(n := None)\<rparr>) ns s)"
  by (induction ns arbitrary: s) (simp_all add: app_ok_upd_overview_only)

lemma app_ok_op_panels: "app_ok s \<Longrightarrow> app_ok (render_op_panels names inp s)"
  by (simp add: render_op_panels_def Let_def app_ok_issues app_ok_removals)

lemma app_ok_selects:
  "app_ok s \<Longrightarrow> app_ok (fold (\<lambda>n s. if list_ex (\<lambda>t. ct_name t = n) (app_tabs s)
       then s\<lparr>app_active := ActiveCluster n\<rparr> else s) ns s)"
proof (induction ns arbitrary: s)
  case (Cons n ns)
  have "app_ok (if list_ex (\<lambda>t. ct_name t = n) (app_tabs s) then s\<lparr>app_active := ActiveCluster n\<rparr> else s)"
    using app_ok_react [OF Cons.prems, of undefined "AppSelectTab n"] by simp
  then show ?case using Cons.IH by simp
qed simp

lemma app_ok_tab_bar: "app_ok s \<Longrightarrow> app_ok (render_tab_bar i s)"
  by (simp add: render_tab_bar_def Let_def app_ok_selects app_ok_upd_overview_only split: option.split)

lemma app_ok_top_bar: "app_ok s \<Longrightarrow> app_ok (render_top_bar i s)"
  using app_ok_react [of _ undefined "AppPickTheme _"]
  by (simp add: render_top_bar_def Let_def app_ok_upd_overview_only split: option.split)

lemma tab_react_all_name: "ct_name (fst (tab_react_all ins t)) = ct_name t"
  by (induction ins arbitrary: t) (simp_all add: case_prod_beta Let_def tab_react_name)

lemma app_ok_tab_frame:
  assumes "app_ok s" shows "app_ok (tab_frame ins s)"
proof -
  have "app_ok (fold tab_cmd_react cmds (with_tab n (\<lambda>_. t1) s))"
    if f: "find_tab n s = Some t" and r: "tab_react_all ins t = (t1, cmds)" for n t t1 cmds
  proof -
    have "ct_name t = n" using f by (auto simp: find_tab_def find_Some_iff)
    then have "ct_name t1 = n" using tab_react_all_name [of ins t] r by simp
    then show ?thesis by (intro app_ok_tab_cmds app_ok_with_tab assms) simp
  qed
  then show ?thesis using assms by (auto simp: tab_frame_def split: active_tab.split option.split prod.split)
qed

lemma app_ok_logic: "app_ok s \<Longrightarrow> app_ok (app_logic env i s)"
proof -
  assume "app_ok s"
  moreover have "app_ok s \<Longrightarrow> app_ok (fold (handle_event env) evs s)" for evs s
    by (induction evs arbitrary: s) (simp_all add: app_ok_event)
  ultimately have 1: "app_ok (fold (handle_event env) (fi_events i) s)" by blast
  have 2: "app_ok s \<Longrightarrow> app_ok (escape s) \<and> app_ok (refresh_key s) \<and> app_ok (watch env s)" for s
    using app_ok_react [of s env AppEscape] app_ok_react [of s env AppRefreshKey] app_ok_react [of s env AppWatch]
    by simp
  show ?thesis using 1 2 by (simp add: app_logic_def Let_def)
qed

lemma app_ok_ui: "app_ok s \<Longrightarrow> app_ok (fst (app_ui env f i s))"
proof -
  assume ok: "app_ok s"
  have bars: "app_ok (render_tab_bar b (render_banners d (render_top_bar a s)))" for a b d
    using ok app_ok_top_bar by (simp add: render_banners_def app_ok_tab_bar app_ok_upd_overview_only)
  have active: "app_ok s \<Longrightarrow> app_ok (render_active env i s)" for s
    by (simp add: render_active_def app_ok_overview_frame app_ok_tab_frame split: active_tab.split)
  have wizard: "app_ok s \<Longrightarrow> app_ok (render_wizard f w s)" for s w
    by (simp add: render_wizard_def Let_def app_ok_wizard_react)
  have about: "app_ok s \<Longrightarrow> app_ok (fst (render_about b s))" for s b
    by (simp add: render_about_def about_show_def app_ok_upd_overview_only)
  show ?thesis
    unfolding app_ui_def Let_def
    by (intro about wizard app_ok_op_panels active bars)
qed

text \<open>The frames of the application from its start, with the worker taking commands in between.\<close>

inductive frame_reachable :: "app_env \<Rightarrow> fmt_env \<Rightarrow> app_state \<Rightarrow> bool" for env f where
  start: "frame_reachable env f (app_new env q)"
| frame: "frame_reachable env f s \<Longrightarrow> frame_reachable env f (fst (app_frame env f i s))"
| drained: "frame_reachable env f s \<Longrightarrow> frame_reachable env f (s\<lparr>app_cmd := q\<rparr>)"

theorem frames_keep_invariant:
  assumes "frame_reachable env f s" shows "app_ok s"
  using assms
  by induction (simp_all only: app_ok_new app_frame_def app_ok_ui app_ok_logic app_ok_upd_overview_only)

section \<open>Single clicks\<close>

text \<open>One click in the window of an operation is the input the application has for it.\<close>

lemma op_click_input:
  assumes "app_ops s n = Some p" "op_name p = n"
  shows "render_op_panels [n] (\<lambda>_. \<lparr>on_cancel = False, on_close = False, on_x = True\<rparr>) s = app_react env (AppClosePanel n) s"
    and "render_op_panels [n] (\<lambda>_. \<lparr>on_cancel = True, on_close = False, on_x = False\<rparr>) s = app_react env (AppCancelOp n) s"
  using assms
  by (auto simp: render_op_panels_def panel_result_def op_show_def close_panel_def op_running_def Let_def
      split: option.split)

lemma banner_click_input: "render_banners [k] s = app_react env (AppDismiss k) s"
  by (simp add: render_banners_def remove_at_def)

text \<open>The removals from the back leave exactly the banners whose button was not clicked.\<close>

lemma remove_at_nths: "k < length xs \<Longrightarrow> remove_at k xs = nths xs (- {k})"
proof (induction xs arbitrary: k)
  case (Cons x xs)
  then show ?case
    by (cases k) (auto simp: remove_at_def nths_Cons Compl_eq nths_all)
qed simp

end
