(* ===== verification/DetailPanel.thy ===== *)
theory DetailPanel
  imports DiagramModel ErrorModel Texts
begin

text \<open>
  The panel beside the diagram that describes the selected object (\<open>views/diagram.rs\<close>, \<open>detail_panel\<close>): its
  lines in order, the related events and the request to delete a node.  Fonts, colours and separators are
  not modelled.
\<close>

section \<open>Texts\<close>

definition two_digits :: "nat \<Rightarrow> string" where
  "two_digits n = (if n < 10 then ''0'' @ dec n else dec n)"

text \<open>\<open>HH:MM:SS\<close> of a time in nanoseconds.\<close>

definition time_of :: "int \<Rightarrow> string" where
  "time_of t =
     (let s = nat ((t div 1000000000) mod 86400)
      in two_digits (s div 3600) @ '':'' @ two_digits (s div 60 mod 60) @ '':'' @ two_digits (s mod 60))"

definition label_map :: "string \<Rightarrow> labels \<Rightarrow> string list" where
  "label_map title entries =
     title # (if entries = [] then [''(none)''] else map (\<lambda>(k, v). k @ '': '' @ v) entries)"

fun node_role_text :: "node_role \<Rightarrow> string" where
  "node_role_text ControlPlaneNode = ''control-plane''"
| "node_role_text WorkerNode = ''worker''"

section \<open>One object\<close>

text \<open>The lines of an object, and whether the panel goes on to its events: an object that is no longer in the
  snapshot is only named.\<close>

definition detail_node :: "cluster_node \<Rightarrow> string list" where
  "detail_node n =
     [cn_name n, ''role: '' @ node_role_text (cn_role n), ''ready: '' @ (if cn_ready n then ''yes'' else ''no'')]
     @ (case cn_role n of
          ControlPlaneNode \<Rightarrow> [''The control-plane node cannot be removed (kind requires exactly one).'']
        | WorkerNode \<Rightarrow> [])"

definition detail_namespace :: "topology_graph \<Rightarrow> string \<Rightarrow> string \<Rightarrow> string list" where
  "detail_namespace g ns name =
     [name, ''namespace: '' @ ns,
      ''workloads: '' @ dec (length (filter (\<lambda>w. wl_ns w = ns) (tg_workloads g))),
      ''pods: '' @ dec (length (filter (\<lambda>p. kp_ns p = ns) (tg_pods g))),
      ''services: '' @ dec (length (filter (\<lambda>s. sv_ns s = ns) (tg_services g)))]"

definition detail_workload :: "topology_graph \<Rightarrow> workload \<Rightarrow> string list" where
  "detail_workload g w =
     [workload_kind_str (wl_kind w) @ '' '' @ wl_name w, ''namespace: '' @ wl_ns w,
      ''pods: '' @ dec (length (filter (\<lambda>p. pod_owned_by p w) (tg_pods g)))]
     @ label_map ''labels'' (wl_labels w) @ label_map ''selector'' (wl_selector w)"

definition detail_pod :: "pod \<Rightarrow> string list" where
  "detail_pod p =
     [kp_name p, ''namespace: '' @ kp_ns p, ''phase: '' @ pod_phase_debug (kp_phase p),
      ''node: '' @ (case kp_node p of Some n \<Rightarrow> n | None \<Rightarrow> ''unscheduled''),
      ''ready: '' @ dec (unat (kp_ready_containers p)) @ ''/'' @ dec (unat (kp_total_containers p)) @ '' containers'',
      (case kp_owner p of
         Some r \<Rightarrow> ''owner: '' @ or_kind r @ '' '' @ or_name r
       | None \<Rightarrow> ''owner: none'')]"

definition port_line :: "service_port \<Rightarrow> string" where
  "port_line p =
     sp_name p @ '' '' @ dec_int (sp_port p) @ ''->'' @ (case sp_target_port p of Some t \<Rightarrow> t | None \<Rightarrow> ''-'')
     @ '' '' @ sp_protocol p @ '' nodePort:'' @ (case sp_node_port p of Some n \<Rightarrow> dec_int n | None \<Rightarrow> ''-'')"

definition detail_service :: "service \<Rightarrow> string list" where
  "detail_service s =
     [sv_name s, ''namespace: '' @ sv_ns s, ''ports''] @ map port_line (sv_ports s)
     @ (if sv_ports s = [] then [''no ports''] else []) @ label_map ''selector'' (sv_selector s)"

definition detail_ingress :: "ingress \<Rightarrow> string list" where
  "detail_ingress i =
     [ig_name i, ''namespace: '' @ ig_ns i, ''class: '' @ ig_class i,
      ''hosts: '' @ join_with '', '' (ig_hosts i), ''backends: '' @ join_with '', '' (ig_backend_services i)]"

section \<open>Events\<close>

definition related_events :: "topology_graph \<Rightarrow> string \<Rightarrow> string \<Rightarrow> k8s_event list" where
  "related_events g ns name =
     take 8 (filter (\<lambda>e. ke_ns e = ns \<and> (ke_name e = name \<or> has_sub name (ke_message e))) (tg_events g))"

definition event_line :: "k8s_event \<Rightarrow> string" where
  "event_line e = time_of (ke_timestamp e) @ '' '' @ ke_reason e @ '': '' @ truncate_text (ke_message e) 90"

definition event_lines :: "topology_graph \<Rightarrow> string \<Rightarrow> string \<Rightarrow> string list" where
  "event_lines g ns name =
     ''events'' # (case related_events g ns name of
                     [] \<Rightarrow> [''no recent events for this object'']
                   | es \<Rightarrow> map event_line es)"

section \<open>The panel\<close>

datatype detail = Shown "string list" | Gone

definition id_kind :: "string \<Rightarrow> string" where "id_kind i = hd (split_on (CHR ''/'') i)"
definition id_name :: "string \<Rightarrow> string" where "id_name i = last (split_on (CHR ''/'') i)"

definition detail_ns :: "string \<Rightarrow> string" where
  "detail_ns i = (if id_kind i = ''namespace'' then id_name i else ns_of i)"

definition detail_object :: "topology_graph \<Rightarrow> string \<Rightarrow> detail" where
  "detail_object g i =
     (let k = id_kind i; name = id_name i; ns = detail_ns i in
      if k = ''node'' then
        (case find (\<lambda>n. cn_name n = name) (tg_nodes g) of
           Some n \<Rightarrow> Shown (detail_node n) | None \<Rightarrow> Shown [name])
      else if k = ''namespace'' then Shown (detail_namespace g ns name)
      else if k = ''workload'' then
        (case find_workload g ns name of Some w \<Rightarrow> Shown (detail_workload g w) | None \<Rightarrow> Gone)
      else if k = ''pod'' then
        (case find_pod g ns name of Some p \<Rightarrow> Shown (detail_pod p) | None \<Rightarrow> Gone)
      else if k = ''service'' then
        (case find (\<lambda>s. sv_ns s = ns \<and> sv_name s = name) (tg_services g) of
           Some s \<Rightarrow> Shown (detail_service s) | None \<Rightarrow> Gone)
      else if k = ''ingress'' then
        (case find (\<lambda>i. ig_ns i = ns \<and> ig_name i = name) (tg_ingresses g) of
           Some i \<Rightarrow> Shown (detail_ingress i) | None \<Rightarrow> Gone)
      else Shown [name])"

definition SELECT_HINT :: "string list" where
  "SELECT_HINT = [''Select a node in the diagram to inspect it'',
     ''Pod detail: phase, node, readiness and events. Workload detail: labels and selector.'']"

text \<open>The button to delete a node is there for a worker and enabled when the cluster has a record.\<close>

definition delete_action :: "topology_graph \<Rightarrow> string \<Rightarrow> bool \<Rightarrow> bool \<Rightarrow> string option" where
  "delete_action g i can_delete clicked =
     (if id_kind i = ''node''
      then (case find (\<lambda>n. cn_name n = id_name i) (tg_nodes g) of
              Some n \<Rightarrow> if cn_role n = WorkerNode \<and> can_delete \<and> clicked then Some (cn_name n) else None
            | None \<Rightarrow> None)
      else None)"

definition detail_panel :: "topology_graph \<Rightarrow> string option \<Rightarrow> bool \<Rightarrow> bool \<Rightarrow> string list \<times> string option" where
  "detail_panel g selected can_delete clicked =
     (case selected of
        None \<Rightarrow> (SELECT_HINT, None)
      | Some i \<Rightarrow>
          (case detail_object g i of
             Gone \<Rightarrow> ([id_name i], None)
           | Shown xs \<Rightarrow> (xs @ event_lines g (detail_ns i) (id_name i), delete_action g i can_delete clicked)))"

section \<open>Properties\<close>

text \<open>Only a worker node of the snapshot that is selected can be asked to go, and only with a record.\<close>

lemma detail_panel_deletes_workers:
  assumes "snd (detail_panel g selected can_delete clicked) = Some name"
  shows "can_delete \<and> clicked \<and> (\<exists>n \<in> set (tg_nodes g). cn_name n = name \<and> cn_role n = WorkerNode)"
  using assms
  by (auto simp: detail_panel_def delete_action_def find_Some_iff split: option.splits detail.splits if_splits)

text \<open>A time of day always has its eight characters.\<close>

lemma two_digits_length: "n < 100 \<Longrightarrow> length (two_digits n) = 2"
  by (simp add: two_digits_def dec.simps [of n] dec.simps [of "n div 10"] less_mult_imp_div_less)

lemma time_of_length: "length (time_of t) = 8"
proof -
  define s where "s = nat ((t div 1000000000) mod 86400)"
  have "s < 86400" using pos_mod_bound [of 86400 "t div 1000000000"] by (simp add: s_def nat_less_iff)
  then have "s div 3600 < 100" by (simp add: div_less_iff_less_mult)
  moreover have "s div 60 mod 60 < 100" "s mod 60 < 100" by (simp_all add: order.strict_trans [OF mod_less_divisor])
  ultimately show ?thesis unfolding time_of_def Let_def s_def [symmetric] by (simp add: two_digits_length)
qed

text \<open>The events shown belong to the object's namespace, at most eight, the newest first as they come.\<close>

lemma related_events_bound: "length (related_events g ns name) \<le> 8"
  by (simp add: related_events_def)

section \<open>A finding\<close>

text \<open>The namespace of the id of a node is taken to be its name, so no event of a node is ever listed.\<close>

theorem node_events_never_shown:
  assumes "CHR ''/'' \<notin> set name" and "list_all (\<lambda>e. ke_ns e \<noteq> name) (tg_events g)"
  shows "related_events g (detail_ns (''node/'' @ name)) (id_name (''node/'' @ name)) = []"
proof -
  have "split_on (CHR ''/'') (''node/'' @ name) = [''node'', name]"
    using split_on_append_sep [of "CHR ''/''" "''node''" name] split_on_no_sep [OF assms(1)] by simp
  then have "detail_ns (''node/'' @ name) = name"
    by (simp add: detail_ns_def id_kind_def ns_of_def)
  then show ?thesis using assms(2) by (auto simp: related_events_def list_all_iff filter_empty_conv)
qed

end
