(* ===== verification/ClusterView.thy ===== *)
theory ClusterView
  imports ClusterTab DetailPanel Overview
begin

text \<open>
  What a cluster's tab shows (\<open>views/cluster.rs\<close>) and how a frame of its panels turns into the inputs of theory
  \<open>ClusterTab\<close>: the header, the list of nodes, the panel of details, the canvas, the choice of a log source and
  the confirmation.  Layout and fonts are not modelled.
\<close>

section \<open>Header\<close>

type_synonym pill = "string \<times> pill_hue"

fun context_pill :: "context_status option \<Rightarrow> pill" where
  "context_pill (Some CtxCurrent) = (''context current'', PillGreen)"
| "context_pill (Some CtxPresent) = (''context present'', PillAmber)"
| "context_pill (Some CtxAbsent) = (''context absent'', PillRed)"
| "context_pill None = (''context unknown'', PillGrey)"

definition export_label :: "(string + unit) option \<Rightarrow> pill list" where
  "export_label r =
     (case r of
        None \<Rightarrow> []
      | Some (Inr _) \<Rightarrow> [(''kubeconfig exported'', PillGreen)]
      | Some (Inl e) \<Rightarrow> [(''export failed: '' @ e, PillRed)])"

definition tab_header :: "cluster_tab \<Rightarrow> pill list \<times> string list" where
  "tab_header t =
     ([case ct_topo t of Some _ \<Rightarrow> (''running'', PillGreen) | None \<Rightarrow> (''topology unknown'', PillGrey)]
      @ (if has_record t then [] else [(''adopted'', PillGrey)])
      @ [context_pill (ct_context_state t)] @ export_label (ct_context_result t),
      case ct_record t of
        Some r \<Rightarrow> [ct_name t, ''k8s '' @ version_str (cs_k8s_version (cr_spec r)), cni_debug (cs_cni (cr_spec r)) @ '' CNI'']
      | None \<Rightarrow> [ct_name t])"

definition apply_scale_enabled :: "cluster_tab \<Rightarrow> bool" where
  "apply_scale_enabled t \<longleftrightarrow>
     (case ct_record t of Some r \<Rightarrow> cs_worker_count (cr_spec r) \<noteq> ct_workers t | None \<Rightarrow> False)"

section \<open>Nodes and details\<close>

record node_row =
  nr_id :: string
  nr_name :: string
  nr_hue :: pill_hue
  nr_selected :: bool
  nr_role :: string

definition node_row_of :: "string option \<Rightarrow> cluster_node \<Rightarrow> node_row" where
  "node_row_of selected n =
     (let i = ''node/'' @ cn_name n in
      \<lparr>nr_id = i, nr_name = cn_name n, nr_hue = (if cn_ready n then PillGreen else PillAmber),
       nr_selected = (selected = Some i),
       nr_role = (case cn_role n of ControlPlaneNode \<Rightarrow> ''CP'' | WorkerNode \<Rightarrow> ''worker'')\<rparr>)"

text \<open>The rows, or the note shown instead.\<close>

definition node_list :: "cluster_tab \<Rightarrow> node_row list \<times> string option" where
  "node_list t =
     (case ct_topo t of
        None \<Rightarrow> ([], Some ''topology not loaded'')
      | Some g \<Rightarrow> (map (node_row_of (ct_selected t)) (tg_nodes g),
                   if tg_nodes g = [] then Some ''no node data yet'' else None))"

definition node_click :: "node_row \<Rightarrow> cluster_tab \<Rightarrow> cluster_tab" where
  "node_click row t = t\<lparr>ct_selected := (if nr_selected row then None else Some (nr_id row))\<rparr>"

definition details :: "bool \<Rightarrow> cluster_tab \<Rightarrow> string list \<times> cluster_tab" where
  "details delete_clicked t =
     (case ct_topo t of
        None \<Rightarrow> ([''topology not loaded''], t)
      | Some g \<Rightarrow>
          (case detail_panel g (ct_selected t) (has_record t) delete_clicked of
             (txt, Some n) \<Rightarrow> (txt, t\<lparr>ct_confirm := Some (ConfirmDeleteNode n [])\<rparr>)
           | (txt, None) \<Rightarrow> (txt, t)))"

section \<open>Canvas\<close>

definition canvas_note :: "cluster_tab \<Rightarrow> string option" where
  "canvas_note t =
     (case ct_topo t of
        Some _ \<Rightarrow> None
      | None \<Rightarrow>
          if ct_topo_error t = None
          then Some (if ct_topo_loading t then ''Loading topology...'' else ''No topology data yet'' @ dash_text @ ''use Refresh now'')
          else Some ''Topology unavailable'')"

definition topo_error_note :: "cluster_tab \<Rightarrow> string option" where
  "topo_error_note t = map_option (\<lambda>e. ''Topology fetch failed: '' @ e) (ct_topo_error t)"

definition canvas_click :: "string option \<Rightarrow> cluster_tab \<Rightarrow> cluster_tab" where
  "canvas_click clicked t =
     (case (ct_topo t, clicked) of
        (Some _, Some i) \<Rightarrow> t\<lparr>ct_selected := (if ct_selected t = Some i then None else Some i)\<rparr>
      | _ \<Rightarrow> t)"

section \<open>Logs\<close>

text \<open>The entries of the picker for the current kind of source, with the one selected.\<close>

definition log_options :: "cluster_tab \<Rightarrow> (string \<times> string list) option" where
  "log_options t =
     (case (lu_source (ct_logs t), ct_topo t) of
        (DockerSource c, Some g) \<Rightarrow> Some (c, map cn_name (tg_nodes g))
      | (PodSource ns p, Some g) \<Rightarrow>
          Some (ns @ ''/'' @ p, map (\<lambda>q. kp_ns q @ ''/'' @ kp_name q) (tg_pods g))
      | (_, None) \<Rightarrow> None)"

text \<open>The source a picked entry stands for, if it is another one.\<close>

definition pick_source :: "string \<Rightarrow> cluster_tab \<Rightarrow> log_source_kind option" where
  "pick_source entry t =
     (case lu_source (ct_logs t) of
        DockerSource c \<Rightarrow> if entry \<noteq> c then Some (DockerSource entry) else None
      | PodSource ns p \<Rightarrow>
          (case split_once (CHR ''/'') entry of
             Some (ns', p') \<Rightarrow> if ns' \<noteq> ns \<or> p' \<noteq> p then Some (PodSource ns' p') else None
           | None \<Rightarrow> None))"

definition log_picked :: "string \<Rightarrow> cluster_tab \<Rightarrow> cluster_tab \<times> tab_cmd list" where
  "log_picked entry t =
     (case pick_source entry t of
        Some s \<Rightarrow> restart_if_running (set_source s t)
      | None \<Rightarrow> (t, []))"

definition log_end_label :: "cluster_tab \<Rightarrow> string option" where
  "log_end_label t =
     (case lu_ended (ct_logs t) of
        None \<Rightarrow> None
      | Some (Inr _) \<Rightarrow> Some ''stream ended''
      | Some (Inl e) \<Rightarrow> Some (''log error: '' @ e))"

definition log_truncation :: "cluster_tab \<Rightarrow> string option" where
  "log_truncation t =
     (let r = lu_ring (ct_logs t) in
      if lr_cap r \<le> ring_len r
      then Some (''showing the last '' @ dec (lr_cap r) @ '' lines (older lines dropped)'') else None)"

definition log_output :: "cluster_tab \<Rightarrow> string list" where
  "log_output t =
     (let ls = ring_snapshot (lu_ring (ct_logs t)) in
      (if ls = [] then [''no log output yet''] else []) @ ls
      @ (if lu_running (ct_logs t) then [''following...''] else []))"

section \<open>Confirmation\<close>

record confirm_view =
  cv_title :: string
  cv_body :: string
  cv_button :: string
  cv_enabled :: bool
  cv_mismatch :: bool

definition confirm_texts :: "cluster_tab \<Rightarrow> tab_confirm \<Rightarrow> string \<times> string \<times> string" where
  "confirm_texts t c =
     (case c of
        ConfirmDestroy _ \<Rightarrow>
          (''Destroy cluster'',
           ''Destroying a cluster deletes its node containers, its kubeconfig context and '' @
           ''its stored record. All workloads and data on the cluster are lost forever.'', ''Destroy'')
      | ConfirmRecreate _ \<Rightarrow>
          (''Apply scale (recreate)'',
           ''kind cannot add or remove nodes on a running cluster. Scaling recreates '' @
           ''the cluster from its stored spec with the new value ('' @
           (case spec_with_workers t of
              Some s \<Rightarrow> ''workers '' @ dec (unat (cs_worker_count s)) | None \<Rightarrow> ''workers ?'') @
           ''): the old cluster is deleted and all workloads on it are lost.'', ''Recreate'')
      | ConfirmDeleteNode n _ \<Rightarrow>
          (''Delete node'',
           ''kind cannot remove a node from a running cluster. Deleting worker '' @
           [CHR 39] @ n @ [CHR 39] @ '' recreates the cluster with '' @ dec (unat (ct_workers t) - 1) @
           '' worker(s) from its stored '' @
           ''settings: the old cluster is deleted and all workloads on it are lost.'', ''Delete & recreate''))"

definition show_confirms :: "cluster_tab \<Rightarrow> confirm_view option" where
  "show_confirms t =
     map_option (\<lambda>c.
       let (title, body, button) = confirm_texts t c; matches = (str_trim (confirm_typed c) = ct_name t) in
       \<lparr>cv_title = title, cv_body = body, cv_button = button, cv_enabled = matches,
        cv_mismatch = (\<not> matches \<and> confirm_typed c \<noteq> [])\<rparr>) (ct_confirm t)"

section \<open>The panels and the inputs of the tab\<close>

text \<open>A click in the list of nodes, in the diagram or on the delete button is the input that theory
  \<open>ClusterTab\<close> has for it.\<close>

lemma node_click_input:
  assumes "row \<in> set (fst (node_list t))"
  shows "tab_react (InSelect (nr_id row)) t = (node_click row t, [])"
  using assms by (auto simp: node_list_def node_row_of_def node_click_def Let_def split: option.splits)

lemma canvas_click_input:
  assumes "ct_topo t = Some g" shows "tab_react (InSelect i) t = (canvas_click (Some i) t, [])"
  using assms by (simp add: canvas_click_def)

lemma details_input:
  "snd (details clicked t) = t \<or> (\<exists>n. (snd (details clicked t), []) = tab_react (InDeleteNode n) t)"
proof (cases "ct_topo t")
  case (Some g)
  obtain ls a where p: "detail_panel g (ct_selected t) (has_record t) clicked = (ls, a)" by fastforce
  show ?thesis
  proof (cases a)
    case (Some n)
    then have "(snd (details clicked t), []) = tab_react (InDeleteNode n) t"
      using p \<open>ct_topo t = Some g\<close> by (simp add: details_def)
    then show ?thesis by blast
  qed (use p Some in \<open>simp add: details_def\<close>)
qed (simp add: details_def)

lemma log_picked_input:
  assumes "log_options t = Some (c, entries)" "entry \<in> set entries"
    and "\<forall>g. ct_topo t = Some g \<longrightarrow> list_all (\<lambda>p. CHR ''/'' \<notin> set (kp_ns p)) (tg_pods g)"
  shows "\<exists>s. log_picked entry t = tab_react (InSource s) t"
proof (cases "lu_source (ct_logs t)")
  case (DockerSource c')
  then show ?thesis by (auto simp: log_picked_def pick_source_def)
next
  case (PodSource ns p)
  then obtain q g where q: "ct_topo t = Some g" "q \<in> set (tg_pods g)" "entry = kp_ns q @ ''/'' @ kp_name q"
    using assms(1,2) by (auto simp: log_options_def split: option.splits)
  then have "CHR ''/'' \<notin> set (kp_ns q)" using assms(3) by (auto simp: list_all_iff)
  then have "split_once (CHR ''/'') entry = Some (kp_ns q, kp_name q)"
    using split_once_append [of "CHR ''/''" "kp_ns q" "kp_name q"] q(3) by simp
  then have "log_picked entry t = tab_react (InSource (PodSource (kp_ns q) (kp_name q))) t"
    using PodSource by (auto simp: log_picked_def pick_source_def)
  then show ?thesis by blast
qed

text \<open>A button that the view shows enabled is one to which the tab reacts: an enabled confirmation closes and gives
  a command whenever the tab has a record or the cluster is to be destroyed; a disabled one changes
  nothing.\<close>

lemma cv_enabled_iff:
  assumes "show_confirms t = Some v"
  obtains c where "ct_confirm t = Some c" "cv_enabled v \<longleftrightarrow> str_trim (confirm_typed c) = ct_name t"
  using assms that by (auto simp: show_confirms_def case_prod_beta Let_def)

lemma confirm_button:
  assumes "show_confirms t = Some v"
  shows "cv_enabled v \<Longrightarrow> ct_confirm (fst (tab_react InConfirmOk t)) = None"
    and "\<not> cv_enabled v \<Longrightarrow> tab_react InConfirmOk t = (t, [])"
proof -
  obtain c where c: "ct_confirm t = Some c" "cv_enabled v \<longleftrightarrow> str_trim (confirm_typed c) = ct_name t"
    using cv_enabled_iff [OF assms] .
  show "cv_enabled v \<Longrightarrow> ct_confirm (fst (tab_react InConfirmOk t)) = None"
    using c by (cases c) (simp_all add: confirm_ok_def Let_def)
  show "\<not> cv_enabled v \<Longrightarrow> tab_react InConfirmOk t = (t, [])"
    using c by (simp add: confirm_ok_def)
qed

lemma apply_scale_button:
  "ct_confirm (fst (tab_react InApplyScale t)) = (if apply_scale_enabled t then Some (ConfirmRecreate []) else ct_confirm t)"
  by (simp add: apply_scale_enabled_def split: option.split)

section \<open>A finding\<close>

text \<open>The request to delete a node lowers the staged number of workers, not the stored one: with a number
  staged in the stepper the cluster is recreated with that one less one, whatever node was chosen.\<close>

theorem delete_node_uses_staged_workers:
  assumes "ct_record t = Some r" "ct_workers t = k" "0 < k" "str_trim s = ct_name t"
  shows "snd (tab_react InConfirmOk (t\<lparr>ct_confirm := Some (ConfirmDeleteNode n s)\<rparr>))
       = [TabRecreate ((cr_spec r)\<lparr>cs_worker_count := k - 1\<rparr>)]"
  using assms by (auto simp: confirm_ok_def confirm_typed_def recreate_cmds_def spec_with_workers_def Let_def)

end
