(* ===== verification/TabTrace.thy ===== *)
theory TabTrace
  imports AppProps
begin

text \<open>
  What a tab shows, stated over the commands it has sent and the events that were delivered to it, in any order:
  the acts on an open tab (\<open>views/cluster.rs\<close>, and \<open>handle_event\<close>, the keys and the tabs of \<open>app.rs\<close>), the trace of a
  tab, and the view that an observer of the trace expects.
\<close>

section \<open>Acts\<close>

datatype tab_act =
    ActControl tab_input
  | ActRefreshKey
  | ActEscape
  | ActTopology op_gen "string + topology_graph"
  | ActLogLine op_gen string
  | ActLogEnded op_gen "string + unit"
  | ActReport reconcile_report
  | ActContextState context_status
  | ActContextEnsured "string + unit"
  | ActLogsExported string "string + unit"

definition refresh_key_tab :: "cluster_tab \<Rightarrow> cluster_tab \<times> tab_cmd list" where
  "refresh_key_tab t =
     (let g = ct_manual_gen t + 1
      in (t\<lparr>ct_manual_gen := g, ct_topo_loading := True\<rparr>,
          if 0 < g then [TabCommand (CmdFetchTopology (ct_name t) g)] else []))"

fun tab_step :: "string option \<Rightarrow> tab_act \<Rightarrow> cluster_tab \<Rightarrow> cluster_tab \<times> tab_cmd list" where
  "tab_step want (ActControl i) t = tab_react i t"
| "tab_step want ActRefreshKey t = refresh_key_tab t"
| "tab_step want ActEscape t = (t\<lparr>ct_confirm := None\<rparr>, [])"
| "tab_step want (ActTopology g r) t = (topology_event want g r t, [])"
| "tab_step want (ActLogLine g l) t = (log_line g l t, [])"
| "tab_step want (ActLogEnded g r) t = (log_ended g r t, [])"
| "tab_step want (ActReport r) t = (refresh_record r t, [])"
| "tab_step want (ActContextState st) t = (t\<lparr>ct_context_state := Some st\<rparr>, [])"
| "tab_step want (ActContextEnsured r) t = (t\<lparr>ct_context_result := Some r\<rparr>, [])"
| "tab_step want (ActLogsExported d r) t = (t\<lparr>ct_last_export := Some (d, r)\<rparr>, [])"


definition tab_opened :: "string \<Rightarrow> cluster_record option \<Rightarrow> cluster_tab" where
  "tab_opened n r = (tab_new n r)\<lparr>ct_manual_gen := 1, ct_topo_loading := True\<rparr>"

section \<open>The acts are what the application does\<close>

lemma refresh_key_acts:
  assumes "app_active s = ActiveCluster n" "find_tab n s = Some t"
  shows "refresh_key s = (case refresh_key_tab t of (t1, cmds) \<Rightarrow> fold tab_cmd_react cmds (with_tab n (\<lambda>_. t1) s))"
proof -
  have "update_first n (\<lambda>_. f t) ts = update_first n f ts" if "find (\<lambda>t. ct_name t = n) ts = Some t" for f ts
    using that by (induction ts) (auto split: if_splits)
  then have w: "with_tab n (\<lambda>_. f t) s = with_tab n f s" for f
    using assms(2) by (simp add: with_tab_def find_tab_def)
  have "ct_name t = n" using assms(2) by (auto simp: find_tab_def find_Some_iff)
  then show ?thesis
    using assms w [of "\<lambda>u. u\<lparr>ct_manual_gen := ct_manual_gen t + 1, ct_topo_loading := True\<rparr>"]
    by (simp add: refresh_key_def refresh_key_tab_def Let_def)
qed

lemma tab_input_acts:
  assumes "app_active s = ActiveCluster n" "find_tab n s = Some t"
  shows "app_react env (AppTab i) s
    = (case tab_step want (ActControl i) t of (t1, cmds) \<Rightarrow> fold tab_cmd_react cmds (with_tab n (\<lambda>_. t1) s))"
  using assms by simp

lemma with_deps_id [simp]: "with_deps (\<lambda>d. d) s = s"
  by (simp add: with_deps_def with_overview_def)

lemma event_acts:
  "handle_event env (EvTopology n g r) s = with_tab n (\<lambda>t. fst (tab_step (av_select_node env) (ActTopology g r) t)) s"
  "handle_event env (EvLogLine n g l) s = with_tab n (\<lambda>t. fst (tab_step (av_select_node env) (ActLogLine g l) t)) s"
  "handle_event env (EvLogEnded n g e) s = with_tab n (\<lambda>t. fst (tab_step (av_select_node env) (ActLogEnded g e) t)) s"
  "handle_event env (EvContextState n st) s
     = with_tab n (\<lambda>t. fst (tab_step (av_select_node env) (ActContextState st) t)) s"
proof -
  have "deps_handle_event ev = (\<lambda>d. d)" if "ev \<in> {EvTopology n g r, EvLogLine n g l, EvLogEnded n g e, EvContextState n st}" for ev
    using that by (auto simp: fun_eq_iff)
  then show "handle_event env (EvTopology n g r) s = with_tab n (\<lambda>t. fst (tab_step (av_select_node env) (ActTopology g r) t)) s"
    "handle_event env (EvLogLine n g l) s = with_tab n (\<lambda>t. fst (tab_step (av_select_node env) (ActLogLine g l) t)) s"
    "handle_event env (EvLogEnded n g e) s = with_tab n (\<lambda>t. fst (tab_step (av_select_node env) (ActLogEnded g e) t)) s"
    "handle_event env (EvContextState n st) s
     = with_tab n (\<lambda>t. fst (tab_step (av_select_node env) (ActContextState st) t)) s"
    by (simp_all add: handle_event_def)
qed

lemma open_tab_acts:
  assumes "find_tab n s = None"
  shows "\<exists>r s1. app_tabs (open_tab n s) = app_tabs s @ [tab_opened n r]
     \<and> s1 = issue (CmdFetchTopology n 1) (issue (CmdCheckContext n) s) \<and> app_cmd (open_tab n s) = app_cmd s1"
  using assms by (auto simp: open_tab_def Let_def tab_opened_def find_tab_def find_None_iff list_ex_iff)

section \<open>The observer\<close>






definition fetch_gens :: "tab_cmd list \<Rightarrow> op_gen list" where
  "fetch_gens cmds =
     List.map_filter (\<lambda>c. case c of TabCommand (CmdFetchTopology _ g) \<Rightarrow> Some g | _ \<Rightarrow> None) cmds"

section \<open>The tab shows what the observer expects\<close>












section \<open>Fresh generations\<close>

lemma gens_simps [simp]:
  "log_gens (a @ b) = log_gens a @ log_gens b" "fetch_gens (a @ b) = fetch_gens a @ fetch_gens b"
  "fetch_gens [] = []"
  by (simp_all add: log_gens_def fetch_gens_def List.map_filter_def)

lemma fetch_gens_single [simp]:
  "fetch_gens [TabCommand (CmdFetchTopology n g)] = [g]" "fetch_gens [TabCommand (CmdStartLogs n s f k g)] = []"
  "fetch_gens [TabDestroy n] = []" "fetch_gens [TabRecreate sp] = []" "fetch_gens [TabClose] = []"
  "fetch_gens [TabCommand (CmdSetAutoRefresh n x b g)] = []"
  "fetch_gens [TabCommand (CmdStopLogs n)] = []" "fetch_gens [TabCommand (CmdExportLogs n d)] = []"
  "fetch_gens [TabCommand (CmdEnsureContext n)] = []" "fetch_gens [TabCommand (CmdOpenK9s n)] = []"
  by (simp_all add: fetch_gens_def List.map_filter_def)






section \<open>The property\<close>





end
