(* ===== verification/DiagramView.thy ===== *)
theory DiagramView
  imports Complex_Main DiagramModel
begin

text \<open>
  The frame of the diagram (\<open>views/diagram.rs\<close>, \<open>show\<close>): pan, zoom, fitting the graph into the canvas, the
  node under the pointer.  Screen coordinates are exact rationals: the rounding of \<open>f32\<close> is not modelled here.
  The scale factor \<open>F32_ONE\<close> of theory \<open>TopologyModel\<close> is divided out of layout positions.
\<close>

section \<open>Points and rectangles\<close>

type_synonym point = "rat \<times> rat"

fun padd :: "point \<Rightarrow> point \<Rightarrow> point" where "padd (a, b) (c, d) = (a + c, b + d)"
fun psub :: "point \<Rightarrow> point \<Rightarrow> point" where "psub (a, b) (c, d) = (a - c, b - d)"
fun pscale :: "point \<Rightarrow> rat \<Rightarrow> point" where "pscale (a, b) k = (a * k, b * k)"

record rect =
  rc_min :: point
  rc_max :: point

definition rect_from_center :: "point \<Rightarrow> point \<Rightarrow> rect" where
  "rect_from_center c sz =
     (let m = psub c (pscale sz (1 / 2)) in \<lparr>rc_min = m, rc_max = padd m sz\<rparr>)"

definition rect_contains :: "rect \<Rightarrow> point \<Rightarrow> bool" where
  "rect_contains r p \<longleftrightarrow>
     fst (rc_min r) \<le> fst p \<and> fst p \<le> fst (rc_max r) \<and> snd (rc_min r) \<le> snd p \<and> snd p \<le> snd (rc_max r)"

definition f32_rat :: "f32 \<Rightarrow> rat" where
  "f32_rat x = of_nat x / of_nat F32_ONE"

section \<open>State and metrics\<close>

record diagram_view =
  dv_offset :: point
  dv_zoom :: rat
  dv_base :: diagram_state

definition diagram_view_new :: diagram_view where
  "diagram_view_new = \<lparr>dv_offset = (0, 0), dv_zoom = 1, dv_base = diagram_new\<rparr>"

definition MIN_ZOOM :: rat where "MIN_ZOOM = 1 / 5"
definition MAX_ZOOM :: rat where "MAX_ZOOM = 3"
definition FIT_MARGIN :: rat where "FIT_MARGIN = 48"

fun node_size :: "layout_kind \<Rightarrow> point" where
  "node_size LNamespace = (150, 30)"
| "node_size LWorkload = (140, 30)"
| "node_size LPod = (130, 26)"
| "node_size LService = (130, 26)"
| "node_size LIngress = (130, 26)"

definition clamp_zoom :: "rat \<Rightarrow> rat" where
  "clamp_zoom z = (if z < MIN_ZOOM then MIN_ZOOM else if MAX_ZOOM < z then MAX_ZOOM else z)"

definition layout_point :: "layout_node \<Rightarrow> point" where
  "layout_point n = (f32_rat (ln_x n), f32_rat (ln_y n))"

definition node_rect :: "point \<Rightarrow> diagram_view \<Rightarrow> layout_node \<Rightarrow> rect" where
  "node_rect origin d n =
     rect_from_center (padd (padd origin (dv_offset d)) (pscale (layout_point n) (dv_zoom d)))
       (pscale (node_size (ln_kind n)) (dv_zoom d))"

definition node_rects :: "point \<Rightarrow> diagram_view \<Rightarrow> view_node list \<Rightarrow> (string \<times> rect) list" where
  "node_rects origin d nodes = map (\<lambda>v. (ln_id (vn_layout v), node_rect origin d (vn_layout v))) nodes"

section \<open>Interactions\<close>

text \<open>What the toolkit reports for a frame; \<open>vi_drag\<close> is the movement while dragged.\<close>

record view_input =
  vi_origin :: point
  vi_canvas :: "f32 \<times> f32"
  vi_drag :: "point option"
  vi_pointer :: "point option"
  vi_zoom_delta :: rat
  vi_clicked :: bool
  vi_hovered :: bool

definition take_over :: "diagram_view \<Rightarrow> diagram_view" where
  "take_over d = d\<lparr>dv_base := (dv_base d)\<lparr>dg_user_taken_over := True\<rparr>\<rparr>"

definition pan_step :: "view_input \<Rightarrow> diagram_view \<Rightarrow> diagram_view" where
  "pan_step i d =
     (case vi_drag i of
        Some m \<Rightarrow> take_over (d\<lparr>dv_offset := padd (dv_offset d) m\<rparr>)
      | None \<Rightarrow> d)"

definition zoom_step :: "view_input \<Rightarrow> diagram_view \<Rightarrow> diagram_view" where
  "zoom_step i d =
     (case vi_pointer i of
        Some anchor \<Rightarrow>
          if vi_zoom_delta i \<noteq> 1
          then (let new_zoom = clamp_zoom (dv_zoom d * vi_zoom_delta i);
                    ratio = new_zoom / dv_zoom d
                in take_over (d\<lparr>dv_offset := psub anchor (pscale (psub (psub anchor (dv_offset d)) (vi_origin i)) ratio),
                                dv_zoom := new_zoom\<rparr>))
          else d
      | None \<Rightarrow> d)"

section \<open>Fitting\<close>

fun smallest :: "rat list \<Rightarrow> rat" where
  "smallest [] = 0"
| "smallest (x # xs) = fold min xs x"

fun largest :: "rat list \<Rightarrow> rat" where
  "largest [] = 0"
| "largest (x # xs) = fold max xs x"

definition bounding_box :: "rect list \<Rightarrow> rect" where
  "bounding_box rs =
     \<lparr>rc_min = (smallest (map (\<lambda>r. fst (rc_min r)) rs), smallest (map (\<lambda>r. snd (rc_min r)) rs)),
      rc_max = (largest (map (\<lambda>r. fst (rc_max r)) rs), largest (map (\<lambda>r. snd (rc_max r)) rs))\<rparr>"

definition fit_to_view :: "rect list \<Rightarrow> point \<Rightarrow> point \<Rightarrow> diagram_view \<Rightarrow> diagram_view" where
  "fit_to_view rs canvas origin d =
     (let box = bounding_box rs; sz = psub (rc_max box) (rc_min box) in
      if rs = [] \<or> fst sz \<le> 0 \<or> snd sz \<le> 0 then d\<lparr>dv_zoom := 1, dv_offset := (0, 0)\<rparr>
      else
        (let zoom = clamp_zoom (min ((fst canvas - FIT_MARGIN * 2) / fst sz)
                                    ((snd canvas - FIT_MARGIN * 2) / snd sz));
             top_left = padd origin (pscale (psub canvas (pscale sz zoom)) (1 / 2))
         in d\<lparr>dv_zoom := zoom, dv_offset := psub top_left (pscale (rc_min box) zoom)\<rparr>))"

definition canvas_point :: "f32 \<times> f32 \<Rightarrow> point" where
  "canvas_point c = (f32_rat (fst c), f32_rat (snd c))"

definition auto_fit :: "view_input \<Rightarrow> view_node list \<Rightarrow> diagram_view \<Rightarrow> diagram_view" where
  "auto_fit i nodes d =
     (let rects = map snd (node_rects (vi_origin i) d nodes) in
      if should_auto_fit (dv_base d) (vi_canvas i) (rects \<noteq> [])
      then (fit_to_view rects (canvas_point (vi_canvas i)) (vi_origin i) d)
             \<lparr>dv_base := (dv_base d)\<lparr>dg_fit_next := False, dg_last_canvas := vi_canvas i\<rparr>\<rparr>
      else d)"

section \<open>The frame\<close>

text \<open>The topmost node at a point: the last one drawn.\<close>

definition hit :: "(string \<times> rect) list \<Rightarrow> point \<Rightarrow> string option" where
  "hit rects p = map_option fst (find (\<lambda>x. rect_contains (snd x) p) (rev rects))"

record view_frame =
  vf_view :: diagram_view
  vf_rects :: "(string \<times> rect) list"
  vf_clicked :: "string option"
  vf_tooltip :: "string option"
  vf_empty_hint :: bool

definition diagram_show :: "topology_graph \<Rightarrow> string set \<Rightarrow> view_input \<Rightarrow> diagram_view \<Rightarrow> view_frame" where
  "diagram_show g collapsed i d =
     (let nodes = resolve_nodes g collapsed;
          d' = auto_fit i nodes (zoom_step i (pan_step i d));
          rects = node_rects (vi_origin i) d' nodes;
          clicked = (if vi_clicked i then hit rects (case vi_pointer i of Some p \<Rightarrow> p | None \<Rightarrow> (0, 0)) else None)
      in \<lparr>vf_view = d', vf_rects = rects, vf_clicked = clicked,
          vf_tooltip = (case vi_pointer i of
             Some p \<Rightarrow> if vi_hovered i \<and> vi_drag i = None then map_option (tooltip_text g) (hit rects p) else None
           | None \<Rightarrow> None),
          vf_empty_hint = (clicked = None \<and> rects = [])\<rparr>)"

section \<open>Boxes of scaled nodes\<close>

lemma smallest_Min: "xs \<noteq> [] \<Longrightarrow> smallest xs = Min (set xs)"
  by (cases xs) (simp_all only: smallest.simps Min.set_eq_fold)

lemma largest_Max: "xs \<noteq> [] \<Longrightarrow> largest xs = Max (set xs)"
  by (cases xs) (simp_all only: largest.simps Max.set_eq_fold)

lemma smallest_le: "x \<in> set xs \<Longrightarrow> smallest xs \<le> x"
  by (cases "xs = []") (simp_all add: smallest_Min)

lemma largest_ge: "x \<in> set xs \<Longrightarrow> x \<le> largest xs"
  by (cases "xs = []") (simp_all add: largest_Max)

lemma affine_mono: "0 \<le> k \<Longrightarrow> mono (\<lambda>x :: rat. a + x * k)"
  by (auto simp: mono_def mult_right_mono)

lemma smallest_affine:
  assumes "xs \<noteq> []" "0 \<le> k" shows "smallest (map (\<lambda>x. a + f x * k) xs) = a + smallest (map f xs) * k"
proof -
  have "a + Min (f ` set xs) * k = Min ((\<lambda>x. a + x * k) ` f ` set xs)"
    using assms by (intro mono_Min_commute affine_mono) auto
  then show ?thesis using assms(1) by (simp add: smallest_Min image_image)
qed

lemma largest_affine:
  assumes "xs \<noteq> []" "0 \<le> k" shows "largest (map (\<lambda>x. a + f x * k) xs) = a + largest (map f xs) * k"
proof -
  have "a + Max (f ` set xs) * k = Max ((\<lambda>x. a + x * k) ` f ` set xs)"
    using assms by (intro mono_Max_commute affine_mono) auto
  then show ?thesis using assms(1) by (simp add: largest_Max image_image)
qed

text \<open>The rectangle of a node in layout coordinates, and what a view makes of it.\<close>

definition unit_rect :: "layout_node \<Rightarrow> rect" where
  "unit_rect n = node_rect (0, 0) diagram_view_new n"

lemma point_eqI: "fst p = fst q \<Longrightarrow> snd p = snd q \<Longrightarrow> p = q"
  by (simp add: prod_eq_iff)

lemma point_sel [simp]:
  "fst (padd p q) = fst p + fst q" "snd (padd p q) = snd p + snd q"
  "fst (psub p q) = fst p - fst q" "snd (psub p q) = snd p - snd q"
  "fst (pscale p k) = fst p * k" "snd (pscale p k) = snd p * k"
  by (cases p; cases q; simp)+

lemma node_rect_scaled:
  "rc_min (node_rect O' d n) = padd (padd O' (dv_offset d)) (pscale (rc_min (unit_rect n)) (dv_zoom d))"
  "rc_max (node_rect O' d n) = padd (padd O' (dv_offset d)) (pscale (rc_max (unit_rect n)) (dv_zoom d))"
  by (rule point_eqI; simp add: node_rect_def unit_rect_def rect_from_center_def diagram_view_new_def Let_def
      algebra_simps)+

lemma box_scaled:
  assumes "ns \<noteq> []" "0 \<le> dv_zoom d"
  shows "rc_min (bounding_box (map (node_rect O' d) ns))
      = padd (padd O' (dv_offset d)) (pscale (rc_min (bounding_box (map unit_rect ns))) (dv_zoom d))"
    and "rc_max (bounding_box (map (node_rect O' d) ns))
      = padd (padd O' (dv_offset d)) (pscale (rc_max (bounding_box (map unit_rect ns))) (dv_zoom d))"
  using assms by (auto intro!: point_eqI
      simp: bounding_box_def node_rect_scaled comp_def smallest_affine largest_affine)

section \<open>The zoom\<close>

definition zoom_ok :: "diagram_view \<Rightarrow> bool" where
  "zoom_ok d \<longleftrightarrow> MIN_ZOOM \<le> dv_zoom d \<and> dv_zoom d \<le> MAX_ZOOM"

lemma clamp_zoom_range: "MIN_ZOOM \<le> clamp_zoom z" "clamp_zoom z \<le> MAX_ZOOM"
  by (auto simp: clamp_zoom_def MIN_ZOOM_def MAX_ZOOM_def)

lemma zoom_ok_steps:
  assumes "zoom_ok d" shows "zoom_ok (auto_fit i nodes (zoom_step i (pan_step i d)))"
proof -
  have one: "MIN_ZOOM \<le> 1" "1 \<le> MAX_ZOOM" by (simp_all add: MIN_ZOOM_def MAX_ZOOM_def)
  have "zoom_ok (pan_step i d)"
    using assms by (simp add: pan_step_def take_over_def zoom_ok_def split: option.split)
  then have "zoom_ok (zoom_step i (pan_step i d))"
    by (simp add: zoom_step_def take_over_def zoom_ok_def clamp_zoom_range Let_def split: option.split)
  then show ?thesis
    by (simp add: auto_fit_def fit_to_view_def zoom_ok_def clamp_zoom_range one Let_def)
qed

definition diagram_frames :: "(topology_graph \<times> string set \<times> view_input) list \<Rightarrow> diagram_view" where
  "diagram_frames fs = fold (\<lambda>(g, c, i) d. vf_view (diagram_show g c i d)) fs diagram_view_new"

lemma zoom_ok_frames: "zoom_ok (diagram_frames fs)"
proof -
  have "zoom_ok d \<Longrightarrow> zoom_ok (fold (\<lambda>(g, c, i) d. vf_view (diagram_show g c i d)) fs d)" for d
    by (induction fs arbitrary: d) (auto simp: diagram_show_def Let_def intro: zoom_ok_steps)
  moreover have "zoom_ok diagram_view_new"
    by (simp add: zoom_ok_def diagram_view_new_def MIN_ZOOM_def MAX_ZOOM_def)
  ultimately show ?thesis by (simp add: diagram_frames_def)
qed

lemma hit_topmost:
  "hit rects p = Some n \<longleftrightarrow>
     (\<exists>pre r post. rects = pre @ (n, r) # post \<and> rect_contains r p
        \<and> list_all (\<lambda>x. \<not> rect_contains (snd x) p) post)"
proof (induction rects rule: rev_induct)
  case (snoc x xs)
  obtain m q where x: "x = (m, q)" by fastforce
  show ?case
  proof (cases "rect_contains q p")
    case True
    have "(\<exists>pre r post. xs @ [x] = pre @ (n, r) # post \<and> rect_contains r p
        \<and> list_all (\<lambda>x. \<not> rect_contains (snd x) p) post) \<longleftrightarrow> n = m" (is "?l \<longleftrightarrow> _")
    proof
      assume ?l
      then obtain pre r post where h: "xs @ [x] = pre @ (n, r) # post"
        "list_all (\<lambda>x. \<not> rect_contains (snd x) p) post" by blast
      then have "post = []" using True x by (cases post rule: rev_cases) auto
      then show "n = m" using h x by simp
    next
      assume "n = m"
      then show ?l using True x by (intro exI [of _ xs] exI [of _ q] exI [of _ "[]"]) simp
    qed
    then show ?thesis using True x by (auto simp: hit_def)
  next
    case False
    have "(\<exists>pre r post. xs @ [x] = pre @ (n, r) # post \<and> rect_contains r p
        \<and> list_all (\<lambda>x. \<not> rect_contains (snd x) p) post) \<longleftrightarrow>
      (\<exists>pre r post. xs = pre @ (n, r) # post \<and> rect_contains r p
        \<and> list_all (\<lambda>x. \<not> rect_contains (snd x) p) post)" (is "?l \<longleftrightarrow> ?r")
    proof
      assume ?l
      then obtain pre r post where h: "xs @ [x] = pre @ (n, r) # post" "rect_contains r p"
        "list_all (\<lambda>x. \<not> rect_contains (snd x) p) post" by blast
      then obtain post' where "post = post' @ [x]" "xs = pre @ (n, r) # post'"
        using False x by (cases post rule: rev_cases) auto
      then show ?r using h by auto
    next
      assume ?r
      then obtain pre r post where "xs = pre @ (n, r) # post" "rect_contains r p"
        "list_all (\<lambda>x. \<not> rect_contains (snd x) p) post" by blast
      then show ?l using False x by (intro exI [of _ pre] exI [of _ r] exI [of _ "post @ [x]"]) simp
    qed
    then show ?thesis using snoc False x by (simp add: hit_def)
  qed
qed (simp add: hit_def)

text \<open>C40: After any frames the zoom is in its range; in the next one every visible node has its rectangle, and
  a click selects the topmost node under the pointer.\<close>

theorem diagram_frame_sound:
  "(let f = diagram_show g collapsed i (diagram_frames fs);
        p = (case vi_pointer i of Some p \<Rightarrow> p | None \<Rightarrow> (0, 0)) in
    MIN_ZOOM \<le> dv_zoom (vf_view f) \<and> dv_zoom (vf_view f) \<le> MAX_ZOOM
    \<and> map fst (vf_rects f) = map (\<lambda>v. ln_id (vn_layout v)) (resolve_nodes g collapsed)
    \<and> (vf_clicked f = Some n \<longleftrightarrow>
         vi_clicked i \<and> (\<exists>pre r post. vf_rects f = pre @ (n, r) # post \<and> rect_contains r p
            \<and> list_all (\<lambda>x. \<not> rect_contains (snd x) p) post)))"
  using zoom_ok_steps [OF zoom_ok_frames, of i "resolve_nodes g collapsed" fs]
  by (simp add: diagram_show_def Let_def zoom_ok_def node_rects_def comp_def hit_topmost)

section \<open>The fit\<close>

definition layout_box :: "layout_node list \<Rightarrow> rect" where
  "layout_box ns = bounding_box (map unit_rect ns)"

definition box_size :: "layout_node list \<Rightarrow> point" where
  "box_size ns = psub (rc_max (layout_box ns)) (rc_min (layout_box ns))"

lemma unit_rect_size: "psub (rc_max (unit_rect n)) (rc_min (unit_rect n)) = node_size (ln_kind n)"
  by (rule point_eqI; simp add: unit_rect_def node_rect_def rect_from_center_def diagram_view_new_def Let_def)

lemma in_layout_box:
  assumes "n \<in> set ns"
  shows "fst (rc_min (layout_box ns)) \<le> fst (rc_min (unit_rect n))"
    "snd (rc_min (layout_box ns)) \<le> snd (rc_min (unit_rect n))"
    "fst (rc_max (unit_rect n)) \<le> fst (rc_max (layout_box ns))"
    "snd (rc_max (unit_rect n)) \<le> snd (rc_max (layout_box ns))"
  using assms by (auto simp: layout_box_def bounding_box_def intro!: smallest_le largest_ge)

lemma node_size_pos: "0 < fst (node_size k)" "0 < snd (node_size k)"
  by (cases k; simp)+

lemma box_size_pos:
  assumes "ns \<noteq> []" shows "0 < fst (box_size ns)" "0 < snd (box_size ns)"
proof -
  obtain n where n: "n \<in> set ns" using assms by (cases ns) auto
  have "fst (node_size (ln_kind n)) = fst (rc_max (unit_rect n)) - fst (rc_min (unit_rect n))"
    "snd (node_size (ln_kind n)) = snd (rc_max (unit_rect n)) - snd (rc_min (unit_rect n))"
    using unit_rect_size [of n] point_sel by metis+
  then show "0 < fst (box_size ns)" "0 < snd (box_size ns)"
    using in_layout_box [OF n] node_size_pos [of "ln_kind n"] by (simp_all add: box_size_def)
qed

text \<open>The zoom a fit chooses for content of a size.\<close>

definition fit_zoom :: "point \<Rightarrow> point \<Rightarrow> rat" where
  "fit_zoom canvas sz = clamp_zoom (min ((fst canvas - FIT_MARGIN * 2) / fst sz) ((snd canvas - FIT_MARGIN * 2) / snd sz))"

text \<open>The first fit: the nodes keep their places within the box of the graph, which is centred in the canvas
  but for a shift by the part \<open>1 - zoom\<close> of the origin of the canvas.\<close>

lemma first_fit_places:
  assumes "ns \<noteq> []" "dv_zoom d = 1" "dv_offset d = (0, 0)"
    and d': "d' = fit_to_view (map (node_rect o' d) ns) canvas o' d"
  shows "dv_zoom d' = fit_zoom canvas (box_size ns)"
    and "rc_min (node_rect o' d' n) =
      padd (padd (padd o' (pscale (psub canvas (pscale (box_size ns) (dv_zoom d'))) (1 / 2)))
                 (pscale (psub (rc_min (unit_rect n)) (rc_min (layout_box ns))) (dv_zoom d')))
           (pscale o' (1 - dv_zoom d'))"
    and "rc_max (node_rect o' d' n) = padd (rc_min (node_rect o' d' n)) (pscale (node_size (ln_kind n)) (dv_zoom d'))"
proof -
  let ?b = "bounding_box (map (node_rect o' d) ns)"
  have box: "fst (rc_max ?b) - fst (rc_min ?b) = fst (box_size ns)"
      "snd (rc_max ?b) - snd (rc_min ?b) = snd (box_size ns)"
    using assms(1-3) by (simp_all add: box_scaled box_size_def layout_box_def)
  have deg: "\<not> (map (node_rect o' d) ns = [] \<or> fst (psub (rc_max ?b) (rc_min ?b)) \<le> 0
      \<or> snd (psub (rc_max ?b) (rc_min ?b)) \<le> 0)"
    unfolding point_sel box using box_size_pos [OF assms(1)] assms(1) by simp
  note fit = d' [unfolded fit_to_view_def Let_def if_not_P [OF deg], unfolded point_sel box]
  show z: "dv_zoom d' = fit_zoom canvas (box_size ns)" by (simp add: fit fit_zoom_def)
  have off: "dv_offset d' =
      psub (padd o' (pscale (psub canvas (pscale (box_size ns) (dv_zoom d'))) (1 / 2)))
        (pscale (padd o' (rc_min (layout_box ns))) (dv_zoom d'))"
    using assms(1-3) by (intro point_eqI) (simp_all add: fit box box_scaled layout_box_def box_size_def)
  show "rc_min (node_rect o' d' n) =
      padd (padd (padd o' (pscale (psub canvas (pscale (box_size ns) (dv_zoom d'))) (1 / 2)))
                 (pscale (psub (rc_min (unit_rect n)) (rc_min (layout_box ns))) (dv_zoom d')))
           (pscale o' (1 - dv_zoom d'))"
    by (rule point_eqI) (simp_all add: node_rect_scaled off algebra_simps)
  show "rc_max (node_rect o' d' n) = padd (rc_min (node_rect o' d' n)) (pscale (node_size (ln_kind n)) (dv_zoom d'))"
    using unit_rect_size [of n, symmetric] by (auto intro!: point_eqI simp: node_rect_scaled algebra_simps)
qed

lemma fit_zoom_fits:
  assumes "0 < fst sz" "0 < snd sz"
    and "MIN_ZOOM * fst sz \<le> fst canvas - FIT_MARGIN * 2" "MIN_ZOOM * snd sz \<le> snd canvas - FIT_MARGIN * 2"
  shows "fst sz * fit_zoom canvas sz \<le> fst canvas - FIT_MARGIN * 2"
    "snd sz * fit_zoom canvas sz \<le> snd canvas - FIT_MARGIN * 2"
proof -
  let ?a = "(fst canvas - FIT_MARGIN * 2) / fst sz" and ?b = "(snd canvas - FIT_MARGIN * 2) / snd sz"
  have "MIN_ZOOM \<le> ?a" "MIN_ZOOM \<le> ?b" using assms by (simp_all add: pos_le_divide_eq)
  then have "fit_zoom canvas sz \<le> ?a" "fit_zoom canvas sz \<le> ?b"
    by (auto simp: fit_zoom_def clamp_zoom_def min_def)
  then show "fst sz * fit_zoom canvas sz \<le> fst canvas - FIT_MARGIN * 2"
    "snd sz * fit_zoom canvas sz \<le> snd canvas - FIT_MARGIN * 2"
    using assms(1,2) by (simp_all add: pos_le_divide_eq mult.commute)
qed

text \<open>On a canvas at the origin of the window the first fit shows every node inside the margin, whenever the
  graph fits at the smallest zoom.\<close>

theorem first_fit_shows_all:
  assumes "ns \<noteq> []" and "dv_zoom d = 1" "dv_offset d = (0, 0)"
    and "MIN_ZOOM * fst (box_size ns) \<le> fst canvas - FIT_MARGIN * 2"
      "MIN_ZOOM * snd (box_size ns) \<le> snd canvas - FIT_MARGIN * 2"
    and d': "d' = fit_to_view (map (node_rect (0, 0) d) ns) canvas (0, 0) d" and "n \<in> set ns"
  shows "rect_contains \<lparr>rc_min = (FIT_MARGIN, FIT_MARGIN), rc_max = psub canvas (FIT_MARGIN, FIT_MARGIN)\<rparr>
           (rc_min (node_rect (0, 0) d' n))
       \<and> rect_contains \<lparr>rc_min = (FIT_MARGIN, FIT_MARGIN), rc_max = psub canvas (FIT_MARGIN, FIT_MARGIN)\<rparr>
           (rc_max (node_rect (0, 0) d' n))"
proof -
  note place = first_fit_places(1) [OF assms(1-3) d'] first_fit_places(2,3) [OF assms(1-3) d', of n]
  note pos = box_size_pos [OF assms(1)]
  have "MIN_ZOOM \<le> dv_zoom d'" by (simp add: place(1) fit_zoom_def clamp_zoom_range)
  then have z: "0 < dv_zoom d'" by (simp add: MIN_ZOOM_def)
  note fit = fit_zoom_fits [OF pos assms(4,5), folded place(1)]
  note box = in_layout_box [OF assms(7)]
  have size: "fst (node_size (ln_kind n)) = fst (rc_max (unit_rect n)) - fst (rc_min (unit_rect n))"
    "snd (node_size (ln_kind n)) = snd (rc_max (unit_rect n)) - snd (rc_min (unit_rect n))"
    using unit_rect_size [of n] point_sel by metis+
  have x: "0 \<le> (fst (rc_min (unit_rect n)) - fst (rc_min (layout_box ns))) * dv_zoom d'"
    "(fst (rc_max (unit_rect n)) - fst (rc_min (layout_box ns))) * dv_zoom d' \<le> fst (box_size ns) * dv_zoom d'"
    "0 \<le> fst (node_size (ln_kind n)) * dv_zoom d'"
    using box z node_size_pos [of "ln_kind n"] by (simp_all add: box_size_def)
  have y: "0 \<le> (snd (rc_min (unit_rect n)) - snd (rc_min (layout_box ns))) * dv_zoom d'"
    "(snd (rc_max (unit_rect n)) - snd (rc_min (layout_box ns))) * dv_zoom d' \<le> snd (box_size ns) * dv_zoom d'"
    "0 \<le> snd (node_size (ln_kind n)) * dv_zoom d'"
    using box z node_size_pos [of "ln_kind n"] by (simp_all add: box_size_def)
  show ?thesis using fit x y
    by (simp add: rect_contains_def place(2,3) size algebra_simps)
qed

section \<open>Findings\<close>

text \<open>On a canvas elsewhere in the window (the diagram lies right of the list of nodes and below the header)
  the fitted nodes are off by the part \<open>1 - zoom\<close> of the canvas' origin.\<close>

theorem first_fit_shifted:
  assumes "ns \<noteq> []" and "dv_zoom d = 1" "dv_offset d = (0, 0)"
    and "d1 = fit_to_view (map (node_rect o' d) ns) canvas o' d"
    and "d0 = fit_to_view (map (node_rect (0, 0) d) ns) canvas (0, 0) d"
  shows "rc_min (node_rect o' d1 n)
    = padd (padd o' (rc_min (node_rect (0, 0) d0 n))) (pscale o' (1 - dv_zoom d1))"
  using first_fit_places(2) [OF assms(1-4), of n] first_fit_places(2) [OF assms(1-3,5), of n]
    first_fit_places(1) [OF assms(1-4)] first_fit_places(1) [OF assms(1-3,5)]
  by (auto intro!: point_eqI)

text \<open>Zooming moves the point of the graph under the pointer by the origin of the canvas.\<close>

theorem zoom_moves_anchor:
  assumes "vi_pointer i = Some a" "vi_zoom_delta i \<noteq> 1" "dv_zoom d \<noteq> 0"
    and "padd (padd (vi_origin i) (dv_offset d)) (pscale p (dv_zoom d)) = a"
  shows "padd (padd (vi_origin i) (dv_offset (zoom_step i d))) (pscale p (dv_zoom (zoom_step i d)))
       = padd a (vi_origin i)"
  using assms(1-3) unfolding assms(4) [symmetric]
  by (auto intro!: point_eqI simp: zoom_step_def take_over_def Let_def algebra_simps)

lemma second_fit_zoom:
  assumes "ns \<noteq> []" "0 < dv_zoom d"
  shows "dv_zoom (fit_to_view (map (node_rect o' d) ns) canvas o' d) = fit_zoom canvas (pscale (box_size ns) (dv_zoom d))"
proof -
  let ?b = "bounding_box (map (node_rect o' d) ns)"
  have box: "fst (rc_max ?b) - fst (rc_min ?b) = fst (box_size ns) * dv_zoom d"
      "snd (rc_max ?b) - snd (rc_min ?b) = snd (box_size ns) * dv_zoom d"
    using assms by (simp_all add: box_scaled box_size_def layout_box_def algebra_simps)
  have pos: "0 < fst (box_size ns) * dv_zoom d" "0 < snd (box_size ns) * dv_zoom d"
    using box_size_pos [OF assms(1)] assms(2) by simp_all
  have deg: "\<not> (map (node_rect o' d) ns = [] \<or> fst (psub (rc_max ?b) (rc_min ?b)) \<le> 0
      \<or> snd (psub (rc_max ?b) (rc_min ?b)) \<le> 0)"
    unfolding point_sel box using pos assms(1) by simp
  show ?thesis
    unfolding fit_to_view_def Let_def if_not_P [OF deg] unfolding point_sel box
    by (simp add: fit_zoom_def)
qed

text \<open>A second fit on the same canvas measures the nodes at the zoom of the first one and so goes back to
  zoom \<open>1\<close>, whatever zoom the graph needs.\<close>

theorem refit_forgets_zoom:
  assumes "ns \<noteq> []" and "dv_zoom d = 1" "dv_offset d = (0, 0)"
    and canvas: "FIT_MARGIN * 2 < fst canvas" "FIT_MARGIN * 2 < snd canvas"
    and d1: "d1 = fit_to_view (map (node_rect o' d) ns) canvas o' d"
    and inside: "MIN_ZOOM < dv_zoom d1" "dv_zoom d1 < MAX_ZOOM"
  shows "dv_zoom (fit_to_view (map (node_rect o' d1) ns) canvas o' d1) = 1"
proof -
  let ?cx = "fst canvas - FIT_MARGIN * 2" and ?cy = "snd canvas - FIT_MARGIN * 2"
  let ?sx = "fst (box_size ns)" and ?sy = "snd (box_size ns)"
  note pos = box_size_pos [OF assms(1)]
  have z: "dv_zoom d1 = min (?cx / ?sx) (?cy / ?sy)"
    using inside by (auto simp: first_fit_places(1) [OF assms(1-3) d1] fit_zoom_def clamp_zoom_def split: if_splits)
  have "min (?cx / (?sx * dv_zoom d1)) (?cy / (?sy * dv_zoom d1)) = 1"
  proof (cases "?cx / ?sx \<le> ?cy / ?sy")
    case True
    then have "dv_zoom d1 = ?cx / ?sx" using z by simp
    moreover have "1 \<le> ?cy / (?sy * (?cx / ?sx))"
      using True pos canvas by (simp add: field_simps)
    ultimately show ?thesis using pos canvas by (simp add: min_def)
  next
    case False
    then have "dv_zoom d1 = ?cy / ?sy" using z by simp
    moreover have "1 \<le> ?cx / (?sx * (?cy / ?sy))"
      using False pos canvas by (simp add: field_simps)
    ultimately show ?thesis using pos canvas by (simp add: min_def)
  qed
  then have "fit_zoom canvas (pscale (box_size ns) (dv_zoom d1)) = 1"
    by (simp add: fit_zoom_def clamp_zoom_def MIN_ZOOM_def MAX_ZOOM_def)
  moreover have "0 < dv_zoom d1" using inside by (simp add: MIN_ZOOM_def)
  ultimately show ?thesis using second_fit_zoom [OF assms(1), of d1 o' canvas] by simp
qed

end
