(* ===== verification/ThemeModel.thy ===== *)
theory ThemeModel
  imports SampleRun ThemeIds App
begin

text \<open>
  Themes and small presentation rules (\<open>theme.rs\<close>, \<open>util.rs\<close>, \<open>icons.rs\<close>): the three palettes behind the
  index of the active theme (theory \<open>ThemeIds\<close>), the reading of the persisted theme, the dimmed colours, and
  the recolouring of logos for the light theme.  A colour is the expression that builds it; what
  egui makes of a transparent one is not modelled, and neither is painting.
\<close>

section \<open>Themes\<close>

definition eq_ignore_case :: "string \<Rightarrow> string \<Rightarrow> bool" where
  "eq_ignore_case a b \<longleftrightarrow> map to_ascii_lower a = map to_ascii_lower b"

definition theme_from_id :: "string \<Rightarrow> theme_id option" where
  "theme_from_id i =
     (if eq_ignore_case i ''dark'' then Some ThemeDark
      else if eq_ignore_case i ''light'' then Some ThemeLight
      else if eq_ignore_case i ''high-contrast'' then Some ThemeHighContrast
      else None)"

fun theme_is_dark :: "theme_id \<Rightarrow> bool" where
  "theme_is_dark t = (t = ThemeDark)"

section \<open>Palettes\<close>

datatype color =
    Rgb "8 word" "8 word" "8 word"
  | BlackAlpha "8 word"
  | Unmultiplied "8 word" "8 word" "8 word" "8 word"

text \<open>The lightening of dimmed colours is in hundredths; \<open>0\<close> is the path that darkens.\<close>

record palette =
  pl_accent :: color
  pl_accent_hover :: color
  pl_on_accent :: color
  pl_logo_tint :: color
  pl_green :: color
  pl_amber :: color
  pl_red :: color
  pl_grey :: color
  pl_succeeded :: color
  pl_bg :: color
  pl_bg_raised :: color
  pl_stroke :: color
  pl_canvas_bg :: color
  pl_text_dim :: color
  pl_strong_text :: color
  pl_extreme_bg :: color
  pl_hover_fill :: color
  pl_hover_text :: color
  pl_node_text :: color
  pl_tooltip_bg :: color
  pl_tooltip_text :: color
  pl_service_fill :: color
  pl_ingress_fill :: color
  pl_dim_lighten :: nat
  pl_dim_divisor :: "8 word"

definition palette_dark :: palette where
  "palette_dark =
     \<lparr>pl_accent = Rgb 0x3d 0xa5 0xd9, pl_accent_hover = Rgb 0x3d 0x86 0xad,
      pl_on_accent = Rgb 0x06 0x0d 0x12, pl_logo_tint = Rgb 255 255 255, pl_green = Rgb 0x4d 0xc0 0x64,
      pl_amber = Rgb 0xf0 0xa5 0x2e, pl_red = Rgb 0xe5 0x53 0x4b, pl_grey = Rgb 0x8a 0x96 0xa3,
      pl_succeeded = Rgb 0x4f 0x9d 0xc9, pl_bg = Rgb 0x12 0x16 0x1c, pl_bg_raised = Rgb 0x1a 0x20 0x28,
      pl_stroke = Rgb 0x2c 0x36 0x42, pl_canvas_bg = Rgb 0x0e 0x12 0x17,
      pl_text_dim = Rgb 0x9a 0xa6 0xb4, pl_strong_text = Rgb 0xe9 0xf1 0xf7,
      pl_extreme_bg = Rgb 0x0a 0x0d 0x11, pl_hover_fill = Rgb 0x27 0x32 0x3d,
      pl_hover_text = Rgb 0xc6 0xcf 0xd9, pl_node_text = Rgb 0xd6 0xe4 0xee,
      pl_tooltip_bg = BlackAlpha 220, pl_tooltip_text = Rgb 255 255 255,
      pl_service_fill = Unmultiplied 0x5b 0x8d 0xb8 40,
      pl_ingress_fill = Unmultiplied 0x8d 0x7a 0xb8 40, pl_dim_lighten = 0, pl_dim_divisor = 5\<rparr>"

definition palette_light :: palette where
  "palette_light =
     \<lparr>pl_accent = Rgb 0x1b 0x7f 0xb2, pl_accent_hover = Rgb 0x18 0x6c 0x97,
      pl_on_accent = Rgb 0xff 0xff 0xff, pl_logo_tint = Rgb 255 255 255, pl_green = Rgb 0x1f 0x8a 0x3d,
      pl_amber = Rgb 0xb3 0x6b 0x00, pl_red = Rgb 0xc0 0x39 0x2b, pl_grey = Rgb 0x6b 0x76 0x83,
      pl_succeeded = Rgb 0x2b 0x7e 0xa3, pl_bg = Rgb 0xf5 0xf7 0xfa, pl_bg_raised = Rgb 0xff 0xff 0xff,
      pl_stroke = Rgb 0xd0 0xd7 0xdf, pl_canvas_bg = Rgb 0xee 0xf1 0xf5,
      pl_text_dim = Rgb 0x5a 0x66 0x72, pl_strong_text = Rgb 0x1f 0x26 0x2e,
      pl_extreme_bg = Rgb 0xe6 0xea 0xf0, pl_hover_fill = Rgb 0xdc 0xe3 0xea,
      pl_hover_text = Rgb 0x37 0x42 0x4d, pl_node_text = Rgb 0x2b 0x33 0x3b,
      pl_tooltip_bg = BlackAlpha 230, pl_tooltip_text = Rgb 255 255 255,
      pl_service_fill = Unmultiplied 0x5b 0x8d 0xb8 36,
      pl_ingress_fill = Unmultiplied 0x8d 0x7a 0xb8 36, pl_dim_lighten = 80, pl_dim_divisor = 5\<rparr>"

definition palette_high_contrast :: palette where
  "palette_high_contrast =
     \<lparr>pl_accent = Rgb 0x1f 0x9b 0xd6, pl_accent_hover = Rgb 0x3d 0xa5 0xd9,
      pl_on_accent = Rgb 0x00 0x00 0x00, pl_logo_tint = Rgb 255 255 255, pl_green = Rgb 0x00 0xc8 0x53,
      pl_amber = Rgb 0xff 0x98 0x00, pl_red = Rgb 0xff 0x3b 0x30, pl_grey = Rgb 0x90 0xa4 0xae,
      pl_succeeded = Rgb 0x4f 0xc3 0xf7, pl_bg = Rgb 0x00 0x00 0x00, pl_bg_raised = Rgb 0x12 0x12 0x12,
      pl_stroke = Rgb 0xff 0xff 0xff, pl_canvas_bg = Rgb 0x00 0x00 0x00,
      pl_text_dim = Rgb 0xcf 0xd8 0xdc, pl_strong_text = Rgb 255 255 255,
      pl_extreme_bg = Rgb 0x00 0x00 0x00, pl_hover_fill = Rgb 0x1a 0x1a 0x1a,
      pl_hover_text = Rgb 0xd3 0xd9 0xde, pl_node_text = Rgb 0xff 0xff 0xff,
      pl_tooltip_bg = BlackAlpha 255, pl_tooltip_text = Rgb 255 255 255,
      pl_service_fill = Unmultiplied 0x5b 0x8d 0xb8 60,
      pl_ingress_fill = Unmultiplied 0x8d 0x7a 0xb8 60, pl_dim_lighten = 0, pl_dim_divisor = 2\<rparr>"

definition PALETTES :: "palette list" where
  "PALETTES = [palette_dark, palette_light, palette_high_contrast]"

definition palette_of :: "theme_id \<Rightarrow> palette" where
  "palette_of t = PALETTES ! unat (theme_index t)"

definition pal :: "8 word \<Rightarrow> palette" where
  "pal current_index = PALETTES ! unat current_index"

text \<open>\<open>c + (255 - c) * k\<close>, rounded.  With the only \<open>k\<close> in use, \<open>0.80\<close>, the exact value is a multiple of a
  fifth, at least a tenth from a half, so the errors of \<open>f32\<close> do not reach the rounding.\<close>

definition dim_mix :: "nat \<Rightarrow> 8 word \<Rightarrow> 8 word" where
  "dim_mix k c = of_nat ((200 * unat c + 2 * (255 - unat c) * k + 100) div 200)"

definition dim_rgb :: "palette \<Rightarrow> 8 word \<times> 8 word \<times> 8 word \<Rightarrow> color" where
  "dim_rgb p c =
     (case c of (r, g, b) \<Rightarrow>
        if 0 < pl_dim_lighten p
        then (let k = pl_dim_lighten p in Rgb (dim_mix k r) (dim_mix k g) (dim_mix k b))
        else (let d = max (pl_dim_divisor p) 1 in Rgb (r div d) (g div d) (b div d)))"

section \<open>The persisted theme\<close>

definition theme_from_settings :: "settings option \<Rightarrow> theme_id" where
  "theme_from_settings s =
     (case Option.bind (Option.bind s set_theme) theme_from_id of Some t \<Rightarrow> t | None \<Rightarrow> THEME_DEFAULT)"

definition load_persisted_theme :: "state_env \<Rightarrow> string option \<Rightarrow> fs \<Rightarrow> theme_id outcome \<times> fs" where
  "load_persisted_theme se base w =
     (case data_dir_standard base w of
        (Crashed, w1) \<Rightarrow> (Crashed, w1)
      | (Done (Inr root), w1) \<Rightarrow>
          (case load_settings se root w1 of
             (Crashed, w2) \<Rightarrow> (Crashed, w2)
           | (Done (Inr s), w2) \<Rightarrow> (Done (theme_from_settings (Some s)), w2)
           | (_, w2) \<Rightarrow> (Done (theme_from_settings None), w2))
      | (_, w1) \<Rightarrow> (Done (theme_from_settings None), w1))"

section \<open>Presentation\<close>

fun node_status_color :: "palette \<Rightarrow> node_status \<Rightarrow> color" where
  "node_status_color p NodeReady = pl_green p"
| "node_status_color p NodePending = pl_amber p"
| "node_status_color p NodeFailed = pl_red p"
| "node_status_color p NodeSucceeded = pl_succeeded p"
| "node_status_color p NodeNeutral = pl_text_dim p"

fun pod_phase_color :: "palette \<Rightarrow> pod_phase \<Rightarrow> color" where
  "pod_phase_color p PodRunning = pl_green p"
| "pod_phase_color p PodPending = pl_amber p"
| "pod_phase_color p PodSucceeded = pl_succeeded p"
| "pod_phase_color p PodFailed = pl_red p"
| "pod_phase_color p PodUnknown = pl_grey p"

fun tool_monogram :: "tool_id \<Rightarrow> string" where
  "tool_monogram ToolDocker = ''DK''"
| "tool_monogram ToolKind = ''KD''"
| "tool_monogram ToolKubectl = ''KC''"
| "tool_monogram ToolHelm = ''HM''"
| "tool_monogram ToolCilium = ''CL''"
| "tool_monogram ToolK9s = ''K9''"
| "tool_monogram ToolKubectx = ''KX''"
| "tool_monogram ToolKustomize = ''KZ''"

fun tool_color :: "tool_id \<Rightarrow> color" where
  "tool_color ToolDocker = Rgb 0x24 0x96 0xed"
| "tool_color ToolKind = Rgb 0x34 0xc2 0x9e"
| "tool_color ToolKubectl = Rgb 0x32 0x6c 0xe5"
| "tool_color ToolHelm = Rgb 0x6b 0x76 0xd9"
| "tool_color ToolCilium = Rgb 0xf2 0xb8 0x2e"
| "tool_color ToolK9s = Rgb 0xe8 0x7a 0x3e"
| "tool_color ToolKubectx = Rgb 0x9b 0x6c 0xd9"
| "tool_color ToolKustomize = Rgb 0x2f 0xb8 0xc9"

section \<open>Logos\<close>

record light_recolor =
  lr_max_light_lum :: nat
  lr_target :: "8 word \<times> 8 word \<times> 8 word"

definition LIGHT_RECOLOR_TARGET :: "8 word \<times> 8 word \<times> 8 word" where
  "LIGHT_RECOLOR_TARGET = (0x2f, 0x3a, 0x45)"

text \<open>Thresholds in hundredths.\<close>

definition KIND_MAX_LIGHT_LUM :: nat where "KIND_MAX_LIGHT_LUM = 45"
definition CILIUM_MAX_LIGHT_LUM :: nat where "CILIUM_MAX_LIGHT_LUM = 80"

fun tool_logo_light_recolor :: "tool_id \<Rightarrow> light_recolor option" where
  "tool_logo_light_recolor ToolKind =
     Some \<lparr>lr_max_light_lum = KIND_MAX_LIGHT_LUM, lr_target = LIGHT_RECOLOR_TARGET\<rparr>"
| "tool_logo_light_recolor ToolCilium =
     Some \<lparr>lr_max_light_lum = CILIUM_MAX_LIGHT_LUM, lr_target = LIGHT_RECOLOR_TARGET\<rparr>"
| "tool_logo_light_recolor _ = None"

text \<open>The bytes of an image, four for a pixel.  The comparison of the luminance, which takes a power of an
  \<open>f32\<close>, is the parameter \<open>brighter\<close>.\<close>

fun recolor_light_pixels ::
    "(nat \<Rightarrow> 8 word \<Rightarrow> 8 word \<Rightarrow> 8 word \<Rightarrow> bool) \<Rightarrow> light_recolor \<Rightarrow> 8 word list \<Rightarrow> 8 word list \<times> nat" where
  "recolor_light_pixels brighter rc (r # g # b # a # rest) =
     (let (rest', n) = recolor_light_pixels brighter rc rest in
      if a \<le> 200 then (r # g # b # a # rest', n)
      else if brighter (lr_max_light_lum rc) r g b
        then (case lr_target rc of (tr, tg, tb) \<Rightarrow> (tr # tg # tb # a # rest', n + 1))
      else (r # g # b # a # rest', n))"
| "recolor_light_pixels brighter rc bytes = (bytes, 0)"

section \<open>Properties\<close>

lemma theme_from_id_str [simp]: "theme_from_id (theme_id_str t) = Some t"
  by (cases t) (simp_all add: theme_from_id_def eq_ignore_case_def to_ascii_lower_def is_ascii_upper_def less_eq_char_def)

text \<open>The index only ever holds that of a theme, so the active palette is the one of the active theme.\<close>

lemma pal_of_current: "pal (theme_index t) = palette_of (current_theme (theme_index t))"
  by (simp add: pal_def palette_of_def)

lemma theme_index_bound: "unat (theme_index t) < length PALETTES"
  by (cases t) (simp_all add: PALETTES_def)

lemma recolor_shape:
  "length (fst (recolor_light_pixels br rc px)) = length px
   \<and> (\<forall>i. i mod 4 = 3 \<longrightarrow> i < length px \<longrightarrow> fst (recolor_light_pixels br rc px) ! i = px ! i)"
proof (induction br rc px rule: recolor_light_pixels.induct)
  case (1 br rc r g b a rest)
  obtain out n where o: "recolor_light_pixels br rc rest = (out, n)" by fastforce
  have nth: "(x0 # x1 # x2 # a # out) ! i = (r # g # b # a # rest) ! i"
    if "i mod 4 = 3" "i < length (r # g # b # a # rest)" for i x0 x1 x2
  proof -
    have "i = 3 \<or> 4 \<le> i" using that(1) by presburger
    moreover have "(x0 # x1 # x2 # a # out) ! i = (r # g # b # a # rest) ! i" if "4 \<le> i"
    proof -
      obtain j where j: "i = Suc (Suc (Suc (Suc j)))"
        using le_Suc_ex [OF \<open>4 \<le> i\<close>] by (auto simp: numeral_eq_Suc)
      have "j mod 4 = 3" using \<open>i mod 4 = 3\<close> j by presburger
      then show ?thesis using 1 o j \<open>i < length (r # g # b # a # rest)\<close> by simp
    qed
    ultimately show ?thesis by (auto simp: numeral_eq_Suc)
  qed
  show ?case using 1 o nth by (auto simp: Let_def split: prod.split)
qed simp_all

lemma load_settings_clean:
  assumes "fs_faults w = []" and "lookup_node (fs_nodes w) (settings_path root) = Some (NFile \<lparr>f_bytes = j, f_mode = m\<rparr>)"
    and "str_trim (utf8_lossy j) \<noteq> []" and "se_settings_of_json se (utf8_lossy j) = Ok s"
  shows "load_settings se root w = (Done (Ok s), w)"
  using assms by (cases w) (simp add: load_settings_def read_file_def io_prim_clean Let_def del: utf8_lossy.simps)

lemma create_dirs_clean:
  "fs_faults w = [] \<Longrightarrow> create_dirs ds w = (Done (Ok ()), w') \<Longrightarrow>
   lookup_node (fs_nodes w) p = Some x \<Longrightarrow> fs_faults w' = [] \<and> lookup_node (fs_nodes w') p = Some x"
proof (induction ds arbitrary: w)
  case (Cons d ds)
  have f: "fs_faults (snd (create_dir_all d w)) = []"
    using Cons.prems(1) by (simp add: create_dir_all_def Let_def io_prim_clean split: sum.split)
  obtain y w1 where c: "create_dir_all d w = (y, w1)" by fastforce
  show ?case
  proof (cases y)
    case (Done u)
    have "lookup_node (fs_nodes w1) p = Some x"
      using hoareD [OF create_dir_all_keeps Cons.prems(3) c [unfolded Done]] .
    then show ?thesis using Cons.IH [of w1] Cons.prems(2) f c Done by simp
  next
    case (Failed e)
    then show ?thesis using Cons.prems f c by auto
  qed (use Cons.prems c in simp)
qed simp

text \<open>A theme the worker saved without a complaint is the theme of the next start, whatever faults the save
  went through, when the state directory can be set up and the JSON codec keeps the theme it wrote.\<close>

theorem theme_survives_restart:
  assumes "wk_root env = path_join base DATA_DIR_NAME" and "path_plain (settings_path (wk_root env))"
    and codec: "\<And>s j. set_theme s = Some (theme_id_str t) \<Longrightarrow> se_settings_to_json (wk_state env) s = Ok j \<Longrightarrow>
      str_trim (utf8_lossy j) \<noteq> []
      \<and> (\<exists>s'. se_settings_of_json (wk_state env) (utf8_lossy j) = Ok s' \<and> set_theme s' = set_theme s)"
    and "do_set_theme env (theme_id_str t) w = (Some (), w')" and "w_events w' = w_events w"
    and "data_dir_standard (Some base) ((w_fs w')\<lparr>fs_faults := []\<rparr>) = (Done (Ok root), f)"
  shows "fst (load_persisted_theme (wk_state env) (Some base) ((w_fs w')\<lparr>fs_faults := []\<rparr>)) = Done t"
proof -
  let ?se = "wk_state env" and ?root = "wk_root env"
  obtain s f1 where s: "load_settings ?se ?root (w_fs w) = (Done (Ok s), f1)"
    and save: "save_settings ?se ?root (s\<lparr>set_theme := Some (theme_id_str t)\<rparr>) f1 = (Done (Ok ()), w_fs w')"
    using assms(4,5)
    by (auto simp: do_set_theme_def then_do_def texted_def prov_bind_def prov_fs_def send_def task_return_def
        emit_def split: prod.splits outcome.splits sum.splits option.splits)
  obtain j where j: "se_settings_to_json ?se (s\<lparr>set_theme := Some (theme_id_str t)\<rparr>) = Ok j"
    and w: "atomic_write_impl (settings_path ?root) j False f1 = (Done (), w_fs w')"
    using save by (auto simp: save_settings_def write_json_def atomic_write_def split: sum.splits prod.splits outcome.splits)
  obtain m where "fs_nodes (w_fs w') (settings_path ?root) = Some (NFile \<lparr>f_bytes = j, f_mode = m\<rparr>)"
    using atomic_write_ok [OF assms(2) w] by blast
  then have n: "lookup_node (fs_nodes ((w_fs w')\<lparr>fs_faults := []\<rparr>)) (settings_path ?root)
      = Some (NFile \<lparr>f_bytes = j, f_mode = m\<rparr>)"
    by (simp add: lookup_node_def numeral_eq_Suc)
  obtain s' where s': "str_trim (utf8_lossy j) \<noteq> []" "se_settings_of_json ?se (utf8_lossy j) = Ok s'"
    "set_theme s' = Some (theme_id_str t)"
    using codec [OF _ j] by auto
  have r: "root = ?root" and d: "create_dirs (?root # map (path_join ?root) [''clusters'', ''logs'', ''tmp''])
      ((w_fs w')\<lparr>fs_faults := []\<rparr>) = (Done (Ok ()), f)"
    using assms(6) unfolding data_dir_standard_def data_dir_new_def option.case assms(1) [symmetric]
    by (auto simp: io_bind_def io_return_def split: prod.splits outcome.splits simp del: create_dirs.simps)
  have "load_settings ?se ?root f = (Done (Ok s'), f)"
    using create_dirs_clean [OF _ d n] by (intro load_settings_clean [OF _ _ s'(1,2)]) simp_all
  then show ?thesis
    using assms(6) s'(3) r by (simp add: load_persisted_theme_def theme_from_settings_def)
qed

definition theme_codec :: state_env where
  "theme_codec = (wk_state worker_env_example)
     \<lparr>se_settings_to_json := \<lambda>s. Ok (case set_theme s of Some t \<Rightarrow> t | None \<Rightarrow> ''{}''),
      se_settings_of_json := \<lambda>x. Ok (settings_default\<lparr>set_theme := Some x\<rparr>)\<rparr>"

definition theme_env :: worker_env where
  "theme_env = worker_env_example\<lparr>wk_state := theme_codec, wk_root := ''/x/kindboard''\<rparr>"

lemma theme_env_root: "path_join ''/x'' DATA_DIR_NAME = ''/x/kindboard''"
  by (simp add: DATA_DIR_NAME_def path_join_def path_is_absolute_def)

lemma utf8_light: "utf8_lossy ''light'' = ''light''" "str_trim ''light'' \<noteq> []"
  by (simp_all add: utf8_next_def utf8_width_def less_char_def str_trim_def trim_end_def is_ws1_def
      is_ws2_def is_ws3_def less_eq_char_def)

text \<open>A data directory that exists, and the worker of it.\<close>

definition data_nodes :: nodes where
  "data_nodes = map_of (map (\<lambda>d. (d, NDir)) [''/'', ''/x'', ''/x/kindboard'', ''/x/kindboard/clusters'',
     ''/x/kindboard/logs'', ''/x/kindboard/tmp''])"

definition world_data :: wworld where
  "world_data = world_example\<lparr>w_fs := fs_example\<lparr>fs_nodes := data_nodes\<rparr>\<rparr>"

definition settings_written :: "fs \<Rightarrow> bool" where
  "settings_written f \<longleftrightarrow> (\<forall>p. starts_with ''/x/kindboard/settings.json'' p \<or> fs_nodes f p = data_nodes p)"

lemma settings_written_other:
  "settings_written f \<Longrightarrow> \<not> starts_with ''/x/kindboard/settings.json'' p \<Longrightarrow> fs_nodes f p = data_nodes p"
  by (auto simp: settings_written_def)

lemma create_dir_there:
  assumes "fs_faults f = []" and "list_all (\<lambda>d. fs_nodes f d = Some NDir) (dir_chain [] (split_on (CHR ''/'') p))"
  shows "create_dir_all p f = (Done (), f)"
proof -
  have l: "fs_nodes f d = Some NDir \<Longrightarrow> lookup_node (fs_nodes f) d = Some NDir" for d
    by (simp add: lookup_here)
  have "make_dirs (dir_chain [] (split_on (CHR ''/'') p)) (fs_nodes f) = fs_nodes f"
    using assms(2) by (auto simp: make_dirs_def list_all_iff fun_eq_iff)
  then show ?thesis using assms l
    by (cases f) (auto simp: create_dir_all_def io_prim_clean Let_def list_all_iff)
qed

lemma data_dir_there:
  assumes "settings_written f" and "fs_faults f = []"
  shows "data_dir_standard (Some ''/x'') f = (Done (Ok ''/x/kindboard''), f)"
  using assms
  by (simp add: data_dir_standard_def DATA_DIR_NAME_def data_dir_new_def io_bind_def io_return_def
      create_dir_there path_join_def path_is_absolute_def settings_written_other data_nodes_def)

lemma save_light:
  "\<exists>f. atomic_write_impl ''/x/kindboard/settings.json'' ''light'' False (w_fs world_data) = (Done (), f)
     \<and> settings_written f"
proof -
  let ?p = "''/x/kindboard/settings.json''" and ?t = "''/x/kindboard/settings.json.tmp-7-0''"
  have t: "tmp_name 7 ?p 0 = ?t" by code_simp
  have tries: "create_temp_tries (Suc k) ?p f = (Done ?t, f\<lparr>fs_tmp_counter := fs_tmp_counter f + 1,
      fs_nodes := (fs_nodes f)(?t \<mapsto> NFile \<lparr>f_bytes = [], f_mode = fs_umask_mode f\<rparr>)\<rparr>)"
    if "fs_nodes f ?t = None" "fs_tmp_counter f = 0" "fs_pid f = 7" "fs_faults f = []" for f k
    using that t by (simp add: tmp_sibling_def open_create_new_def io_prim_clean)
  have d: "create_dir_all ''/x/kindboard'' (w_fs world_data) = (Done (), w_fs world_data)"
    by (rule create_dir_there) (simp_all add: world_data_def fs_example_def data_nodes_def path_join_def path_is_absolute_def)
  have n: "data_nodes ?p = None" "data_nodes ?t = None" by (simp_all add: data_nodes_def)
  have parent: "path_parent ?p = ''/x/kindboard''" by code_simp
  show ?thesis
    using tries [of _ 15] n d
    by (simp add: atomic_write_impl_def io_bind_def io_prim_clean parent is_file_def lookup_here world_data_def
        fs_example_def io_return_def create_new_temp_def write_all_def sync_all_def rename_or_remove_def
        rename_path_def Let_def settings_written_def del: create_temp_tries.simps)
qed

lemma theme_saved:
  "\<exists>w'. do_set_theme theme_env (theme_id_str ThemeLight) world_data = (Some (), w') \<and> w_events w' = w_events world_data
     \<and> settings_written (w_fs w')"
proof -
  obtain f where f: "atomic_write_impl ''/x/kindboard/settings.json'' ''light'' False (w_fs world_data) = (Done (), f)"
    "settings_written f"
    using save_light by blast
  have p: "settings_path ''/x/kindboard'' = ''/x/kindboard/settings.json''"
    by (simp add: settings_path_def path_join_def path_is_absolute_def)
  have l: "load_settings theme_codec ''/x/kindboard'' (w_fs world_data) = (Done (Ok settings_default), w_fs world_data)"
    by (simp add: load_settings_def p read_file_def io_prim_clean world_data_def fs_example_def lookup_here
        data_nodes_def not_found_def)
  have e: "wk_state theme_env = theme_codec" "wk_root theme_env = ''/x/kindboard''"
    "se_settings_to_json theme_codec (u\<lparr>set_theme := Some i\<rparr>) = Ok i" for u i
    by (simp_all add: theme_env_def theme_codec_def)
  show ?thesis
    using f by (simp add: do_set_theme_def then_do_def texted_def prov_bind_def prov_fs_def e l
        save_settings_def write_json_def atomic_write_def p task_return_def)
qed

lemma theme_survives_restart_witness:
  "\<exists>w. fst (load_persisted_theme theme_codec (Some ''/x'') w) = Done ThemeLight"
proof -
  obtain w' where w': "do_set_theme theme_env (theme_id_str ThemeLight) world_data = (Some (), w')"
    "w_events w' = w_events world_data" "settings_written (w_fs w')"
    using theme_saved by blast
  have s: "settings_written ((w_fs w')\<lparr>fs_faults := []\<rparr>)" using w'(3) by (simp add: settings_written_def)
  have "fst (load_persisted_theme (wk_state theme_env) (Some ''/x'') ((w_fs w')\<lparr>fs_faults := []\<rparr>)) = Done ThemeLight"
  proof (rule theme_survives_restart [OF _ _ _ w'(1,2) data_dir_there [OF s]])
    show "path_plain (settings_path (wk_root theme_env))"
      by (simp add: theme_env_def settings_path_def path_join_def path_is_absolute_def path_plain_def path_file_name_def)
    fix s j
    assume "set_theme s = Some (theme_id_str ThemeLight)" "se_settings_to_json (wk_state theme_env) s = Ok j"
    then have "j = ''light''" by (simp add: theme_env_def theme_codec_def)
    then show "str_trim (utf8_lossy j) \<noteq> []
      \<and> (\<exists>s'. se_settings_of_json (wk_state theme_env) (utf8_lossy j) = Ok s' \<and> set_theme s' = set_theme s)"
      using utf8_light \<open>set_theme s = _\<close> by (simp add: theme_env_def theme_codec_def del: utf8_lossy.simps)
  qed (simp_all add: theme_env_def theme_env_root)
  then show ?thesis by (auto simp: theme_env_def)
qed

end
