(* ===== verification/DiagramPaint.thy ===== *)
theory DiagramPaint
  imports DiagramView ThemeModel
begin

text \<open>
  What the diagram paints (\<open>views/diagram.rs\<close>): the box of a node, the lines between nodes and the legend.  The
  width of a laid-out text is a parameter; painting itself is the toolkit's.
\<close>

section \<open>Nodes\<close>

record node_paint =
  np_fill :: color
  np_rounding :: nat
  np_stroke_width :: nat
  np_stroke :: color
  np_label :: string
  np_font :: rat

fun with_alpha :: "8 word \<Rightarrow> color \<Rightarrow> color" where
  "with_alpha a (Rgb r g b) = Unmultiplied r g b a"
| "with_alpha a c = c"

fun dim_color :: "palette \<Rightarrow> color \<Rightarrow> color" where
  "dim_color p (Rgb r g b) = dim_rgb p (r, g, b)"
| "dim_color p c = c"

fun node_fill :: "palette \<Rightarrow> layout_kind \<Rightarrow> color \<Rightarrow> color" where
  "node_fill p LNamespace c = with_alpha 28 (pl_accent p)"
| "node_fill p LWorkload c = dim_color p c"
| "node_fill p LPod c = dim_color p c"
| "node_fill p LService c = pl_service_fill p"
| "node_fill p LIngress c = pl_ingress_fill p"

fun node_rounding :: "layout_kind \<Rightarrow> nat" where
  "node_rounding LNamespace = 6"
| "node_rounding LWorkload = 4"
| "node_rounding LPod = 6"
| "node_rounding LService = 13"
| "node_rounding LIngress = 4"

definition node_prefix :: "view_node \<Rightarrow> string option" where
  "node_prefix v =
     (case ln_kind (vn_layout v) of
        LWorkload \<Rightarrow> vn_glyph v | LService \<Rightarrow> Some ''svc'' | LIngress \<Rightarrow> Some ''ing'' | _ \<Rightarrow> None)"

definition node_label :: "view_node \<Rightarrow> string" where
  "node_label v =
     (let name = ln_name (vn_layout v);
          label = (case node_prefix v of Some p \<Rightarrow> p @ '' '' @ name | None \<Rightarrow> name)
      in truncate_text label (if ln_kind (vn_layout v) = LNamespace then 18 else 15))"

definition node_font :: "layout_kind \<Rightarrow> rat" where
  "node_font k = max (11 * fst (node_size k) / fst (node_size LWorkload)) 9"

definition paint_node :: "palette \<Rightarrow> view_node \<Rightarrow> bool \<Rightarrow> node_paint" where
  "paint_node p v selected =
     (let k = ln_kind (vn_layout v); c = node_status_color p (vn_status v) in
      \<lparr>np_fill = node_fill p k c, np_rounding = node_rounding k,
       np_stroke_width = (if selected then 2 else 1), np_stroke = (if selected then pl_accent p else c),
       np_label = node_label v, np_font = node_font k\<rparr>)"

definition paint_nodes :: "palette \<Rightarrow> string option \<Rightarrow> view_node list \<Rightarrow> node_paint list" where
  "paint_nodes p selected nodes = map (\<lambda>v. paint_node p v (selected = Some (ln_id (vn_layout v)))) nodes"

section \<open>Lines\<close>

definition rect_center :: "rect \<Rightarrow> point" where
  "rect_center r = pscale (padd (rc_min r) (rc_max r)) (1 / 2)"

text \<open>Of rectangles with one id the last one counts.\<close>

definition id_rect :: "(string \<times> rect) list \<Rightarrow> string \<Rightarrow> rect option" where
  "id_rect rects = map_of (rev rects)"

definition edge_lines :: "topology_graph \<Rightarrow> view_node list \<Rightarrow> (string \<times> rect) list \<Rightarrow> (point \<times> point) list" where
  "edge_lines g nodes rects =
     concat (map (\<lambda>(a, b). case (id_rect rects a, id_rect rects b) of
         (Some x, Some y) \<Rightarrow> [(rect_center x, rect_center y)]
       | _ \<Rightarrow> []) (drawn_edges g nodes))"

definition guide_line :: "view_node list \<Rightarrow> (string \<times> rect) list \<Rightarrow> string \<Rightarrow> (point \<times> point) list" where
  "guide_line nodes rects ns =
     (let members = List.map_filter (\<lambda>v. if vn_ns v = ns then id_rect rects (ln_id (vn_layout v)) else None) nodes
      in case id_rect rects (''namespace/'' @ ns) of
           Some r \<Rightarrow>
             if members = [] then []
             else [(rect_center r, (fst (rect_center r),
                     sum_list (map (\<lambda>m. snd (rect_center m)) members) / of_nat (length members)))]
         | None \<Rightarrow> [])"

definition guide_lines :: "view_node list \<Rightarrow> (string \<times> rect) list \<Rightarrow> (point \<times> point) list" where
  "guide_lines nodes rects =
     concat (map (\<lambda>v. guide_line nodes rects (ln_name (vn_layout v)))
       (filter (\<lambda>v. ln_kind (vn_layout v) = LNamespace) nodes))"

section \<open>The legend\<close>

definition legend_entries :: "palette \<Rightarrow> (string \<times> color) list" where
  "legend_entries p =
     [(''Ready/Running'', pl_green p), (''Pending'', pl_amber p), (''Failed'', pl_red p),
      (''Unknown'', pl_grey p), (''edge: service -> workload'', pl_text_dim p)]"

text \<open>The entries from left to right with the place of their dots, up to the right edge.\<close>

fun legend_row :: "(string \<Rightarrow> rat) \<Rightarrow> rat \<Rightarrow> rat \<Rightarrow> (string \<times> color) list \<Rightarrow> (rat \<times> string \<times> color) list" where
  "legend_row width right x [] = []"
| "legend_row width right x ((label, c) # es) =
     (let x' = x + (7 + width label + 14)
      in (x, label, c) # (if right - 60 < x' then [] else legend_row width right x' es))"

definition paint_legend ::
    "(string \<Rightarrow> rat) \<Rightarrow> palette \<Rightarrow> rect \<Rightarrow> nat \<Rightarrow> (rat \<times> string \<times> color) list \<times> string option" where
  "paint_legend width p canvas collapsed =
     (legend_row width (fst (rc_max canvas)) (fst (rc_min canvas) + 10) (legend_entries p),
      if 0 < collapsed then Some (dec collapsed @ '' namespace(s) collapsed'') else None)"

section \<open>Properties\<close>

text \<open>Every status colour of the three palettes is opaque, so dimming and stroking meet no other ones.\<close>

lemma status_colors_opaque: "\<exists>r g b. node_status_color (palette_of t) st = Rgb r g b"
  by (cases t; cases st)
    (simp_all add: palette_of_def PALETTES_def palette_dark_def palette_light_def palette_high_contrast_def)

text \<open>A selected node differs from the others in its stroke only.\<close>

lemma selection_changes_stroke:
  "paint_node p v True = (paint_node p v False)\<lparr>np_stroke_width := 2, np_stroke := pl_accent p\<rparr>"
  by (simp add: paint_node_def Let_def)

lemma legend_prefix: "\<exists>k. map snd (legend_row width right x es) = take k es"
proof (induction es arbitrary: x)
  case (Cons e es)
  obtain l c where e: "e = (l, c)" by fastforce
  obtain k where "map snd (legend_row width right (x + (7 + width l + 14)) es) = take k es" using Cons.IH by blast
  then have "map snd (legend_row width right x (e # es)) = take (if right - 60 < x + (7 + width l + 14) then 1 else Suc k) (e # es)"
    by (simp add: e Let_def)
  then show ?case by blast
qed simp

end
