(* ===== verification/Startup.thy ===== *)
theory Startup
  imports FsModel "HOL-Library.Word"
begin

text \<open>
  The start of the binary (\<open>main.rs\<close>): the command line, the log file, the re-execution in the background
  and what the process then becomes.  The environment variables, the data directory of the \<open>dirs\<close> crate, the
  opening of the log file and the spawn of the child are parameters.  The window itself is not modelled, nor is
  its initial size, which is read from the environment as two \<open>f32\<close> numbers.
\<close>

section \<open>Screenshot arguments\<close>

datatype screenshot_args = ShotOnce string nat | ShotEvery nat string

definition U64_MAX :: nat where "U64_MAX = 2 ^ 64 - 1"

record shot_scan =
  sc_once :: "string option"
  sc_every :: "nat option"
  sc_dir :: "string option"
  sc_delay :: "nat option"

definition shot_scan_empty :: shot_scan where
  "shot_scan_empty = \<lparr>sc_once = None, sc_every = None, sc_dir = None, sc_delay = None\<rparr>"

text \<open>The value of an option: the next argument unless it is another option.\<close>

fun option_value :: "string \<Rightarrow> string list \<Rightarrow> string + string" where
  "option_value msg (v # rest) = (if starts_with ''--'' v then Err msg else Ok v)"
| "option_value msg [] = Err msg"

definition parse_secs :: "string \<Rightarrow> string + nat" where
  "parse_secs v = ok_or (''invalid seconds: '' @ v) (parse_uint U64_MAX v)"

fun scan_screenshot :: "string list \<Rightarrow> shot_scan \<Rightarrow> string + shot_scan" where
  "scan_screenshot [] sc = Ok sc"
| "scan_screenshot (a # rest) sc =
     (if a = ''--screenshot'' then
        rbind (option_value ''--screenshot requires a file path'' rest) (\<lambda>v.
          scan_screenshot (tl rest) (sc\<lparr>sc_once := Some v\<rparr>))
      else if a = ''--screenshot-every'' then
        rbind (option_value ''--screenshot-every requires seconds'' rest) (\<lambda>v.
          rbind (parse_secs v) (\<lambda>secs.
            if secs = 0 then Err ''--screenshot-every needs at least 1 second''
            else scan_screenshot (tl rest) (sc\<lparr>sc_every := Some secs\<rparr>)))
      else if a = ''--screenshot-dir'' then
        rbind (option_value ''--screenshot-dir requires a directory'' rest) (\<lambda>v.
          scan_screenshot (tl rest) (sc\<lparr>sc_dir := Some v\<rparr>))
      else if a = ''--screenshot-delay'' then
        rbind (option_value ''--screenshot-delay requires seconds'' rest) (\<lambda>v.
          rbind (parse_secs v) (\<lambda>secs. scan_screenshot (tl rest) (sc\<lparr>sc_delay := Some secs\<rparr>)))
      else scan_screenshot rest sc)"

definition resolve_shot :: "string option \<Rightarrow> shot_scan \<Rightarrow> string + screenshot_args option" where
  "resolve_shot env_dir sc =
     (case (sc_once sc, sc_every sc) of
        (Some _, Some _) \<Rightarrow> Err ''--screenshot and --screenshot-every are mutually exclusive''
      | (Some p, None) \<Rightarrow>
          if sc_dir sc \<noteq> None then Err ''--screenshot-dir requires --screenshot-every''
          else Ok (Some (ShotOnce p (case sc_delay sc of Some d \<Rightarrow> d | None \<Rightarrow> 0)))
      | (None, Some secs) \<Rightarrow>
          if sc_delay sc \<noteq> None then Err ''--screenshot-delay only applies to --screenshot''
          else Ok (Some (ShotEvery secs
                 (case sc_dir sc of Some d \<Rightarrow> d
                  | None \<Rightarrow> (case env_dir of Some d \<Rightarrow> d | None \<Rightarrow> ''screenshots''))))
      | (None, None) \<Rightarrow>
          if sc_dir sc \<noteq> None then Err ''--screenshot-dir requires --screenshot-every''
          else if sc_delay sc \<noteq> None then Err ''--screenshot-delay requires --screenshot''
          else Ok None)"

definition parse_screenshot_args :: "string option \<Rightarrow> string list \<Rightarrow> string + screenshot_args option" where
  "parse_screenshot_args env_dir args = rbind (scan_screenshot args shot_scan_empty) (resolve_shot env_dir)"

section \<open>Troubleshooting arguments\<close>

record troubleshoot_args =
  ts_detach :: bool
  ts_verbose :: "8 word"
  ts_log_file :: "string option"

definition troubleshoot_none :: troubleshoot_args where
  "troubleshoot_none = \<lparr>ts_detach = False, ts_verbose = 0, ts_log_file = None\<rparr>"

definition is_verbose_flag :: "string \<Rightarrow> bool" where
  "is_verbose_flag a \<longleftrightarrow>
     a = ''--verbose'' \<or>
     (starts_with ''-v'' a \<and> \<not> starts_with ''--'' a \<and> list_all (\<lambda>c. c = CHR ''v'') (tl a))"

text \<open>\<open>as u8\<close> keeps the low eight bits.\<close>

definition verbose_count :: "string \<Rightarrow> 8 word" where
  "verbose_count a = (if a = ''--verbose'' then 1 else of_nat (length a - 1))"

definition saturating_add8 :: "8 word \<Rightarrow> 8 word \<Rightarrow> 8 word" where
  "saturating_add8 a b = (if unat a + unat b < 256 then a + b else 255)"

fun scan_troubleshoot :: "string list \<Rightarrow> troubleshoot_args \<Rightarrow> string + troubleshoot_args" where
  "scan_troubleshoot [] ts = Ok ts"
| "scan_troubleshoot (a # rest) ts =
     (if a = ''--detach'' then scan_troubleshoot rest (ts\<lparr>ts_detach := True\<rparr>)
      else if is_verbose_flag a then
        scan_troubleshoot rest (ts\<lparr>ts_verbose := saturating_add8 (ts_verbose ts) (verbose_count a)\<rparr>)
      else if a = ''--log-file'' then
        rbind (option_value ''--log-file requires a path'' rest) (\<lambda>v.
          scan_troubleshoot (tl rest) (ts\<lparr>ts_log_file := Some v\<rparr>))
      else scan_troubleshoot rest ts)"

definition parse_troubleshoot_args :: "string list \<Rightarrow> string + troubleshoot_args" where
  "parse_troubleshoot_args args = scan_troubleshoot args troubleshoot_none"

datatype level_filter = LevelWarn | LevelDebug | LevelTrace

definition level_for :: "8 word \<Rightarrow> level_filter" where
  "level_for v = (if v = 0 then LevelWarn else if v = 1 then LevelDebug else LevelTrace)"

definition resolve_log_file :: "string option \<Rightarrow> string option \<Rightarrow> bool \<Rightarrow> string option" where
  "resolve_log_file data_dir log_file detach =
     (case log_file of
        Some p \<Rightarrow> Some p
      | None \<Rightarrow>
          if detach then map_option (\<lambda>d. path_join (path_join d ''kindboard'') ''kindboard.log'') data_dir
          else None)"

definition detach_screenshot_conflict :: "bool \<Rightarrow> screenshot_args option \<Rightarrow> string + unit" where
  "detach_screenshot_conflict detach shot =
     (if detach \<and> shot \<noteq> None then Err ''--detach cannot be combined with --screenshot flags'' else Ok ())"

section \<open>The process\<close>

datatype renderer = Glow | Wgpu

record detach_command =
  dt_program :: string
  dt_args :: "string list"
  dt_env :: "(string \<times> string) list"

record startup_env =
  su_var :: "string \<Rightarrow> string option"
  su_data_dir :: "string option"
  su_macos :: bool
  su_current_exe :: string
  su_create_dir :: "string \<Rightarrow> string + unit"
  su_open_append :: "string \<Rightarrow> string + unit"
  su_spawn :: "detach_command \<Rightarrow> string + nat"

definition build_detach_command :: "string \<Rightarrow> string list \<Rightarrow> detach_command" where
  "build_detach_command exe args =
     \<lparr>dt_program = exe, dt_args = filter (\<lambda>a. a \<noteq> ''--detach'') args,
      dt_env = [(''KINDBOARD_DETACHED'', ''1'')]\<rparr>"

definition platform_renderer :: "bool \<Rightarrow> renderer" where
  "platform_renderer macos = (if macos then Glow else Wgpu)"

definition renderer_for_platform :: "startup_env \<Rightarrow> renderer" where
  "renderer_for_platform env =
     (case su_var env ''KINDBOARD_RENDERER'' of
        Some v \<Rightarrow> if v = ''glow'' then Glow else if v = ''wgpu'' then Wgpu else platform_renderer (su_macos env)
      | None \<Rightarrow> platform_renderer (su_macos env))"

text \<open>The log file, when one is wanted: a default one that cannot be opened is done without, one that was
  asked for ends the process.\<close>

definition open_log :: "startup_env \<Rightarrow> bool \<Rightarrow> string option \<Rightarrow> string + string option" where
  "open_log env asked path =
     (case path of
        None \<Rightarrow> Ok None
      | Some p \<Rightarrow>
          (case (if path_parent p \<noteq> [] then su_create_dir env (path_parent p) else Ok ()) of
             Inl e \<Rightarrow>
               if asked then Err (''cannot create log directory '' @ path_parent p @ '': '' @ e)
               else (case su_open_append env p of Inr _ \<Rightarrow> Ok (Some p) | Inl _ \<Rightarrow> Ok None)
           | Inr _ \<Rightarrow>
               (case su_open_append env p of
                  Inr _ \<Rightarrow> Ok (Some p)
                | Inl e \<Rightarrow> if asked then Err (''cannot open log file '' @ p @ '': '' @ e) else Ok None)))"

record gui_run =
  gr_level :: level_filter
  gr_log_file :: "string option"
  gr_renderer :: renderer
  gr_screenshot :: "screenshot_args option"

datatype start_outcome =
    PrintVersion
  | PrintHelp
  | ExitWith nat string
  | InBackground nat "string option"
  | RunGui gui_run

definition main_run :: "startup_env \<Rightarrow> string list \<Rightarrow> start_outcome" where
  "main_run env args =
     (if list_ex (\<lambda>a. a = ''--version'' \<or> a = ''-V'') args then PrintVersion
      else if list_ex (\<lambda>a. a = ''--help'' \<or> a = ''-h'') args then PrintHelp
      else
        (case parse_screenshot_args (su_var env ''KINDBOARD_SCREENSHOT_DIR'') args of
           Inl e \<Rightarrow> ExitWith 2 e
         | Inr shot \<Rightarrow>
             (case parse_troubleshoot_args args of
                Inl e \<Rightarrow> ExitWith 2 e
              | Inr ts \<Rightarrow>
                  (case detach_screenshot_conflict (ts_detach ts) shot of
                     Inl e \<Rightarrow> ExitWith 2 e
                   | Inr _ \<Rightarrow>
                       (let log_path = resolve_log_file (su_data_dir env) (ts_log_file ts) (ts_detach ts) in
                        case open_log env (ts_log_file ts \<noteq> None) log_path of
                          Inl e \<Rightarrow> ExitWith 2 e
                        | Inr opened \<Rightarrow>
                            if ts_detach ts \<and> su_var env ''KINDBOARD_DETACHED'' = None
                            then (case su_spawn env (build_detach_command (su_current_exe env) args) of
                                    Inl e \<Rightarrow> ExitWith 1 (''cannot start in background: '' @ e)
                                  | Inr pid \<Rightarrow> InBackground pid log_path)
                            else RunGui \<lparr>gr_level = level_for (ts_verbose ts), gr_log_file = opened,
                                         gr_renderer = renderer_for_platform env,
                                         gr_screenshot = shot\<rparr>)))))"

section \<open>Reading back a command line\<close>

text \<open>Arguments the scan for screenshots passes over.\<close>

definition other_arg :: "string \<Rightarrow> bool" where
  "other_arg a \<longleftrightarrow> a \<notin> {''--screenshot'', ''--screenshot-every'', ''--screenshot-dir'', ''--screenshot-delay''}"

lemma scan_screenshot_others: "list_all other_arg pre \<Longrightarrow> scan_screenshot (pre @ args) sc = scan_screenshot args sc"
  by (induction pre) (auto simp: other_arg_def)

lemma scan_screenshot_other_args [simp]: "list_all other_arg args \<Longrightarrow> scan_screenshot args sc = Ok sc"
  using scan_screenshot_others [of args "[]" sc] by simp

lemma dec_not_option: "\<not> starts_with ''--'' (dec n)"
  using dec_digits [of n] by (cases "dec n") (auto simp: is_ascii_digit_def less_eq_char_def)

lemma parse_secs_dec: "n \<le> U64_MAX \<Longrightarrow> parse_secs (dec n) = Ok n"
  by (simp add: parse_secs_def)

definition shot_args :: "screenshot_args \<Rightarrow> string list" where
  "shot_args a =
     (case a of
        ShotOnce p d \<Rightarrow> [''--screenshot'', p, ''--screenshot-delay'', dec d]
      | ShotEvery n d \<Rightarrow> [''--screenshot-every'', dec n, ''--screenshot-dir'', d])"

definition shot_ok :: "screenshot_args \<Rightarrow> bool" where
  "shot_ok a \<longleftrightarrow>
     (case a of
        ShotOnce p d \<Rightarrow> \<not> starts_with ''--'' p \<and> d \<le> U64_MAX
      | ShotEvery n d \<Rightarrow> 0 < n \<and> n \<le> U64_MAX \<and> \<not> starts_with ''--'' d)"

text \<open>The options of a screenshot mode are read back as that mode, wherever they stand among other
  arguments and whatever the environment holds.\<close>

theorem screenshot_args_roundtrip:
  assumes "shot_ok a" and "list_all other_arg pre" and "list_all other_arg post"
  shows "parse_screenshot_args env_dir (pre @ shot_args a @ post) = Ok (Some a)"
  using assms
  by (cases a) (simp_all add: parse_screenshot_args_def scan_screenshot_others shot_args_def shot_ok_def
      resolve_shot_def shot_scan_empty_def parse_secs_dec dec_not_option)

lemma screenshot_args_roundtrip_witness:
  "parse_screenshot_args None ([''-v''] @ shot_args (ShotEvery 30 ''shots'') @ [''--detach''])
     = Ok (Some (ShotEvery 30 ''shots''))"
  by (rule screenshot_args_roundtrip) (simp_all add: shot_ok_def U64_MAX_def other_arg_def)

section \<open>The child in the background\<close>

definition without_detach :: "string list \<Rightarrow> string list" where
  "without_detach = filter (\<lambda>a. a \<noteq> ''--detach'')"

lemma option_value_Ok: "option_value msg rest = Ok v \<longleftrightarrow> (\<exists>ws. rest = v # ws \<and> \<not> starts_with ''--'' v)"
  by (cases rest) auto

lemma value_kept: "\<not> starts_with ''--'' v \<Longrightarrow> without_detach (v # ws) = v # without_detach ws"
  by (auto simp: without_detach_def)

lemma ts_verbose_first:
  "ts\<lparr>ts_detach := False, ts_verbose := v\<rparr> = ts\<lparr>ts_verbose := v, ts_detach := False\<rparr>"
  by (cases ts) simp

lemma scan_troubleshoot_without_detach:
  "scan_troubleshoot args ts = Ok r \<Longrightarrow>
   scan_troubleshoot (without_detach args) (ts\<lparr>ts_detach := False\<rparr>) = Ok (r\<lparr>ts_detach := False\<rparr>)"
proof (induction args ts rule: scan_troubleshoot.induct)
  case (2 a rest ts)
  show ?case
  proof (cases "a = ''--log-file''")
    case True
    then obtain v ws where v: "rest = v # ws" "\<not> starts_with ''--'' v"
      and r: "scan_troubleshoot ws (ts\<lparr>ts_log_file := Some v\<rparr>) = Ok r"
      using 2(5) by (auto simp: is_verbose_flag_def option_value_Ok)
    have o: "option_value ''--log-file requires a path'' rest = Ok v" using v by simp
    have "scan_troubleshoot (without_detach ws) ((ts\<lparr>ts_log_file := Some v\<rparr>)\<lparr>ts_detach := False\<rparr>)
        = Ok (r\<lparr>ts_detach := False\<rparr>)"
      using 2(3) [of v] True o v(1) r by (simp add: is_verbose_flag_def)
    moreover have "without_detach (a # rest) = a # v # without_detach ws"
      using True v(2) by (auto simp: v(1) without_detach_def)
    moreover have "(ts\<lparr>ts_log_file := Some v\<rparr>)\<lparr>ts_detach := False\<rparr>
        = (ts\<lparr>ts_detach := False\<rparr>)\<lparr>ts_log_file := Some v\<rparr>" by simp
    ultimately show ?thesis using True v(2) by (simp only: scan_troubleshoot.simps) (simp add: is_verbose_flag_def)
  next
    case False
    then show ?thesis using 2 by (simp add: without_detach_def ts_verbose_first split: if_splits)
  qed
qed (simp add: without_detach_def)

lemma shot_without_detach: "without_detach (a # args) = (if a = ''--detach'' then without_detach args else a # without_detach args)"
  by (simp add: without_detach_def)

lemma scan_screenshot_without_detach:
  "scan_screenshot args sc = Ok r \<Longrightarrow> scan_screenshot (without_detach args) sc = Ok r"
proof (induction args sc rule: scan_screenshot.induct)
  case (2 a rest sc)
  show ?case
  proof (cases "other_arg a")
    case True
    then show ?thesis using 2 by (auto simp: other_arg_def shot_without_detach)
  next
    case False
    then obtain msg v where "option_value msg rest = Ok v"
      using 2(6) by (auto simp: other_arg_def)
    then obtain ws where rest: "rest = v # ws" and v: "\<not> starts_with ''--'' v" by (auto simp: option_value_Ok)
    have k: "without_detach (a # rest) = a # v # without_detach ws"
      using False v by (auto simp: rest shot_without_detach other_arg_def)
    show ?thesis using 2 False v unfolding k
      by (auto simp: other_arg_def rest split: if_splits)
  qed
qed (simp add: without_detach_def)

definition detached_env :: "startup_env \<Rightarrow> startup_env" where
  "detached_env env = env\<lparr>su_var := (su_var env)(''KINDBOARD_DETACHED'' \<mapsto> ''1'')\<rparr>"

lemma list_ex_without_detach:
  "\<not> P ''--detach'' \<Longrightarrow> list_ex P (without_detach args) = list_ex P args"
  by (induction args) (auto simp: without_detach_def)

lemma open_log_asked: "open_log env True (Some p) = Ok l \<Longrightarrow> l = Some p"
  by (auto simp: open_log_def split: sum.splits if_splits)

lemma detached_env_simps [simp]:
  "su_create_dir (detached_env env) = su_create_dir env"
  "su_open_append (detached_env env) = su_open_append env"
  "su_macos (detached_env env) = su_macos env" "su_data_dir (detached_env env) = su_data_dir env"
  "su_var (detached_env env) v = (if v = ''KINDBOARD_DETACHED'' then Some ''1'' else su_var env v)"
  by (simp_all add: detached_env_def)

lemma open_log_detached [simp]: "open_log (detached_env env) asked p = open_log env asked p"
  by (simp add: open_log_def cong: option.case_cong sum.case_cong if_cong)

lemma renderer_detached [simp]: "renderer_for_platform (detached_env env) = renderer_for_platform env"
  by (simp add: renderer_for_platform_def cong: option.case_cong if_cong)

lemma in_background:
  assumes "main_run env args = InBackground pid lp"
  obtains ts l where "parse_screenshot_args (su_var env ''KINDBOARD_SCREENSHOT_DIR'') args = Ok None"
    "parse_troubleshoot_args args = Ok ts" "ts_detach ts"
    "lp = resolve_log_file (su_data_dir env) (ts_log_file ts) True"
    "open_log env (ts_log_file ts \<noteq> None) lp = Ok l"
    "\<not> list_ex (\<lambda>a. a = ''--version'' \<or> a = ''-V'') args" "\<not> list_ex (\<lambda>a. a = ''--help'' \<or> a = ''-h'') args"
  using assms
proof -
  have v: "\<not> list_ex (\<lambda>a. a = ''--version'' \<or> a = ''-V'') args" "\<not> list_ex (\<lambda>a. a = ''--help'' \<or> a = ''-h'') args"
    using assms by (auto simp only: main_run_def start_outcome.distinct split: if_splits)
  obtain shot where shot: "parse_screenshot_args (su_var env ''KINDBOARD_SCREENSHOT_DIR'') args = Ok shot"
    using assms v by (simp only: main_run_def if_False) (auto split: sum.splits)
  obtain ts where ts: "parse_troubleshoot_args args = Ok ts"
    using assms v shot by (simp only: main_run_def if_False sum.case) (auto split: sum.splits)
  have c: "detach_screenshot_conflict (ts_detach ts) shot = Ok ()"
    using assms v shot ts by (simp only: main_run_def if_False sum.case) (auto split: sum.splits)
  let ?lp = "resolve_log_file (su_data_dir env) (ts_log_file ts) (ts_detach ts)"
  obtain l where l: "open_log env (ts_log_file ts \<noteq> None) ?lp = Ok l"
    using assms v shot ts c by (simp only: main_run_def if_False sum.case Let_def) (auto split: sum.splits)
  have "ts_detach ts \<and> lp = ?lp"
    using assms v shot ts c l
    by (simp only: main_run_def if_False sum.case Let_def) (auto split: sum.splits if_splits)
  then show ?thesis
    using that [of ts l] v shot ts c l by (auto simp: detach_screenshot_conflict_def split: if_splits)
qed

lemma detached_child_outcome:
  assumes "main_run env args = InBackground pid lp"
  shows "\<exists>ts. parse_troubleshoot_args args = Ok ts \<and> lp = resolve_log_file (su_data_dir env) (ts_log_file ts) True
    \<and> main_run (detached_env env) (dt_args (build_detach_command exe args))
      = RunGui \<lparr>gr_level = level_for (ts_verbose ts), gr_log_file = ts_log_file ts,
                gr_renderer = renderer_for_platform env, gr_screenshot = None\<rparr>"
proof -
  obtain ts l where p: "parse_screenshot_args (su_var env ''KINDBOARD_SCREENSHOT_DIR'') args = Ok None"
    "parse_troubleshoot_args args = Ok ts" "lp = resolve_log_file (su_data_dir env) (ts_log_file ts) True"
    "open_log env (ts_log_file ts \<noteq> None) lp = Ok l"
    "\<not> list_ex (\<lambda>a. a = ''--version'' \<or> a = ''-V'') args" "\<not> list_ex (\<lambda>a. a = ''--help'' \<or> a = ''-h'') args"
    by (rule in_background [OF assms]) (erule that; assumption)
  let ?as = "without_detach args"
  have shot: "parse_screenshot_args d ?as = Ok None"
    if "parse_screenshot_args d args = Ok None" for d
    using that scan_screenshot_without_detach [of args shot_scan_empty] by (auto simp: parse_screenshot_args_def)
  have ts: "parse_troubleshoot_args ?as = Ok (ts\<lparr>ts_detach := False\<rparr>)"
    using scan_troubleshoot_without_detach [of args troubleshoot_none] p(2)
    by (simp add: parse_troubleshoot_args_def troubleshoot_none_def)
  have log: "open_log env (ts_log_file ts \<noteq> None) (ts_log_file ts) = Ok (ts_log_file ts)"
    using p(3,4) open_log_asked [of env "the (ts_log_file ts)" l]
    by (cases "ts_log_file ts") (auto simp: resolve_log_file_def open_log_def)
  have var: "su_var (detached_env env) ''KINDBOARD_SCREENSHOT_DIR'' = su_var env ''KINDBOARD_SCREENSHOT_DIR''"
    by simp
  have res: "resolve_log_file d (ts_log_file ts) False = ts_log_file ts" for d
    by (simp add: resolve_log_file_def split: option.split)
  have "main_run (detached_env env) ?as
      = RunGui \<lparr>gr_level = level_for (ts_verbose ts), gr_log_file = ts_log_file ts,
                gr_renderer = renderer_for_platform env, gr_screenshot = None\<rparr>"
    using p(5,6) shot [OF p(1)] ts log
    by (simp add: main_run_def list_ex_without_detach var res detach_screenshot_conflict_def)
  then show ?thesis using p(2,3) by (auto simp: build_detach_command_def without_detach_def)
qed

text \<open>C39: A child started in the background runs the window: it never starts another one, keeps the
  verbosity and the renderer, takes no screenshots, and when a log file was asked for it writes this one, which is
  the one its parent announces.\<close>

theorem detached_child_runs:
  assumes "main_run env args = InBackground pid lp"
  shows "\<exists>ts r. parse_troubleshoot_args args = Ok ts
    \<and> main_run (detached_env env) (dt_args (build_detach_command exe args)) = RunGui r
    \<and> gr_level r = level_for (ts_verbose ts) \<and> gr_renderer r = renderer_for_platform env \<and> gr_screenshot r = None
    \<and> (\<forall>f. ts_log_file ts = Some f \<longrightarrow> gr_log_file r = Some f \<and> lp = Some f)"
  using detached_child_outcome [OF assms, of exe] by (auto simp: resolve_log_file_def)

definition startup_example :: startup_env where
  "startup_example = \<lparr>su_var = Map.empty, su_data_dir = Some ''/home/u/.local/share'', su_macos = False,
     su_current_exe = ''/usr/bin/kindboard'', su_create_dir = (\<lambda>_. Ok ()), su_open_append = (\<lambda>_. Ok ()),
     su_spawn = (\<lambda>_. Ok 7)\<rparr>"

lemma log_file_not_verbose: "\<not> is_verbose_flag ''--log-file''"
  by (simp add: is_verbose_flag_def)

lemma startup_example_background:
  "main_run startup_example [''--detach''] = InBackground 7 (Some ''/home/u/.local/share/kindboard/kindboard.log'')"
  "main_run startup_example [''--detach'', ''--log-file'', ''/tmp/k.log''] = InBackground 7 (Some ''/tmp/k.log'')"
  by (simp_all add: main_run_def startup_example_def parse_screenshot_args_def parse_troubleshoot_args_def
      shot_scan_empty_def resolve_shot_def troubleshoot_none_def detach_screenshot_conflict_def
      resolve_log_file_def open_log_def path_join_def path_is_absolute_def log_file_not_verbose)

lemma detached_child_runs_witness:
  "\<exists>r. main_run (detached_env startup_example)
         (dt_args (build_detach_command ''kindboard'' [''--detach'', ''--log-file'', ''/tmp/k.log''])) = RunGui r
     \<and> gr_log_file r = Some ''/tmp/k.log'' \<and> gr_screenshot r = None"
proof -
  obtain ts r where ts: "parse_troubleshoot_args [''--detach'', ''--log-file'', ''/tmp/k.log''] = Ok ts"
    and r: "main_run (detached_env startup_example)
         (dt_args (build_detach_command ''kindboard'' [''--detach'', ''--log-file'', ''/tmp/k.log''])) = RunGui r"
      "gr_screenshot r = None"
    and log: "\<forall>f. ts_log_file ts = Some f \<longrightarrow> gr_log_file r = Some f \<and> Some ''/tmp/k.log'' = Some f"
    using detached_child_runs [OF startup_example_background(2), of "''kindboard''"] by blast
  have "ts_log_file ts = Some ''/tmp/k.log''"
    using ts by (auto simp: parse_troubleshoot_args_def troubleshoot_none_def log_file_not_verbose)
  then show ?thesis using r log by blast
qed

section \<open>Findings\<close>

text \<open>Without a log file asked for, the child has none, although its parent has opened and announced the default
  one.\<close>

lemma default_log_unused:
  "main_run startup_example [''--detach''] = InBackground 7 (Some ''/home/u/.local/share/kindboard/kindboard.log'')
   \<and> main_run (detached_env startup_example) (dt_args (build_detach_command ''kindboard'' [''--detach'']))
      = RunGui \<lparr>gr_level = LevelWarn, gr_log_file = None, gr_renderer = Wgpu, gr_screenshot = None\<rparr>"
  using detached_child_outcome [OF startup_example_background(1), of "''kindboard''"] startup_example_background(1)
  by (simp add: parse_troubleshoot_args_def troubleshoot_none_def level_for_def
      renderer_for_platform_def startup_example_def platform_renderer_def)

text \<open>The count of a flag is cut to eight bits: 256 of them ask for no verbosity at all.\<close>

theorem verbosity_wraps:
  "is_verbose_flag (CHR ''-'' # replicate 256 (CHR ''v''))
   \<and> level_for (verbose_count (CHR ''-'' # replicate 256 (CHR ''v''))) = LevelWarn"
proof -
  have r: "replicate 256 (CHR ''v'') = CHR ''v'' # replicate 255 (CHR ''v'')"
    by (simp add: replicate_Suc [symmetric])
  have "CHR ''-'' # replicate 256 (CHR ''v'') \<noteq> ''--verbose''" by (simp add: r)
  then show ?thesis
    by (auto simp: is_verbose_flag_def verbose_count_def level_for_def r list_all_iff)
qed

end
