(* ===== verification/Screenshot.thy ===== *)
theory Screenshot
  imports Startup Host
begin

text \<open>
  Screenshots (\<open>views/about.rs\<close>, \<open>app.rs\<close> \<open>drive_screenshot\<close> and \<open>poll_screenshot\<close>): the modes of the command
  line, when a capture is requested, and where an image goes.  Times are milliseconds.  The PNG encoder, the
  stamp of the local time and the directories of the desktop are parameters.
\<close>

section \<open>Images\<close>

type_synonym pixel = "8 word \<times> 8 word \<times> 8 word \<times> 8 word"

record color_image =
  im_width :: nat
  im_height :: nat
  im_pixels :: "pixel list"

definition U32_MAX :: nat where "U32_MAX = 2 ^ 32 - 1"

text \<open>The pixels in the rows of the PNG's buffer; every pixel is put at its place by column and row.\<close>

definition put_pixel :: "nat \<Rightarrow> nat \<Rightarrow> nat \<Rightarrow> pixel \<Rightarrow> pixel list \<Rightarrow> pixel list" where
  "put_pixel width x y px buf = buf[y * width + x := px]"

definition image_buffer :: "color_image \<Rightarrow> pixel list" where
  "image_buffer img =
     fold (\<lambda>(k, px). put_pixel (im_width img) (k mod im_width img) (k div im_width img) px)
       (enumerate 0 (im_pixels img)) (replicate (im_width img * im_height img) (0, 0, 0, 0))"

record shot_env =
  sh_png :: "nat \<Rightarrow> nat \<Rightarrow> pixel list \<Rightarrow> string + string"
  sh_env_dir :: "string option"
  sh_pictures :: "string option"

definition encode_screenshot :: "shot_env \<Rightarrow> color_image \<Rightarrow> string + string" where
  "encode_screenshot env img =
     (if U32_MAX < im_width img then Err ''image too wide''
      else if U32_MAX < im_height img then Err ''image too tall''
      else map_err (\<lambda>e. ''png encoding failed: '' @ e) (sh_png env (im_width img) (im_height img) (image_buffer img)))"

section \<open>Files\<close>

definition screenshot_dir :: "shot_env \<Rightarrow> string option" where
  "screenshot_dir env =
     (case sh_env_dir env of
        Some d \<Rightarrow> Some d
      | None \<Rightarrow> map_option (\<lambda>p. path_join p ''kindboard'') (sh_pictures env))"

text \<open>A call that may fail, with its error as a value.\<close>

definition io_try :: "'a io \<Rightarrow> (io_error + 'a) io" where
  "io_try m w =
     (case m w of
        (Done x, w') \<Rightarrow> (Done (Inr x), w')
      | (Failed e, w') \<Rightarrow> (Done (Inl e), w')
      | (Crashed, w') \<Rightarrow> (Crashed, w'))"

definition screenshot_path :: "string \<Rightarrow> string \<Rightarrow> string option io" where
  "screenshot_path stamp dir =
     io_bind (io_try (create_dir_all dir)) (\<lambda>r.
       io_return (case r of
         Inr _ \<Rightarrow> Some (path_join dir (''kindboard-'' @ stamp @ ''.png''))
       | Inl _ \<Rightarrow> None))"

definition write_image :: "shot_env \<Rightarrow> color_image \<Rightarrow> string \<Rightarrow> (string + string) io" where
  "write_image env img path =
     (case encode_screenshot env img of
        Inl e \<Rightarrow> io_return (Inl e)
      | Inr bytes \<Rightarrow>
          io_bind (io_try (write_file path bytes)) (\<lambda>r.
            io_return (case r of
              Inr _ \<Rightarrow> Ok path
            | Inl e \<Rightarrow> Err (''failed to write '' @ path @ '': '' @ io_text e))))"

definition save_screenshot_to :: "shot_env \<Rightarrow> color_image \<Rightarrow> string \<Rightarrow> (string + string) io" where
  "save_screenshot_to env img path =
     io_bind (io_try (create_dir_all (path_parent path))) (\<lambda>r.
       case r of
         Inl e \<Rightarrow> io_return (Err (''could not create '' @ path_parent path @ '': '' @ io_text e))
       | Inr _ \<Rightarrow> write_image env img path)"

definition save_screenshot :: "shot_env \<Rightarrow> string \<Rightarrow> color_image \<Rightarrow> (string + string) io" where
  "save_screenshot env stamp img =
     (case screenshot_dir env of
        None \<Rightarrow> io_return (Err
          ''no screenshots directory available (set KINDBOARD_SCREENSHOT_DIR or a Pictures dir)'')
      | Some dir \<Rightarrow>
          io_bind (screenshot_path stamp dir) (\<lambda>p.
            case p of
              None \<Rightarrow> io_return (Err (''could not create screenshots directory '' @ dir))
            | Some path \<Rightarrow> write_image env img path))"

section \<open>Modes\<close>

datatype screenshot_mode = ModeOnce string nat | ModeEvery nat string

fun mode_of :: "screenshot_args \<Rightarrow> screenshot_mode" where
  "mode_of (ShotOnce path delay_secs) = ModeOnce path (delay_secs * 1000)"
| "mode_of (ShotEvery secs dir) = ModeEvery (secs * 1000) dir"

record shot_state =
  ss_mode :: "screenshot_mode option"
  ss_pending :: bool
  ss_frames :: "64 word"
  ss_started :: nat
  ss_last :: nat

definition shot_new :: "screenshot_mode option \<Rightarrow> nat \<Rightarrow> shot_state" where
  "shot_new mode now =
     \<lparr>ss_mode = mode, ss_pending = False, ss_frames = 0, ss_started = now, ss_last = now\<rparr>"

text \<open>The state after a frame, whether a capture is requested, and the repaint asked for.\<close>

definition drive_screenshot :: "nat \<Rightarrow> shot_state \<Rightarrow> shot_state \<times> bool \<times> nat option" where
  "drive_screenshot now s0 =
     (let s = s0\<lparr>ss_frames := ss_frames s0 + 1\<rparr> in
      case ss_mode s of
        Some (ModeOnce _ delay) \<Rightarrow>
          (let fire = (2 \<le> ss_frames s \<and> delay \<le> now - ss_started s \<and> \<not> ss_pending s);
               s1 = (if fire then s\<lparr>ss_pending := True\<rparr> else s)
           in (s1, fire, if ss_pending s1 then None else Some 100))
      | Some (ModeEvery interval _) \<Rightarrow>
          (let fire = (interval \<le> now - ss_last s)
           in (if fire then s\<lparr>ss_last := now\<rparr> else s, fire, Some interval))
      | None \<Rightarrow> (s, False, None))"

text \<open>What an image leads to: banners (with the mark of an error) and the close of the window.\<close>

record shot_reply =
  sr_banners :: "(string \<times> bool) list"
  sr_close :: bool

definition saved_banner :: "string + string \<Rightarrow> (string \<times> bool) list" where
  "saved_banner r =
     (case r of
        Inr p \<Rightarrow> [(''screenshot saved to '' @ p, False)]
      | Inl e \<Rightarrow> [(''screenshot failed: '' @ e, True)])"

definition poll_screenshot ::
    "shot_env \<Rightarrow> string \<Rightarrow> color_image option \<Rightarrow> shot_state \<Rightarrow> (shot_state \<times> shot_reply) io" where
  "poll_screenshot env stamp reply s =
     (case reply of
        None \<Rightarrow> io_return (s, \<lparr>sr_banners = [], sr_close = False\<rparr>)
      | Some img \<Rightarrow>
          (case ss_mode s of
             Some (ModeOnce path _) \<Rightarrow>
               io_bind (save_screenshot_to env img path) (\<lambda>r.
                 io_return (s\<lparr>ss_pending := False\<rparr>, \<lparr>sr_banners = saved_banner r, sr_close = True\<rparr>))
           | Some (ModeEvery _ dir) \<Rightarrow>
               io_bind (screenshot_path stamp dir) (\<lambda>p.
                 case p of
                   Some path \<Rightarrow>
                     io_bind (save_screenshot_to env img path) (\<lambda>r.
                       io_return (s, \<lparr>sr_banners = (case r of Inr _ \<Rightarrow> [] | Inl _ \<Rightarrow> saved_banner r),
                                       sr_close = False\<rparr>))
                 | None \<Rightarrow>
                     io_return (s, \<lparr>sr_banners = saved_banner (Err (''could not create '' @ dir)),
                                     sr_close = False\<rparr>))
           | None \<Rightarrow>
               io_bind (save_screenshot env stamp img) (\<lambda>r.
                 io_return (s, \<lparr>sr_banners = saved_banner r, sr_close = False\<rparr>))))"

section \<open>Runs\<close>

text \<open>A frame: its time, its stamp, and the image that has arrived.\<close>

record shot_input =
  si_now :: nat
  si_stamp :: string
  si_reply :: "color_image option"

record shot_output =
  so_now :: nat
  so_request :: bool
  so_reply :: bool
  so_close :: bool

fun shot_run :: "shot_env \<Rightarrow> shot_input list \<Rightarrow> shot_state \<Rightarrow> shot_output list io" where
  "shot_run env [] s = io_return []"
| "shot_run env (i # ins) s =
     (let (s1, request, _) = drive_screenshot (si_now i) s in
      io_bind (poll_screenshot env (si_stamp i) (si_reply i) s1) (\<lambda>(s2, r).
      io_bind (shot_run env ins s2) (\<lambda>outs.
        io_return (\<lparr>so_now = si_now i, so_request = request, so_reply = (si_reply i \<noteq> None),
                     so_close = sr_close r\<rparr> # outs))))"

section \<open>Properties\<close>

text \<open>Every pixel ends at its own place.\<close>

lemma put_pixels:
  assumes "0 < w" "m + length pxs \<le> length buf"
  shows "fold (\<lambda>(k, px). put_pixel w (k mod w) (k div w) px) (enumerate m pxs) buf
       = take m buf @ pxs @ drop (m + length pxs) buf"
  using assms(2)
proof (induction pxs arbitrary: m buf)
  case (Cons px pxs)
  have p: "put_pixel w (m mod w) (m div w) px buf = buf[m := px]"
    by (simp add: put_pixel_def)
  have "take (Suc m) (buf[m := px]) = take m buf @ [px]"
    using Cons.prems by (simp add: take_Suc_conv_app_nth)
  then show ?case using Cons.IH [of "Suc m" "buf[m := px]"] Cons.prems by (simp add: p)
qed simp

lemma image_buffer_pixels:
  assumes "length (im_pixels img) = im_width img * im_height img"
  shows "image_buffer img = im_pixels img"
proof (cases "im_width img")
  case 0
  then show ?thesis using assms by (simp add: image_buffer_def)
next
  case (Suc k)
  then show ?thesis
    using put_pixels [of "im_width img" 0 "im_pixels img" "replicate (im_width img * im_height img) (0, 0, 0, 0)"] assms
    by (simp add: image_buffer_def)
qed

lemma poll_Done:
  assumes "poll_screenshot env stamp reply s w = (Done (s', r), w')"
  shows "ss_mode s' = ss_mode s \<and> ss_frames s' = ss_frames s \<and> ss_started s' = ss_started s \<and> ss_last s' = ss_last s
    \<and> (case ss_mode s of
          Some (ModeOnce _ _) \<Rightarrow> ss_pending s' = (ss_pending s \<and> reply = None) \<and> sr_close r = (reply \<noteq> None)
        | _ \<Rightarrow> \<not> sr_close r)"
  using assms
  by (auto simp: poll_screenshot_def io_bind_def io_return_def
      split: option.splits screenshot_mode.splits prod.splits outcome.splits)

text \<open>No capture is requested while one is under way.\<close>

fun alternates :: "bool \<Rightarrow> shot_output list \<Rightarrow> bool" where
  "alternates pending [] = True"
| "alternates pending (x # xs) =
     (\<not> (pending \<and> so_request x) \<and> alternates ((pending \<or> so_request x) \<and> \<not> so_reply x) xs)"

text \<open>Captures are apart by the interval.\<close>

fun spaced :: "nat \<Rightarrow> nat \<Rightarrow> shot_output list \<Rightarrow> bool" where
  "spaced interval t [] = True"
| "spaced interval t (x # xs) =
     (if so_request x then interval \<le> so_now x - t \<and> spaced interval (so_now x) xs
      else spaced interval t xs)"

lemma run_Done:
  assumes "shot_run env (i # ins) s w = (Done outs, w')"
  obtains s1 request rep s2 r w1 rest where
    "drive_screenshot (si_now i) s = (s1, request, rep)"
    "poll_screenshot env (si_stamp i) (si_reply i) s1 w = (Done (s2, r), w1)"
    "shot_run env ins s2 w1 = (Done rest, w')"
    "outs = \<lparr>so_now = si_now i, so_request = request, so_reply = (si_reply i \<noteq> None), so_close = sr_close r\<rparr> # rest"
  using assms
  by (auto simp: io_bind_def io_return_def Let_def split: prod.splits outcome.splits)

lemma drive_once:
  assumes "drive_screenshot now s = (s1, request, rep)" "ss_mode s = Some (ModeOnce path delay)"
  shows "ss_mode s1 = ss_mode s \<and> ss_started s1 = ss_started s \<and> ss_frames s1 = ss_frames s + 1
    \<and> ss_pending s1 = (ss_pending s \<or> request)
    \<and> (request \<longrightarrow> \<not> ss_pending s \<and> delay \<le> now - ss_started s \<and> 2 \<le> ss_frames s + 1)"
  using assms by (auto simp: drive_screenshot_def Let_def split: if_splits)

lemma once_run:
  assumes "shot_run env ins s w = (Done outs, w')" "ss_mode s = Some (ModeOnce path delay)"
  shows "alternates (ss_pending s) outs
    \<and> list_all (\<lambda>x. so_close x = so_reply x \<and> (so_request x \<longrightarrow> delay \<le> so_now x - ss_started s)) outs"
  using assms
proof (induction ins arbitrary: s w outs)
  case (Cons i ins)
  obtain s1 request rep s2 r w1 rest where h:
    "drive_screenshot (si_now i) s = (s1, request, rep)"
    "poll_screenshot env (si_stamp i) (si_reply i) s1 w = (Done (s2, r), w1)"
    "shot_run env ins s2 w1 = (Done rest, w')"
    "outs = \<lparr>so_now = si_now i, so_request = request, so_reply = (si_reply i \<noteq> None), so_close = sr_close r\<rparr> # rest"
    using run_Done [OF Cons.prems(1)] .
  note d = drive_once [OF h(1) Cons.prems(2)] and p = poll_Done [OF h(2)]
  have m: "ss_mode s2 = Some (ModeOnce path delay)" "ss_started s2 = ss_started s"
    "ss_pending s2 = ((ss_pending s \<or> request) \<and> si_reply i = None)" "sr_close r = (si_reply i \<noteq> None)"
    using d p Cons.prems(2) by auto
  show ?case using Cons.IH [OF h(3) m(1)] m d by (auto simp: h(4))
qed (simp add: io_return_def)

text \<open>In the mode for one capture, none is requested in the first frame, before the delay or while one is under
  way, and the window closes exactly with an image.\<close>

theorem once_captures:
  assumes "shot_run env ins (shot_new (Some (ModeOnce path delay)) t0) w = (Done outs, w')"
  shows "alternates False outs \<and> (\<forall>x xs. outs = x # xs \<longrightarrow> \<not> so_request x)
    \<and> list_all (\<lambda>x. so_close x = so_reply x \<and> (so_request x \<longrightarrow> delay \<le> so_now x - t0)) outs"
proof -
  let ?s = "shot_new (Some (ModeOnce path delay)) t0"
  have "\<not> so_request x" if "outs = x # xs" for x xs
  proof (cases ins)
    case (Cons i rest)
    obtain s1 request rep s2 r w1 ys where h:
      "drive_screenshot (si_now i) ?s = (s1, request, rep)"
      "poll_screenshot env (si_stamp i) (si_reply i) s1 w = (Done (s2, r), w1)"
      "shot_run env rest s2 w1 = (Done ys, w')"
      "outs = \<lparr>so_now = si_now i, so_request = request, so_reply = (si_reply i \<noteq> None), so_close = sr_close r\<rparr> # ys"
      using run_Done [OF assms [unfolded Cons]] .
    then show ?thesis using drive_once [OF h(1)] that h(4) by (auto simp: shot_new_def word_le_nat_alt)
  qed (use assms that in \<open>simp add: io_return_def\<close>)
  then show ?thesis using once_run [OF assms] by (simp add: shot_new_def)
qed

lemma drive_every:
  assumes "drive_screenshot now s = (s1, request, rep)" "ss_mode s = Some (ModeEvery interval dir)"
  shows "ss_mode s1 = ss_mode s \<and> ss_last s1 = (if request then now else ss_last s)
    \<and> (request \<longrightarrow> interval \<le> now - ss_last s)"
  using assms by (auto simp: drive_screenshot_def Let_def split: if_splits)

theorem every_captures_spaced:
  assumes "shot_run env ins s w = (Done outs, w')" and "ss_mode s = Some (ModeEvery interval dir)"
  shows "spaced interval (ss_last s) outs \<and> list_all (\<lambda>x. \<not> so_close x) outs"
  using assms
proof (induction ins arbitrary: s w outs)
  case (Cons i ins)
  obtain s1 request rep s2 r w1 rest where h:
    "drive_screenshot (si_now i) s = (s1, request, rep)"
    "poll_screenshot env (si_stamp i) (si_reply i) s1 w = (Done (s2, r), w1)"
    "shot_run env ins s2 w1 = (Done rest, w')"
    "outs = \<lparr>so_now = si_now i, so_request = request, so_reply = (si_reply i \<noteq> None), so_close = sr_close r\<rparr> # rest"
    using run_Done [OF Cons.prems(1)] .
  note d = drive_every [OF h(1) Cons.prems(2)] and p = poll_Done [OF h(2)]
  have m: "ss_mode s2 = Some (ModeEvery interval dir)" "ss_last s2 = (if request then si_now i else ss_last s)"
    "\<not> sr_close r"
    using d p Cons.prems(2) by auto
  show ?case using Cons.IH [OF h(3) m(1)] m d by (cases request) (simp_all add: h(4))
qed (simp add: io_return_def)

lemma once_captures_witness:
  "\<exists>outs w'. shot_run \<lparr>sh_png = \<lambda>_ _ _. Ok ''png'', sh_env_dir = None, sh_pictures = None\<rparr>
       [\<lparr>si_now = 0, si_stamp = [], si_reply = None\<rparr>, \<lparr>si_now = 9, si_stamp = [], si_reply = None\<rparr>]
       (shot_new (Some (ModeOnce ''a.png'' 5)) 0) fs_example = (Done outs, w')
     \<and> map so_request outs = [False, True] \<and> alternates False outs"
proof -
  let ?outs = "[\<lparr>so_now = 0, so_request = False, so_reply = False, so_close = False\<rparr>,
     \<lparr>so_now = 9, so_request = True, so_reply = False, so_close = False\<rparr>]"
  have r: "shot_run \<lparr>sh_png = \<lambda>_ _ _. Ok ''png'', sh_env_dir = None, sh_pictures = None\<rparr>
       [\<lparr>si_now = 0, si_stamp = [], si_reply = None\<rparr>, \<lparr>si_now = 9, si_stamp = [], si_reply = None\<rparr>]
       (shot_new (Some (ModeOnce ''a.png'' 5)) 0) fs_example = (Done ?outs, fs_example)"
    by (simp add: shot_new_def drive_screenshot_def poll_screenshot_def io_bind_def io_return_def Let_def)
  from once_captures [OF r] have "alternates False ?outs" by simp
  then show ?thesis using r by (intro exI [of _ ?outs] exI [of _ fs_example]) simp
qed

end
