(* ===== verification/ThemeVisuals.thy ===== *)
theory ThemeVisuals
  imports ThemeModel
begin

text \<open>
  How a theme reaches the screen: the visuals and spacing that \<open>theme.rs\<close> writes to both styles of egui
  (\<open>apply_theme\<close>, \<open>set_theme\<close>), the text colour of filled buttons and the pills of \<open>util.rs\<close>, and the icons of
  \<open>icons.rs\<close> with their textures.  The decoder of PNG bytes and the luminance are parameters.
\<close>

section \<open>Visuals\<close>

type_synonym stroke = "nat \<times> color"

text \<open>The fields of egui's visuals that are set; the rest stays as in its dark or light defaults.\<close>

record visuals =
  vi_base_dark :: bool
  vi_panel_fill :: color
  vi_window_fill :: color
  vi_window_stroke :: stroke
  vi_selection_fill :: color
  vi_selection_stroke :: stroke
  vi_hyperlink :: color
  vi_noninteractive_stroke :: stroke
  vi_inactive_fill :: color
  vi_inactive_weak :: color
  vi_inactive_stroke :: stroke
  vi_hovered_weak :: color
  vi_hovered_fill :: color
  vi_hovered_stroke :: stroke
  vi_active_weak :: color
  vi_active_fill :: color
  vi_active_stroke :: stroke
  vi_hovered_text :: stroke
  vi_active_text :: stroke
  vi_extreme :: color

definition visuals_of :: "theme_id \<Rightarrow> visuals" where
  "visuals_of t =
     (let p = palette_of t in
      \<lparr>vi_base_dark = theme_is_dark t,
       vi_panel_fill = pl_bg p, vi_window_fill = pl_bg_raised p, vi_window_stroke = (1, pl_stroke p),
       vi_selection_fill = pl_accent p, vi_selection_stroke = (1, pl_on_accent p),
       vi_hyperlink = pl_accent p, vi_noninteractive_stroke = (1, pl_stroke p),
       vi_inactive_fill = pl_bg_raised p, vi_inactive_weak = pl_bg_raised p, vi_inactive_stroke = (1, pl_stroke p),
       vi_hovered_weak = pl_hover_fill p, vi_hovered_fill = pl_hover_fill p, vi_hovered_stroke = (1, pl_accent p),
       vi_active_weak = pl_accent_hover p, vi_active_fill = pl_accent_hover p, vi_active_stroke = (1, pl_accent p),
       vi_hovered_text = (1, pl_hover_text p), vi_active_text = (1, pl_on_accent p),
       vi_extreme = pl_extreme_bg p\<rparr>)"

record ui_style =
  us_visuals :: visuals
  us_item_spacing :: "nat \<times> nat"
  us_button_padding :: "nat \<times> nat"
  us_interact_height :: nat
  us_window_margin :: nat
  us_solid_scroll :: bool

text \<open>The context holds a style for a dark and one for a light desktop, and which of them is in use.\<close>

record ui_context =
  uc_dark :: ui_style
  uc_light :: ui_style
  uc_system_dark :: bool

definition global_style :: "ui_context \<Rightarrow> ui_style" where
  "global_style c = (if uc_system_dark c then uc_dark c else uc_light c)"

definition apply_theme :: "theme_id \<Rightarrow> ui_context \<Rightarrow> ui_context" where
  "apply_theme t c =
     (let st = (global_style c)\<lparr>us_visuals := visuals_of t, us_item_spacing := (8, 8), us_button_padding := (10, 5),
                 us_interact_height := 26, us_window_margin := 14, us_solid_scroll := True\<rparr>
      in c\<lparr>uc_dark := st, uc_light := st\<rparr>)"

definition apply_current :: "8 word \<Rightarrow> ui_context \<Rightarrow> ui_context" where
  "apply_current i c = apply_theme (current_theme i) c"

definition set_theme :: "theme_id \<Rightarrow> 8 word \<times> ui_context \<Rightarrow> 8 word \<times> ui_context" where
  "set_theme t x = (case x of (i, c) \<Rightarrow> (set_index t i, apply_theme t c))"

definition strong_color :: "8 word \<Rightarrow> color" where
  "strong_color i = pl_strong_text (pal i)"

section \<open>Filled buttons and pills\<close>

fun color_rgb :: "color \<Rightarrow> 8 word \<times> 8 word \<times> 8 word" where
  "color_rgb (Rgb r g b) = (r, g, b)"
| "color_rgb (BlackAlpha a) = (0, 0, 0)"
| "color_rgb (Unmultiplied r g b a) = (r, g, b)"

text \<open>The luminance of an opaque fill, in ten thousandths.  The sum in \<open>f32\<close> differs from it by less than one unit, so
  the comparison is that of the code except for a sum of exactly \<open>150\<close>.\<close>

definition fill_luminance :: "8 word \<times> 8 word \<times> 8 word \<Rightarrow> nat" where
  "fill_luminance c = (case c of (r, g, b) \<Rightarrow> 2126 * unat r + 7152 * unat g + 722 * unat b)"

definition on_fill :: "8 word \<times> 8 word \<times> 8 word \<Rightarrow> color" where
  "on_fill c = (if 1500000 < fill_luminance c then Rgb 0 0 0 else Rgb 255 255 255)"

record pill_paint =
  pp_text :: string
  pp_fill :: color
  pp_stroke :: stroke
  pp_text_color :: color

definition pill_paint_of :: "palette \<Rightarrow> string \<Rightarrow> color \<Rightarrow> pill_paint" where
  "pill_paint_of p t c = \<lparr>pp_text = t, pp_fill = dim_rgb p (color_rgb c), pp_stroke = (1, c), pp_text_color = c\<rparr>"

section \<open>Icons\<close>

text \<open>The embedded files, by name.\<close>

fun tool_logo_png :: "tool_id \<Rightarrow> string option" where
  "tool_logo_png ToolDocker = Some ''docker-64.png''"
| "tool_logo_png ToolKind = Some ''kind-64.png''"
| "tool_logo_png ToolKubectl = Some ''kubernetes-64.png''"
| "tool_logo_png ToolHelm = Some ''helm-64.png''"
| "tool_logo_png ToolCilium = Some ''cilium-64.png''"
| "tool_logo_png ToolK9s = Some ''k9s-64.png''"
| "tool_logo_png ToolKubectx = None"
| "tool_logo_png ToolKustomize = Some ''kustomize-64.png''"

record rgba_image =
  ri_width :: nat
  ri_height :: nat
  ri_bytes :: "8 word list"

record icon_env =
  ie_decode :: "string \<Rightarrow> string + rgba_image"
  ie_brighter :: "nat \<Rightarrow> 8 word \<Rightarrow> 8 word \<Rightarrow> 8 word \<Rightarrow> bool"

text \<open>A texture: the name it is loaded under and its pixels.\<close>

definition load_texture ::
    "icon_env \<Rightarrow> string \<Rightarrow> string \<Rightarrow> light_recolor option \<Rightarrow> (string \<times> rgba_image) option" where
  "load_texture env name png rc =
     (case ie_decode env png of
        Inl _ \<Rightarrow> None
      | Inr img \<Rightarrow>
          Some (name, img\<lparr>ri_bytes := (case rc of
             None \<Rightarrow> ri_bytes img
           | Some c \<Rightarrow> fst (recolor_light_pixels (ie_brighter env) c (ri_bytes img)))\<rparr>))"

text \<open>What is painted: a texture with its tint, or a text in a box.\<close>

datatype icon_paint =
    IconTexture "string \<times> rgba_image" color
  | IconText string color "stroke option" color

definition logo_image :: "icon_env \<Rightarrow> 8 word \<Rightarrow> tool_id \<Rightarrow> icon_paint option" where
  "logo_image env i tool =
     (case tool_logo_png tool of
        None \<Rightarrow> None
      | Some png \<Rightarrow>
          (let rc = (if current_theme i = ThemeLight then tool_logo_light_recolor tool else None);
               name = ''tool-logo-'' @ tool_name tool @ ''-'' @ theme_id_str (current_theme i)
           in map_option (\<lambda>t. IconTexture t (pl_logo_tint (pal i))) (load_texture env name png rc)))"

definition tool_icon :: "icon_env \<Rightarrow> 8 word \<Rightarrow> tool_id \<Rightarrow> icon_paint" where
  "tool_icon env i tool =
     (case logo_image env i tool of
        Some p \<Rightarrow> p
      | None \<Rightarrow>
          (let c = tool_color tool in
           case color_rgb c of (r, g, b) \<Rightarrow>
             IconText (tool_monogram tool) (Unmultiplied r g b 46) (Some (1, c)) c))"

definition brand_mark :: "icon_env \<Rightarrow> 8 word \<Rightarrow> icon_paint" where
  "brand_mark env i =
     (let rc = (if current_theme i = ThemeLight
                then Some \<lparr>lr_max_light_lum = KIND_MAX_LIGHT_LUM, lr_target = LIGHT_RECOLOR_TARGET\<rparr> else None);
          name = ''brand-mark-'' @ theme_id_str (current_theme i)
      in case load_texture env name ''kindboard-64.png'' rc of
           Some t \<Rightarrow> IconTexture t (pl_logo_tint (pal i))
         | None \<Rightarrow> IconText ''kb'' (pl_accent (pal i)) None (Rgb 0x0e 0x16 0x1e))"

definition decode_icon :: "icon_env \<Rightarrow> string \<Rightarrow> string + rgba_image" where
  "decode_icon env png = ie_decode env png"

definition load_window_icon :: "icon_env \<Rightarrow> rgba_image option" where
  "load_window_icon env =
     (case decode_icon env ''orp-mark-64.png'' of Inr img \<Rightarrow> Some img | Inl _ \<Rightarrow> None)"

section \<open>Properties\<close>

text \<open>After a change of theme the desktop's own preference no longer matters: both styles are the same one, in the
  colours of the theme, and the index agrees with them.\<close>

theorem set_theme_everywhere:
  "set_theme t (i, c) = (i', c') \<Longrightarrow>
     current_theme i' = t \<and> uc_dark c' = uc_light c'
     \<and> us_visuals (global_style (c'\<lparr>uc_system_dark := d\<rparr>)) = visuals_of t
     \<and> vi_panel_fill (us_visuals (global_style c')) = pl_bg (pal i')"
  by (auto simp: set_theme_def apply_theme_def set_index_def global_style_def visuals_of_def Let_def palette_of_def pal_def)

text \<open>Pressed widgets and selections pair the accent fills with the colour made for them.\<close>

lemma text_on_accent:
  "snd (vi_selection_stroke (visuals_of t)) = pl_on_accent (palette_of t)
   \<and> snd (vi_active_text (visuals_of t)) = pl_on_accent (palette_of t)"
  by (simp add: visuals_of_def Let_def)

text \<open>The two answers for a filled button; the fills in use.\<close>

lemma on_fill_black_or_white: "on_fill c = Rgb 0 0 0 \<or> on_fill c = Rgb 255 255 255"
  by (simp add: on_fill_def)

lemma on_fill_bright: "on_fill (255, 255, 255) = Rgb 0 0 0" "on_fill (0, 0, 0) = Rgb 255 255 255"
  by (simp_all add: on_fill_def fill_luminance_def)

text \<open>A texture has the size of its file, four bytes for a pixel, and the alpha of every pixel is kept.\<close>

lemma load_texture_shape:
  assumes "load_texture env name png rc = Some (n, img)" "ie_decode env png = Inr orig"
  shows "n = name \<and> ri_width img = ri_width orig \<and> length (ri_bytes img) = length (ri_bytes orig)
    \<and> (\<forall>i. i mod 4 = 3 \<longrightarrow> i < length (ri_bytes orig) \<longrightarrow> ri_bytes img ! i = ri_bytes orig ! i)"
  using assms recolor_shape by (auto simp: load_texture_def split: option.splits)

text \<open>Only the light theme recolours, and two themes never share the name of a texture.\<close>

lemma dark_keeps_logo:
  assumes "current_theme i \<noteq> ThemeLight" "logo_image env i tool = Some (IconTexture (n, img) tint)"
  shows "\<exists>png. tool_logo_png tool = Some png \<and> ie_decode env png = Inr img"
  using assms
  by (auto simp: logo_image_def load_texture_def Let_def split: option.splits sum.splits if_splits)

lemma theme_id_str_inj: "theme_id_str t = theme_id_str u \<Longrightarrow> t = u"
  by (metis option.inject theme_from_id_str)

lemma texture_names_differ:
  assumes "logo_image env i tool = Some (IconTexture (n, img) tint)"
    and "logo_image env j tool = Some (IconTexture (n, img') tint')"
  shows "current_theme i = current_theme j"
  using assms theme_id_str_inj
  by (auto simp: logo_image_def load_texture_def Let_def split: option.splits sum.splits)

text \<open>A tool without a logo, or one whose file does not decode, always has its monogram.\<close>

lemma tool_icon_monogram:
  assumes "\<And>png. tool_logo_png tool = Some png \<Longrightarrow> \<exists>e. ie_decode env png = Inl e"
  shows "\<exists>fill st c. tool_icon env i tool = IconText (tool_monogram tool) fill st c"
proof -
  have "logo_image env i tool = None"
    using assms by (auto simp: logo_image_def load_texture_def Let_def split: option.splits sum.splits)
  then show ?thesis by (auto simp: tool_icon_def Let_def split: prod.split)
qed

end
