(* ===== verification/WindowsTools.thy ===== *)
theory WindowsTools
  imports SearchPath KindCtl
begin

text \<open>
  What the core does on Windows instead of signals: the command that ends the tree of a process (\<open>exec.rs\<close>,
  \<open>terminate_tree\<close>).  The lookup of a command by its extensions is in theory \<open>SearchPath\<close>.
\<close>

definition terminate_tree :: "nat option \<Rightarrow> bool \<Rightarrow> string list option" where
  "terminate_tree pid force =
     map_option (\<lambda>p. [''taskkill'', ''/PID'', dec p, ''/T''] @ (if force then [''/F''] else [])) pid"

lemma terminate_tree_force:
  "terminate_tree (Some p) True = map_option (\<lambda>a. a @ [''/F'']) (terminate_tree (Some p) False)"
  by (simp add: terminate_tree_def)

end
