(* ===== verification/Spec2Isabelle.thy ===== *)
theory Spec2Isabelle
  imports StateStore RunProps DepsProps ClientModel TopologyModel SystemClose AppFrame ClusterView TabTrace
    DiagramPaint Screenshot ThemeVisuals WindowsTools
begin

text \<open>
  A verification development of kindboard, a desktop manager of local Kubernetes clusters made with kind.

  \<^bold>\<open>The program.\<close> The binary (\<open>main.rs\<close>) reads its command line, starts a worker thread and opens one window.
  The window (\<open>app.rs\<close>, \<open>views/\<close>) never does anything slow: it sends commands through a bounded queue
  (\<open>bus.rs\<close>) to the worker (\<open>worker.rs\<close>), which runs every command as a task of its own and answers with events
  through a second bounded queue.  The tasks use the core crate: the specification of a cluster (\<open>spec/\<close>), plans
  and their runs (\<open>provision/\<close>), external programs (\<open>exec.rs\<close>, \<open>kindctl.rs\<close>), the kubeconfig (\<open>kubeconfig.rs\<close>), the
  records and settings on disk (\<open>state/\<close>, \<open>fsutil.rs\<close>), the Kubernetes API (\<open>k8s/\<close>) and the detection and
  installation of tools (\<open>deps/\<close>).  The theories follow this order; each record, datatype and function is named
  after its Rust counterpart and keeps its branches, and the manifest of the development gives the lines of every one.

  \<^bold>\<open>Shared vocabulary.\<close> Theory \<open>Prelude\<close> has Rust's string functions (strings are byte lists) and integer
  parsing, \<open>ErrorModel\<close> (\<open>error.rs\<close>) the error types with their texts; a fallible function returns a sum with the
  error on the left.  \<open>StoreLaws\<close> and \<open>LogRing\<close> hold the interfaces: a store of named entries (\<open>keyed_store\<close>,
  \<open>listed_store\<close>, interpreted on the three lists of the kubeconfig) and a log that keeps its last lines
  (\<open>bounded_log\<close>, interpreted on the log ring, the output of the operation panel and the install log).

  \<^bold>\<open>Files and processes.\<close> \<open>FsModel\<close> (\<open>fsutil.rs\<close>): a file system whose every primitive can fail, write short or be
  the last thing the process does, as a script of faults decides; the atomic write is correct under every script.
  \<open>ExecModel\<close> (\<open>exec.rs\<close>): the pumps of stdout and stderr as functions of the chunks read, the redaction of secrets,
  the wait with deadline, token and kill ladder as a function of a script of observations, and the interleaving of
  watcher, waiter and child as a step relation.  \<open>Host\<close>: the world of a long operation, with a file system, a clock,
  processes that answer from scripts and a cancellation token read at ticks; a theorem over all environments covers
  every failure and every moment of a cancellation.  \<open>Totality\<close> shows which computations return when their children
  end.  \<open>KindCtl\<close> (\<open>kindctl.rs\<close>) is the table of all command lines with their parsers, \<open>Curl\<close> (\<open>curl.rs\<close>) the probe of
  curl, \<open>SearchPath\<close> the lookup of programs on every platform (\<open>deps/mod.rs\<close>), \<open>WindowsTools\<close> the end of a process
  tree on Windows.

  \<^bold>\<open>Clusters.\<close> \<open>Cidr\<close> and \<open>ClusterSpecModel\<close> (\<open>spec/\<close>): CIDR blocks on 32-bit words, validation as an equivalence
  with the contract of \<open>docs/contracts.md\<close> and the places where the code differs from it, the kind configuration.  \<open>Manifests\<close>, \<open>ProvisionPlan\<close>, \<open>TopoSort\<close>, \<open>PlanChecks\<close>
  (\<open>provision/\<close>): the plans of every network and ingress, the topological sort (permutation, dependencies first,
  errors, termination), what a plan touches and trusts.  \<open>ProvisionRun\<close>, \<open>RunProps\<close>: the run of a plan, the protocol
  of its events, downloads and their digests, the merge into the kubeconfig.  \<open>Kubeconfig\<close> (\<open>kubeconfig.rs\<close>): load,
  merge, ensure, remove, save.  \<open>StateStore\<close> (\<open>state/mod.rs\<close>): settings, records, reconciliation of records with what
  kind lists.

  \<^bold>\<open>Kubernetes.\<close> \<open>TopologyModel\<close> (\<open>k8s/model.rs\<close>): the snapshot and its layered layout with \<open>f32\<close> positions rounded as
  IEEE 754 does; \<open>ClientModel\<close> (\<open>k8s/client.rs\<close>): the poll and the mapping of every kind of object; \<open>LogRing\<close>
  (\<open>k8s/logs.rs\<close>): ring, sources and the stream.

  \<^bold>\<open>Tools.\<close> \<open>DepsRegistry\<close>, \<open>DepsVersion\<close>, \<open>DepsPlan\<close>, \<open>DepsInstall\<close>, \<open>DepsProps\<close> (\<open>deps/\<close>, with \<open>JsonModel\<close> for what is
  read of JSON output): the table of tools, version banners, install plans on every platform, detection and install
  runs with the digest gate in front of every step that uses a download.

  \<^bold>\<open>Worker.\<close> \<open>Bus\<close> (\<open>bus.rs\<close>): the queues and the two ways to send.  \<open>WorkerOps\<close>, \<open>WorkerProps\<close>: every task of the
  worker, with the theorems that each request is answered once and last, that a destroy changes files only when the
  cluster is gone, that a reported success is recorded and what a followed log delivers, whatever the order of its two tasks' acts.  \<open>WorkerLoop\<close>: the loop as a
  step relation over commands, slots, tokens and tasks.  \<open>Terminal\<close>: the terminal command lines, read back by models
  of the three languages they quote for.  \<open>SampleRun\<close> holds the concrete worlds of the witnesses.

  \<^bold>\<open>User interface.\<close> The views are drawn anew in every frame, so a view is a function from its state and what the user
  did to its state, its texts and its commands.  \<open>OpPanel\<close>, \<open>DepsPanel\<close>, \<open>Overview\<close>, \<open>Wizard\<close> with \<open>WizardForm\<close>,
  \<open>ClusterTab\<close> with \<open>ClusterView\<close>, \<open>DiagramModel\<close> with \<open>DiagramView\<close>, \<open>DiagramPaint\<close> and \<open>DetailPanel\<close> are the files of
  \<open>views/\<close>; \<open>App\<close> the application's state, routing of events and reactions, \<open>AppFrame\<close> a whole frame in the order of
  the code, \<open>AppProps\<close> and \<open>AppSafety\<close> its invariant and the only ways to a command that destroys a cluster: its name
  typed, or a click on the card of a missing one, and, as a finding, a record that names another cluster than its tab.
  \<open>TabTrace\<close> shows of every sequence of acts on a tab that what it shows answers what it asked for last.
  \<open>Screenshot\<close>, \<open>ThemeIds\<close>, \<open>ThemeModel\<close>, \<open>ThemeVisuals\<close> (\<open>theme.rs\<close>, \<open>icons.rs\<close>, \<open>util.rs\<close>), \<open>Texts\<close> and
  \<open>Startup\<close> (\<open>main.rs\<close>) complete the program.

  \<^bold>\<open>The whole program.\<close> \<open>System\<close> composes application, command queue, the thread that bridges it to the loop, loop,
  tasks and event queue into one step relation (\<open>sys_step\<close>), in which inputs, deliveries and sends interleave in every
  order; what a task sends is given by a run of its command in \<open>WorkerOps\<close>, in some world and with some choices.
  \<open>AppQueue\<close> has what the application's reactions do to the queue and the panels.  \<open>SystemProps\<close> shows of every run
  that a destroy or recreate task was asked for by an input of its history, that an operation shown as running has its
  command or its outcome on the way, and that from every state the program can go on until the operation has ended,
  whichever runs the commands have.  The last two except the operations in \<open>sy_lost\<close>, a record kept for the statements
  only: those whose command or outcome met a full queue, which the program drops.  These runs begin with a worker that
  has its state directory and end when the window closes; \<open>SystemClose\<close> goes on from there: the blocking send of the
  shutdown, the commands still queued and the end of the loop, which is reached whatever the order.

  \<^bold>\<open>Bounds and fuel.\<close> Numbers that can wrap are words of their width (addresses, ports, generations, counters);
  times are numbers of milliseconds or nanoseconds.  The sort is a partial function into option: that it returns
  for every plan with distinct ids is proved, and so is that it need not for others.  The loop of auto-refresh is
  the only one with fuel: more fuel than the ticks left until its token has fired is proved enough.  Tasks that can
  wait for ever have the result \<open>None\<close>; \<open>WorkerProps.requests_answered\<close> proves they return when their children
  end.  Layout positions keep the rounding of \<open>f32\<close>; the coordinates of \<open>DiagramView\<close> are exact rationals.

  \<^bold>\<open>Parameters.\<close> What is not under \<open>src/\<close> is an argument: the codecs of YAML and JSON, SHA-256 of a file and its
  download, the answers of the API server and of processes, the directories and the environment of the desktop, the
  PNG codec, the widths of texts, and Rust's debug printing of strings.  Hypotheses on them (a codec reads back what
  it printed, a child ends) stand in the theorems that need them, each with a witness.

  \<^bold>\<open>Not modelled.\<close> The toolkit's painting, fonts and layout; the logger's formatting and the help text; the
  scheduling of the tokio runtime beyond the interleavings above; repaint times; tests, packaging and scripts.  What
  the modelling showed is listed in the manifest, with the theorems that prove it.
\<close>

end
